(* ===== verification/Prelude.thy ===== *)
theory Prelude
  imports Main "HOL-Library.Code_Target_Nat"
begin

text \<open>
  Shared vocabulary of the development.

  Rust strings are lists of Unicode scalar values (\<open>ustring\<close>); \<open>str_len\<close> is the byte
  length that \<open>String::len\<close> returns, \<open>length\<close> the number of characters. Fallible code
  returns a sum, \<open>Inl\<close> the error and \<open>Inr\<close> the value, and \<open>bindR\<close> is the \<open>?\<close>
  operator. \<open>i64\<close> values are integers; the saturating and checked operations the code uses are
  written out. SQL tables are lists of rows in insertion order; \<open>find_row\<close>,
  \<open>insert_nothing\<close> (\<open>ON CONFLICT DO NOTHING\<close>) and \<open>upsert_row\<close>
  (\<open>ON CONFLICT DO UPDATE\<close>) are the operations on them. Timestamps are microseconds.
\<close>

named_theorems std_defs \<open>definitions of the modelled standard library functions\<close>
named_theorems result_iff \<open>inversion of a successful or failed result\<close>

section \<open>Strings\<close>

type_synonym ustring = "nat list"

definition str :: "string \<Rightarrow> ustring" where
  "str s = map of_char s"

lemma str_inject [simp]: "str a = str b \<longleftrightarrow> a = b"
proof -
  have "inj (of_char :: char \<Rightarrow> nat)"
    by (rule injI) simp
  then show ?thesis
    by (simp add: str_def inj_map_eq_map)
qed

lemma str_Nil [simp]: "str [] = []" and str_eq_Nil [simp]: "str s = [] \<longleftrightarrow> s = []"
  by (simp_all add: str_def)

lemma Nil_eq_str [simp]: "[] = str s \<longleftrightarrow> s = []"
  by (auto simp: str_def)

lemma length_str [simp]: "length (str s) = length s"
  by (simp add: str_def)

definition utf8_len :: "nat \<Rightarrow> nat" where
  "utf8_len c = (if c < 128 then 1 else if c < 2048 then 2 else if c < 65536 then 3 else 4)"

definition str_len :: "ustring \<Rightarrow> nat" where
  "str_len s = sum_list (map utf8_len s)"

lemma str_len_simps [simp]:
  "str_len [] = 0"
  "str_len (c # s) = utf8_len c + str_len s"
  "str_len (s @ t) = str_len s + str_len t"
  by (simp_all add: str_len_def)

lemma length_le_str_len: "length s \<le> str_len s"
  by (induction s) (auto simp: utf8_len_def)

lemma str_len_ascii: "\<forall>c\<in>set s. c < 128 \<Longrightarrow> str_len s = length s"
  by (induction s) (auto simp: utf8_len_def)

subsection \<open>Character classes\<close>

definition is_digit :: "nat \<Rightarrow> bool" where
  "is_digit c \<longleftrightarrow> 48 \<le> c \<and> c \<le> 57"

definition is_hexdigit :: "nat \<Rightarrow> bool" where
  "is_hexdigit c \<longleftrightarrow> is_digit c \<or> (65 \<le> c \<and> c \<le> 70) \<or> (97 \<le> c \<and> c \<le> 102)"

definition is_alnum :: "nat \<Rightarrow> bool" where
  "is_alnum c \<longleftrightarrow> is_digit c \<or> (65 \<le> c \<and> c \<le> 90) \<or> (97 \<le> c \<and> c \<le> 122)"

text \<open>\<open>char::is_whitespace\<close>: the Unicode White_Space property.\<close>

definition is_ws :: "nat \<Rightarrow> bool" where
  "is_ws c \<longleftrightarrow> (9 \<le> c \<and> c \<le> 13) \<or> c = 32 \<or> c = 133 \<or> c = 160 \<or> c = 5760
     \<or> (8192 \<le> c \<and> c \<le> 8202) \<or> c = 8232 \<or> c = 8233 \<or> c = 8239 \<or> c = 8287 \<or> c = 12288"

definition lower_char :: "nat \<Rightarrow> nat" where
  "lower_char c = (if 65 \<le> c \<and> c \<le> 90 then c + 32 else c)"

definition lower :: "ustring \<Rightarrow> ustring" where
  "lower s = map lower_char s"

definition upper :: "ustring \<Rightarrow> ustring" where
  "upper s = map (\<lambda>c. if 97 \<le> c \<and> c \<le> 122 then c - 32 else c) s"

definition trim_by :: "(nat \<Rightarrow> bool) \<Rightarrow> ustring \<Rightarrow> ustring" where
  "trim_by p s = rev (dropWhile p (rev (dropWhile p s)))"

definition trim :: "ustring \<Rightarrow> ustring" where
  "trim s = trim_by is_ws s"

lemma lower_simps [simp]:
  "lower [] = []" "lower (c # s) = lower_char c # lower s" "lower (s @ t) = lower s @ lower t"
  "length (lower s) = length s" "lower s = [] \<longleftrightarrow> s = []"
  by (simp_all add: lower_def)

lemma lower_char_idem [simp]: "lower_char (lower_char c) = lower_char c"
  by (auto simp: lower_char_def)

lemma lower_idem [simp]: "lower (lower s) = lower s"
  by (induction s) auto

lemma is_ws_lower_char [simp]: "is_ws (lower_char c) = is_ws c"
  by (auto simp: lower_char_def is_ws_def)

lemma is_hexdigit_lower_char [simp]: "is_hexdigit (lower_char c) = is_hexdigit c"
  by (auto simp: lower_char_def is_hexdigit_def is_digit_def)

lemma dropWhile_map_pres: "(\<And>x. p (f x) = p x) \<Longrightarrow> dropWhile p (map f xs) = map f (dropWhile p xs)"
  by (induction xs) auto

lemma trim_lower: "trim (lower s) = lower (trim s)"
  by (simp add: trim_def trim_by_def lower_def dropWhile_map_pres rev_map)

lemma dropWhile_fix: "s = [] \<or> \<not> p (hd s) \<Longrightarrow> dropWhile p s = s"
  by (cases s) auto

lemma trim_by_id:
  assumes "s = [] \<or> \<not> p (hd s)" and "s = [] \<or> \<not> p (last s)"
  shows "trim_by p s = s"
proof -
  have "dropWhile p (rev s) = rev s"
    using assms(2) by (intro dropWhile_fix) (auto simp: hd_rev)
  with assms(1) show ?thesis
    by (simp add: trim_by_def dropWhile_fix)
qed

lemma hd_dropWhile_not: "dropWhile p s \<noteq> [] \<Longrightarrow> \<not> p (hd (dropWhile p s))"
  by (rule hd_dropWhile)

lemma last_dropWhile_same: "dropWhile p s \<noteq> [] \<Longrightarrow> last (dropWhile p s) = last s"
  by (induction s) auto

lemma trim_by_ends:
  assumes "trim_by p s \<noteq> []"
  shows "\<not> p (hd (trim_by p s))" and "\<not> p (last (trim_by p s))"
proof -
  let ?u = "dropWhile p s"
  let ?v = "dropWhile p (rev ?u)"
  have v: "?v \<noteq> []"
    using assms by (simp add: trim_by_def)
  then have u: "?u \<noteq> []"
    by (metis dropWhile.simps(1) rev.simps(1))
  have "hd (rev ?v) = hd ?u"
    using last_dropWhile_same [OF v] by (simp add: hd_rev last_rev)
  with hd_dropWhile_not [OF u] show "\<not> p (hd (trim_by p s))"
    by (simp add: trim_by_def)
  from hd_dropWhile_not [OF v] show "\<not> p (last (trim_by p s))"
    by (simp add: trim_by_def last_rev)
qed

lemma trim_by_idem [simp]: "trim_by p (trim_by p s) = trim_by p s"
  by (rule trim_by_id) (use trim_by_ends [of p s] in blast)+

lemma trim_idem [simp]: "trim (trim s) = trim s"
  by (simp add: trim_def)

lemma set_trim: "set (trim s) \<subseteq> set s"
  unfolding trim_def trim_by_def by (auto dest!: set_dropWhileD)

lemma trim_no_ws: "\<forall>c\<in>set s. \<not> is_ws c \<Longrightarrow> trim s = s"
  unfolding trim_def by (rule trim_by_id) auto

subsection \<open>Prefixes and splitting\<close>

fun strip_prefix :: "ustring \<Rightarrow> ustring \<Rightarrow> ustring option" where
  "strip_prefix [] s = Some s"
| "strip_prefix (p # ps) [] = None"
| "strip_prefix (p # ps) (c # s) = (if p = c then strip_prefix ps s else None)"

definition starts_with :: "ustring \<Rightarrow> ustring \<Rightarrow> bool" where
  "starts_with p s \<longleftrightarrow> strip_prefix p s \<noteq> None"

lemma strip_prefix_Some: "strip_prefix p s = Some r \<longleftrightarrow> s = p @ r"
  by (induction p s rule: strip_prefix.induct) auto

lemma strip_prefix_append [simp]: "strip_prefix p (p @ s) = Some s"
  by (simp add: strip_prefix_Some)

text \<open>\<open>str::split(',')\<close> and \<open>trim_start_matches("0x")\<close>.\<close>

fun split_on :: "nat \<Rightarrow> ustring \<Rightarrow> ustring list" where
  "split_on d [] = [[]]"
| "split_on d (c # s) =
     (case split_on d s of
        [] \<Rightarrow> [[c]]
      | w # ws \<Rightarrow> if c = d then [] # w # ws else (c # w) # ws)"

lemma split_on_not_Nil [simp]: "split_on d s \<noteq> []"
  by (cases s) (auto split: list.split)

fun trim_0x :: "ustring \<Rightarrow> ustring" where
  "trim_0x (a # b # s) = (if a = 48 \<and> b = 120 then trim_0x s else a # b # s)"
| "trim_0x s = s"

section \<open>Results\<close>

fun bindR :: "'e + 'a \<Rightarrow> ('a \<Rightarrow> 'e + 'b) \<Rightarrow> 'e + 'b" where
  "bindR (Inl e) f = Inl e"
| "bindR (Inr x) f = f x"

lemma bindR_Inr [result_iff]: "bindR m f = Inr y \<longleftrightarrow> (\<exists>x. m = Inr x \<and> f x = Inr y)"
  by (cases m) auto

lemma bindR_Inl [result_iff]: "bindR m f = Inl e \<longleftrightarrow> m = Inl e \<or> (\<exists>x. m = Inr x \<and> f x = Inl e)"
  by (cases m) auto

lemma if_Inr [result_iff]: "(if b then Inl e else m) = Inr y \<longleftrightarrow> \<not> b \<and> m = Inr y"
  by auto

lemma map_err_Inr [result_iff]:
  "(case m of Inl x \<Rightarrow> Inl (g x) | Inr a \<Rightarrow> f a) = Inr y \<longleftrightarrow> (\<exists>a. m = Inr a \<and> f a = Inr y)"
  by (cases m) auto

text \<open>\<open>continue\<close> in a loop body whose iteration yields at most one item.\<close>

lemma skip_option_iff [result_iff]:
  "(case m of None \<Rightarrow> Inr None | Some x \<Rightarrow> f x) = Inr (Some y) \<longleftrightarrow> (\<exists>x. m = Some x \<and> f x = Inr (Some y))"
  by (cases m) auto

lemma skip_if_iff [result_iff]: "(if b then Inr None else m) = Inr (Some y) \<longleftrightarrow> \<not> b \<and> m = Inr (Some y)"
  by auto

fun ok_or :: "'e \<Rightarrow> 'a option \<Rightarrow> 'e + 'a" where
  "ok_or e None = Inl e"
| "ok_or e (Some x) = Inr x"

lemma ok_or_Inr [result_iff]: "ok_or e m = Inr y \<longleftrightarrow> m = Some y"
  by (cases m) auto

text \<open>\<open>collect::<Result<Vec<_>, _>>\<close> and a \<open>for\<close> loop whose body may return early with an
  error.\<close>

fun mapR :: "('a \<Rightarrow> 'e + 'b) \<Rightarrow> 'a list \<Rightarrow> 'e + 'b list" where
  "mapR f [] = Inr []"
| "mapR f (x # xs) = bindR (f x) (\<lambda>y. bindR (mapR f xs) (\<lambda>ys. Inr (y # ys)))"

fun foldR :: "('a \<Rightarrow> 's \<Rightarrow> 'e + 's) \<Rightarrow> 'a list \<Rightarrow> 's \<Rightarrow> 'e + 's" where
  "foldR f [] s = Inr s"
| "foldR f (x # xs) s = bindR (f x s) (foldR f xs)"

lemma foldR_append: "foldR f (xs @ ys) s = bindR (foldR f xs s) (foldR f ys)"
proof (induction xs arbitrary: s)
  case (Cons x xs)
  then show ?case by (cases "f x s") auto
qed simp

text \<open>An invariant of the body is an invariant of the loop.\<close>

lemma foldR_invariant:
  assumes "foldR f xs s = Inr s'" and "P s"
    and "\<And>x s s'. x \<in> set xs \<Longrightarrow> f x s = Inr s' \<Longrightarrow> P s \<Longrightarrow> P s'"
  shows "P s'"
  using assms
proof (induction xs arbitrary: s)
  case (Cons x xs)
  from Cons.prems(1) obtain t where "f x s = Inr t" and "foldR f xs t = Inr s'"
    by (auto simp: result_iff)
  with Cons show ?case
    by (metis list.set_intros(1) list.set_intros(2))
qed simp

section \<open>Integers\<close>

definition i64_max :: int where "i64_max = 9223372036854775807"
definition i64_min :: int where "i64_min = -9223372036854775808"

definition in_i64 :: "int \<Rightarrow> bool" where
  "in_i64 n \<longleftrightarrow> i64_min \<le> n \<and> n \<le> i64_max"

definition sat_i64 :: "int \<Rightarrow> int" where
  "sat_i64 n = max i64_min (min i64_max n)"

definition sat_add :: "int \<Rightarrow> int \<Rightarrow> int" where
  "sat_add a b = sat_i64 (a + b)"

definition sat_sub :: "int \<Rightarrow> int \<Rightarrow> int" where
  "sat_sub a b = sat_i64 (a - b)"

definition checked_i64 :: "int \<Rightarrow> int option" where
  "checked_i64 n = (if in_i64 n then Some n else None)"

lemma sat_i64_id: "in_i64 n \<Longrightarrow> sat_i64 n = n"
  by (auto simp: sat_i64_def in_i64_def)

lemma in_i64_sat [simp]: "in_i64 (sat_i64 n)"
  by (auto simp: sat_i64_def in_i64_def i64_max_def i64_min_def)

lemmas i64_defs = i64_max_def i64_min_def in_i64_def sat_i64_def sat_add_def sat_sub_def checked_i64_def

subsection \<open>Decimal and hexadecimal numerals\<close>

fun nat_digits :: "nat \<Rightarrow> ustring" where
  "nat_digits n = (if n < 10 then [48 + n] else nat_digits (n div 10) @ [48 + n mod 10])"

declare nat_digits.simps [simp del]

definition int_str :: "int \<Rightarrow> ustring" where
  "int_str n = (if n < 0 then 45 # nat_digits (nat (- n)) else nat_digits (nat n))"

definition digits_val :: "ustring \<Rightarrow> nat" where
  "digits_val s = foldl (\<lambda>a c. 10 * a + (c - 48)) 0 s"

definition hex_val :: "nat \<Rightarrow> nat" where
  "hex_val c = (if c \<le> 57 then c - 48 else if c \<le> 70 then c - 55 else c - 87)"

definition hex_digits_val :: "ustring \<Rightarrow> nat" where
  "hex_digits_val s = foldl (\<lambda>a c. 16 * a + hex_val c) 0 s"

lemma digits_val_snoc [simp]: "digits_val (s @ [c]) = 10 * digits_val s + (c - 48)"
  by (simp add: digits_val_def)

lemma hex_digits_val_snoc [simp]: "hex_digits_val (s @ [c]) = 16 * hex_digits_val s + hex_val c"
  by (simp add: hex_digits_val_def)

lemma digits_val_nat_digits [simp]: "digits_val (nat_digits n) = n"
proof (induction n rule: nat_digits.induct)
  case (1 n)
  show ?case
  proof (cases "n < 10")
    case True
    then show ?thesis by (subst nat_digits.simps) (simp add: digits_val_def)
  next
    case False
    with "1.IH" show ?thesis by (subst nat_digits.simps) simp
  qed
qed

lemma nat_digits_digits: "c \<in> set (nat_digits n) \<Longrightarrow> is_digit c"
proof (induction n rule: nat_digits.induct)
  case (1 n)
  then show ?case
    by (subst (asm) nat_digits.simps) (auto simp: is_digit_def split: if_splits)
qed

lemma nat_digits_not_Nil [simp]: "nat_digits n \<noteq> []"
  by (subst nat_digits.simps) simp

lemma length_nat_digits: "0 < k \<Longrightarrow> n < 10 ^ k \<Longrightarrow> length (nat_digits n) \<le> k"
proof (induction k arbitrary: n rule: nat_induct_non_zero)
  case 1
  then show ?case by (subst nat_digits.simps) simp
next
  case (Suc k)
  have "n div 10 < 10 ^ k"
    using Suc.prems by (simp add: less_mult_imp_div_less mult.commute)
  then have "length (nat_digits (n div 10)) \<le> k"
    by (rule Suc.IH)
  then show ?case
    by (subst nat_digits.simps) auto
qed

lemma hex_digits_val_bound:
  "\<forall>c\<in>set s. is_hexdigit c \<Longrightarrow> hex_digits_val s < 16 ^ length s"
proof (induction s rule: rev_induct)
  case (snoc c s)
  then have "hex_digits_val s < 16 ^ length s" and "hex_val c < 16"
    by (auto simp: is_hexdigit_def is_digit_def hex_val_def)
  then show ?case by simp
qed (simp add: hex_digits_val_def)

text \<open>\<open>str::parse::<i64>\<close>: an optional sign, at least one digit, no overflow.\<close>

definition parse_digits :: "ustring \<Rightarrow> int option" where
  "parse_digits s = (if s \<noteq> [] \<and> list_all is_digit s then Some (int (digits_val s)) else None)"

definition parse_i64 :: "ustring \<Rightarrow> int option" where
  "parse_i64 s = (case s of
       [] \<Rightarrow> None
     | c # r \<Rightarrow>
         Option.bind
           (if c = 43 then parse_digits r
            else if c = 45 then map_option uminus (parse_digits r)
            else parse_digits s)
           checked_i64)"

lemma parse_digits_nat_digits [simp]: "parse_digits (nat_digits n) = Some (int n)"
  using nat_digits_digits by (auto simp: parse_digits_def list_all_iff)

lemma parse_i64_int_str: "in_i64 n \<Longrightarrow> 0 \<le> n \<Longrightarrow> parse_i64 (int_str n) = Some n"
proof -
  assume n: "in_i64 n" "0 \<le> n"
  obtain c r where cr: "nat_digits (nat n) = c # r"
    by (cases "nat_digits (nat n)") auto
  then have "is_digit c"
    using nat_digits_digits [of c "nat n"] by simp
  then have "c \<noteq> 43" "c \<noteq> 45"
    by (auto simp: is_digit_def)
  with n cr parse_digits_nat_digits [of "nat n"] show ?thesis
    by (simp add: parse_i64_def int_str_def checked_i64_def)
qed

lemma parse_i64_range: "parse_i64 s = Some n \<Longrightarrow> in_i64 n"
  by (auto simp: parse_i64_def checked_i64_def bind_eq_Some_conv split: list.splits if_splits)

section \<open>Tables\<close>

definition find_row :: "('r \<Rightarrow> 'k) \<Rightarrow> 'k \<Rightarrow> 'r list \<Rightarrow> 'r option" where
  "find_row key k t = List.find (\<lambda>r. key r = k) t"

definition insert_nothing :: "('r \<Rightarrow> 'k) \<Rightarrow> 'r \<Rightarrow> 'r list \<Rightarrow> 'r list \<times> bool" where
  "insert_nothing key r t = (if find_row key (key r) t = None then (t @ [r], True) else (t, False))"

definition upsert_row :: "('r \<Rightarrow> 'k) \<Rightarrow> 'r \<Rightarrow> 'r list \<Rightarrow> 'r list" where
  "upsert_row key r t =
     (if find_row key (key r) t = None then t @ [r] else map (\<lambda>q. if key q = key r then r else q) t)"

definition update_where :: "('r \<Rightarrow> bool) \<Rightarrow> ('r \<Rightarrow> 'r) \<Rightarrow> 'r list \<Rightarrow> 'r list" where
  "update_where p f t = map (\<lambda>r. if p r then f r else r) t"

definition unique_by :: "('r \<Rightarrow> 'k) \<Rightarrow> 'r list \<Rightarrow> bool" where
  "unique_by key t \<longleftrightarrow> distinct (map key t)"

lemma find_row_None: "find_row key k t = None \<longleftrightarrow> k \<notin> key ` set t"
  by (auto simp: find_row_def find_None_iff)

lemma find_row_SomeD: "find_row key k t = Some r \<Longrightarrow> r \<in> set t \<and> key r = k"
  by (auto simp: find_row_def find_Some_iff)

lemma find_row_append:
  "find_row key k (t @ u) = (case find_row key k t of None \<Rightarrow> find_row key k u | Some r \<Rightarrow> Some r)"
  by (induction t) (auto simp: find_row_def)

lemma find_row_single [simp]: "find_row key k [r] = (if key r = k then Some r else None)"
  by (simp add: find_row_def)

lemma find_row_Nil [simp]: "find_row key k [] = None"
  by (simp add: find_row_def)

lemma find_row_Cons: "find_row key k (r # t) = (if key r = k then Some r else find_row key k t)"
  by (simp add: find_row_def)

lemma unique_by_find: "unique_by key t \<Longrightarrow> r \<in> set t \<Longrightarrow> find_row key (key r) t = Some r"
  by (induction t) (auto simp: unique_by_def find_row_Cons image_iff)

lemma unique_byD: "unique_by key t \<Longrightarrow> r \<in> set t \<Longrightarrow> q \<in> set t \<Longrightarrow> key r = key q \<Longrightarrow> r = q"
  by (metis option.sel unique_by_find)

lemma insert_nothing_unique [simp]: "unique_by key t \<Longrightarrow> unique_by key (fst (insert_nothing key r t))"
  by (auto simp: insert_nothing_def unique_by_def find_row_None)

lemma map_key_upsert:
  "map key (upsert_row key r t) = (if key r \<in> key ` set t then map key t else map key t @ [key r])"
  by (auto simp: upsert_row_def find_row_None)

lemma upsert_row_unique [simp]: "unique_by key t \<Longrightarrow> unique_by key (upsert_row key r t)"
  by (auto simp: unique_by_def map_key_upsert simp del: map_map)

lemma find_row_replace:
  "find_row key k (map (\<lambda>q. if key q = key r then r else q) t) =
     (if k = key r \<and> key r \<in> key ` set t then Some r else find_row key k t)"
  by (induction t) (auto simp: find_row_Cons)

lemma find_row_upsert:
  "find_row key k (upsert_row key r t) = (if k = key r then Some r else find_row key k t)"
proof (cases "key r \<in> key ` set t")
  case True
  then show ?thesis
    by (simp add: upsert_row_def find_row_None find_row_replace)
next
  case False
  then have "find_row key (key r) t = None"
    by (simp add: find_row_None)
  then show ?thesis
    by (simp add: upsert_row_def find_row_append split: option.splits)
qed

lemma set_upsert_row: "set (upsert_row key r t) = insert r {q \<in> set t. key q \<noteq> key r}"
  by (auto simp: upsert_row_def find_row_None image_iff)

lemma unique_by_filter [simp]: "unique_by key t \<Longrightarrow> unique_by key (filter p t)"
  by (simp add: unique_by_def distinct_map_filter)

lemma unique_by_update [simp]:
  "(\<And>r. key (f r) = key r) \<Longrightarrow> unique_by key (update_where p f t) = unique_by key t"
  by (simp add: unique_by_def update_where_def comp_def if_distrib cong: if_cong)

lemma unique_by_snoc [simp]: "unique_by key (t @ [r]) \<longleftrightarrow> unique_by key t \<and> key r \<notin> key ` set t"
  by (auto simp: unique_by_def)

lemma unique_by_Nil [simp]: "unique_by key []"
  by (simp add: unique_by_def)

text \<open>\<open>ORDER BY f DESC LIMIT 1\<close>.\<close>

fun max_by :: "('r \<Rightarrow> int) \<Rightarrow> 'r list \<Rightarrow> 'r option" where
  "max_by f [] = None"
| "max_by f (r # t) = (case max_by f t of None \<Rightarrow> Some r | Some q \<Rightarrow> if f r < f q then Some q else Some r)"

lemma max_by_None [simp]: "max_by f t = None \<longleftrightarrow> t = []"
  by (cases t) (auto split: option.splits)

lemma max_by_SomeD: "max_by f t = Some r \<Longrightarrow> r \<in> set t \<and> (\<forall>q\<in>set t. f q \<le> f r)"
proof (induction t arbitrary: r)
  case (Cons a t)
  show ?case
  proof (cases "max_by f t")
    case None
    then show ?thesis using Cons.prems by auto
  next
    case (Some q)
    with Cons.IH have "q \<in> set t" "\<forall>p\<in>set t. f p \<le> f q"
      by auto
    then show ?thesis using Cons.prems Some by (fastforce split: if_splits)
  qed
qed simp

lemma max_by_eqI:
  assumes "r \<in> set t" and "\<And>q. q \<in> set t \<Longrightarrow> q \<noteq> r \<Longrightarrow> f q < f r"
  shows "max_by f t = Some r"
proof (cases "max_by f t")
  case None
  with assms(1) show ?thesis by simp
next
  case (Some q)
  from max_by_SomeD [OF Some] have "q \<in> set t" and "f r \<le> f q"
    using assms(1) by auto
  with assms(2) [of q] Some show ?thesis by fastforce
qed

end
