(* ===== verification/LedgerError.thy ===== *)
theory LedgerError
  imports Prelude
begin

text \<open>
  The ledger's error type (\<open>ledger/src/error.rs\<close>). Messages built with \<open>format!\<close> keep
  their static text only; nothing in the program branches on them. \<open>sqlx::Error\<close> is the
  library's type: only the variants the code's \<open>Debug\<close> implementation distinguishes are
  named, each standing for whatever payload the library attaches to it.
\<close>

datatype sqlx_error =
    SqlxConfiguration ustring | SqlxInvalidArgument ustring | SqlxDatabase "ustring option" ustring
  | SqlxIo ustring | SqlxTls ustring | SqlxProtocol ustring | SqlxRowNotFound
  | SqlxTypeNotFound ustring | SqlxColumnIndexOutOfBounds | SqlxColumnNotFound ustring
  | SqlxColumnDecode ustring | SqlxEncode ustring | SqlxDecode ustring | SqlxPoolTimedOut
  | SqlxPoolClosed | SqlxWorkerCrashed | SqlxMigrate ustring | SqlxOther ustring

datatype ledger_error =
    Provider string
  | MissingEnv string
  | InvalidConfig string
  | Database sqlx_error
  | Migrate ustring
  | Lcd string
  | BscRpc string
  | Amount string
  | NotFound string
  | Conflict string
  | ReorgDetected int ustring ustring
  | Io ustring

type_synonym 'a ledger_result = "ledger_error + 'a"

definition safe_sqlstate :: "ustring \<Rightarrow> bool" where
  "safe_sqlstate code \<longleftrightarrow>
     str_len code = 5 \<and> list_all (\<lambda>b. (65 \<le> b \<and> b \<le> 90) \<or> is_digit b) code"

definition sqlx_class :: "sqlx_error \<Rightarrow> string" where
  "sqlx_class e = (case e of
       SqlxConfiguration _ \<Rightarrow> ''configuration''
     | SqlxInvalidArgument _ \<Rightarrow> ''invalid_argument''
     | SqlxDatabase _ _ \<Rightarrow> ''database''
     | SqlxIo _ \<Rightarrow> ''io''
     | SqlxTls _ \<Rightarrow> ''tls''
     | SqlxProtocol _ \<Rightarrow> ''protocol''
     | SqlxRowNotFound \<Rightarrow> ''row_not_found''
     | SqlxTypeNotFound _ \<Rightarrow> ''type_not_found''
     | SqlxColumnIndexOutOfBounds \<Rightarrow> ''column_index''
     | SqlxColumnNotFound _ \<Rightarrow> ''column_not_found''
     | SqlxColumnDecode _ \<Rightarrow> ''column_decode''
     | SqlxEncode _ \<Rightarrow> ''encode''
     | SqlxDecode _ \<Rightarrow> ''decode''
     | SqlxPoolTimedOut \<Rightarrow> ''pool_timeout''
     | SqlxPoolClosed \<Rightarrow> ''pool_closed''
     | SqlxWorkerCrashed \<Rightarrow> ''worker_crashed''
     | SqlxMigrate _ \<Rightarrow> ''migration''
     | SqlxOther _ \<Rightarrow> ''other'')"

definition debug_database :: "sqlx_error \<Rightarrow> ustring" where
  "debug_database e =
     (case (case e of SqlxDatabase (Some code) _ \<Rightarrow> if safe_sqlstate code then Some code else None
                    | _ \<Rightarrow> None) of
        Some code \<Rightarrow> str ''database error (sqlstate='' @ code @ str '')''
      | None \<Rightarrow> str ''database error (class='' @ str (sqlx_class e) @ str '')'')"

text \<open>
  The \<open>Debug\<close> text of a database error depends on the library error only through its
  class and, for a server error, a five-character upper-case or numeric SQLSTATE: no other
  payload reaches it.
\<close>

theorem debug_database_redacted:
  "\<exists>label. debug_database e = str ''database error ('' @ label @ str '')''
     \<and> (label = str ''class='' @ str (sqlx_class e)
        \<or> (\<exists>code payload. e = SqlxDatabase (Some code) payload \<and> label = str ''sqlstate='' @ code
             \<and> length code = 5 \<and> list_all (\<lambda>b. (65 \<le> b \<and> b \<le> 90) \<or> is_digit b) code))"
proof -
  have split: "str (a @ b) = str a @ str b" for a b
    by (simp add: str_def)
  have pre: "str ''database error (sqlstate='' = str ''database error ('' @ str ''sqlstate=''"
    "str ''database error (class='' = str ''database error ('' @ str ''class=''"
    by (simp_all flip: split)
  show ?thesis
  proof (cases "\<exists>code payload. e = SqlxDatabase (Some code) payload \<and> safe_sqlstate code")
    case True
    then obtain code payload where e: "e = SqlxDatabase (Some code) payload" "safe_sqlstate code"
      by blast
    then have "list_all (\<lambda>b. (65 \<le> b \<and> b \<le> 90) \<or> is_digit b) code"
      by (simp add: safe_sqlstate_def)
    moreover have "\<forall>c\<in>set code. c < 128"
      using calculation by (fastforce simp: is_digit_def list_all_iff)
    then have "length code = 5"
      using e(2) str_len_ascii [of code] by (simp add: safe_sqlstate_def)
    ultimately show ?thesis
      using e by (intro exI [of _ "str ''sqlstate='' @ code"]) (simp add: debug_database_def pre)
  next
    case False
    then have "debug_database e = str ''database error (class='' @ str (sqlx_class e) @ str '')''"
      by (auto simp: debug_database_def split: sqlx_error.splits option.splits)
    then show ?thesis
      by (intro exI [of _ "str ''class='' @ str (sqlx_class e)"]) (simp add: pre)
  qed
qed

end
