(* ===== verification/Address.thy ===== *)
theory Address
  imports LedgerError
begin

text \<open>
  Address normalisation (\<open>normalize_evm_addr\<close>, \<open>normalize_terra_addr\<close> and \<open>split_urls\<close> of
  \<open>ledger/src/config.rs\<close>) and the interface every table keyed by an address relies on: a
  normaliser maps its own results to themselves, so a row stored under a normalised key is found
  again from any spelling with the same normal form.
\<close>

locale normalizer =
  fixes norm :: "ustring \<Rightarrow> 'e + ustring"
  assumes norm_idem: "norm raw = Inr a \<Longrightarrow> norm a = Inr a"
begin

lemma norm_twice: "bindR (norm raw) norm = norm raw"
  by (cases "norm raw") (simp_all add: norm_idem)

lemma norm_again: "bindR (norm raw) (\<lambda>a. bindR (norm a) f) = bindR (norm raw) f"
  by (cases "norm raw") (simp_all add: norm_idem)

lemma norm_injective_on_results:
  "norm raw = Inr a \<Longrightarrow> norm raw' = Inr b \<Longrightarrow> norm a = norm b \<longleftrightarrow> a = b"
  by (simp add: norm_idem)

end

definition normalize_evm_addr :: "ustring \<Rightarrow> ustring ledger_result" where
  "normalize_evm_addr raw =
     (let trimmed = trim raw;
          hex = (case strip_prefix (str ''0x'') trimmed of Some h \<Rightarrow> h | None \<Rightarrow> trimmed) in
      if str_len hex \<noteq> 40 \<or> \<not> list_all is_hexdigit hex
      then Inl (InvalidConfig ''invalid EVM address'')
      else Inr (str ''0x'' @ lower hex))"

definition normalize_terra_addr :: "ustring \<Rightarrow> ustring" where
  "normalize_terra_addr raw = lower (trim raw)"

definition split_urls :: "ustring \<Rightarrow> ustring list" where
  "split_urls raw = filter (\<lambda>s. s \<noteq> []) (map trim (split_on 44 raw))"

lemma hexdigit_not_ws: "is_hexdigit c \<Longrightarrow> \<not> is_ws c"
  by (auto simp: is_hexdigit_def is_digit_def is_ws_def)

lemma hexdigit_ascii: "is_hexdigit c \<Longrightarrow> c < 128"
  by (auto simp: is_hexdigit_def is_digit_def)

lemma normalize_evm_addr_iff:
  "normalize_evm_addr raw = Inr a \<longleftrightarrow>
     (\<exists>hex. (trim raw = str ''0x'' @ hex \<or> (trim raw = hex \<and> strip_prefix (str ''0x'') hex = None))
        \<and> length hex = 40 \<and> list_all is_hexdigit hex \<and> a = str ''0x'' @ lower hex)"
proof -
  have len: "str_len hex = 40 \<longleftrightarrow> length hex = 40" if "list_all is_hexdigit hex" for hex
    using that str_len_ascii [of hex] hexdigit_ascii by (auto simp: list_all_iff)
  show ?thesis
    using len by (auto simp: normalize_evm_addr_def Let_def strip_prefix_Some split: option.split)
qed

lemma normalize_evm_addr_result:
  assumes "normalize_evm_addr raw = Inr a"
  obtains hex where "a = str ''0x'' @ hex" "length hex = 40" "list_all is_hexdigit hex" "lower hex = hex"
proof -
  from assms obtain h where h: "length h = 40" "list_all is_hexdigit h" "a = str ''0x'' @ lower h"
    unfolding normalize_evm_addr_iff by blast
  then have "list_all is_hexdigit (lower h)"
    by (simp add: list_all_iff lower_def)
  with h show ?thesis
    by (intro that [of "lower h"]) simp_all
qed

lemma normalize_evm_addr_idem: "normalize_evm_addr raw = Inr a \<Longrightarrow> normalize_evm_addr a = Inr a"
proof -
  assume "normalize_evm_addr raw = Inr a"
  then obtain hex where hex: "a = str ''0x'' @ hex" "length hex = 40" "list_all is_hexdigit hex"
      "lower hex = hex"
    by (rule normalize_evm_addr_result)
  have "\<forall>c\<in>set a. \<not> is_ws c"
    using hex(1,3) hexdigit_not_ws by (auto simp: list_all_iff str_def is_ws_def)
  then have "trim a = a"
    by (rule trim_no_ws)
  with hex show ?thesis
    unfolding normalize_evm_addr_iff by (intro exI [of _ hex]) simp
qed

lemma normalize_terra_addr_idem [simp]:
  "normalize_terra_addr (normalize_terra_addr raw) = normalize_terra_addr raw"
  by (simp add: normalize_terra_addr_def trim_lower)

interpretation evm: normalizer normalize_evm_addr
  by unfold_locales (rule normalize_evm_addr_idem)

interpretation terra: normalizer "\<lambda>raw. Inr (normalize_terra_addr raw) :: ustring ledger_result"
  by unfold_locales auto

text \<open>
  An accepted EVM address is stored in one canonical spelling (\<open>0x\<close> and forty lower-case
  hexadecimal digits) that does not depend on the case of the digits, and the canonical spelling
  is accepted unchanged; so two spellings of one account meet at one table key.
\<close>

theorem normalize_evm_addr_canonical:
  assumes "normalize_evm_addr raw = Inr a"
  shows "length a = 42 \<and> (\<exists>hex. a = str ''0x'' @ hex \<and> list_all is_hexdigit hex)
     \<and> lower a = a \<and> normalize_evm_addr a = Inr a \<and> normalize_evm_addr (lower raw) = Inr a"
proof -
  obtain hex where hex: "a = str ''0x'' @ hex" "length hex = 40" "list_all is_hexdigit hex" "lower hex = hex"
    using assms by (rule normalize_evm_addr_result)
  have low0x: "lower (str ''0x'') = str ''0x''"
    by (simp add: str_def lower_char_def)
  have "normalize_evm_addr (lower raw) = Inr a"
  proof -
    from assms obtain h where h: "trim raw = str ''0x'' @ h \<or> (trim raw = h \<and> strip_prefix (str ''0x'') h = None)"
        "length h = 40" "list_all is_hexdigit h" "a = str ''0x'' @ lower h"
      unfolding normalize_evm_addr_iff by blast
    from h(3) have lh: "list_all is_hexdigit (lower h)"
      by (simp add: list_all_iff lower_def)
    have "strip_prefix (str ''0x'') (lower h) = None"
      using lh by (cases "lower h"; cases "tl (lower h)")
        (auto simp: str_def is_hexdigit_def is_digit_def)
    with h(1) have "trim (lower raw) = str ''0x'' @ lower h
        \<or> (trim (lower raw) = lower h \<and> strip_prefix (str ''0x'') (lower h) = None)"
      by (auto simp: trim_lower low0x)
    with h lh show ?thesis
      unfolding normalize_evm_addr_iff by (intro exI [of _ "lower h"]) simp
  qed
  with hex assms low0x show ?thesis
    by (auto simp: evm.norm_idem)
qed

theorem normalize_evm_addr_canonical_witness:
  "normalize_evm_addr (lower (str ''0x8F452a1fdd388A45e1080992eFF051b4dd9048d2''))
     = Inr (str ''0x8f452a1fdd388a45e1080992eff051b4dd9048d2'')"
  by (rule normalize_evm_addr_canonical [THEN conjunct2, THEN conjunct2, THEN conjunct2, THEN conjunct2])
     code_simp

end
