(* ===== verification/LedgerConfig.thy ===== *)
theory LedgerConfig
  imports Address
begin

text \<open>
  The ledger's configuration (\<open>ledger/src/config.rs\<close>), read from an environment
  \<open>env :: string \<Rightarrow> ustring option\<close> (\<open>std::env::var\<close> after \<open>dotenvy\<close>).
  The URL parser is the \<open>reqwest\<close> library's: a parameter that returns the scheme, whether a host
  is present and whether a fragment is present, or \<open>None\<close>.
\<close>

datatype run_mode = Dev | Prod

type_synonym url_parser = "ustring \<Rightarrow> (ustring \<times> bool \<times> bool) option"
type_synonym environment = "string \<Rightarrow> ustring option"

record ledger_config =
  database_url :: ustring
  terra_lcd_urls :: "ustring list"
  terra_chain_id :: ustring
  terra_rpc_urls :: "ustring list"
  cl8y_token_address :: ustring
  bsc_cl8y_token_address :: ustring
  bsc_rpc_urls :: "ustring list"
  run_mode :: run_mode
  api_bind :: ustring
  poll_interval_ms :: nat

definition DEFAULT_CL8Y_CW20 :: ustring where
  "DEFAULT_CL8Y_CW20 = str ''terra16wtml2q66g82fdkx66tap0qjkahqwp4lwq3ngtygacg5q0kzycgqvhpax3''"

definition DEFAULT_CL8Y_BEP20 :: ustring where
  "DEFAULT_CL8Y_BEP20 = str ''0x8F452a1fdd388A45e1080992eFF051b4dd9048d2''"

definition require_env :: "environment \<Rightarrow> string \<Rightarrow> ustring ledger_result" where
  "require_env env key =
     (case map_option trim (env key) of
        None \<Rightarrow> Inl (MissingEnv key)
      | Some s \<Rightarrow> if s = [] then Inl (MissingEnv key) else Inr s)"

definition validate_provider_url :: "url_parser \<Rightarrow> ustring \<Rightarrow> unit ledger_result" where
  "validate_provider_url url_parse raw =
     bindR (ok_or (InvalidConfig ''invalid provider URL'') (url_parse raw)) (\<lambda>(scheme, host, fragment).
       if \<not> (scheme = str ''http'' \<or> scheme = str ''https'') \<or> \<not> host \<or> fragment
       then Inl (InvalidConfig ''provider URL must use HTTP(S) without fragment'')
       else Inr ())"

definition validate_terra_chain_id :: "ustring \<Rightarrow> run_mode \<Rightarrow> unit ledger_result" where
  "validate_terra_chain_id chain mode =
     (if chain = [] \<or> str_len chain > 64
         \<or> \<not> list_all (\<lambda>b. is_alnum b \<or> b = 45 \<or> b = 95) chain
         \<or> (mode = Prod \<and> chain \<noteq> str ''columbus-5'')
      then Inl (InvalidConfig ''prod TERRA_CHAIN_ID must be columbus-5; dev chain ID must be explicit and valid'')
      else Inr ())"

definition parse_run_mode :: "ustring option \<Rightarrow> run_mode ledger_result" where
  "parse_run_mode v =
     (let m = lower (case v of None \<Rightarrow> str ''dev'' | Some s \<Rightarrow> s) in
      if m = str ''prod'' \<or> m = str ''production'' then Inr Prod
      else if m = str ''dev'' \<or> m = str ''development'' then Inr Dev
      else Inl (InvalidConfig ''RUN_MODE must be dev or prod''))"

text \<open>\<open>parse::<u64>\<close>: an optional plus sign, digits, no overflow.\<close>

definition parse_u64 :: "ustring \<Rightarrow> nat option" where
  "parse_u64 s =
     (let d = (case s of [] \<Rightarrow> [] | c # r \<Rightarrow> if c = 43 then r else s) in
      case parse_digits d of
        None \<Rightarrow> None
      | Some n \<Rightarrow> if n < 2 ^ 64 then Some (nat n) else None)"

definition parse_poll_interval :: "ustring option \<Rightarrow> nat ledger_result" where
  "parse_poll_interval v = (case v of
       None \<Rightarrow> Inr 4000
     | Some raw \<Rightarrow>
         (case parse_u64 raw of
            Some n \<Rightarrow> if 100 \<le> n \<and> n \<le> 60000 then Inr n
                      else Inl (InvalidConfig ''POLL_INTERVAL_MS must be 100..60000'')
          | None \<Rightarrow> Inl (InvalidConfig ''POLL_INTERVAL_MS must be 100..60000'')))"

definition nonblank_or :: "ustring option \<Rightarrow> ustring \<Rightarrow> ustring" where
  "nonblank_or v d = (case v of None \<Rightarrow> d | Some s \<Rightarrow> if trim s = [] then d else s)"

definition env_or :: "environment \<Rightarrow> string \<Rightarrow> string \<Rightarrow> ustring" where
  "env_or env k1 k2 = (case env k1 of Some s \<Rightarrow> s | None \<Rightarrow> (case env k2 of Some s \<Rightarrow> s | None \<Rightarrow> []))"

definition from_env :: "url_parser \<Rightarrow> environment \<Rightarrow> ledger_config ledger_result" where
  "from_env url_parse env =
     bindR (parse_run_mode (env ''RUN_MODE'')) (\<lambda>mode.
     bindR (require_env env ''DATABASE_URL'') (\<lambda>db_url.
     let chain_id = (case env ''TERRA_CHAIN_ID'' of None \<Rightarrow> str ''columbus-5'' | Some s \<Rightarrow> s) in
     bindR (validate_terra_chain_id chain_id mode) (\<lambda>_.
     let token = normalize_terra_addr (nonblank_or (env ''CL8Y_TOKEN_ADDRESS'') DEFAULT_CL8Y_CW20) in
     if token = [] \<or> \<not> starts_with (str ''terra1'') token
     then Inl (InvalidConfig ''CL8Y_TOKEN_ADDRESS must be a terra1 CW20 address'')
     else
     bindR (normalize_evm_addr (nonblank_or (env ''BSC_CL8Y_TOKEN_ADDRESS'') DEFAULT_CL8Y_BEP20)) (\<lambda>bsc_token.
     let lcds = split_urls (env_or env ''TERRA_LCD_URL'' ''LCD_URLS'');
         terra_rpcs = split_urls (env_or env ''TERRA_RPC_URLS'' ''TERRA_RPC_URL'');
         bsc_rpcs = split_urls (case env ''BSC_RPC_URLS'' of Some s \<Rightarrow> s | None \<Rightarrow> []) in
     bindR (mapR (validate_provider_url url_parse) (lcds @ bsc_rpcs @ terra_rpcs)) (\<lambda>_.
     if mode = Prod \<and> lcds = [] then Inl (InvalidConfig ''prod requires TERRA_LCD_URL / LCD_URLS'')
     else if mode = Prod \<and> bsc_rpcs = []
       then Inl (InvalidConfig ''prod voting requires BSC_RPC_URLS (BSC is core electorate)'')
     else
     bindR (parse_poll_interval (env ''POLL_INTERVAL_MS'')) (\<lambda>poll.
     Inr \<lparr>database_url = db_url, terra_lcd_urls = lcds, terra_chain_id = chain_id,
          terra_rpc_urls = terra_rpcs, cl8y_token_address = token,
          bsc_cl8y_token_address = bsc_token, bsc_rpc_urls = bsc_rpcs, run_mode = mode,
          api_bind = (case env ''API_BIND'' of Some s \<Rightarrow> s | None \<Rightarrow> str ''0.0.0.0:3001''),
          poll_interval_ms = poll\<rparr>))))))"

definition bsc_enabled :: "ledger_config \<Rightarrow> bool" where
  "bsc_enabled cfg \<longleftrightarrow> bsc_rpc_urls cfg \<noteq> []"

text \<open>What a configuration that starts the worker promises to the rest of the ledger.\<close>

definition config_ok :: "url_parser \<Rightarrow> ledger_config \<Rightarrow> bool" where
  "config_ok url_parse cfg \<longleftrightarrow>
     normalize_evm_addr (bsc_cl8y_token_address cfg) = Inr (bsc_cl8y_token_address cfg)
     \<and> normalize_terra_addr (cl8y_token_address cfg) = cl8y_token_address cfg
     \<and> starts_with (str ''terra1'') (cl8y_token_address cfg)
     \<and> 100 \<le> poll_interval_ms cfg \<and> poll_interval_ms cfg \<le> 60000
     \<and> (\<forall>u\<in>set (terra_lcd_urls cfg @ bsc_rpc_urls cfg @ terra_rpc_urls cfg).
          validate_provider_url url_parse u = Inr ())
     \<and> (run_mode cfg = Prod \<longrightarrow>
          terra_chain_id cfg = str ''columbus-5'' \<and> terra_lcd_urls cfg \<noteq> [] \<and> bsc_enabled cfg)"

lemma mapR_unit: "mapR f xs = Inr ys \<Longrightarrow> \<forall>x\<in>set xs. f x = Inr (() :: unit)"
  by (induction xs arbitrary: ys) (auto simp: result_iff)

lemma parse_poll_interval_range: "parse_poll_interval v = Inr n \<Longrightarrow> 100 \<le> n \<and> n \<le> 60000"
  by (auto simp: parse_poll_interval_def split: option.splits if_splits)

lemma validate_terra_chain_id_prod:
  "validate_terra_chain_id c Prod = Inr u \<Longrightarrow> c = str ''columbus-5''"
  by (auto simp: validate_terra_chain_id_def split: if_splits)

text \<open>
  Every configuration \<open>from_env\<close> returns has normalised token addresses, a poll interval of
  100 to 60000 ms and only HTTP(S) provider URLs without fragment; in production it is pinned to
  \<open>columbus-5\<close> and has at least one provider for each of the two chains.
\<close>

theorem from_env_config_ok:
  assumes "from_env url_parse env = Inr cfg"
  shows "config_ok url_parse cfg"
  using assms unfolding from_env_def Let_def
  apply (clarsimp simp only: result_iff)
  apply (clarsimp simp: config_ok_def bsc_enabled_def normalize_evm_addr_idem simp del: Ball_def)
  apply (drule parse_poll_interval_range, drule mapR_unit)
  apply (force dest: validate_terra_chain_id_prod)
  done

theorem from_env_config_ok_witness:
  "\<exists>cfg. from_env (\<lambda>_. Some (str ''https'', True, False))
       [''RUN_MODE'' \<mapsto> str ''prod'', ''DATABASE_URL'' \<mapsto> str ''postgres'', ''LCD_URLS'' \<mapsto> str ''https://a'',
        ''BSC_RPC_URLS'' \<mapsto> str ''https://b''] = Inr cfg
     \<and> config_ok (\<lambda>_. Some (str ''https'', True, False)) cfg"
proof -
  let ?u = "\<lambda>_ :: ustring. Some (str ''https'', True, False)"
  let ?env = "[''RUN_MODE'' \<mapsto> str ''prod'', ''DATABASE_URL'' \<mapsto> str ''postgres'',
     ''LCD_URLS'' \<mapsto> str ''https://a'', ''BSC_RPC_URLS'' \<mapsto> str ''https://b'']"
  have "\<not> isl (from_env ?u ?env)"
    by code_simp
  then obtain cfg where cfg: "from_env ?u ?env = Inr cfg"
    by (cases "from_env ?u ?env") auto
  with from_env_config_ok [OF cfg] show ?thesis
    by blast
qed

end
