(* ===== verification/VotingError.thy ===== *)
theory VotingError
  imports Address
begin

text \<open>
  The error type of the voting API and its HTTP responses (\<open>operator-voting/src/error.rs\<close>).
  As in the ledger's error type, a message built with \<open>format!\<close> keeps its static text; the
  theorem at the end is the reason that loses nothing a client could see.
\<close>

datatype voting_error =
    VMissingEnv string
  | VInvalidConfig string
  | VBadRequest string
  | VUnauthorized string
  | VForbidden string
  | VNotFound string
  | VConflict string
  | VRateLimited nat
  | VDatabase sqlx_error
  | VMigrate ustring

type_synonym 'a voting_result = "voting_error + 'a"

record http_response =
  rs_status :: nat
  rs_code :: string
  rs_error :: string
  rs_retry_after :: "nat option"

definition error_status :: "voting_error \<Rightarrow> nat" where
  "error_status e = (case e of
       VBadRequest _ \<Rightarrow> 400 | VInvalidConfig _ \<Rightarrow> 400
     | VUnauthorized _ \<Rightarrow> 401
     | VForbidden _ \<Rightarrow> 403
     | VNotFound _ \<Rightarrow> 404
     | VConflict _ \<Rightarrow> 409
     | VRateLimited _ \<Rightarrow> 429
     | VMissingEnv _ \<Rightarrow> 500 | VDatabase _ \<Rightarrow> 500 | VMigrate _ \<Rightarrow> 500)"

definition error_text :: "voting_error \<Rightarrow> string \<times> string" where
  "error_text e = (case e of
       VRateLimited _ \<Rightarrow> (''rate_limited'', ''rate limited'')
     | VBadRequest _ \<Rightarrow> (''bad_request'', ''invalid request'')
     | VInvalidConfig _ \<Rightarrow> (''configuration_error'', ''service configuration error'')
     | VMissingEnv _ \<Rightarrow> (''configuration_error'', ''service configuration error'')
     | VUnauthorized _ \<Rightarrow> (''unauthorized'', ''signature or authentication invalid'')
     | VForbidden _ \<Rightarrow> (''forbidden'', ''action not permitted'')
     | VNotFound _ \<Rightarrow> (''not_found'', ''resource not found'')
     | VConflict _ \<Rightarrow> (''conflict'', ''state changed; reload before signing again'')
     | VDatabase _ \<Rightarrow> (''internal_error'', ''service temporarily unavailable'')
     | VMigrate _ \<Rightarrow> (''internal_error'', ''service temporarily unavailable''))"

definition into_response :: "voting_error \<Rightarrow> http_response" where
  "into_response e =
     \<lparr>rs_status = error_status e, rs_code = fst (error_text e), rs_error = snd (error_text e),
      rs_retry_after = (case e of VRateLimited wait \<Rightarrow> Some wait | _ \<Rightarrow> None)\<rparr>"

text \<open>The variant of an error, without its payload.\<close>

definition erase :: "voting_error \<Rightarrow> voting_error" where
  "erase e = (case e of
       VMissingEnv _ \<Rightarrow> VMissingEnv [] | VInvalidConfig _ \<Rightarrow> VInvalidConfig [] | VBadRequest _ \<Rightarrow> VBadRequest []
     | VUnauthorized _ \<Rightarrow> VUnauthorized [] | VForbidden _ \<Rightarrow> VForbidden [] | VNotFound _ \<Rightarrow> VNotFound []
     | VConflict _ \<Rightarrow> VConflict [] | VRateLimited wait \<Rightarrow> VRateLimited wait
     | VDatabase _ \<Rightarrow> VDatabase SqlxRowNotFound | VMigrate _ \<Rightarrow> VMigrate [])"

text \<open>
  A response never depends on the payload of an error, so no database diagnostic, request text or
  address reaches a client; every error is a 4xx or 5xx, only a rate limit carries a
  \<open>Retry-After\<close>, and an internal error is not distinguishable from another one of its status
  by anything but its fixed code.
\<close>

theorem into_response_opaque:
  "into_response e = into_response (erase e)
   \<and> rs_status (into_response e) \<in> {400, 401, 403, 404, 409, 429, 500}
   \<and> (rs_retry_after (into_response e) = None) = (rs_status (into_response e) \<noteq> 429)"
  by (cases e) (simp_all add: into_response_def error_status_def error_text_def erase_def)

end
