(* ===== verification/WalletList.thy ===== *)
theory WalletList
  imports VotingError
begin

text \<open>
  Wallet lists and balance queries of the voting API (\<open>operator-voting/src/blacklist.rs\<close>,
  \<open>balance_query.rs\<close>): the address normal form the API compares and stores, the parser of the
  blacklist and of the committee, the chain an address belongs to and the height a balance is read
  at.
\<close>

section \<open>Addresses and lists\<close>

definition has_0x :: "ustring \<Rightarrow> bool" where
  "has_0x s \<longleftrightarrow> starts_with (str ''0x'') s \<or> starts_with (str ''0X'') s"

definition normalize_address :: "ustring \<Rightarrow> ustring" where
  "normalize_address raw =
     (let trimmed = trim raw in
      if has_0x trimmed then str ''0x'' @ lower (drop 2 trimmed) else lower trimmed)"

text \<open>The hash set of addresses is a list without regard to order and repetition.\<close>

definition list_contains :: "ustring list \<Rightarrow> ustring \<Rightarrow> bool" where
  "list_contains addrs address \<longleftrightarrow> normalize_address address \<in> set addrs"

fun add_addresses :: "ustring list \<Rightarrow> ustring list \<Rightarrow> ustring list voting_result" where
  "add_addresses [] addrs = Inr addrs"
| "add_addresses (part # parts) addrs =
     (let item = trim part in
      if item = [] then add_addresses parts addrs
      else if has_0x item
      then (if str_len (drop 2 item) \<noteq> 40 \<or> \<not> list_all is_hexdigit (drop 2 item)
            then Inl (VInvalidConfig ''invalid EVM address'')
            else add_addresses parts (normalize_address item # addrs))
      else if 49 \<in> set item then add_addresses parts (normalize_address item # addrs)
      else Inl (VInvalidConfig ''invalid address''))"

definition parse_address_list :: "ustring \<Rightarrow> ustring list voting_result" where
  "parse_address_list raw = add_addresses (split_on 44 raw) []"

definition parse_blacklist :: "ustring \<Rightarrow> ustring list voting_result" where
  "parse_blacklist raw = parse_address_list raw"

definition parse_committee :: "ustring \<Rightarrow> ustring list voting_result" where
  "parse_committee raw = parse_address_list raw"

section \<open>Balance queries\<close>

definition infer_chain :: "ustring \<Rightarrow> ustring" where
  "infer_chain addr = (if has_0x (trim addr) then str ''bsc'' else str ''terra'')"

definition resolve_chain :: "ustring \<Rightarrow> ustring option \<Rightarrow> ustring voting_result" where
  "resolve_chain addr requested =
     (let inferred = infer_chain addr in
      case (case map_option trim requested of Some s \<Rightarrow> if s = [] then None else Some s | None \<Rightarrow> None) of
        None \<Rightarrow> Inr inferred
      | Some raw \<Rightarrow>
          (let wanted = lower raw in
           if wanted \<noteq> str ''terra'' \<and> wanted \<noteq> str ''bsc''
           then Inl (VBadRequest ''unsupported chain; use terra or bsc'')
           else if wanted \<noteq> inferred
           then Inl (VBadRequest ''chain query does not match address; refusing cross-chain sum'')
           else Inr inferred))"

definition resolve_balance_height :: "int option \<Rightarrow> int \<Rightarrow> int option \<Rightarrow> int" where
  "resolve_balance_height explicit tip registered_at =
     (case explicit of Some h \<Rightarrow> h
      | None \<Rightarrow> (case registered_at of Some reg \<Rightarrow> max tip reg | None \<Rightarrow> tip))"

definition freeze_heights :: "ustring \<Rightarrow> int \<Rightarrow> int \<Rightarrow> int \<Rightarrow> int \<times> int" where
  "freeze_heights chain terra_tip bsc_tip registered_at =
     (if chain = str ''terra'' then (max terra_tip registered_at, bsc_tip)
      else if chain = str ''bsc'' then (terra_tip, max bsc_tip registered_at)
      else (terra_tip, bsc_tip))"

section \<open>The normal form\<close>

lemma has_0x_cases: "has_0x s \<longleftrightarrow> (\<exists>r. s = 48 # 120 # r \<or> s = 48 # 88 # r)"
  by (auto simp: has_0x_def starts_with_def strip_prefix_Some str_def)

lemma normalize_address_lower: "normalize_address raw = lower (trim raw)"
  by (auto simp: normalize_address_def Let_def has_0x_cases str_def lower_char_def)

lemma normalize_address_idem [simp]: "normalize_address (normalize_address raw) = normalize_address raw"
  by (simp add: normalize_address_lower trim_lower)

lemma normalize_address_trim: "normalize_address (trim raw) = normalize_address raw"
  by (simp add: normalize_address_lower)

interpretation address: normalizer "\<lambda>raw. Inr (normalize_address raw) :: ustring voting_result"
  by unfold_locales simp

lemma normalize_address_terra: "normalize_address raw = normalize_terra_addr raw"
  by (simp add: normalize_address_lower normalize_terra_addr_def)

lemma infer_chain_normal [simp]: "infer_chain (normalize_address a) = infer_chain a"
proof -
  have "has_0x (lower s) = has_0x s" for s
  proof (cases "\<exists>a b r. s = a # b # r")
    case True
    then obtain a b r where "s = a # b # r" by blast
    then show ?thesis by (auto simp: has_0x_cases lower_char_def)
  next
    case False
    then have "s = [] \<or> (\<exists>a. s = [a])" by (metis neq_Nil_conv)
    then show ?thesis by (auto simp: has_0x_cases)
  qed
  then show ?thesis
    by (simp add: infer_chain_def normalize_address_lower trim_lower)
qed

text \<open>The items of a list text that the parser looks at.\<close>

definition list_items :: "ustring \<Rightarrow> ustring list" where
  "list_items raw = filter (\<lambda>s. s \<noteq> []) (map trim (split_on 44 raw))"

definition item_ok :: "ustring \<Rightarrow> bool" where
  "item_ok item \<longleftrightarrow> (if has_0x item then length item = 42 \<and> list_all is_hexdigit (drop 2 item) else 49 \<in> set item)"

lemma hex_part_length:
  "list_all is_hexdigit h \<Longrightarrow> str_len h = length h"
  by (rule str_len_ascii) (auto simp: list_all_iff hexdigit_ascii)

lemma has_0x_length: "has_0x s \<Longrightarrow> length s = 42 \<longleftrightarrow> length (drop 2 s) = 40"
  by (auto simp: has_0x_cases)

lemma add_addresses_iff:
  "add_addresses parts addrs = Inr out \<longleftrightarrow>
     list_all item_ok (filter (\<lambda>s. s \<noteq> []) (map trim parts))
     \<and> out = rev (map normalize_address (filter (\<lambda>s. s \<noteq> []) (map trim parts))) @ addrs"
proof (induction parts addrs rule: add_addresses.induct)
  case (2 part parts addrs)
  show ?case
  proof (cases "trim part = []")
    case True
    then show ?thesis using 2(1) by simp
  next
    case nonempty: False
    show ?thesis
    proof (cases "has_0x (trim part)")
      case True
      have ok: "item_ok (trim part) \<longleftrightarrow> \<not> (str_len (drop 2 (trim part)) \<noteq> 40 \<or> \<not> list_all is_hexdigit (drop 2 (trim part)))"
        using True has_0x_length [OF True] hex_part_length [of "drop 2 (trim part)"] by (auto simp: item_ok_def)
      show ?thesis
        using nonempty True ok 2(2) [OF refl nonempty True] by (auto simp: Let_def)
    next
      case False
      then show ?thesis
        using nonempty 2(3) by (simp add: Let_def item_ok_def)
    qed
  qed
qed auto

text \<open>
  A wallet list loads exactly when each of its comma-separated entries is a complete EVM address or
  contains the bech32 separator, and it then contains an address, in any letter case and with any
  surrounding blanks, exactly when some entry has the same normal form.
\<close>

theorem parse_address_list_contains:
  "(parse_address_list raw = Inr addrs \<longrightarrow>
     (list_contains addrs a \<longleftrightarrow> (\<exists>item\<in>set (list_items raw). normalize_address item = normalize_address a)))
   \<and> ((\<exists>addrs. parse_address_list raw = Inr addrs) \<longleftrightarrow> list_all item_ok (list_items raw))"
proof -
  have "list_contains (rev (map normalize_address items) @ []) a \<longleftrightarrow> (\<exists>item\<in>set items. normalize_address item = normalize_address a)" for items
    by (simp add: list_contains_def image_iff) metis
  then show ?thesis
    by (simp add: parse_address_list_def add_addresses_iff list_items_def)
qed

theorem parse_address_list_contains_witness:
  "\<exists>addrs. parse_address_list (str '' terra1ABC ,'') = Inr addrs \<and> list_contains addrs (str ''Terra1abc'')"
proof -
  have run: "parse_address_list (str '' terra1ABC ,'') = Inr [str ''terra1abc'']"
    by code_simp
  have "\<exists>item\<in>set (list_items (str '' terra1ABC ,'')). normalize_address item = normalize_address (str ''Terra1abc'')"
    by code_simp
  with run parse_address_list_contains [of "str '' terra1ABC ,''" "[str ''terra1abc'']" "str ''Terra1abc''"] show ?thesis
    by blast
qed

end
