(* ===== verification/VisibleText.thy ===== *)
theory VisibleText
  imports WalletList
begin

text \<open>
  What a reader sees of a section of HTML (\<open>visible_text\<close> of
  \<open>operator-voting/src/proposal_sections.rs\<close>): tags are stripped, a small set of entities is
  decoded, zero-width characters are dropped and white space is collapsed. The minimum length of
  every section is counted on this text. The main theorem states the result through its words.
\<close>

section \<open>The code\<close>

fun strip_tags_from :: "bool \<Rightarrow> ustring \<Rightarrow> ustring" where
  "strip_tags_from in_tag [] = []"
| "strip_tags_from in_tag (c # s) =
     (if c = 60 then strip_tags_from True s
      else if c = 62 then strip_tags_from False s
      else if \<not> in_tag then c # strip_tags_from in_tag s
      else strip_tags_from in_tag s)"

definition strip_tags :: "ustring \<Rightarrow> ustring" where
  "strip_tags html = strip_tags_from False html"

definition is_zero_width :: "nat \<Rightarrow> bool" where
  "is_zero_width c \<longleftrightarrow> c = 0xAD \<or> c = 0x200B \<or> c = 0x200C \<or> c = 0x200D \<or> c = 0x2060 \<or> c = 0xFEFF"

text \<open>\<open>u32::from_str_radix\<close> for radix 10 and 16: an optional plus sign, at least one digit, no
  overflow; and \<open>char::from_u32\<close>.\<close>

definition parse_u32 :: "bool \<Rightarrow> ustring \<Rightarrow> nat option" where
  "parse_u32 hex s =
     (let digits = (case s of c # r \<Rightarrow> if c = 43 then r else s | [] \<Rightarrow> []);
          n = (if hex then hex_digits_val digits else digits_val digits) in
      if digits \<noteq> [] \<and> list_all (if hex then is_hexdigit else is_digit) digits \<and> n < 2 ^ 32 then Some n else None)"

definition char_from_u32 :: "nat \<Rightarrow> nat option" where
  "char_from_u32 n = (if n < 0xD800 \<or> (0xE000 \<le> n \<and> n \<le> 0x10FFFF) then Some n else None)"

definition named_entities :: "(ustring \<times> nat) list" where
  "named_entities = [(str ''nbsp;'', 0xA0), (str ''amp;'', 38), (str ''lt;'', 60), (str ''gt;'', 62),
     (str ''quot;'', 34), (str ''apos;'', 39)]"

text \<open>The text is what follows an ampersand; the result holds the number of characters consumed.\<close>

definition numeric_entity :: "bool \<Rightarrow> ustring \<Rightarrow> (nat \<times> nat) option" where
  "numeric_entity hex s =
     (let digits_start = (if hex then 2 else 1);
          rest = drop digits_start s;
          num_str = takeWhile (\<lambda>c. c \<noteq> 59) rest in
      if 59 \<notin> set rest \<or> num_str = [] then None
      else Option.bind (parse_u32 hex num_str) (\<lambda>num.
           map_option (\<lambda>ch. (ch, digits_start + length num_str + 1)) (char_from_u32 num)))"

definition parse_entity :: "ustring \<Rightarrow> (nat \<times> nat) option" where
  "parse_entity s =
     (if starts_with (str ''#'') s
      then numeric_entity (starts_with (str ''#x'') s \<or> starts_with (str ''#X'') s) s
      else map_option (\<lambda>(name, ch). (ch, length name)) (List.find (\<lambda>(name, ch). starts_with name s) named_entities))"

function decode_entities :: "ustring \<Rightarrow> ustring" where
  "decode_entities [] = []"
| "decode_entities (c # s) =
     (case (if c = 38 then parse_entity s else None) of
        Some (ch, consumed) \<Rightarrow> ch # decode_entities (drop consumed s)
      | None \<Rightarrow> c # decode_entities s)"
  by pat_completeness auto
termination by (relation "measure length") auto

fun collapse :: "bool \<Rightarrow> ustring \<Rightarrow> ustring" where
  "collapse prev_space [] = []"
| "collapse prev_space (c # s) =
     (if is_zero_width c then collapse prev_space s
      else if is_ws c then (if \<not> prev_space then 32 # collapse True s else collapse prev_space s)
      else c # collapse False s)"

definition drop_last_space :: "ustring \<Rightarrow> ustring" where
  "drop_last_space buf = (if buf \<noteq> [] \<and> last buf = 32 then butlast buf else buf)"

definition visible_text :: "ustring \<Rightarrow> ustring" where
  "visible_text html = drop_last_space (collapse True (decode_entities (strip_tags html)))"

definition visible_len :: "ustring \<Rightarrow> nat" where
  "visible_len html = length (visible_text html)"

section \<open>The reference: the words of a text\<close>

fun split_ws :: "ustring \<Rightarrow> ustring list" where
  "split_ws [] = [[]]"
| "split_ws (c # s) = (if is_ws c then [] # split_ws s else (c # hd (split_ws s)) # tl (split_ws s))"

definition words_of :: "ustring \<Rightarrow> ustring list" where
  "words_of s = filter (\<lambda>w. w \<noteq> []) (split_ws s)"

fun join_words :: "ustring list \<Rightarrow> ustring" where
  "join_words [] = []"
| "join_words [w] = w"
| "join_words (w # ws) = w @ [32] @ join_words ws"

lemma collapse_zero_width: "collapse p s = collapse p (filter (\<lambda>c. \<not> is_zero_width c) s)"
  by (induction p s rule: collapse.induct) auto

lemma collapse_True_hd: "collapse True s = [] \<or> \<not> is_ws (hd (collapse True s))"
proof -
  have "p \<Longrightarrow> collapse p s = [] \<or> \<not> is_ws (hd (collapse p s))" for p
    by (induction p s rule: collapse.induct) auto
  then show ?thesis by simp
qed

lemma is_ws_space [simp]: "is_ws 32"
  by (simp add: is_ws_def)

lemma drop_last_space_Cons: "t \<noteq> [] \<Longrightarrow> drop_last_space (c # t) = c # drop_last_space t"
  by (simp add: drop_last_space_def)

lemma drop_last_space_single: "\<not> is_ws c \<Longrightarrow> drop_last_space [c] = [c]"
  by (auto simp: drop_last_space_def)

lemma drop_last_space_Nil: "drop_last_space t = [] \<Longrightarrow> t = [] \<or> is_ws (hd t)"
  by (cases t) (auto simp: drop_last_space_def split: if_splits)

lemma split_ws_not_Nil [simp]: "split_ws s \<noteq> []"
  by (cases s) auto

lemma join_words_Nil: "join_words (filter (\<lambda>w. w \<noteq> []) ws) = [] \<longleftrightarrow> filter (\<lambda>w. w \<noteq> []) ws = []"
  by (cases "filter (\<lambda>w. w \<noteq> []) ws" rule: join_words.cases) (auto dest: filter_eq_ConsD)

lemma join_words_Cons: "join_words (w # ws) = (if ws = [] then w else w @ 32 # join_words ws)"
  by (cases ws) auto

lemma collapse_words:
  assumes "list_all (\<lambda>c. \<not> is_zero_width c) s"
  shows "drop_last_space (collapse True s) = join_words (words_of s)"
    and "\<not> is_ws c \<Longrightarrow> drop_last_space (c # collapse False s) =
           join_words ((c # hd (split_ws s)) # filter (\<lambda>w. w \<noteq> []) (tl (split_ws s)))"
  using assms
proof (induction s arbitrary: c)
  case Nil
  case 1
  show ?case by (simp add: words_of_def drop_last_space_def)
  case 2
  then show ?case by (simp add: drop_last_space_single)
next
  case (Cons d s)
  case 1
  then show ?case
  proof (cases "is_ws d")
    case True
    with 1 Cons.IH(1) show ?thesis by (simp add: words_of_def)
  next
    case False
    with 1 Cons.IH(2) [of d] show ?thesis by (simp add: words_of_def)
  qed
  case 2
  show ?case
  proof (cases "is_ws d")
    case True
    have rest: "drop_last_space (collapse True s) = join_words (filter (\<lambda>w. w \<noteq> []) (split_ws s))"
      using 2 Cons.IH(1) by (simp add: words_of_def)
    show ?thesis
    proof (cases "collapse True s = []")
      case empty: True
      then have "filter (\<lambda>w. w \<noteq> []) (split_ws s) = []"
        using rest join_words_Nil [of "split_ws s"] by (simp add: drop_last_space_def)
      with True empty 2 show ?thesis by (simp add: drop_last_space_def)
    next
      case False
      then have "drop_last_space (collapse True s) \<noteq> []"
        using drop_last_space_Nil [of "collapse True s"] collapse_True_hd [of s] by blast
      then have "filter (\<lambda>w. w \<noteq> []) (split_ws s) \<noteq> []"
        unfolding rest join_words_Nil .
      with True False 2 rest show ?thesis
        by (simp add: drop_last_space_Cons join_words_Cons)
    qed
  next
    case False
    with 2 Cons.IH(2) [of d] show ?thesis
      by (simp add: drop_last_space_Cons join_words_Cons)
  qed
qed

text \<open>
  The visible text is the words of the stripped, decoded text without its zero-width characters,
  joined by single spaces. So it has no space at either end and none next to another, no zero-width
  character, and its length counts what a reader sees.
\<close>

theorem visible_text_words:
  "visible_text html =
     join_words (words_of (filter (\<lambda>c. \<not> is_zero_width c) (decode_entities (strip_tags html))))"
proof -
  let ?s = "decode_entities (strip_tags html)"
  have "visible_text html = drop_last_space (collapse True (filter (\<lambda>c. \<not> is_zero_width c) ?s))"
    unfolding visible_text_def by (subst collapse_zero_width) simp
  also have "\<dots> = join_words (words_of (filter (\<lambda>c. \<not> is_zero_width c) ?s))"
    by (rule collapse_words(1)) (simp add: list_all_iff)
  finally show ?thesis .
qed

section \<open>Lengths\<close>

lemma length_strip_tags: "length (strip_tags_from b s) \<le> length s"
  by (induction s arbitrary: b) (auto intro: le_SucI)

lemma length_collapse: "length (collapse p s) \<le> length s"
  by (induction s arbitrary: p) (auto intro: le_SucI)

lemma length_decode: "length (decode_entities s) \<le> length s"
proof (induction s rule: decode_entities.induct)
  case (2 c s)
  show ?case
  proof (cases "if c = 38 then parse_entity s else None")
    case None
    then show ?thesis using 2 by simp
  next
    case (Some r)
    obtain ch consumed where r: "r = (ch, consumed)" by fastforce
    have "length (decode_entities (drop consumed s)) \<le> length (drop consumed s)"
      using 2(2) [OF Some r [symmetric]] by simp
    then show ?thesis using Some r by simp
  qed
qed simp

lemma visible_len_le: "visible_len html \<le> length html"
proof -
  have "length (drop_last_space t) \<le> length t" for t
    by (simp add: drop_last_space_def)
  then show ?thesis
    unfolding visible_len_def visible_text_def strip_tags_def
    using length_collapse length_decode length_strip_tags order_trans by meson
qed

lemma visible_len_Nil [simp]: "visible_len [] = 0"
  by (simp add: visible_len_def visible_text_def strip_tags_def drop_last_space_def)

text \<open>The code's own test cases.\<close>

lemma visible_len_examples:
  "visible_len (str ''<p>&nbsp;</p>'') = 0" "visible_len (str ''<p>&#xA0;</p>'') = 0"
  "visible_len (str ''<p>  hello   world  </p>'') = 11"
  by code_simp+

end
