(* ===== verification/Database.thy ===== *)
theory Database
  imports LedgerError
begin

text \<open>
  The PostgreSQL database shared by the ledger writer and the voting API
  (\<open>ledger/migrations\<close>): one record per table row, with the columns of the final schema,
  and one record \<open>db\<close> for the whole database. Tables are lists of rows in insertion order.
  The CW20 and BEP-20 tables have the same shape and are indexed by the chain
  (\<open>transfers d Terra\<close> is \<open>cl8y_cw20_transfers\<close>, \<open>transfers d Bsc\<close> is
  \<open>cl8y_bep20_transfers\<close>; likewise \<open>balances\<close>). Columns with a \<open>CHECK (... IN ...)\<close>
  constraint are datatypes. UUIDs are natural numbers drawn by the caller.
\<close>

section \<open>Column types\<close>

datatype chain = Terra | Bsc

definition chain_str :: "chain \<Rightarrow> ustring" where
  "chain_str c = (case c of Terra \<Rightarrow> str ''terra'' | Bsc \<Rightarrow> str ''bsc'')"

definition chain_of_str :: "ustring \<Rightarrow> chain option" where
  "chain_of_str s = (if s = str ''terra'' then Some Terra else if s = str ''bsc'' then Some Bsc else None)"

lemma chain_of_str_chain_str [simp]: "chain_of_str (chain_str c) = Some c"
  by (cases c) (simp_all add: chain_str_def chain_of_str_def)

lemma chain_of_str_Some [simp]: "chain_of_str s = Some c \<longleftrightarrow> s = chain_str c"
  by (cases c) (auto simp: chain_str_def chain_of_str_def)

lemma chain_str_eq [simp]: "chain_str c = chain_str c' \<longleftrightarrow> c = c'"
  by (cases c; cases c') (simp_all add: chain_str_def)

datatype proposal_status = Draft | Open

datatype snapshot_validity = ValidSnapshot | InvalidSnapshot | LegacyUnverified

datatype vote_choice = VoteFor | VoteAgainst | VoteAbstain

datatype json =
    JNull
  | JBool bool
  | JNum int
  | JFloat ustring
  | JStr ustring
  | JArr "json list"
  | JObj "(ustring \<times> json) list"

type_synonym uuid = nat

text \<open>Timestamps are microseconds; \<open>seconds n\<close> is the interval of \<open>n\<close> seconds.\<close>

definition seconds :: "int \<Rightarrow> int" where
  "seconds n = n * 1000000"

section \<open>The ledger's tables\<close>

record registration =
  vr_chain :: chain
  vr_wallet :: ustring
  vr_registered_at :: int
  vr_initial :: int
  vr_status :: ustring
  vr_signature :: "uuid option"
  vr_baseline_height :: "int option"
  vr_baseline_hash :: "ustring option"
  vr_baseline_epoch :: int
  vr_baseline_verified :: bool

definition reg_key :: "registration \<Rightarrow> chain \<times> ustring" where
  "reg_key r = (vr_chain r, vr_wallet r)"

definition is_active :: "registration \<Rightarrow> bool" where
  "is_active r \<longleftrightarrow> vr_status r = str ''active''"

text \<open>\<open>COALESCE(baseline_height, registered_at_height)\<close>.\<close>

definition baseline_of :: "registration \<Rightarrow> int" where
  "baseline_of r = (case vr_baseline_height r of Some h \<Rightarrow> h | None \<Rightarrow> vr_registered_at r)"

record transfer_row =
  tr_height :: int
  tr_tx_hash :: ustring
  tr_index :: int
  tr_from :: ustring
  tr_to :: ustring
  tr_amount :: int
  tr_action :: ustring

definition tr_key :: "transfer_row \<Rightarrow> ustring \<times> int" where
  "tr_key t = (tr_tx_hash t, tr_index t)"

record balance_row =
  bl_wallet :: ustring
  bl_height :: int
  bl_balance :: int

definition bal_key :: "balance_row \<Rightarrow> ustring \<times> int" where
  "bal_key b = (bl_wallet b, bl_height b)"

record checkpoint =
  cp_height :: int
  cp_hash :: ustring
  cp_observed_at :: "int option"
  cp_epoch :: int
  cp_complete :: bool
  cp_canonical :: bool
  cp_degraded :: "ustring option"
  cp_network_tip :: int

record canonical_block =
  cb_chain :: chain
  cb_height :: int
  cb_hash :: ustring

definition cb_key :: "canonical_block \<Rightarrow> chain \<times> int" where
  "cb_key b = (cb_chain b, cb_height b)"

record state_row =
  st_key :: ustring
  st_value :: ustring
  st_updated_at :: int

section \<open>The voting tables\<close>

record intent_row =
  in_id :: uuid
  in_chain :: chain
  in_wallet :: ustring
  in_signature :: uuid
  in_created_at :: int
  in_processed_at :: "int option"
  in_last_attempt_at :: "int option"
  in_retry_after :: "int option"
  in_attempts :: int
  in_last_error :: "ustring option"

definition intent_key :: "intent_row \<Rightarrow> chain \<times> ustring" where
  "intent_key i = (in_chain i, in_wallet i)"

record signature_row =
  sg_id :: uuid
  sg_chain :: chain
  sg_wallet :: ustring
  sg_pubkey :: "ustring option"
  sg_signature :: ustring
  sg_payload_hash :: ustring
  sg_purpose :: ustring
  sg_created_at :: int
  sg_signed_payload :: "ustring option"
  sg_scheme :: "ustring option"
  sg_domain :: "ustring option"
  sg_nonce :: "ustring option"
  sg_proposal :: "uuid option"
  sg_revision :: "int option"

record proposal_row =
  pr_id :: uuid
  pr_chain :: chain
  pr_proposer :: ustring
  pr_title :: ustring
  pr_body_html :: ustring
  pr_body_canonical :: ustring
  pr_body_sections :: "json option"
  pr_terra_height :: "int option"
  pr_bsc_block :: "int option"
  pr_created_at :: int
  pr_status :: proposal_status
  pr_opened_at :: "int option"
  pr_revision :: int
  pr_validity :: snapshot_validity
  pr_incident :: "ustring option"
  pr_terra_hash :: "ustring option"
  pr_bsc_hash :: "ustring option"
  pr_terra_epoch :: "int option"
  pr_bsc_epoch :: "int option"

record snapshot_row =
  sn_proposal :: uuid
  sn_chain :: chain
  sn_wallet :: ustring
  sn_weight :: int

definition sn_key :: "snapshot_row \<Rightarrow> uuid \<times> chain \<times> ustring" where
  "sn_key s = (sn_proposal s, sn_chain s, sn_wallet s)"

record vote_row =
  vt_proposal :: uuid
  vt_wallet :: ustring
  vt_chain :: chain
  vt_choice :: vote_choice
  vt_weight :: int
  vt_signature :: uuid
  vt_created_at :: int

definition vt_key :: "vote_row \<Rightarrow> uuid \<times> chain \<times> ustring" where
  "vt_key v = (vt_proposal v, vt_chain v, vt_wallet v)"

record comment_row =
  cm_id :: uuid
  cm_proposal :: uuid
  cm_chain :: chain
  cm_wallet :: ustring
  cm_body_html :: ustring
  cm_signature :: uuid
  cm_created_at :: int

record analysis_row =
  an_id :: uuid
  an_proposal :: uuid
  an_chain :: chain
  an_wallet :: ustring
  an_sections :: json
  an_body_html :: ustring
  an_source :: ustring
  an_signature :: uuid
  an_created_at :: int
  an_revision :: "int option"

record receipt_row =
  rc_signature :: uuid
  rc_proposal :: "uuid option"
  rc_revision :: "int option"
  rc_response :: json
  rc_content :: "json option"
  rc_accepted_at :: int

record revision_row =
  rv_proposal :: uuid
  rv_revision :: int
  rv_title :: ustring
  rv_body_canonical :: ustring
  rv_body_sections :: "json option"
  rv_signature :: "uuid option"
  rv_recorded_at :: int

definition rv_key :: "revision_row \<Rightarrow> uuid \<times> int" where
  "rv_key r = (rv_proposal r, rv_revision r)"

section \<open>The database\<close>

record db =
  registrations :: "registration list"
  transfers :: "chain \<Rightarrow> transfer_row list"
  balances :: "chain \<Rightarrow> balance_row list"
  checkpoints :: "chain \<Rightarrow> checkpoint option"
  canonical_blocks :: "canonical_block list"
  indexer_state :: "state_row list"
  intents :: "intent_row list"
  signatures :: "signature_row list"
  proposals :: "proposal_row list"
  snapshots :: "snapshot_row list"
  votes :: "vote_row list"
  comments :: "comment_row list"
  analyses :: "analysis_row list"
  receipts :: "receipt_row list"
  revisions :: "revision_row list"

text \<open>A freshly migrated database: only the seed rows of the first migration.\<close>

definition initial_db :: db where
  "initial_db = \<lparr>registrations = [], transfers = (\<lambda>_. []), balances = (\<lambda>_. []),
     checkpoints = (\<lambda>_. None), canonical_blocks = [],
     indexer_state =
       [\<lparr>st_key = str ''last_indexed_height'', st_value = str ''0'', st_updated_at = 0\<rparr>,
        \<lparr>st_key = str ''last_indexed_block_hash'', st_value = [], st_updated_at = 0\<rparr>,
        \<lparr>st_key = str ''last_indexed_bsc_block'', st_value = str ''0'', st_updated_at = 0\<rparr>,
        \<lparr>st_key = str ''indexer_version'', st_value = str ''1.0.0'', st_updated_at = 0\<rparr>],
     intents = [], signatures = [], proposals = [], snapshots = [], votes = [], comments = [],
     analyses = [], receipts = [], revisions = []\<rparr>"

text \<open>Errors of the database itself, by SQLSTATE.\<close>

definition unique_violation :: sqlx_error where
  "unique_violation = SqlxDatabase (Some (str ''23505'')) []"

definition numeric_out_of_range :: sqlx_error where
  "numeric_out_of_range = SqlxDatabase (Some (str ''22003'')) []"

text \<open>\<open>NUMERIC(78, 0)\<close>.\<close>

definition numeric78 :: "int \<Rightarrow> bool" where
  "numeric78 n \<longleftrightarrow> \<bar>n\<bar> < 10 ^ 78"

text \<open>SQL \<open>trim\<close> removes spaces only.\<close>

definition sql_trim :: "ustring \<Rightarrow> ustring" where
  "sql_trim s = trim_by (\<lambda>c. c = 32) s"

lemma sql_trim_trimmed: "trim s = s \<Longrightarrow> sql_trim s = s"
proof -
  assume t: "trim s = s"
  have "s = [] \<or> \<not> is_ws (hd s) \<and> \<not> is_ws (last s)"
    using trim_by_ends [of is_ws s] t by (auto simp: trim_def)
  then show ?thesis
    unfolding sql_trim_def by (intro trim_by_id) (auto simp: is_ws_def)
qed

end
