(* ===== verification/Json.thy ===== *)
theory Json
  imports Database
begin

text \<open>
  JSON access as \<open>serde_json::Value\<close> has it: an object is the list of its members, whose keys
  are distinct once it is a \<open>Value\<close>; numbers are integers, and a number with a fraction or
  an exponent, which no code path reads, keeps its text (\<open>JFloat\<close>).
\<close>

fun jget :: "json \<Rightarrow> string \<Rightarrow> json option" where
  "jget (JObj kvs) key = map_of kvs (str key)"
| "jget _ key = None"

fun as_str :: "json \<Rightarrow> ustring option" where
  "as_str (JStr s) = Some s"
| "as_str _ = None"

fun as_array :: "json \<Rightarrow> json list option" where
  "as_array (JArr xs) = Some xs"
| "as_array _ = None"

fun as_bool :: "json \<Rightarrow> bool option" where
  "as_bool (JBool b) = Some b"
| "as_bool _ = None"

fun as_i64 :: "json \<Rightarrow> int option" where
  "as_i64 (JNum n) = checked_i64 n"
| "as_i64 _ = None"

fun as_object :: "json \<Rightarrow> (ustring \<times> json) list option" where
  "as_object (JObj kvs) = Some kvs"
| "as_object _ = None"

text \<open>\<open>value["key"]\<close>: null when absent.\<close>

definition jidx :: "json \<Rightarrow> string \<Rightarrow> json" where
  "jidx v key = (case jget v key of Some x \<Rightarrow> x | None \<Rightarrow> JNull)"

definition jget_str :: "json \<Rightarrow> string \<Rightarrow> ustring option" where
  "jget_str v key = Option.bind (jget v key) as_str"

end
