(* ===== verification/Sections.thy ===== *)
theory Sections
  imports VisibleText Json
begin

text \<open>
  Structured proposal bodies and analyses (\<open>operator-voting/src/proposal_sections.rs\<close>). The HTML
  sanitizer (\<open>ammonia\<close>), the JSON printer (\<open>serde_json\<close>) and SHA-256 are parameters. The
  theorems state exactly which bodies are accepted and with what result, and when the stored form of
  an accepted body is accepted again, which amending and opening a proposal depend on.
\<close>

record text_lib =
  sanitize_html :: "ustring \<Rightarrow> ustring"
  json_text :: "json \<Rightarrow> ustring"
  sha256_hex :: "ustring \<Rightarrow> ustring"

definition body_hash :: "text_lib \<Rightarrow> ustring \<Rightarrow> ustring" where
  "body_hash lib canonical_body = sha256_hex lib canonical_body"

definition MAX_BODY_BYTES :: nat where "MAX_BODY_BYTES = 64 * 1024"
definition MIN_SECTION_VISIBLE_CHARS :: nat where "MIN_SECTION_VISIBLE_CHARS = 40"
definition MAX_SUMMARY_VISIBLE_CHARS :: nat where "MAX_SUMMARY_VISIBLE_CHARS = 500"

definition SECTION_KEYS_SORTED :: "string list" where
  "SECTION_KEYS_SORTED = [''context'', ''problem'', ''pros_cons'', ''solution'', ''success_criteria'', ''summary'']"

definition SECTION_DISPLAY_ORDER :: "string list" where
  "SECTION_DISPLAY_ORDER = [''summary'', ''problem'', ''context'', ''solution'', ''pros_cons'', ''success_criteria'']"

definition REQUIRED_SECTION_KEYS :: "string list" where
  "REQUIRED_SECTION_KEYS = [''problem'', ''solution'', ''pros_cons'', ''summary'', ''success_criteria'']"

definition SECTION_LABELS :: "(string \<times> string) list" where
  "SECTION_LABELS =
     [(''summary'', ''Summary (TL;DR)''),
      (''problem'', ''The idea or problem to be solved''),
      (''context'', ''Supporting context, real-world issues, and alternatives''),
      (''solution'', ''Proposed solution and supporting evidence''),
      (''pros_cons'', ''Pros and cons / trade-offs''),
      (''success_criteria'', ''Success criteria / goalposts'')]"

definition section_label :: "string \<Rightarrow> string" where
  "section_label key = (case map_of SECTION_LABELS key of Some l \<Rightarrow> l | None \<Rightarrow> key)"

text \<open>\<open>saturating_add\<close> on \<open>usize\<close>.\<close>

definition sat_usize :: "nat \<Rightarrow> nat \<Rightarrow> nat" where
  "sat_usize a b = min (a + b) (2 ^ 64 - 1)"

section \<open>Proposal sections\<close>

record prepared =
  pp_sanitized :: "(ustring \<times> json) list"
  pp_canonical :: ustring
  pp_hash :: ustring
  pp_html :: ustring

definition submitted_section :: "(ustring \<times> json) list \<Rightarrow> string \<Rightarrow> ustring voting_result" where
  "submitted_section object key =
     (case map_of object (str key) of
        None \<Rightarrow> if key = ''context'' then Inr [] else Inl (VBadRequest ''missing required section'')
      | Some (JStr s) \<Rightarrow> Inr s
      | Some _ \<Rightarrow> Inl (VBadRequest ''section must be a string''))"

definition clean_section :: "text_lib \<Rightarrow> ustring \<Rightarrow> ustring" where
  "clean_section lib submitted =
     (let clean = sanitize_html lib submitted in if visible_len clean = 0 then [] else clean)"

definition sanitize_section ::
    "text_lib \<Rightarrow> (ustring \<times> json) list \<Rightarrow> string \<Rightarrow> nat \<times> (ustring \<times> json) list
      \<Rightarrow> (nat \<times> (ustring \<times> json) list) voting_result" where
  "sanitize_section lib object key = (\<lambda>(combined, sanitized).
     bindR (submitted_section object key) (\<lambda>submitted.
     let combined = sat_usize combined (str_len submitted) in
     if combined > MAX_BODY_BYTES then Inl (VBadRequest ''proposal too large'')
     else let clean = clean_section lib submitted; combined = sat_usize combined (str_len clean) in
     if combined > MAX_BODY_BYTES \<or> str_len clean > MAX_BODY_BYTES
     then Inl (VBadRequest ''proposal too large'')
     else Inr (combined, sanitized @ [(str key, JStr clean)])))"

definition section_text :: "(ustring \<times> json) list \<Rightarrow> string \<Rightarrow> ustring" where
  "section_text sanitized key = (case Option.bind (map_of sanitized (str key)) as_str of Some s \<Rightarrow> s | None \<Rightarrow> [])"

definition check_section :: "(ustring \<times> json) list \<Rightarrow> string \<Rightarrow> unit voting_result" where
  "check_section sanitized key =
     (let n = visible_len (section_text sanitized key) in
      if n < MIN_SECTION_VISIBLE_CHARS then Inl (VBadRequest ''section needs at least 40 characters'')
      else if key = ''summary'' \<and> n > MAX_SUMMARY_VISIBLE_CHARS
      then Inl (VBadRequest ''summary must be at most 500 characters'')
      else Inr ())"

definition render_section :: "(ustring \<times> json) list \<Rightarrow> string \<Rightarrow> ustring" where
  "render_section sections key =
     (let html = section_text sections key in
      if html = [] then []
      else str ''<section><h2>'' @ str (section_label key) @ str ''</h2>'' @ html @ str ''</section>'')"

definition render_body_html :: "(ustring \<times> json) list \<Rightarrow> ustring" where
  "render_body_html sections = concat (map (render_section sections) SECTION_DISPLAY_ORDER)"

definition prepare_sections :: "text_lib \<Rightarrow> json \<Rightarrow> prepared voting_result" where
  "prepare_sections lib raw =
     bindR (ok_or (VBadRequest ''body_sections must be an object'') (as_object raw)) (\<lambda>object.
     if list_ex (\<lambda>kv. fst kv \<notin> str ` set SECTION_KEYS_SORTED) object
     then Inl (VBadRequest ''unknown proposal section'')
     else bindR (foldR (sanitize_section lib object) SECTION_KEYS_SORTED (0, [])) (\<lambda>(combined, sanitized).
     bindR (foldR (\<lambda>key _. check_section sanitized key) REQUIRED_SECTION_KEYS ()) (\<lambda>_.
     let canonical = json_text lib (JObj sanitized) in
     if str_len canonical > MAX_BODY_BYTES then Inl (VBadRequest ''proposal too large'')
     else Inr \<lparr>pp_sanitized = sanitized, pp_canonical = canonical, pp_hash = body_hash lib canonical,
               pp_html = render_body_html sanitized\<rparr>)))"

definition summary_html :: "(ustring \<times> json) list \<Rightarrow> ustring option" where
  "summary_html sections =
     (case Option.bind (map_of sections (str ''summary'')) as_str of
        Some s \<Rightarrow> if s = [] then None else Some s
      | None \<Rightarrow> None)"

section \<open>Analyses\<close>

record analysis_sections =
  as_what :: ustring
  as_benefits :: ustring
  as_risks :: ustring
  as_short_term :: ustring
  as_long_term :: ustring

definition ANALYSIS_KEYS_SORTED :: "string list" where
  "ANALYSIS_KEYS_SORTED = [''benefits'', ''long_term'', ''risks'', ''short_term'', ''what'']"

definition analysis_get :: "analysis_sections \<Rightarrow> string \<Rightarrow> ustring" where
  "analysis_get a key =
     (if key = ''what'' then as_what a else if key = ''benefits'' then as_benefits a
      else if key = ''risks'' then as_risks a else if key = ''short_term'' then as_short_term a
      else if key = ''long_term'' then as_long_term a else [])"

definition analysis_set :: "string \<Rightarrow> ustring \<Rightarrow> analysis_sections \<Rightarrow> analysis_sections" where
  "analysis_set key v a =
     (if key = ''what'' then a\<lparr>as_what := v\<rparr> else if key = ''benefits'' then a\<lparr>as_benefits := v\<rparr>
      else if key = ''risks'' then a\<lparr>as_risks := v\<rparr> else if key = ''short_term'' then a\<lparr>as_short_term := v\<rparr>
      else if key = ''long_term'' then a\<lparr>as_long_term := v\<rparr> else a)"

definition empty_analysis :: analysis_sections where
  "empty_analysis = \<lparr>as_what = [], as_benefits = [], as_risks = [], as_short_term = [], as_long_term = []\<rparr>"

definition sanitize_analysis_section ::
    "text_lib \<Rightarrow> analysis_sections \<Rightarrow> string \<Rightarrow> nat \<times> analysis_sections \<Rightarrow> (nat \<times> analysis_sections) voting_result" where
  "sanitize_analysis_section lib raw key = (\<lambda>(combined, sanitized).
     let clean = sanitize_html lib (analysis_get raw key); combined = sat_usize combined (str_len clean) in
     if combined > MAX_BODY_BYTES then Inl (VBadRequest ''analysis exceeds 64 KiB'')
     else if visible_len clean < MIN_SECTION_VISIBLE_CHARS
     then Inl (VBadRequest ''analysis section must contain at least 40 visible characters'')
     else Inr (combined, analysis_set key clean sanitized))"

definition analysis_json :: "analysis_sections \<Rightarrow> json" where
  "analysis_json a = JObj (map (\<lambda>key. (str key, JStr (analysis_get a key))) ANALYSIS_KEYS_SORTED)"

definition prepare_analysis :: "text_lib \<Rightarrow> analysis_sections \<Rightarrow> (analysis_sections \<times> ustring \<times> ustring) voting_result" where
  "prepare_analysis lib raw =
     bindR (foldR (sanitize_analysis_section lib raw) ANALYSIS_KEYS_SORTED (0, empty_analysis)) (\<lambda>(combined, sanitized).
     let canonical = json_text lib (analysis_json sanitized) in
     if str_len canonical > MAX_BODY_BYTES then Inl (VBadRequest ''analysis exceeds 64 KiB'')
     else Inr (sanitized, canonical, body_hash lib canonical))"

definition render_analysis_html :: "analysis_sections \<Rightarrow> ustring" where
  "render_analysis_html a =
     str ''<h2>What is proposed</h2>'' @ as_what a @ str ''<h2>Benefits</h2>'' @ as_benefits a
     @ str ''<h2>Risks</h2>'' @ as_risks a @ str ''<h2>Short-term impact</h2>'' @ as_short_term a
     @ str ''<h2>Long-term impact</h2>'' @ as_long_term a"

definition sanitize_analysis_sections :: "text_lib \<Rightarrow> analysis_sections \<Rightarrow> analysis_sections" where
  "sanitize_analysis_sections lib raw =
     foldl (\<lambda>a key. analysis_set key (sanitize_html lib (analysis_get raw key)) a) empty_analysis ANALYSIS_KEYS_SORTED"

section \<open>Which bodies are accepted\<close>

text \<open>The accepted bodies and their result, without the loops.\<close>

definition section_ok :: "(ustring \<times> json) list \<Rightarrow> string \<Rightarrow> bool" where
  "section_ok object key \<longleftrightarrow> (case map_of object (str key) of None \<Rightarrow> key = ''context'' | Some v \<Rightarrow> as_str v \<noteq> None)"

definition cleaned :: "text_lib \<Rightarrow> (ustring \<times> json) list \<Rightarrow> string \<Rightarrow> ustring" where
  "cleaned lib object key = clean_section lib (section_text object key)"

definition stored_sections :: "text_lib \<Rightarrow> (ustring \<times> json) list \<Rightarrow> (ustring \<times> json) list" where
  "stored_sections lib object = map (\<lambda>key. (str key, JStr (cleaned lib object key))) SECTION_KEYS_SORTED"

definition body_size :: "text_lib \<Rightarrow> (ustring \<times> json) list \<Rightarrow> nat" where
  "body_size lib object = (\<Sum>key\<leftarrow>SECTION_KEYS_SORTED. str_len (section_text object key) + str_len (cleaned lib object key))"

definition sections_ok :: "text_lib \<Rightarrow> (ustring \<times> json) list \<Rightarrow> bool" where
  "sections_ok lib object \<longleftrightarrow>
     list_all (\<lambda>kv. fst kv \<in> str ` set SECTION_KEYS_SORTED) object
   \<and> list_all (section_ok object) SECTION_KEYS_SORTED
   \<and> body_size lib object \<le> MAX_BODY_BYTES
   \<and> list_all (\<lambda>key. MIN_SECTION_VISIBLE_CHARS \<le> visible_len (cleaned lib object key)) REQUIRED_SECTION_KEYS
   \<and> visible_len (cleaned lib object ''summary'') \<le> MAX_SUMMARY_VISIBLE_CHARS
   \<and> str_len (json_text lib (JObj (stored_sections lib object))) \<le> MAX_BODY_BYTES"

definition prepared_of :: "text_lib \<Rightarrow> (ustring \<times> json) list \<Rightarrow> prepared" where
  "prepared_of lib object =
     (let sanitized = stored_sections lib object; canonical = json_text lib (JObj sanitized) in
      \<lparr>pp_sanitized = sanitized, pp_canonical = canonical, pp_hash = body_hash lib canonical,
       pp_html = render_body_html sanitized\<rparr>)"

lemma submitted_section_iff:
  "submitted_section object key = Inr s \<longleftrightarrow> section_ok object key \<and> s = section_text object key"
  by (auto simp: submitted_section_def section_ok_def section_text_def split: option.splits json.splits)

lemma sat_usize_le: "m < 2 ^ 64 - 1 \<Longrightarrow> sat_usize a b \<le> m \<longleftrightarrow> a + b \<le> m"
  by (auto simp: sat_usize_def)

lemma MAX_BODY_small: "MAX_BODY_BYTES < 2 ^ 64 - 1"
  by (simp add: MAX_BODY_BYTES_def)

lemma sat_usize_exact: "a + b \<le> MAX_BODY_BYTES \<Longrightarrow> sat_usize a b = a + b"
  by (simp add: sat_usize_def MAX_BODY_BYTES_def)

lemma sanitize_section_iff:
  "sanitize_section lib object key (n, acc) = Inr r \<longleftrightarrow>
     section_ok object key \<and> n + str_len (section_text object key) + str_len (cleaned lib object key) \<le> MAX_BODY_BYTES
     \<and> r = (n + str_len (section_text object key) + str_len (cleaned lib object key),
            acc @ [(str key, JStr (cleaned lib object key))])"
proof -
  let ?a = "str_len (section_text object key)" and ?b = "str_len (cleaned lib object key)"
  have step: "sat_usize (sat_usize n ?a) ?b = n + ?a + ?b" if "n + ?a + ?b \<le> MAX_BODY_BYTES"
    using that by (simp add: sat_usize_exact)
  have "\<not> sat_usize n ?a > MAX_BODY_BYTES \<and> \<not> (sat_usize (sat_usize n ?a) ?b > MAX_BODY_BYTES \<or> ?b > MAX_BODY_BYTES)
      \<longleftrightarrow> n + ?a + ?b \<le> MAX_BODY_BYTES"
    using sat_usize_le [OF MAX_BODY_small] sat_usize_exact [of n ?a] by (auto simp: not_less)
  then show ?thesis
    using step by (auto simp: sanitize_section_def result_iff submitted_section_iff Let_def cleaned_def)
qed

lemma sanitize_loop_iff:
  "foldR (sanitize_section lib object) keys (n, acc) = Inr r \<longleftrightarrow>
     list_all (section_ok object) keys
     \<and> (keys = [] \<or> n + (\<Sum>key\<leftarrow>keys. str_len (section_text object key) + str_len (cleaned lib object key)) \<le> MAX_BODY_BYTES)
     \<and> r = (n + (\<Sum>key\<leftarrow>keys. str_len (section_text object key) + str_len (cleaned lib object key)),
            acc @ map (\<lambda>key. (str key, JStr (cleaned lib object key))) keys)"
proof (induction keys arbitrary: n acc)
  case (Cons key keys)
  show ?case
    by (auto simp: result_iff sanitize_section_iff Cons.IH ac_simps)
qed auto

lemma stored_text:
  "key \<in> set SECTION_KEYS_SORTED \<Longrightarrow> section_text (stored_sections lib object) key = cleaned lib object key"
  by (auto simp: section_text_def stored_sections_def SECTION_KEYS_SORTED_def)

lemma check_loop_iff:
  "foldR (\<lambda>key _. check_section sanitized key) keys () = Inr u \<longleftrightarrow>
     list_all (\<lambda>key. MIN_SECTION_VISIBLE_CHARS \<le> visible_len (section_text sanitized key)
       \<and> (key = ''summary'' \<longrightarrow> visible_len (section_text sanitized key) \<le> MAX_SUMMARY_VISIBLE_CHARS)) keys"
  by (induction keys) (auto simp: result_iff check_section_def Let_def not_less)

lemma required_sorted: "set REQUIRED_SECTION_KEYS \<subseteq> set SECTION_KEYS_SORTED"
  by (simp add: REQUIRED_SECTION_KEYS_def SECTION_KEYS_SORTED_def)

lemma prepare_sections_iff_facts:
  "prepare_sections lib raw = Inr p \<longleftrightarrow> (\<exists>object. raw = JObj object \<and> sections_ok lib object \<and> p = prepared_of lib object)"
proof (cases raw)
  case (JObj object)
  let ?s = "stored_sections lib object"
  have keys: "SECTION_KEYS_SORTED \<noteq> []"
    by (simp add: SECTION_KEYS_SORTED_def)
  have loop: "foldR (sanitize_section lib object) SECTION_KEYS_SORTED (0, []) = Inr (n, acc) \<longleftrightarrow>
      list_all (section_ok object) SECTION_KEYS_SORTED \<and> body_size lib object \<le> MAX_BODY_BYTES \<and> n = body_size lib object \<and> acc = ?s" for n acc
    using keys by (auto simp: sanitize_loop_iff body_size_def stored_sections_def)
  have check: "foldR (\<lambda>key _. check_section ?s key) REQUIRED_SECTION_KEYS () = Inr () \<longleftrightarrow>
      list_all (\<lambda>key. MIN_SECTION_VISIBLE_CHARS \<le> visible_len (cleaned lib object key)) REQUIRED_SECTION_KEYS
      \<and> visible_len (cleaned lib object ''summary'') \<le> MAX_SUMMARY_VISIBLE_CHARS"
  proof -
    have "list_all (\<lambda>key. MIN_SECTION_VISIBLE_CHARS \<le> visible_len (section_text ?s key)
        \<and> (key = ''summary'' \<longrightarrow> visible_len (section_text ?s key) \<le> MAX_SUMMARY_VISIBLE_CHARS)) REQUIRED_SECTION_KEYS
      \<longleftrightarrow> list_all (\<lambda>key. MIN_SECTION_VISIBLE_CHARS \<le> visible_len (cleaned lib object key)
        \<and> (key = ''summary'' \<longrightarrow> visible_len (cleaned lib object key) \<le> MAX_SUMMARY_VISIBLE_CHARS)) REQUIRED_SECTION_KEYS"
      using required_sorted by (intro list.pred_cong) (auto simp: stored_text)
    then show ?thesis
      unfolding check_loop_iff by (auto simp: list_all_iff REQUIRED_SECTION_KEYS_def)
  qed
  have unknown: "list_ex (\<lambda>kv. fst kv \<notin> str ` set SECTION_KEYS_SORTED) object
      \<longleftrightarrow> \<not> list_all (\<lambda>kv. fst kv \<in> str ` set SECTION_KEYS_SORTED) object"
    by (simp add: list_ex_iff list_all_iff)
  show ?thesis
    unfolding prepare_sections_def JObj
    by (auto simp: result_iff loop check unknown sections_ok_def prepared_of_def Let_def split: prod.splits)
qed (auto simp: prepare_sections_def)

text \<open>
  C29. A body is accepted exactly when it is an object with no unknown section, every required section is
  present, all are strings, submitted and cleaned text together stay within 64 KiB, every required
  section has 40 visible characters and the summary at most 500, and the canonical text fits too. The
  result then depends on the sections alone: sorted keys, cleaned text, its hash and its rendering.
\<close>

theorem prepare_sections_iff:
  "prepare_sections lib raw = Inr p \<longleftrightarrow> (\<exists>object. raw = JObj object \<and> sections_ok lib object \<and> p = prepared_of lib object)"
  by (rule prepare_sections_iff_facts)

section \<open>The stored form\<close>

text \<open>Cleaning is stable when the sanitizer is.\<close>

lemma clean_stable:
  assumes "\<And>s. sanitize_html lib (sanitize_html lib s) = sanitize_html lib s" and "sanitize_html lib [] = []"
  shows "clean_section lib (clean_section lib s) = clean_section lib s"
  using assms by (simp add: clean_section_def Let_def)

lemma stored_fixpoint:
  assumes "\<And>s. sanitize_html lib (sanitize_html lib s) = sanitize_html lib s" and "sanitize_html lib [] = []"
  shows "stored_sections lib (stored_sections lib object) = stored_sections lib object"
proof -
  have "cleaned lib (stored_sections lib object) key = cleaned lib object key" if "key \<in> set SECTION_KEYS_SORTED" for key
    using that stored_text [of key lib object] clean_stable [OF assms] by (simp add: cleaned_def)
  then show ?thesis
    unfolding stored_sections_def [of lib "stored_sections lib object"] by (simp add: stored_sections_def)
qed

lemma body_size_stored:
  assumes "\<And>s. sanitize_html lib (sanitize_html lib s) = sanitize_html lib s" and "sanitize_html lib [] = []"
  shows "body_size lib (stored_sections lib object) = (\<Sum>key\<leftarrow>SECTION_KEYS_SORTED. 2 * str_len (cleaned lib object key))"
proof -
  have "str_len (section_text (stored_sections lib object) key) + str_len (cleaned lib (stored_sections lib object) key)
      = 2 * str_len (cleaned lib object key)" if "key \<in> set SECTION_KEYS_SORTED" for key
    using that stored_text [of key lib object] clean_stable [OF assms] by (simp add: cleaned_def)
  then show ?thesis
    unfolding body_size_def by (intro arg_cong [where f = sum_list] map_cong refl)
qed

text \<open>A body of proper sections that is too large is refused as such.\<close>

lemma oversized_loop:
  "list_all (section_ok object) keys \<Longrightarrow> keys \<noteq> [] \<Longrightarrow>
     n + (\<Sum>key\<leftarrow>keys. str_len (section_text object key) + str_len (cleaned lib object key)) > MAX_BODY_BYTES \<Longrightarrow>
     foldR (sanitize_section lib object) keys (n, out) = Inl (VBadRequest ''proposal too large'')"
proof (induction keys arbitrary: n out)
  case (Cons key keys)
  show ?case
  proof (cases "n + str_len (section_text object key) + str_len (cleaned lib object key) \<le> MAX_BODY_BYTES")
    case True
    have more: "keys \<noteq> []"
      using True Cons.prems by auto
    have "sanitize_section lib object key (n, out) = Inr (n + str_len (section_text object key) + str_len (cleaned lib object key),
        out @ [(str key, JStr (cleaned lib object key))])"
      using True Cons.prems by (simp add: sanitize_section_iff)
    with Cons.IH [OF _ more] Cons.prems show ?thesis
      by (simp add: ac_simps)
  next
    case False
    then have "\<not> (\<exists>r. sanitize_section lib object key (n, out) = Inr r)"
      by (simp add: sanitize_section_iff)
    moreover have "submitted_section object key = Inr (section_text object key)"
      using Cons.prems by (simp add: submitted_section_iff)
    ultimately have "sanitize_section lib object key (n, out) = Inl (VBadRequest ''proposal too large'')"
      by (auto simp: sanitize_section_def Let_def split: if_splits)
    then show ?thesis by simp
  qed
qed simp

lemma oversized_body:
  assumes "list_all (\<lambda>kv. fst kv \<in> str ` set SECTION_KEYS_SORTED) object"
    and "list_all (section_ok object) SECTION_KEYS_SORTED" and "body_size lib object > MAX_BODY_BYTES"
  shows "prepare_sections lib (JObj object) = Inl (VBadRequest ''proposal too large'')"
proof -
  have "foldR (sanitize_section lib object) SECTION_KEYS_SORTED (0, []) = Inl (VBadRequest ''proposal too large'')"
    by (rule oversized_loop) (use assms in \<open>simp_all add: body_size_def SECTION_KEYS_SORTED_def\<close>)
  moreover have "\<not> list_ex (\<lambda>kv. fst kv \<notin> str ` set SECTION_KEYS_SORTED) object"
    using assms(1) by (simp add: list_ex_iff list_all_iff)
  ultimately show ?thesis
    by (simp add: prepare_sections_def)
qed

lemma prepare_stored_facts:
  assumes idem: "\<And>s. sanitize_html lib (sanitize_html lib s) = sanitize_html lib s" and empty: "sanitize_html lib [] = []"
    and acc: "prepare_sections lib raw = Inr p"
  shows "prepare_sections lib (JObj (pp_sanitized p)) =
     (if 2 * (\<Sum>key\<leftarrow>SECTION_KEYS_SORTED. str_len (section_text (pp_sanitized p) key)) \<le> MAX_BODY_BYTES
      then Inr p else Inl (VBadRequest ''proposal too large''))"
proof -
  from acc obtain object where ok: "sections_ok lib object" and p: "p = prepared_of lib object"
    unfolding prepare_sections_iff_facts by blast
  let ?s = "stored_sections lib object"
  have s: "pp_sanitized p = ?s"
    by (simp add: p prepared_of_def Let_def)
  have sum: "(\<Sum>key\<leftarrow>SECTION_KEYS_SORTED. str_len (section_text ?s key)) = (\<Sum>key\<leftarrow>SECTION_KEYS_SORTED. str_len (cleaned lib object key))"
    by (intro arg_cong [where f = sum_list] map_cong refl) (simp add: stored_text)
  have size: "body_size lib ?s = 2 * (\<Sum>key\<leftarrow>SECTION_KEYS_SORTED. str_len (section_text ?s key))"
    using body_size_stored [OF idem empty, of object] sum by (simp add: sum_list_const_mult)
  have cl: "cleaned lib ?s key = cleaned lib object key" if "key \<in> set SECTION_KEYS_SORTED" for key
    using that stored_text [of key lib object] clean_stable [OF idem empty] by (simp add: cleaned_def)
  have known: "list_all (\<lambda>kv. fst kv \<in> str ` set SECTION_KEYS_SORTED) ?s"
    by (auto simp: list_all_iff stored_sections_def)
  have good: "list_all (section_ok ?s) SECTION_KEYS_SORTED"
    by (simp add: section_ok_def stored_sections_def SECTION_KEYS_SORTED_def)
  have "sections_ok lib ?s \<longleftrightarrow> body_size lib ?s \<le> MAX_BODY_BYTES"
  proof -
    have "visible_len (cleaned lib ?s key) = visible_len (cleaned lib object key)" if "key \<in> set REQUIRED_SECTION_KEYS" for key
      using cl that required_sorted by fastforce
    then have "list_all (\<lambda>key. MIN_SECTION_VISIBLE_CHARS \<le> visible_len (cleaned lib ?s key)) REQUIRED_SECTION_KEYS"
      using ok by (auto simp: sections_ok_def list_all_iff)
    moreover have "visible_len (cleaned lib ?s ''summary'') \<le> MAX_SUMMARY_VISIBLE_CHARS"
      using cl [of "''summary''"] ok by (simp add: sections_ok_def SECTION_KEYS_SORTED_def)
    ultimately show ?thesis
      using ok known good stored_fixpoint [OF idem empty, of object] by (auto simp: sections_ok_def)
  qed
  moreover have "prepared_of lib ?s = p"
    by (simp add: p prepared_of_def Let_def stored_fixpoint [OF idem empty])
  moreover have "prepare_sections lib (JObj ?s) = Inl (VBadRequest ''proposal too large'')" if "body_size lib ?s > MAX_BODY_BYTES"
    using oversized_body [OF known good that] .
  moreover have "prepare_sections lib (JObj ?s) = Inr p" if "sections_ok lib ?s"
    using that \<open>prepared_of lib ?s = p\<close> by (simp add: prepare_sections_iff_facts)
  ultimately show ?thesis
    unfolding s size [symmetric] by (auto simp: not_le)
qed

text \<open>
  An accepted body stored in its clean form is accepted again, with the same text and hash, exactly
  when twice its clean size stays within 64 KiB, for a sanitizer that keeps its own output. Amending
  and opening a proposal prepare the stored body again, so they depend on this.
\<close>

theorem prepare_stored:
  assumes "\<And>s. sanitize_html lib (sanitize_html lib s) = sanitize_html lib s" and "sanitize_html lib [] = []"
    and "prepare_sections lib raw = Inr p"
  shows "prepare_sections lib (JObj (pp_sanitized p)) =
     (if 2 * (\<Sum>key\<leftarrow>SECTION_KEYS_SORTED. str_len (section_text (pp_sanitized p) key)) \<le> MAX_BODY_BYTES
      then Inr p else Inl (VBadRequest ''proposal too large''))"
  by (rule prepare_stored_facts [OF assms])

section \<open>Text that grows when it is escaped\<close>

text \<open>
  What the HTML serialization of the sanitizer documents for text of bare ampersands: each is written
  as \<open>&amp;\<close>, and that form is kept. And what \<open>serde_json\<close> documents for an object of strings in which
  nothing needs an escape: its compact form.
\<close>

definition ampersands :: "nat \<Rightarrow> ustring" where
  "ampersands n = replicate n 38"

definition escaped :: "nat \<Rightarrow> ustring" where
  "escaped n = concat (replicate n (str ''&amp;''))"

definition escapes_ampersands :: "text_lib \<Rightarrow> bool" where
  "escapes_ampersands lib \<longleftrightarrow>
     (\<forall>n. sanitize_html lib (ampersands n) = escaped n \<and> sanitize_html lib (escaped n) = escaped n)"

fun compact_members :: "(ustring \<times> ustring) list \<Rightarrow> ustring" where
  "compact_members [] = []"
| "compact_members [(k, v)] = [34] @ k @ str (''\":\"'') @ v @ [34]"
| "compact_members ((k, v) # kvs) = [34] @ k @ str (''\":\"'') @ v @ [34, 44] @ compact_members kvs"

definition unescaped :: "ustring \<Rightarrow> bool" where
  "unescaped s \<longleftrightarrow> list_all (\<lambda>c. 32 \<le> c \<and> c \<noteq> 34 \<and> c \<noteq> 92) s"

definition prints_compactly :: "text_lib \<Rightarrow> bool" where
  "prints_compactly lib \<longleftrightarrow> (\<forall>kvs. list_all (\<lambda>(k, v). unescaped k \<and> unescaped v) kvs \<longrightarrow>
     json_text lib (JObj (map (\<lambda>(k, v). (k, JStr v)) kvs)) = [123] @ compact_members kvs @ [125])"

definition ampersand_body :: "nat \<Rightarrow> (ustring \<times> json) list" where
  "ampersand_body n = map (\<lambda>key. (str key, JStr (ampersands (if key = ''solution'' then n else 40)))) REQUIRED_SECTION_KEYS"

lemma str_len_append: "str_len (a @ b) = str_len a + str_len b"
  by (simp add: utf8_len_def)

lemma escaped_len: "str_len (ampersands n) = n" "str_len (escaped n) = 5 * n"
proof -
  have "str_len (str ''&amp;'') = 5"
    by code_simp
  then show "str_len (escaped n) = 5 * n"
    by (induction n) (simp_all add: escaped_def str_len_append utf8_len_def)
  show "str_len (ampersands n) = n"
    by (induction n) (simp_all add: ampersands_def utf8_len_def)
qed

lemma escaped_unescaped: "unescaped (escaped n)"
  by (auto simp: unescaped_def escaped_def list_all_iff str_def)

lemma escaped_visible: "visible_len (escaped n) = n"
proof -
  have strip: "strip_tags_from False (escaped n) = escaped n"
    by (induction n) (simp_all add: escaped_def str_def)
  have entity: "parse_entity (str ''amp;'' @ s) = Some (38, 4)" for s
    by (simp add: parse_entity_def named_entities_def starts_with_def str_def)
  have decode: "decode_entities (escaped n) = replicate n 38"
  proof (induction n)
    case (Suc n)
    have "escaped (Suc n) = 38 # str ''amp;'' @ escaped n"
      by (simp add: escaped_def str_def)
    with Suc entity show ?case by (simp add: str_def)
  qed (simp add: escaped_def)
  have "collapse p (replicate n 38) = replicate n 38" for p
    by (induction n arbitrary: p) (simp_all add: is_zero_width_def is_ws_def)
  moreover have "drop_last_space (replicate n 38) = replicate n 38"
    by (cases "n = 0") (auto simp: drop_last_space_def last_replicate)
  ultimately show ?thesis
    by (simp add: visible_len_def visible_text_def strip_tags_def strip decode)
qed

lemma clean_escaped:
  assumes "escapes_ampersands lib"
  shows "clean_section lib (ampersands n) = escaped n" "clean_section lib (escaped n) = escaped n"
  using assms by (simp_all add: escapes_ampersands_def clean_section_def Let_def escaped_visible) (auto simp: escaped_def)

lemma ampersand_texts:
  "section_text (ampersand_body n) key = ampersands (if key \<notin> set REQUIRED_SECTION_KEYS then 0 else if key = ''solution'' then n else 40)"
  by (auto simp: section_text_def ampersand_body_def REQUIRED_SECTION_KEYS_def ampersands_def)

lemma ampersand_cleaned:
  "escapes_ampersands lib \<Longrightarrow> cleaned lib (ampersand_body n) key
     = escaped (if key \<notin> set REQUIRED_SECTION_KEYS then 0 else if key = ''solution'' then n else 40)"
  unfolding cleaned_def ampersand_texts by (rule clean_escaped)

lemma ampersand_sizes:
  assumes "escapes_ampersands lib"
  shows "body_size lib (ampersand_body n) = 6 * n + 960" "body_size lib (stored_sections lib (ampersand_body n)) = 10 * n + 1600"
proof -
  show "body_size lib (ampersand_body n) = 6 * n + 960"
    by (simp add: body_size_def SECTION_KEYS_SORTED_def REQUIRED_SECTION_KEYS_def ampersand_texts ampersand_cleaned [OF assms] escaped_len)
  have "cleaned lib (stored_sections lib (ampersand_body n)) key = cleaned lib (ampersand_body n) key"
    if "key \<in> set SECTION_KEYS_SORTED" for key
    unfolding cleaned_def [of lib "stored_sections lib (ampersand_body n)"] stored_text [OF that] ampersand_cleaned [OF assms]
    by (rule clean_escaped [OF assms])
  then show "body_size lib (stored_sections lib (ampersand_body n)) = 10 * n + 1600"
    by (simp add: body_size_def SECTION_KEYS_SORTED_def REQUIRED_SECTION_KEYS_def stored_text ampersand_cleaned [OF assms] escaped_len)
qed

lemma ampersand_json_len:
  assumes "escapes_ampersands lib" and "prints_compactly lib"
  shows "str_len (json_text lib (JObj (stored_sections lib (ampersand_body n)))) = 5 * n + 891"
proof -
  define kvs where "kvs = map (\<lambda>key. (str key, cleaned lib (ampersand_body n) key)) SECTION_KEYS_SORTED"
  have "list_all unescaped (map str SECTION_KEYS_SORTED)"
    by code_simp
  then have plain: "list_all (\<lambda>(k, v). unescaped k \<and> unescaped v) kvs"
    by (simp add: kvs_def list_all_iff ampersand_cleaned [OF assms(1)] escaped_unescaped)
  have "stored_sections lib (ampersand_body n) = map (\<lambda>(k, v). (k, JStr v)) kvs"
    by (simp add: kvs_def stored_sections_def)
  with plain assms(2) have "json_text lib (JObj (stored_sections lib (ampersand_body n))) = [123] @ compact_members kvs @ [125]"
    by (simp add: prints_compactly_def)
  moreover have len: "map (str_len \<circ> str) SECTION_KEYS_SORTED = [7, 7, 9, 8, 16, 7]" "str_len (str (''\":\"'')) = 3"
      "str_len [34] = 1" "str_len [34, 44] = 2" "str_len [123] = 1" "str_len [125] = 1"
    by code_simp+
  ultimately show ?thesis
    by (simp add: kvs_def SECTION_KEYS_SORTED_def REQUIRED_SECTION_KEYS_def ampersand_cleaned [OF assms(1)] str_len_append escaped_len
        del: append_Cons append_Nil)
qed

lemma ampersand_accepted:
  assumes "escapes_ampersands lib" and "prints_compactly lib" and "40 \<le> n" "n \<le> 10762"
  shows "prepare_sections lib (JObj (ampersand_body n)) = Inr (prepared_of lib (ampersand_body n))"
proof -
  have "list_all (\<lambda>kv. fst kv \<in> str ` set SECTION_KEYS_SORTED) (ampersand_body n)"
      "list_all (section_ok (ampersand_body n)) SECTION_KEYS_SORTED"
    by (auto simp: ampersand_body_def REQUIRED_SECTION_KEYS_def SECTION_KEYS_SORTED_def section_ok_def)
  moreover have "list_all (\<lambda>key. MIN_SECTION_VISIBLE_CHARS \<le> visible_len (cleaned lib (ampersand_body n) key)) REQUIRED_SECTION_KEYS"
      "visible_len (cleaned lib (ampersand_body n) ''summary'') \<le> MAX_SUMMARY_VISIBLE_CHARS"
    using assms(3) by (simp_all add: REQUIRED_SECTION_KEYS_def MIN_SECTION_VISIBLE_CHARS_def MAX_SUMMARY_VISIBLE_CHARS_def
        ampersand_cleaned [OF assms(1)] escaped_visible)
  ultimately have "sections_ok lib (ampersand_body n)"
    using assms(4) by (simp add: sections_ok_def MAX_BODY_BYTES_def ampersand_sizes [OF assms(1)] ampersand_json_len [OF assms(1,2)])
  then show ?thesis
    by (simp add: prepare_sections_iff_facts)
qed

lemma ampersand_refused:
  assumes "escapes_ampersands lib" and "6394 \<le> n"
  shows "prepare_sections lib (JObj (pp_sanitized (prepared_of lib (ampersand_body n)))) = Inl (VBadRequest ''proposal too large'')"
proof -
  have "pp_sanitized (prepared_of lib (ampersand_body n)) = stored_sections lib (ampersand_body n)"
    by (simp add: prepared_of_def Let_def)
  moreover have "prepare_sections lib (JObj (stored_sections lib (ampersand_body n))) = Inl (VBadRequest ''proposal too large'')"
  proof (rule oversized_body)
    show "body_size lib (stored_sections lib (ampersand_body n)) > MAX_BODY_BYTES"
      using assms(2) by (simp add: ampersand_sizes [OF assms(1)] MAX_BODY_BYTES_def)
  qed (auto simp: stored_sections_def list_all_iff section_ok_def SECTION_KEYS_SORTED_def)
  ultimately show ?thesis by simp
qed

text \<open>A sanitizer for text without markup: entities are decoded and written again.\<close>

definition escape_char :: "nat \<Rightarrow> ustring" where
  "escape_char c = (if c = 38 then str ''&amp;'' else if c = 60 then str ''&lt;'' else if c = 62 then str ''&gt;'' else [c])"

definition escaping_lib :: text_lib where
  "escaping_lib = \<lparr>sanitize_html = (\<lambda>s. concat (map escape_char (decode_entities s))),
     json_text = (\<lambda>v. case v of JObj kvs \<Rightarrow> [123] @ compact_members (map (\<lambda>(k, v). (k, case v of JStr s \<Rightarrow> s | _ \<Rightarrow> [])) kvs) @ [125]
                             | _ \<Rightarrow> []),
     sha256_hex = (\<lambda>_. [])\<rparr>"

lemma decode_escaped: "decode_entities (concat (map escape_char s)) = s"
proof (induction s)
  case (Cons c s)
  have "parse_entity (str ''amp;'' @ r) = Some (38, 4)" "parse_entity (str ''lt;'' @ r) = Some (60, 3)"
      "parse_entity (str ''gt;'' @ r) = Some (62, 3)" for r
    by (simp_all add: parse_entity_def named_entities_def starts_with_def str_def)
  then show ?case
    using Cons by (simp add: escape_char_def str_def)
qed simp

lemma decode_plain: "decode_entities (ampersands n) = ampersands n"
proof (induction n)
  case (Suc n)
  have "parse_entity (replicate m 38) = None" for m
    by (cases m) (simp_all add: parse_entity_def named_entities_def starts_with_def str_def)
  with Suc show ?case by (simp add: ampersands_def)
qed (simp add: ampersands_def)

lemma escaping_lib_ok: "escapes_ampersands escaping_lib" "prints_compactly escaping_lib"
proof -
  have once: "sanitize_html escaping_lib (ampersands n) = escaped n" for n
    unfolding escaping_lib_def by (simp add: decode_plain) (simp add: ampersands_def escaped_def escape_char_def)
  have "escaped n = concat (map escape_char (ampersands n))" for n
    by (simp add: ampersands_def escaped_def escape_char_def)
  then have "sanitize_html escaping_lib (escaped n) = escaped n" for n
    by (simp add: escaping_lib_def decode_escaped)
  with once show "escapes_ampersands escaping_lib"
    by (simp add: escapes_ampersands_def)
  have "map ((\<lambda>(k, v). (k, case v of JStr s \<Rightarrow> s | _ \<Rightarrow> [])) \<circ> (\<lambda>(k, v). (k, JStr v))) kvs = kvs" for kvs :: "(ustring \<times> ustring) list"
    by (intro map_idI) auto
  then show "prints_compactly escaping_lib"
    by (simp add: prints_compactly_def escaping_lib_def)
qed

theorem prepare_stored_witness:
  "prepare_sections escaping_lib (JObj (pp_sanitized (prepared_of escaping_lib (ampersand_body 40))))
     = Inr (prepared_of escaping_lib (ampersand_body 40))"
proof -
  have stable: "sanitize_html escaping_lib (sanitize_html escaping_lib s) = sanitize_html escaping_lib s" for s
    by (simp add: escaping_lib_def decode_escaped)
  have "sanitize_html escaping_lib [] = []"
    by (simp add: escaping_lib_def)
  moreover have "prepare_sections escaping_lib (JObj (ampersand_body 40)) = Inr (prepared_of escaping_lib (ampersand_body 40))"
    by (rule ampersand_accepted [OF escaping_lib_ok]) simp_all
  moreover have "pp_sanitized (prepared_of escaping_lib (ampersand_body 40)) = stored_sections escaping_lib (ampersand_body 40)"
    by (simp add: prepared_of_def Let_def)
  ultimately show ?thesis
    using prepare_stored [OF stable, of "JObj (ampersand_body 40)" "prepared_of escaping_lib (ampersand_body 40)"]
    by (simp add: SECTION_KEYS_SORTED_def REQUIRED_SECTION_KEYS_def stored_text ampersand_cleaned [OF escaping_lib_ok(1)] escaped_len
        MAX_BODY_BYTES_def)
qed

end
