(* ===== verification/Crypto.thy ===== *)
theory Crypto
  imports WalletList
begin

text \<open>
  Wallet signatures (\<open>operator-voting/src/crypto\<close>): Keplr's ADR-36 documents for Terra and
  EIP-191 messages for BSC. Curve arithmetic, hashes and encodings are the third-party crates' and
  parameters here: \<open>'k\<close> is the type of a verifying key, \<open>'s\<close> the type of a signature. The
  theorems need no assumption on them but that a base64 text holds no quote and determines its
  source.
\<close>

record ('k, 's) crypto_lib =
  b64_of_text :: "ustring \<Rightarrow> ustring"
  b64_decode :: "ustring \<Rightarrow> nat list option"
  hex_decode :: "ustring \<Rightarrow> nat list option"
  hex_encode :: "nat list \<Rightarrow> ustring"
  text_bytes :: "ustring \<Rightarrow> nat list"
  sha256 :: "nat list \<Rightarrow> nat list"
  ripemd160 :: "nat list \<Rightarrow> nat list"
  keccak256 :: "nat list \<Rightarrow> nat list"
  bech32_encode :: "ustring \<Rightarrow> nat list \<Rightarrow> ustring option"
  key_of_sec1 :: "nat list \<Rightarrow> 'k option"
  key_compressed :: "'k \<Rightarrow> nat list"
  key_uncompressed :: "'k \<Rightarrow> nat list"
  sig_of_bytes :: "nat list \<Rightarrow> 's option"
  sig_high_s :: "'s \<Rightarrow> bool"
  sig_verifies :: "'k \<Rightarrow> nat list \<Rightarrow> 's \<Rightarrow> bool"
  recovery_id :: "nat \<Rightarrow> nat option"
  recover_key :: "nat list \<Rightarrow> 's \<Rightarrow> nat \<Rightarrow> 'k option"

section \<open>ADR-36\<close>

definition adr36_sign_doc_json :: "('k, 's) crypto_lib \<Rightarrow> ustring \<Rightarrow> ustring \<Rightarrow> ustring" where
  "adr36_sign_doc_json lib signer message =
     str ''{\"account_number\":\"0\",\"chain_id\":\"\",\"fee\":{\"amount\":[],\"gas\":\"0\"},\"memo\":\"\",\"msgs\":[{\"type\":\"sign/MsgSignData\",\"value\":{\"data\":\"''
     @ b64_of_text lib message @ str ''\",\"signer\":\"'' @ signer @ str ''\"}}],\"sequence\":\"0\"}''"

definition cosmos_address_from_pubkey :: "('k, 's) crypto_lib \<Rightarrow> nat list \<Rightarrow> ustring \<Rightarrow> ustring voting_result" where
  "cosmos_address_from_pubkey lib compressed_pubkey hrp =
     ok_or (VBadRequest ''bech32 encode failed'')
       (bech32_encode lib hrp (ripemd160 lib (sha256 lib compressed_pubkey)))"

definition verify_prehash :: "('k, 's) crypto_lib \<Rightarrow> nat list \<Rightarrow> nat list \<Rightarrow> nat list \<Rightarrow> unit voting_result" where
  "verify_prehash lib pubkey hash sig =
     bindR (ok_or (VUnauthorized ''invalid terra pubkey'') (key_of_sec1 lib pubkey)) (\<lambda>vk.
     bindR (ok_or (VUnauthorized ''invalid terra signature'') (sig_of_bytes lib sig)) (\<lambda>sig.
     if sig_verifies lib vk hash sig then Inr () else Inl (VUnauthorized ''terra signature verification failed'')))"

text \<open>The bech32 prefix of an address: the part before the first separator.\<close>

definition bech32_hrp :: "ustring \<Rightarrow> ustring option" where
  "bech32_hrp address = (if 49 \<in> set address then Some (takeWhile (\<lambda>c. c \<noteq> 49) address) else None)"

definition verify_adr36 :: "('k, 's) crypto_lib \<Rightarrow> ustring \<Rightarrow> ustring \<Rightarrow> ustring \<Rightarrow> ustring \<Rightarrow> unit voting_result" where
  "verify_adr36 lib expected_address message signature_b64 pubkey_b64 =
     bindR (ok_or (VBadRequest ''invalid bech32 address'') (bech32_hrp expected_address)) (\<lambda>hrp.
     if hrp \<noteq> str ''terra'' then Inl (VUnauthorized ''native Terra address prefix required'')
     else bindR (ok_or (VBadRequest ''invalid terra signature base64'') (b64_decode lib signature_b64)) (\<lambda>sig_bytes.
     bindR (ok_or (VBadRequest ''invalid terra pubkey base64'') (b64_decode lib pubkey_b64)) (\<lambda>pubkey_bytes.
     let hash = sha256 lib (text_bytes lib (adr36_sign_doc_json lib expected_address message)) in
     bindR (verify_prehash lib pubkey_bytes hash sig_bytes) (\<lambda>_.
     bindR (ok_or (VUnauthorized ''invalid terra pubkey'') (key_of_sec1 lib pubkey_bytes)) (\<lambda>vk.
     bindR (cosmos_address_from_pubkey lib (key_compressed lib vk) hrp) (\<lambda>derived.
     if derived \<noteq> expected_address then Inl (VUnauthorized ''terra pubkey does not match address'')
     else Inr ()))))))"

definition verify_terra :: "('k, 's) crypto_lib \<Rightarrow> ustring \<Rightarrow> ustring \<Rightarrow> ustring \<Rightarrow> ustring \<Rightarrow> unit voting_result" where
  "verify_terra lib expected_address message signature_b64 pubkey_b64 =
     verify_adr36 lib expected_address message signature_b64 pubkey_b64"

section \<open>EIP-191\<close>

definition eip191_hash :: "('k, 's) crypto_lib \<Rightarrow> ustring \<Rightarrow> nat list" where
  "eip191_hash lib message =
     keccak256 lib (text_bytes lib (25 # str ''Ethereum Signed Message:'' @ [10] @ nat_digits (str_len message))
                    @ text_bytes lib message)"

definition recovery_of_v :: "('k, 's) crypto_lib \<Rightarrow> nat \<Rightarrow> nat option" where
  "recovery_of_v lib v = recovery_id lib (if v \<ge> 27 then v - 27 else v)"

definition evm_address_of_key :: "('k, 's) crypto_lib \<Rightarrow> 'k \<Rightarrow> ustring" where
  "evm_address_of_key lib vk = str ''0x'' @ hex_encode lib (drop 12 (keccak256 lib (drop 1 (key_uncompressed lib vk))))"

definition recover_evm_address :: "('k, 's) crypto_lib \<Rightarrow> ustring \<Rightarrow> ustring \<Rightarrow> ustring voting_result" where
  "recover_evm_address lib message signature_hex =
     bindR (ok_or (VBadRequest ''invalid EVM signature encoding'') (hex_decode lib (trim_0x signature_hex))) (\<lambda>sig_bytes.
     if length sig_bytes \<noteq> 65 then Inl (VBadRequest ''EVM signature must be 65 bytes'')
     else bindR (ok_or (VBadRequest ''invalid recovery id'') (recovery_of_v lib (sig_bytes ! 64))) (\<lambda>rec_id.
     bindR (ok_or (VUnauthorized ''invalid signature'') (sig_of_bytes lib (take 64 sig_bytes))) (\<lambda>sig.
     if sig_high_s lib sig then Inl (VUnauthorized ''noncanonical high-s signature'')
     else bindR (ok_or (VUnauthorized ''signature recovery failed'') (recover_key lib (eip191_hash lib message) sig rec_id)) (\<lambda>vk.
     Inr (evm_address_of_key lib vk)))))"

definition verify_eip191 :: "('k, 's) crypto_lib \<Rightarrow> ustring \<Rightarrow> ustring \<Rightarrow> ustring \<Rightarrow> unit voting_result" where
  "verify_eip191 lib expected_address message signature_hex =
     bindR (recover_evm_address lib message signature_hex) (\<lambda>recovered.
     if recovered \<noteq> normalize_address expected_address then Inl (VUnauthorized ''signature does not match address'')
     else Inr ())"

section \<open>What a verified signature says\<close>

lemma verify_adr36_iff:
  "verify_adr36 lib a m sig pk = Inr () \<longleftrightarrow>
     (\<exists>sb pb s vk. bech32_hrp a = Some (str ''terra'') \<and> b64_decode lib sig = Some sb \<and> b64_decode lib pk = Some pb
        \<and> key_of_sec1 lib pb = Some vk \<and> sig_of_bytes lib sb = Some s
        \<and> sig_verifies lib vk (sha256 lib (text_bytes lib (adr36_sign_doc_json lib a m))) s
        \<and> bech32_encode lib (str ''terra'') (ripemd160 lib (sha256 lib (key_compressed lib vk))) = Some a)"
  by (auto simp: verify_adr36_def verify_prehash_def cosmos_address_from_pubkey_def Let_def result_iff)

lemma verify_eip191_iff:
  "verify_eip191 lib a m sig = Inr () \<longleftrightarrow> recover_evm_address lib m sig = Inr (normalize_address a)"
  by (auto simp: verify_eip191_def result_iff split: if_splits)

text \<open>
  C31. A signature authenticates one address only: no EVM signature of a message verifies for two wallets
  of different normal form, none with a high \<open>s\<close> or of another length than 65 bytes verifies, and a
  Terra signature verifies only for the address derived from its own public key, which is a native
  Terra address.
\<close>

theorem signature_names_one_wallet:
  "(verify_eip191 lib a m sig = Inr () \<longrightarrow>
      (verify_eip191 lib b m sig = Inr () \<longleftrightarrow> normalize_address b = normalize_address a)
      \<and> (\<exists>bytes s. hex_decode lib (trim_0x sig) = Some bytes \<and> length bytes = 65
           \<and> sig_of_bytes lib (take 64 bytes) = Some s \<and> \<not> sig_high_s lib s))
   \<and> (verify_terra lib a m tsig pk = Inr () \<longrightarrow>
      (verify_terra lib b m' tsig' pk = Inr () \<longrightarrow> b = a) \<and> bech32_hrp a = Some (str ''terra''))"
  unfolding verify_eip191_iff verify_terra_def verify_adr36_iff
  by (fastforce simp: recover_evm_address_def result_iff split: if_splits)

definition toy_crypto :: "(nat list, nat list) crypto_lib" where
  "toy_crypto = \<lparr>b64_of_text = map (\<lambda>c. c + 1000), b64_decode = Some, hex_decode = Some, hex_encode = (\<lambda>b. b),
     text_bytes = (\<lambda>s. s), sha256 = (\<lambda>b. b), ripemd160 = (\<lambda>b. b), keccak256 = (\<lambda>b. b),
     bech32_encode = (\<lambda>hrp b. Some (hrp @ [49] @ b)), key_of_sec1 = Some, key_compressed = (\<lambda>k. k),
     key_uncompressed = (\<lambda>k. k), sig_of_bytes = Some, sig_high_s = (\<lambda>_. False),
     sig_verifies = (\<lambda>k h s. s = h @ k), recovery_id = Some, recover_key = (\<lambda>h s r. Some (replicate 13 0 @ str ''ab''))\<rparr>"

theorem signature_names_one_wallet_witness:
  "verify_eip191 toy_crypto (str ''0xAB'') (str ''hi'') (replicate 65 7) = Inr ()
   \<and> verify_eip191 toy_crypto (str ''0xac'') (str ''hi'') (replicate 65 7) \<noteq> Inr ()"
proof -
  have a: "verify_eip191 toy_crypto (str ''0xAB'') (str ''hi'') (replicate 65 7) = Inr ()"
    by code_simp
  have "normalize_address (str ''0xac'') \<noteq> normalize_address (str ''0xAB'')"
    by code_simp
  with a signature_names_one_wallet [of toy_crypto "str ''0xAB''" "str ''hi''" "replicate 65 7" "str ''0xac''"]
  show ?thesis by blast
qed

text \<open>
  The document a Terra wallet signs determines the signer and the message: two actions never share
  signed bytes.
\<close>

theorem adr36_document_binds:
  assumes "\<And>m m'. b64_of_text lib m = b64_of_text lib m' \<Longrightarrow> m = m'" and "\<And>m. 34 \<notin> set (b64_of_text lib m)"
    and "adr36_sign_doc_json lib signer message = adr36_sign_doc_json lib signer' message'"
  shows "signer = signer' \<and> message = message'"
proof -
  have split: "u = u' \<and> v = v'" if "u @ 34 # v = u' @ 34 # v'" "34 \<notin> set u" "34 \<notin> set u'" for u u' v v' :: ustring
  proof -
    have "takeWhile (\<lambda>c. c \<noteq> 34) (u @ 34 # v) = u" "takeWhile (\<lambda>c. c \<noteq> 34) (u' @ 34 # v') = u'"
      using that(2,3) by (subst takeWhile_append2; auto)+
    with that(1) show ?thesis by simp
  qed
  have quote: "str ''\",\"signer\":\"'' = 34 # str '',\"signer\":\"''"
    by (simp add: str_def)
  have "b64_of_text lib message @ 34 # str '',\"signer\":\"'' @ signer @ str ''\"}}],\"sequence\":\"0\"}''
      = b64_of_text lib message' @ 34 # str '',\"signer\":\"'' @ signer' @ str ''\"}}],\"sequence\":\"0\"}''"
    using assms(3) unfolding adr36_sign_doc_json_def quote by simp
  from split [OF this assms(2) assms(2)] assms(1) show ?thesis
    by simp
qed

theorem adr36_document_binds_witness:
  "adr36_sign_doc_json toy_crypto (str ''terra1a'') (str ''vote'') \<noteq> adr36_sign_doc_json toy_crypto (str ''terra1a'') (str ''veto'')"
proof -
  have "m = m'" if "b64_of_text toy_crypto m = b64_of_text toy_crypto m'" for m m'
    using that inj_mapI [of "\<lambda>c::nat. c + 1000"] by (auto simp: toy_crypto_def inj_on_def)
  moreover have "34 \<notin> set (b64_of_text toy_crypto m)" for m
    by (auto simp: toy_crypto_def)
  ultimately show ?thesis
    using adr36_document_binds [of toy_crypto "str ''terra1a''" "str ''vote''" "str ''terra1a''" "str ''veto''"] by auto
qed

end
