(* ===== verification/Payload.thy ===== *)
theory Payload
  imports Sections Crypto
begin

text \<open>
  Signed payloads (\<open>operator-voting/src/payload.rs\<close>): the JSON a wallet signs, its
  deserialization, the checks of its domain and of its validity in time. Times are seconds. The JSON
  parser is a parameter; what \<open>serde\<close> derives for the struct is written out, including that a
  JSON array of all fields is accepted and that a repeated field is not.
\<close>

definition APP_NAME :: ustring where "APP_NAME = str ''cl8y-voting''"
definition SIGNATURE_TTL_SECS :: int where "SIGNATURE_TTL_SECS = 10 * 60"

record signed_payload =
  sp_version :: nat
  sp_nonce :: "ustring option"
  sp_app :: ustring
  sp_chain :: ustring
  sp_chain_id :: ustring
  sp_purpose :: ustring
  sp_address :: ustring
  sp_issued_at :: int
  sp_expires_at :: int
  sp_revision :: "int option"
  sp_title :: "ustring option"
  sp_body_hash :: "ustring option"
  sp_proposal_id :: "ustring option"
  sp_choice :: "ustring option"
  sp_prev_body_hash :: "ustring option"

section \<open>Deserialization\<close>

definition payload_fields :: "string list" where
  "payload_fields = [''version'', ''nonce'', ''app'', ''chain'', ''chain_id'', ''purpose'', ''address'',
     ''issued_at'', ''expires_at'', ''revision'', ''title'', ''body_hash'', ''proposal_id'', ''choice'', ''prev_body_hash'']"

text \<open>Fields read with their type; \<open>None\<close> is a deserialization error. An absent optional field
  is \<open>JNull\<close>, as is an explicit null.\<close>

definition de_u32 :: "json \<Rightarrow> nat option" where
  "de_u32 v = (case v of JNum n \<Rightarrow> if 0 \<le> n \<and> n < 2 ^ 32 then Some (nat n) else None | _ \<Rightarrow> None)"

definition de_i64 :: "json \<Rightarrow> int option" where
  "de_i64 v = (case v of JNum n \<Rightarrow> checked_i64 n | _ \<Rightarrow> None)"

definition de_opt :: "(json \<Rightarrow> 'a option) \<Rightarrow> json \<Rightarrow> 'a option option" where
  "de_opt f v = (if v = JNull then Some None else map_option Some (f v))"

definition legacy_version :: json where
  "legacy_version = JNum 1"

definition fields_of_json :: "json \<Rightarrow> (string \<Rightarrow> json) option" where
  "fields_of_json v =
     (case v of
        JObj kvs \<Rightarrow>
          (if distinct (filter (\<lambda>k. k \<in> str ` set payload_fields) (map fst kvs))
           then Some (\<lambda>f. case map_of kvs (str f) of Some x \<Rightarrow> x
                           | None \<Rightarrow> if f = ''version'' then legacy_version else JNull)
           else None)
      | JArr xs \<Rightarrow>
          (if length xs = length payload_fields
           then Some (\<lambda>f. case map_of (zip payload_fields xs) f of Some x \<Rightarrow> x | None \<Rightarrow> JNull)
           else None)
      | _ \<Rightarrow> None)"

definition payload_of_json :: "json \<Rightarrow> signed_payload option" where
  "payload_of_json v =
     Option.bind (fields_of_json v) (\<lambda>f.
     Option.bind (de_u32 (f ''version'')) (\<lambda>version.
     Option.bind (de_opt as_str (f ''nonce'')) (\<lambda>nonce.
     Option.bind (as_str (f ''app'')) (\<lambda>app.
     Option.bind (as_str (f ''chain'')) (\<lambda>chain.
     Option.bind (as_str (f ''chain_id'')) (\<lambda>chain_id.
     Option.bind (as_str (f ''purpose'')) (\<lambda>purpose.
     Option.bind (as_str (f ''address'')) (\<lambda>address.
     Option.bind (de_i64 (f ''issued_at'')) (\<lambda>issued_at.
     Option.bind (de_i64 (f ''expires_at'')) (\<lambda>expires_at.
     Option.bind (de_opt de_i64 (f ''revision'')) (\<lambda>revision.
     Option.bind (de_opt as_str (f ''title'')) (\<lambda>title.
     Option.bind (de_opt as_str (f ''body_hash'')) (\<lambda>body_hash.
     Option.bind (de_opt as_str (f ''proposal_id'')) (\<lambda>proposal_id.
     Option.bind (de_opt as_str (f ''choice'')) (\<lambda>choice.
     Option.bind (de_opt as_str (f ''prev_body_hash'')) (\<lambda>prev_body_hash.
     Some \<lparr>sp_version = version, sp_nonce = nonce, sp_app = app, sp_chain = chain, sp_chain_id = chain_id,
           sp_purpose = purpose, sp_address = address, sp_issued_at = issued_at, sp_expires_at = expires_at,
           sp_revision = revision, sp_title = title, sp_body_hash = body_hash, sp_proposal_id = proposal_id,
           sp_choice = choice, sp_prev_body_hash = prev_body_hash\<rparr>))))))))))))))))"

section \<open>Serialization\<close>

definition opt_field :: "string \<Rightarrow> ('a \<Rightarrow> json) \<Rightarrow> 'a option \<Rightarrow> (ustring \<times> json) list" where
  "opt_field key f v = (case v of None \<Rightarrow> [] | Some x \<Rightarrow> [(str key, f x)])"

text \<open>The object \<open>serde\<close> serializes; \<open>canonical_json\<close> is its text.\<close>

definition payload_json :: "signed_payload \<Rightarrow> json" where
  "payload_json p = JObj ([(str ''version'', JNum (int (sp_version p)))] @ opt_field ''nonce'' JStr (sp_nonce p)
     @ [(str ''app'', JStr (sp_app p)), (str ''chain'', JStr (sp_chain p)), (str ''chain_id'', JStr (sp_chain_id p)),
        (str ''purpose'', JStr (sp_purpose p)), (str ''address'', JStr (sp_address p)),
        (str ''issued_at'', JNum (sp_issued_at p)), (str ''expires_at'', JNum (sp_expires_at p))]
     @ opt_field ''revision'' JNum (sp_revision p) @ opt_field ''title'' JStr (sp_title p)
     @ opt_field ''body_hash'' JStr (sp_body_hash p) @ opt_field ''proposal_id'' JStr (sp_proposal_id p)
     @ opt_field ''choice'' JStr (sp_choice p) @ opt_field ''prev_body_hash'' JStr (sp_prev_body_hash p))"

definition canonical_json :: "text_lib \<Rightarrow> signed_payload \<Rightarrow> ustring" where
  "canonical_json lib p = json_text lib (payload_json p)"

section \<open>Validation\<close>

definition check_payload_domain ::
    "signed_payload \<Rightarrow> ustring \<Rightarrow> ustring \<Rightarrow> ustring \<Rightarrow> ustring \<Rightarrow> signed_payload voting_result" where
  "check_payload_domain payload expected_purpose expected_address terra_chain_id evm_chain_id =
     (if sp_app payload \<noteq> APP_NAME then Inl (VUnauthorized ''wrong signing app domain'')
      else if sp_purpose payload \<noteq> expected_purpose then Inl (VUnauthorized ''purpose cannot be used'')
      else if normalize_address (sp_address payload) \<noteq> normalize_address expected_address
      then Inl (VUnauthorized ''payload address does not match claimed address'')
      else if sp_chain payload = str ''terra''
      then (if sp_chain_id payload \<noteq> terra_chain_id then Inl (VUnauthorized ''wrong terra chain_id'') else Inr payload)
      else if sp_chain payload = str ''bsc''
      then (if sp_chain_id payload \<noteq> evm_chain_id then Inl (VUnauthorized ''wrong evm chain_id'') else Inr payload)
      else Inl (VBadRequest ''unknown chain''))"

definition parse_domain ::
    "(ustring \<Rightarrow> json option) \<Rightarrow> ustring \<Rightarrow> ustring \<Rightarrow> ustring \<Rightarrow> ustring \<Rightarrow> ustring \<Rightarrow> signed_payload voting_result" where
  "parse_domain json_parse raw expected_purpose expected_address terra_chain_id evm_chain_id =
     bindR (ok_or (VBadRequest ''invalid signed payload'') (Option.bind (json_parse raw) payload_of_json)) (\<lambda>payload.
     check_payload_domain payload expected_purpose expected_address terra_chain_id evm_chain_id)"

definition validate_time :: "signed_payload \<Rightarrow> int \<Rightarrow> unit voting_result" where
  "validate_time payload now =
     (if sp_expires_at payload \<le> now then Inl (VUnauthorized ''signature expired'')
      else bindR (ok_or (VUnauthorized ''invalid signature ttl'')
                   (case checked_i64 (sp_expires_at payload - sp_issued_at payload) of
                      Some d \<Rightarrow> if d > 0 \<and> d \<le> SIGNATURE_TTL_SECS + 30 then Some d else None
                    | None \<Rightarrow> None)) (\<lambda>_.
           bindR (ok_or (VUnauthorized ''invalid signature issue time'') (checked_i64 (sp_issued_at payload - now))) (\<lambda>skew.
           if \<not> (- SIGNATURE_TTL_SECS - 30 \<le> skew \<and> skew \<le> 60)
           then Inl (VUnauthorized ''signature issue time out of bounds'') else Inr ())))"

definition parse_and_validate ::
    "(ustring \<Rightarrow> json option) \<Rightarrow> ustring \<Rightarrow> ustring \<Rightarrow> ustring \<Rightarrow> ustring \<Rightarrow> ustring \<Rightarrow> int \<Rightarrow> signed_payload voting_result" where
  "parse_and_validate json_parse raw expected_purpose expected_address terra_chain_id evm_chain_id now =
     bindR (parse_domain json_parse raw expected_purpose expected_address terra_chain_id evm_chain_id) (\<lambda>payload.
     bindR (validate_time payload now) (\<lambda>_. Inr payload))"

section \<open>What the checks mean\<close>

lemma validate_time_facts:
  "validate_time p now = Inr () \<longleftrightarrow>
     now < sp_expires_at p \<and> 0 < sp_expires_at p - sp_issued_at p \<and> sp_expires_at p - sp_issued_at p \<le> 630
     \<and> - 630 \<le> sp_issued_at p - now \<and> sp_issued_at p - now \<le> 60"
proof -
  have small: "checked_i64 d = Some d" if "- 630 \<le> d" "d \<le> 630" for d
    using that by (simp add: checked_i64_def in_i64_def i64_max_def i64_min_def)
  have some: "checked_i64 d = Some e \<Longrightarrow> e = d" for d e
    by (simp add: checked_i64_def split: if_splits)
  show ?thesis
  proof
    assume "validate_time p now = Inr ()"
    then show "now < sp_expires_at p \<and> 0 < sp_expires_at p - sp_issued_at p \<and> sp_expires_at p - sp_issued_at p \<le> 630
     \<and> - 630 \<le> sp_issued_at p - now \<and> sp_issued_at p - now \<le> 60"
      by (auto simp: validate_time_def result_iff SIGNATURE_TTL_SECS_def dest!: some split: option.splits if_splits)
  next
    assume "now < sp_expires_at p \<and> 0 < sp_expires_at p - sp_issued_at p \<and> sp_expires_at p - sp_issued_at p \<le> 630
     \<and> - 630 \<le> sp_issued_at p - now \<and> sp_issued_at p - now \<le> 60"
    then show "validate_time p now = Inr ()"
      by (simp add: validate_time_def small SIGNATURE_TTL_SECS_def)
  qed
qed

text \<open>
  The times a payload is accepted at, for every pair of 64-bit times: it is not expired, lives at most
  630 seconds, was not issued more than 60 seconds ahead, and the overflow checks never let another
  value through. So an accepted payload is at most 630 seconds old and dies within 690 seconds.
\<close>

theorem validate_time_iff:
  "(validate_time p now = Inr ()) =
     (now < sp_expires_at p \<and> 0 < sp_expires_at p - sp_issued_at p \<and> sp_expires_at p - sp_issued_at p \<le> 630
      \<and> - 630 \<le> sp_issued_at p - now \<and> sp_issued_at p - now \<le> 60)"
  by (rule validate_time_facts)

lemma parse_domain_facts:
  assumes "parse_domain parse raw purpose address terra evm = Inr p"
  shows "sp_app p = APP_NAME \<and> sp_purpose p = purpose \<and> normalize_address (sp_address p) = normalize_address address
     \<and> ((sp_chain p = str ''terra'' \<and> sp_chain_id p = terra) \<or> (sp_chain p = str ''bsc'' \<and> sp_chain_id p = evm))
     \<and> Option.bind (parse raw) payload_of_json = Some p"
  using assms by (auto simp: parse_domain_def check_payload_domain_def result_iff split: if_splits)

lemma de_opt_simps [simp]: "de_opt f JNull = Some None" "v \<noteq> JNull \<Longrightarrow> de_opt f v = map_option Some (f v)"
  by (simp_all add: de_opt_def)

text \<open>
  Serializing a payload and reading it back gives the payload, for every payload whose numbers fit
  their types; so the object a wallet signs is the object the server checks.
\<close>

definition payload_ok :: "signed_payload \<Rightarrow> bool" where
  "payload_ok p \<longleftrightarrow> sp_version p < 2 ^ 32 \<and> in_i64 (sp_issued_at p) \<and> in_i64 (sp_expires_at p)
     \<and> (case sp_revision p of None \<Rightarrow> True | Some r \<Rightarrow> in_i64 r)"

definition payload_members :: "signed_payload \<Rightarrow> (string \<times> json) list" where
  "payload_members p = [(''version'', JNum (int (sp_version p))), (''nonce'', case_option JNull JStr (sp_nonce p)),
     (''app'', JStr (sp_app p)), (''chain'', JStr (sp_chain p)), (''chain_id'', JStr (sp_chain_id p)),
     (''purpose'', JStr (sp_purpose p)), (''address'', JStr (sp_address p)),
     (''issued_at'', JNum (sp_issued_at p)), (''expires_at'', JNum (sp_expires_at p)),
     (''revision'', case_option JNull JNum (sp_revision p)), (''title'', case_option JNull JStr (sp_title p)),
     (''body_hash'', case_option JNull JStr (sp_body_hash p)), (''proposal_id'', case_option JNull JStr (sp_proposal_id p)),
     (''choice'', case_option JNull JStr (sp_choice p)), (''prev_body_hash'', case_option JNull JStr (sp_prev_body_hash p))]"

abbreviation nonnull :: "(ustring \<times> json) list \<Rightarrow> (ustring \<times> json) list" where
  "nonnull kvs \<equiv> filter (\<lambda>kv. snd kv \<noteq> JNull) kvs"

lemma nonnull_opt:
  "nonnull ((str k, case_option JNull JStr x) # kvs) = opt_field k JStr x @ nonnull kvs"
  "nonnull ((str k, case_option JNull JNum n) # kvs) = opt_field k JNum n @ nonnull kvs"
  "nonnull ((str k, JStr s) # kvs) = (str k, JStr s) # nonnull kvs"
  "nonnull ((str k, JNum i) # kvs) = (str k, JNum i) # nonnull kvs"
  "nonnull [] = []"
  by (simp_all add: opt_field_def split: option.splits)

lemma payload_json_members:
  "payload_json p = JObj (nonnull (map (\<lambda>(k, v). (str k, v)) (payload_members p)))"
  unfolding payload_json_def payload_members_def list.map prod.case nonnull_opt append.simps append_Nil2 by (rule refl)

lemma map_of_filter_nonnull:
  "distinct (map fst kvs) \<Longrightarrow>
     map_of (filter (\<lambda>kv. snd kv \<noteq> JNull) (map (\<lambda>(k, v). (str k, v)) kvs)) (str f) =
       (case map_of kvs f of Some v \<Rightarrow> if v = JNull then None else Some v | None \<Rightarrow> None)"
proof (induction kvs)
  case (Cons kv kvs)
  obtain k v where kv: "kv = (k, v)" by fastforce
  have "map_of kvs k = None"
    using Cons.prems kv by (simp add: map_of_eq_None_iff)
  then show ?case
    using Cons by (auto simp: kv)
qed simp

lemma fields_of_payload:
  "fields_of_json (payload_json p) = Some f \<Longrightarrow> k \<in> set payload_fields \<Longrightarrow> map_of (payload_members p) k = Some (f k)"
proof -
  assume f: "fields_of_json (payload_json p) = Some f" and k: "k \<in> set payload_fields"
  have keys: "map fst (payload_members p) = payload_fields"
    by (simp add: payload_members_def payload_fields_def)
  have distinct: "distinct (map fst (payload_members p))"
    unfolding keys by (simp add: payload_fields_def)
  obtain v where v: "map_of (payload_members p) k = Some v"
    using k keys by (metis map_of_eq_None_iff not_Some_eq set_map)
  have "v \<noteq> JNull" if "k = ''version''"
    using v that by (auto simp: payload_members_def)
  with v f map_of_filter_nonnull [OF distinct, of k] show ?thesis
    unfolding payload_json_members fields_of_json_def by (auto split: if_splits)
qed

lemma fields_of_payload_json: "\<exists>f. fields_of_json (payload_json p) = Some f"
proof -
  have "map fst (map (\<lambda>(k, v). (str k, v)) (payload_members p)) = map str payload_fields"
    by (simp add: payload_members_def payload_fields_def)
  moreover have "distinct (map str payload_fields)"
    by (simp add: payload_fields_def)
  ultimately have "distinct (map fst (filter (\<lambda>kv. snd kv \<noteq> JNull) (map (\<lambda>(k, v). (str k, v)) (payload_members p))))"
    by (metis distinct_map_filter)
  then show ?thesis
    unfolding payload_json_members fields_of_json_def by (simp add: distinct_filter)
qed

text \<open>
  C32. A payload whose numbers fit their types is read back from its JSON form unchanged, absent optional
  fields included.
\<close>

theorem payload_roundtrip:
  assumes "payload_ok p"
  shows "payload_of_json (payload_json p) = Some p"
proof -
  obtain f where f: "fields_of_json (payload_json p) = Some f"
    using fields_of_payload_json by blast
  have get: "f k = v" if "map_of (payload_members p) k = Some v" "k \<in> set payload_fields" for k v
    using fields_of_payload [OF f that(2)] that(1) by simp
  have "f ''version'' = JNum (int (sp_version p))" "f ''nonce'' = case_option JNull JStr (sp_nonce p)"
    "f ''app'' = JStr (sp_app p)" "f ''chain'' = JStr (sp_chain p)" "f ''chain_id'' = JStr (sp_chain_id p)"
    "f ''purpose'' = JStr (sp_purpose p)" "f ''address'' = JStr (sp_address p)"
    "f ''issued_at'' = JNum (sp_issued_at p)" "f ''expires_at'' = JNum (sp_expires_at p)"
    "f ''revision'' = case_option JNull JNum (sp_revision p)" "f ''title'' = case_option JNull JStr (sp_title p)"
    "f ''body_hash'' = case_option JNull JStr (sp_body_hash p)" "f ''proposal_id'' = case_option JNull JStr (sp_proposal_id p)"
    "f ''choice'' = case_option JNull JStr (sp_choice p)" "f ''prev_body_hash'' = case_option JNull JStr (sp_prev_body_hash p)"
    by (rule get; simp add: payload_members_def payload_fields_def)+
  moreover have "de_opt as_str (case_option JNull JStr x) = Some x" for x
    by (cases x) simp_all
  moreover have "de_opt de_i64 (case_option JNull JNum (sp_revision p)) = Some (sp_revision p)"
    using assms by (cases "sp_revision p") (simp_all add: payload_ok_def de_i64_def checked_i64_def)
  moreover have "de_i64 (JNum (sp_issued_at p)) = Some (sp_issued_at p)" "de_i64 (JNum (sp_expires_at p)) = Some (sp_expires_at p)"
    "de_u32 (JNum (int (sp_version p))) = Some (sp_version p)"
    using assms by (simp_all add: payload_ok_def de_i64_def checked_i64_def de_u32_def)
  ultimately show ?thesis
    by (simp add: payload_of_json_def f)
qed

definition sample_payload :: signed_payload where
  "sample_payload = \<lparr>sp_version = 2, sp_nonce = Some (str ''n1''), sp_app = APP_NAME, sp_chain = str ''terra'',
     sp_chain_id = str ''columbus-5'', sp_purpose = str ''vote'', sp_address = str ''terra1abc'', sp_issued_at = 1000,
     sp_expires_at = 1120, sp_revision = None, sp_title = None, sp_body_hash = None,
     sp_proposal_id = Some (str ''7''), sp_choice = Some (str ''for''), sp_prev_body_hash = None\<rparr>"

theorem payload_roundtrip_witness: "payload_of_json (payload_json sample_payload) = Some sample_payload"
  by (rule payload_roundtrip) code_simp

end
