(* ===== verification/Amounts.thy ===== *)
theory Amounts
  imports LedgerError
begin

text \<open>
  Raw token amounts (\<open>ledger/src/amount.rs\<close>): unbounded integers accepted only inside the
  \<open>uint256\<close> range, read from decimal and from hexadecimal text.
\<close>

definition CL8Y_DECIMALS :: nat where "CL8Y_DECIMALS = 18"

definition uint256_bound :: int where "uint256_bound = 2 ^ 256"

definition parse_raw_amount :: "ustring \<Rightarrow> int ledger_result" where
  "parse_raw_amount raw =
     (let trimmed = trim raw in
      if trimmed = [] \<or> str_len trimmed > 78 then Inl (Amount ''empty or oversized amount'')
      else if \<not> list_all is_digit trimmed
        then Inl (Amount ''amount must be an unsigned integer string'')
      else (let amount = int (digits_val trimmed) in
        if amount \<ge> uint256_bound then Inl (Amount ''uint256 overflow'') else Inr amount))"

definition parse_hex_uint256 :: "ustring \<Rightarrow> int ledger_result" where
  "parse_hex_uint256 data =
     (case strip_prefix (str ''0x'') data of
        None \<Rightarrow> Inl (Amount ''uint256 needs 0x prefix'')
      | Some hex \<Rightarrow>
          if hex = [] \<or> str_len hex > 64 \<or> \<not> list_all is_hexdigit hex
          then Inl (Amount ''invalid uint256 width or encoding'')
          else Inr (int (hex_digits_val hex)))"

definition human_to_raw :: "nat \<Rightarrow> int" where
  "human_to_raw human = int human * 10 ^ CL8Y_DECIMALS"

definition valid_amount :: "int \<Rightarrow> bool" where
  "valid_amount a \<longleftrightarrow> 0 \<le> a \<and> a < uint256_bound"

lemma digit_not_ws: "is_digit c \<Longrightarrow> \<not> is_ws c"
  by (auto simp: is_digit_def is_ws_def)

lemma parse_raw_amount_valid: "parse_raw_amount raw = Inr a \<Longrightarrow> valid_amount a"
  by (auto simp: parse_raw_amount_def valid_amount_def Let_def split: if_splits)

text \<open>
  Printing an amount of the \<open>uint256\<close> range in decimal and parsing the text gives the
  amount back: no balance is lost between the database text and the accounting.
\<close>

theorem parse_raw_amount_int_str:
  assumes "valid_amount a"
  shows "parse_raw_amount (int_str a) = Inr a"
proof -
  let ?s = "nat_digits (nat a)"
  have digits: "\<forall>c\<in>set ?s. is_digit c"
    using nat_digits_digits by blast
  have a: "0 \<le> a" "a < 2 ^ 256"
    using assms by (simp_all add: valid_amount_def uint256_bound_def)
  have "nat a < 10 ^ 78"
    using a by simp
  then have "length ?s \<le> 78"
    by (rule length_nat_digits [rotated]) simp
  moreover have "str_len ?s = length ?s"
    using digits by (intro str_len_ascii) (auto simp: is_digit_def)
  moreover have "trim ?s = ?s"
    using digits digit_not_ws by (intro trim_no_ws) blast
  ultimately show ?thesis
    using a digits by (simp add: parse_raw_amount_def int_str_def Let_def list_all_iff uint256_bound_def)
qed

theorem parse_raw_amount_int_str_witness:
  "parse_raw_amount (int_str 1000000000000000000) = Inr 1000000000000000000"
  by (rule parse_raw_amount_int_str) (simp add: valid_amount_def uint256_bound_def)

lemma parse_hex_uint256_iff:
  "parse_hex_uint256 data = Inr a \<longleftrightarrow>
     (\<exists>hex. data = str ''0x'' @ hex \<and> hex \<noteq> [] \<and> str_len hex \<le> 64 \<and> list_all is_hexdigit hex
        \<and> a = int (hex_digits_val hex))"
  by (auto simp: parse_hex_uint256_def strip_prefix_Some split: option.split)

lemma parse_hex_uint256_valid: "parse_hex_uint256 data = Inr a \<Longrightarrow> valid_amount a"
proof -
  assume ok: "parse_hex_uint256 data = Inr a"
  then obtain hex where hex: "str_len hex \<le> 64" "list_all is_hexdigit hex" "a = int (hex_digits_val hex)"
    unfolding parse_hex_uint256_iff by blast
  have "hex_digits_val hex < 16 ^ length hex"
    using hex(2) by (intro hex_digits_val_bound) (simp add: list_all_iff)
  also have "(16::nat) ^ length hex \<le> 16 ^ 64"
    using length_le_str_len [of hex] hex(1) by (intro power_increasing) auto
  finally have "int (hex_digits_val hex) < int (16 ^ 64)"
    by (simp only: of_nat_less_iff)
  then show ?thesis
    by (simp add: valid_amount_def uint256_bound_def hex(3))
qed

text \<open>
  \<open>parse_raw_amount\<close> accepts exactly the unsigned decimal integers of at most 78 digits
  below \<open>2^256\<close> (surrounding whitespace aside), with their value; everything else (a sign, a
  fraction, an exponent, an empty or oversized text, an overflow) is an error.
\<close>

theorem parse_raw_amount_iff:
  "parse_raw_amount raw = Inr a \<longleftrightarrow>
     trim raw \<noteq> [] \<and> length (trim raw) \<le> 78 \<and> (\<forall>c\<in>set (trim raw). is_digit c)
     \<and> a = int (digits_val (trim raw)) \<and> a < 2 ^ 256"
proof -
  have len: "str_len (trim raw) = length (trim raw)" if "\<forall>c\<in>set (trim raw). is_digit c"
    using that by (intro str_len_ascii) (auto simp: is_digit_def)
  show ?thesis
    using len
    by (auto simp: parse_raw_amount_def Let_def list_all_iff uint256_bound_def)
qed

theorem parse_raw_amount_iff_witness:
  "\<nexists>a. parse_raw_amount (str ''1e18'') = Inr a"
  using parse_raw_amount_iff [of "str ''1e18''"]
  by (auto simp: str_def trim_def trim_by_def is_ws_def is_digit_def)

end
