(* ===== verification/Parser.thy ===== *)
theory Parser
  imports Amounts Address
begin

text \<open>
  The transfer parsers (\<open>ledger/src/parser\<close>): CW20 \<open>wasm\<close> events, BEP-20 \<open>Transfer\<close> logs
  and \<open>apply_transfer\<close>, the arithmetic of one transfer on one wallet's running balance.
\<close>

section \<open>One transfer on one balance\<close>

definition apply_transfer :: "int \<Rightarrow> ustring \<Rightarrow> ustring \<Rightarrow> ustring \<Rightarrow> int \<Rightarrow> int" where
  "apply_transfer previous wallet from to amount =
     (let wallet_n = lower wallet; from_n = lower from; to_n = lower to in
      if from_n = to_n then previous
      else (let next1 = (if from_n = wallet_n then previous - amount else previous) in
            if to_n = wallet_n then next1 + amount else next1))"

definition transfer_delta :: "ustring \<Rightarrow> ustring \<Rightarrow> ustring \<Rightarrow> int \<Rightarrow> int" where
  "transfer_delta wallet from to amount = apply_transfer 0 wallet from to amount"

lemma apply_transfer_delta: "apply_transfer b w f t a = b + transfer_delta w f t a"
  by (simp add: transfer_delta_def apply_transfer_def Let_def)

lemma transfer_delta_untouched:
  "lower f \<noteq> lower w \<Longrightarrow> lower t \<noteq> lower w \<Longrightarrow> transfer_delta w f t a = 0"
  by (simp add: transfer_delta_def apply_transfer_def Let_def)

text \<open>
  A transfer moves value and never creates it: over any set of wallets with distinct
  spellings that holds both legs the balances add up to the same total, and a self-transfer
  changes nothing.
\<close>

theorem apply_transfer_conserves:
  assumes "distinct (map lower ws)" and "lower from \<in> lower ` set ws" and "lower to \<in> lower ` set ws"
  shows "(\<Sum>w\<leftarrow>ws. apply_transfer (bal w) w from to amount) = (\<Sum>w\<leftarrow>ws. bal w)
     \<and> (lower from = lower to \<longrightarrow> (\<forall>w. apply_transfer (bal w) w from to amount = bal w))"
proof -
  have one: "(\<Sum>w\<leftarrow>ws. if lower w = k then c else 0) = (if k \<in> lower ` set ws then c else 0)"
    if "distinct (map lower ws)" for ws :: "ustring list" and k and c :: int
    using that by (induction ws) auto
  have delta: "transfer_delta w from to amount =
      (if lower w = lower to then (if lower from = lower to then 0 else amount) else 0)
      - (if lower w = lower from then (if lower from = lower to then 0 else amount) else 0)" for w
    by (auto simp: transfer_delta_def apply_transfer_def Let_def)
  have "(\<Sum>w\<leftarrow>ws. transfer_delta w from to amount) = 0"
    using assms unfolding delta by (simp add: sum_list_subtractf one)
  then show ?thesis
    by (simp add: apply_transfer_delta sum_list_addf)
       (simp add: transfer_delta_def apply_transfer_def Let_def)
qed

theorem apply_transfer_conserves_witness:
  "apply_transfer 100 (str ''terra1a'') (str ''terra1A'') (str ''terra1b'') 10
     + apply_transfer 5 (str ''terra1b'') (str ''terra1A'') (str ''terra1b'') 10 = 105"
proof -
  have "distinct (map lower [str ''terra1a'', str ''terra1b''])"
    "lower (str ''terra1A'') \<in> lower ` set [str ''terra1a'', str ''terra1b'']"
    "lower (str ''terra1b'') \<in> lower ` set [str ''terra1a'', str ''terra1b'']"
    by code_simp+
  from apply_transfer_conserves [OF this, of "\<lambda>w. if w = str ''terra1a'' then 100 else 5" 10, THEN conjunct1]
  show ?thesis by simp
qed

section \<open>CW20 events\<close>

record cw20_attribute =
  attr_key :: ustring
  attr_value :: ustring

record cw20_event =
  event_type :: ustring
  attributes :: "cw20_attribute list"

record cw20_transfer =
  ct_contract :: ustring
  ct_from :: ustring
  ct_to :: ustring
  ct_amount :: int
  ct_action :: ustring

definition wasm_attr_last :: "cw20_attribute list \<Rightarrow> string \<Rightarrow> ustring option" where
  "wasm_attr_last attrs key =
     map_option attr_value (List.find (\<lambda>a. attr_key a = str key) (rev attrs))"

definition wasm_contract_addr :: "cw20_attribute list \<Rightarrow> ustring option" where
  "wasm_contract_addr attrs = wasm_attr_last attrs ''_contract_address''"

definition is_wasm_lifecycle :: "ustring \<Rightarrow> bool" where
  "is_wasm_lifecycle t \<longleftrightarrow> t = str ''wasm'' \<or> t = str ''wasm-wasm''"

definition is_balance_action :: "ustring \<Rightarrow> bool" where
  "is_balance_action a \<longleftrightarrow> a = str ''transfer'' \<or> a = str ''send'' \<or> a = str ''mint'' \<or> a = str ''burn''"

definition or_else :: "'a option \<Rightarrow> 'a option \<Rightarrow> 'a option" where
  "or_else a b = (case a of None \<Rightarrow> b | Some x \<Rightarrow> Some x)"

definition unwrap_or :: "'a option \<Rightarrow> 'a \<Rightarrow> 'a" where
  "unwrap_or a d = (case a of None \<Rightarrow> d | Some x \<Rightarrow> x)"

definition cw20_from :: "cw20_attribute list \<Rightarrow> ustring \<Rightarrow> ustring" where
  "cw20_from attrs action =
     (if action = str ''mint'' then []
      else lower (unwrap_or (or_else (wasm_attr_last attrs ''from'') (wasm_attr_last attrs ''sender'')) []))"

definition cw20_to :: "cw20_attribute list \<Rightarrow> ustring \<Rightarrow> ustring" where
  "cw20_to attrs action =
     (if action = str ''burn'' then []
      else lower (unwrap_or (or_else (wasm_attr_last attrs ''to'') (wasm_attr_last attrs ''recipient'')) []))"

text \<open>One iteration of the event loop: \<open>None\<close> is \<open>continue\<close>.\<close>

definition parse_cw20_event ::
    "ustring \<Rightarrow> ustring list \<Rightarrow> cw20_event \<Rightarrow> cw20_transfer option ledger_result" where
  "parse_cw20_event token registered_l event =
     (if \<not> is_wasm_lifecycle (event_type event) then Inr None
      else case wasm_contract_addr (attributes event) of
        None \<Rightarrow> Inr None
      | Some contract \<Rightarrow>
          if lower contract \<noteq> token then Inr None
          else (case wasm_attr_last (attributes event) ''action'' of
            None \<Rightarrow> Inr None
          | Some action \<Rightarrow>
              if \<not> is_balance_action action then Inr None
              else (let from = cw20_from (attributes event) action;
                        to = cw20_to (attributes event) action in
                bindR (ok_or (Provider ''missing_cw20_amount'')
                         (wasm_attr_last (attributes event) ''amount'')) (\<lambda>amount_raw.
                if ((action = str ''transfer'' \<or> action = str ''send'') \<and> (from = [] \<or> to = []))
                   \<or> (action = str ''mint'' \<and> to = []) \<or> (action = str ''burn'' \<and> from = [])
                then Inl (Provider ''missing_cw20_leg'')
                else (case parse_raw_amount amount_raw of
                  Inl _ \<Rightarrow> Inl (Provider ''invalid_cw20_source_amount'')
                | Inr amount \<Rightarrow>
                    if \<not> (from \<in> set registered_l \<or> to \<in> set registered_l) then Inr None
                    else Inr (Some \<lparr>ct_contract = lower contract, ct_from = from, ct_to = to,
                                    ct_amount = amount, ct_action = action\<rparr>))))))"

fun catMapR :: "('a \<Rightarrow> 'e + 'b option) \<Rightarrow> 'a list \<Rightarrow> 'e + 'b list" where
  "catMapR f [] = Inr []"
| "catMapR f (x # xs) =
     bindR (f x) (\<lambda>r. bindR (catMapR f xs) (\<lambda>ys. Inr (case r of None \<Rightarrow> ys | Some y \<Rightarrow> y # ys)))"

definition parse_cw20_wasm_events ::
    "cw20_event list \<Rightarrow> ustring \<Rightarrow> ustring list \<Rightarrow> cw20_transfer list ledger_result" where
  "parse_cw20_wasm_events events cl8y_token registered =
     (let token = lower (trim cl8y_token);
          registered_l = map (\<lambda>a. lower (trim a)) registered in
      catMapR (parse_cw20_event token registered_l) events)"

lemma catMapR_set:
  "catMapR f xs = Inr ys \<Longrightarrow> y \<in> set ys \<Longrightarrow> \<exists>x\<in>set xs. f x = Inr (Some y)"
  by (induction xs arbitrary: ys) (fastforce simp: result_iff split: option.splits)+

lemma catMapR_map: "(\<And>x. x \<in> set xs \<Longrightarrow> f (g x) = f x) \<Longrightarrow> catMapR f (map g xs) = catMapR f xs"
  by (induction xs) auto

lemma parse_cw20_event_Some:
  assumes "parse_cw20_event token regs ev = Inr (Some t)"
  shows "is_wasm_lifecycle (event_type ev)
     \<and> map_option lower (wasm_contract_addr (attributes ev)) = Some token
     \<and> wasm_attr_last (attributes ev) ''action'' = Some (ct_action t)
     \<and> is_balance_action (ct_action t) \<and> valid_amount (ct_amount t)
     \<and> (ct_from t \<in> set regs \<or> ct_to t \<in> set regs)
     \<and> (ct_action t = str ''mint'' \<longrightarrow> ct_from t = []) \<and> (ct_action t = str ''burn'' \<longrightarrow> ct_to t = [])
     \<and> (ct_from t \<noteq> [] \<or> ct_to t \<noteq> []) \<and> ct_contract t = token
     \<and> lower (ct_from t) = ct_from t \<and> lower (ct_to t) = ct_to t"
proof -
  from assms show ?thesis
    unfolding parse_cw20_event_def Let_def result_iff
    by (clarsimp simp: result_iff)
       (auto simp: cw20_from_def cw20_to_def is_balance_action_def dest!: parse_raw_amount_valid)
qed

text \<open>
  Every CW20 transfer the parser keeps comes from a \<open>wasm\<close> event whose last
  \<open>_contract_address\<close> is the pinned token, is a balance action with an amount in the
  \<open>uint256\<close> range and touches a registered wallet; and the attribute \<open>contract_address\<close>,
  which any contract can forge, never influences the result.
\<close>

theorem parse_cw20_wasm_events_sound:
  "(parse_cw20_wasm_events events token registered = Inr ts \<longrightarrow> (\<forall>t\<in>set ts.
      (\<exists>ev\<in>set events. is_wasm_lifecycle (event_type ev)
         \<and> map_option lower (wasm_contract_addr (attributes ev)) = Some (lower (trim token)))
      \<and> is_balance_action (ct_action t) \<and> 0 \<le> ct_amount t \<and> ct_amount t < 2 ^ 256
      \<and> (\<exists>w\<in>set registered. lower (trim w) = ct_from t \<or> lower (trim w) = ct_to t)))
   \<and> parse_cw20_wasm_events
        (map (\<lambda>ev. ev\<lparr>attributes := filter (\<lambda>a. attr_key a \<noteq> str ''contract_address'') (attributes ev)\<rparr>) events)
        token registered
      = parse_cw20_wasm_events events token registered"
proof (intro conjI impI ballI)
  fix t
  assume ok: "parse_cw20_wasm_events events token registered = Inr ts" and t: "t \<in> set ts"
  then obtain ev where ev: "ev \<in> set events"
      and p: "parse_cw20_event (lower (trim token)) (map (\<lambda>a. lower (trim a)) registered) ev = Inr (Some t)"
    by (auto simp: parse_cw20_wasm_events_def Let_def dest: catMapR_set)
  note facts = parse_cw20_event_Some [OF p]
  from ev facts show "\<exists>ev\<in>set events. is_wasm_lifecycle (event_type ev)
      \<and> map_option lower (wasm_contract_addr (attributes ev)) = Some (lower (trim token))"
    by blast
  from facts show "is_balance_action (ct_action t)" "0 \<le> ct_amount t" "ct_amount t < 2 ^ 256"
    by (auto simp: valid_amount_def uint256_bound_def)
  from facts have "ct_from t \<in> (\<lambda>a. lower (trim a)) ` set registered
      \<or> ct_to t \<in> (\<lambda>a. lower (trim a)) ` set registered"
    by (simp only: set_map)
  then show "\<exists>w\<in>set registered. lower (trim w) = ct_from t \<or> lower (trim w) = ct_to t"
    by (auto simp only: image_iff)
next
  have find: "List.find P (rev (filter Q as)) = List.find P (rev as)"
    if "\<And>a. P a \<Longrightarrow> Q a" for P Q and as :: "cw20_attribute list"
    using that by (induction as rule: rev_induct) auto
  have "wasm_attr_last (filter (\<lambda>a. attr_key a \<noteq> str ''contract_address'') as) k = wasm_attr_last as k"
    if "k \<noteq> ''contract_address''" for as k
    using that by (auto simp: wasm_attr_last_def intro!: arg_cong [where f = "map_option attr_value"] find)
  then have "parse_cw20_event tok regs
        (ev\<lparr>attributes := filter (\<lambda>a. attr_key a \<noteq> str ''contract_address'') (attributes ev)\<rparr>)
      = parse_cw20_event tok regs ev" for tok regs ev
    by (simp add: parse_cw20_event_def wasm_contract_addr_def cw20_from_def cw20_to_def
          cong: option.case_cong if_cong)
  then show "parse_cw20_wasm_events
        (map (\<lambda>ev. ev\<lparr>attributes := filter (\<lambda>a. attr_key a \<noteq> str ''contract_address'') (attributes ev)\<rparr>) events)
        token registered = parse_cw20_wasm_events events token registered"
    by (simp add: parse_cw20_wasm_events_def Let_def catMapR_map)
qed

theorem parse_cw20_wasm_events_sound_witness:
  "let alice = str ''terra1alice''; tok = str ''terra1tok'';
       at = (\<lambda>k v. \<lparr>attr_key = str k, attr_value = v\<rparr>);
       ev = \<lparr>event_type = str ''wasm'', attributes =
         [at ''_contract_address'' tok, at ''action'' (str ''transfer''), at ''from'' alice,
          at ''to'' (str ''terra1bob''), at ''amount'' (str ''7'')]\<rparr> in
   \<exists>t. parse_cw20_wasm_events [ev] tok [alice] = Inr [t] \<and> ct_amount t < 2 ^ 256"
proof -
  let ?at = "\<lambda>k v. \<lparr>attr_key = str k, attr_value = v\<rparr>"
  let ?ev = "\<lparr>event_type = str ''wasm'', attributes =
         [?at ''_contract_address'' (str ''terra1tok''), ?at ''action'' (str ''transfer''),
          ?at ''from'' (str ''terra1alice''), ?at ''to'' (str ''terra1bob''), ?at ''amount'' (str ''7'')]\<rparr>"
  have "parse_cw20_wasm_events [?ev] (str ''terra1tok'') [str ''terra1alice''] =
      Inr [\<lparr>ct_contract = str ''terra1tok'', ct_from = str ''terra1alice'', ct_to = str ''terra1bob'',
            ct_amount = 7, ct_action = str ''transfer''\<rparr>]"
    by code_simp
  with parse_cw20_wasm_events_sound [of "[?ev]" "str ''terra1tok''" "[str ''terra1alice'']"]
  show ?thesis by (auto simp: Let_def)
qed

section \<open>BEP-20 logs\<close>

definition TRANSFER_TOPIC :: ustring where
  "TRANSFER_TOPIC = str ''0xddf252ad1be2c89b69c2b068fc378daa952ba7f163c4a11628f55a4df523b3ef''"

definition ZERO_EVM_ADDRESS :: ustring where
  "ZERO_EVM_ADDRESS = str ''0x0000000000000000000000000000000000000000''"

record bep20_log =
  lg_address :: ustring
  lg_topics :: "ustring list"
  lg_data :: ustring
  lg_block_number :: int
  lg_transaction_hash :: ustring
  lg_log_index :: int

record bep20_transfer =
  bt_token :: ustring
  bt_from :: ustring
  bt_to :: ustring
  bt_amount :: int
  bt_bsc_block :: int
  bt_tx_hash :: ustring
  bt_log_index :: int

definition topic_address :: "ustring \<Rightarrow> ustring ledger_result" where
  "topic_address topic =
     (let hex = trim_0x (trim topic) in
      if str_len hex \<noteq> 64 \<or> \<not> list_all is_hexdigit hex \<or> \<not> list_all (\<lambda>b. b = 48) (take 24 hex)
      then Inl (Amount ''short topic'')
      else normalize_evm_addr (str ''0x'' @ drop (length hex - 40) hex))"

definition parse_bep20_transfer_log ::
    "bep20_log \<Rightarrow> ustring \<Rightarrow> ustring list \<Rightarrow> bep20_transfer option ledger_result" where
  "parse_bep20_transfer_log log pinned_token registered =
     bindR (normalize_evm_addr (lg_address log)) (\<lambda>token.
     bindR (normalize_evm_addr pinned_token) (\<lambda>pinned.
     if token \<noteq> pinned then Inr None
     else case lg_topics log of
       [] \<Rightarrow> Inr None
     | t0 # rest \<Rightarrow>
         if lower (trim t0) \<noteq> TRANSFER_TOPIC then Inr None
         else if length (lg_topics log) \<noteq> 3 \<or> str_len (lg_data log) \<noteq> 66
           then Inl (Amount ''invalid Transfer topic/data width'')
         else
         bindR (topic_address (lg_topics log ! 1)) (\<lambda>from.
         bindR (topic_address (lg_topics log ! 2)) (\<lambda>to.
         bindR (parse_hex_uint256 (lg_data log)) (\<lambda>amount.
         bindR (mapR normalize_evm_addr registered) (\<lambda>registered_l.
         if \<not> (from \<in> set registered_l \<or> to \<in> set registered_l) then Inr None
         else Inr (Some \<lparr>bt_token = token, bt_from = from, bt_to = to, bt_amount = amount,
                bt_bsc_block = lg_block_number log, bt_tx_hash = lower (lg_transaction_hash log),
                bt_log_index = lg_log_index log\<rparr>)))))))"

lemma topic_address_normal: "topic_address t = Inr a \<Longrightarrow> normalize_evm_addr a = Inr a"
  by (auto simp: topic_address_def Let_def split: if_splits dest: normalize_evm_addr_idem)

lemma mapR_set: "mapR f xs = Inr ys \<Longrightarrow> y \<in> set ys \<Longrightarrow> \<exists>x\<in>set xs. f x = Inr y"
  by (induction xs arbitrary: ys) (auto simp: result_iff)

lemma parse_bep20_transfer_log_block:
  assumes "parse_bep20_transfer_log log pinned registered = Inr (Some t)"
  shows "bt_bsc_block t = lg_block_number log"
proof -
  from assms obtain t0 rest where topics: "lg_topics log = t0 # rest"
    unfolding parse_bep20_transfer_log_def by (cases "lg_topics log") (auto simp: result_iff split: if_splits)
  from assms show ?thesis
    unfolding parse_bep20_transfer_log_def topics by (auto simp: result_iff split: if_splits)
qed

text \<open>
  Every BEP-20 transfer the parser keeps is a log of the pinned token with the
  \<open>Transfer\<close> topic, has both addresses in canonical form, an amount in the \<open>uint256\<close>
  range, the block and index of its log, and a leg at a registered wallet.
\<close>

theorem parse_bep20_transfer_log_sound:
  assumes "parse_bep20_transfer_log log pinned registered = Inr (Some t)"
  shows "normalize_evm_addr (lg_address log) = Inr (bt_token t)
     \<and> normalize_evm_addr pinned = Inr (bt_token t)
     \<and> lower (trim (hd (lg_topics log))) = TRANSFER_TOPIC
     \<and> normalize_evm_addr (bt_from t) = Inr (bt_from t) \<and> normalize_evm_addr (bt_to t) = Inr (bt_to t)
     \<and> 0 \<le> bt_amount t \<and> bt_amount t < 2 ^ 256
     \<and> bt_bsc_block t = lg_block_number log \<and> bt_log_index t = lg_log_index log
     \<and> (\<exists>w\<in>set registered. normalize_evm_addr w = Inr (bt_from t) \<or> normalize_evm_addr w = Inr (bt_to t))"
proof -
  from assms obtain t0 rest where topics: "lg_topics log = t0 # rest"
    unfolding parse_bep20_transfer_log_def by (cases "lg_topics log") (auto simp: result_iff split: if_splits)
  from assms obtain regs where t: "normalize_evm_addr (lg_address log) = Inr (bt_token t)"
      "normalize_evm_addr pinned = Inr (bt_token t)"
      "lg_topics log \<noteq> []" "lower (trim (hd (lg_topics log))) = TRANSFER_TOPIC"
      "topic_address (lg_topics log ! 1) = Inr (bt_from t)"
      "topic_address (lg_topics log ! 2) = Inr (bt_to t)"
      "parse_hex_uint256 (lg_data log) = Inr (bt_amount t)"
      "mapR normalize_evm_addr registered = Inr regs"
      "bt_from t \<in> set regs \<or> bt_to t \<in> set regs"
      "bt_bsc_block t = lg_block_number log" "bt_log_index t = lg_log_index log"
    unfolding parse_bep20_transfer_log_def topics
    by (auto simp: result_iff simp del: nth_Cons_Suc nth_Cons_numeral split: if_splits)
  from t(9) mapR_set [OF t(8)]
  have "\<exists>w\<in>set registered. normalize_evm_addr w = Inr (bt_from t) \<or> normalize_evm_addr w = Inr (bt_to t)"
    by blast
  with t parse_hex_uint256_valid [OF t(7)] show ?thesis
    by (simp add: topic_address_normal valid_amount_def uint256_bound_def)
qed

theorem parse_bep20_transfer_log_sound_witness:
  "let a = str ''0x1111111111111111111111111111111111111111'';
       topic = str ''0x0000000000000000000000001111111111111111111111111111111111111111'';
       log = \<lparr>lg_address = a, lg_topics = [TRANSFER_TOPIC, topic, topic],
              lg_data = str ''0x00000000000000000000000000000000000000000000000000000000000000ff'',
              lg_block_number = 100, lg_transaction_hash = str ''0xAB'', lg_log_index = 4\<rparr> in
   \<exists>t. parse_bep20_transfer_log log a [a] = Inr (Some t) \<and> bt_bsc_block t = 100 \<and> bt_from t = a"
proof -
  let ?a = "str ''0x1111111111111111111111111111111111111111''"
  let ?topic = "str ''0x0000000000000000000000001111111111111111111111111111111111111111''"
  let ?log = "\<lparr>lg_address = ?a, lg_topics = [TRANSFER_TOPIC, ?topic, ?topic],
              lg_data = str ''0x00000000000000000000000000000000000000000000000000000000000000ff'',
              lg_block_number = 100, lg_transaction_hash = str ''0xAB'', lg_log_index = 4\<rparr>"
  have ok: "parse_bep20_transfer_log ?log ?a [?a] = Inr (Some
      \<lparr>bt_token = ?a, bt_from = ?a, bt_to = ?a, bt_amount = 255, bt_bsc_block = 100,
       bt_tx_hash = str ''0xab'', bt_log_index = 4\<rparr>)"
    by code_simp
  with parse_bep20_transfer_log_sound [OF ok] show ?thesis
    by (simp add: Let_def)
qed

end
