(* ===== verification/LedgerDb.thy ===== *)
theory LedgerDb
  imports Database Parser
begin

text \<open>
  The ledger's database operations (\<open>ledger/src/db.rs\<close>) and the SQL balance functions they
  call. Functions over an open transaction take and return the database; the \<open>pg_advisory\<close>
  lock that serialises the transactions of a chain is why each is one step. \<open>now\<close> is the
  value of \<open>NOW()\<close>.

  The theory then proves the accounting laws of the ledger: \<open>books_ok\<close> is the invariant of
  the balance tables, and the balance of every tracked wallet at every height is its baseline plus
  the recorded transfers above the baseline.
\<close>

section \<open>Small helpers\<close>

definition validate_amount :: "int \<Rightarrow> unit ledger_result" where
  "validate_amount amount =
     (if amount < 0 \<or> amount \<ge> 2 ^ 256 then Inl (Amount ''amount outside uint256 range'') else Inr ())"

definition normalize_wallet :: "chain \<Rightarrow> ustring \<Rightarrow> ustring ledger_result" where
  "normalize_wallet c raw =
     (case c of Terra \<Rightarrow> Inr (normalize_terra_addr raw) | Bsc \<Rightarrow> normalize_evm_addr raw)"

fun unique_nonempty :: "ustring list \<Rightarrow> ustring list \<Rightarrow> ustring list" where
  "unique_nonempty [] out = out"
| "unique_nonempty (a # addrs) out =
     unique_nonempty addrs
       (let n = lower (trim a) in
        if n = [] \<or> n = ZERO_EVM_ADDRESS then out
        else if n \<notin> set out then out @ [n] else out)"

definition parse_cursor :: "ustring option \<Rightarrow> int ledger_result" where
  "parse_cursor value = (case value of
       None \<Rightarrow> Inr 0
     | Some raw \<Rightarrow>
         ok_or (Provider ''malformed_cursor'')
           (case parse_i64 raw of Some h \<Rightarrow> if h \<ge> 0 then Some h else None | None \<Rightarrow> None))"

section \<open>Balances\<close>

definition stored_balance :: "db \<Rightarrow> chain \<Rightarrow> registration \<Rightarrow> int \<Rightarrow> int" where
  "stored_balance d c r height =
     (case max_by bl_height
             (filter (\<lambda>b. bl_wallet b = vr_wallet r \<and> bl_height b \<le> height) (balances d c)) of
        Some b \<Rightarrow> bl_balance b
      | None \<Rightarrow> vr_initial r)"

definition sql_balance_at :: "db \<Rightarrow> chain \<Rightarrow> ustring \<Rightarrow> int \<Rightarrow> int" where
  "sql_balance_at d c p_wallet p_height =
     (case find_row reg_key (c, lower (sql_trim p_wallet)) (registrations d) of
        None \<Rightarrow> 0
      | Some r \<Rightarrow> if p_height < vr_registered_at r then 0 else stored_balance d c r p_height)"

definition balance_at :: "db \<Rightarrow> chain \<Rightarrow> ustring \<Rightarrow> int \<Rightarrow> int ledger_result" where
  "balance_at d c wallet height =
     bindR (normalize_wallet c wallet) (\<lambda>w.
     parse_raw_amount (int_str (sql_balance_at d c w height)))"

definition tip_balance_in_tx :: "db \<Rightarrow> chain \<Rightarrow> ustring \<Rightarrow> int ledger_result" where
  "tip_balance_in_tx d c wallet = parse_raw_amount (int_str (sql_balance_at d c wallet i64_max))"

definition is_registered_in_tx :: "db \<Rightarrow> chain \<Rightarrow> ustring \<Rightarrow> int \<Rightarrow> bool" where
  "is_registered_in_tx d c wallet height =
     (case find_row reg_key (c, wallet) (registrations d) of
        Some r \<Rightarrow> is_active r \<and> baseline_of r < height
      | None \<Rightarrow> False)"

definition upsert_checkpoint :: "chain \<Rightarrow> ustring \<Rightarrow> int \<Rightarrow> int \<Rightarrow> db \<Rightarrow> db ledger_result" where
  "upsert_checkpoint c wallet height balance d =
     (let latest = max_by id (map bl_height (filter (\<lambda>b. bl_wallet b = wallet) (balances d c))) in
      if (case latest of Some h \<Rightarrow> h > height | None \<Rightarrow> False)
      then Inl (Conflict ''out-of-order accounting event'')
      else if balance < 0 then Inl (Conflict ''balance underflow; accounting degraded'')
      else bindR (validate_amount balance) (\<lambda>_.
        Inr (d\<lparr>balances := (balances d)(c := upsert_row bal_key
               \<lparr>bl_wallet = wallet, bl_height = height, bl_balance = balance\<rparr> (balances d c))\<rparr>)))"

section \<open>Transfers\<close>

text \<open>The loop over the wallets of one transfer, the same in both chains.\<close>

definition credit_wallet ::
    "chain \<Rightarrow> int \<Rightarrow> ustring \<Rightarrow> ustring \<Rightarrow> int \<Rightarrow> ustring \<Rightarrow> db \<Rightarrow> db ledger_result" where
  "credit_wallet c height from to amount wallet d =
     (if \<not> is_registered_in_tx d c wallet height then Inr d
      else bindR (tip_balance_in_tx d c wallet) (\<lambda>prev.
           upsert_checkpoint c wallet height (apply_transfer prev wallet from to amount) d))"

definition credit_wallets ::
    "chain \<Rightarrow> int \<Rightarrow> ustring \<Rightarrow> ustring \<Rightarrow> int \<Rightarrow> db \<Rightarrow> db ledger_result" where
  "credit_wallets c height from to amount d =
     foldR (credit_wallet c height from to amount) (unique_nonempty [from, to] []) d"

definition persist_terra_leg ::
    "cw20_transfer \<Rightarrow> int \<Rightarrow> ustring \<Rightarrow> int \<Rightarrow> db \<Rightarrow> db ledger_result" where
  "persist_terra_leg t height tx_hash msg_index d =
     bindR (validate_amount (ct_amount t)) (\<lambda>_.
     if height \<le> 0 \<or> tx_hash = [] then Inl (Conflict ''invalid Terra event identity'')
     else (let row = \<lparr>tr_height = height, tr_tx_hash = tx_hash, tr_index = msg_index,
                      tr_from = ct_from t, tr_to = ct_to t, tr_amount = ct_amount t,
                      tr_action = ct_action t\<rparr> in
       case insert_nothing tr_key row (transfers d Terra) of
         (rows, True) \<Rightarrow>
           credit_wallets Terra height (ct_from t) (ct_to t) (ct_amount t)
             (d\<lparr>transfers := (transfers d)(Terra := rows)\<rparr>)
       | (_, False) \<Rightarrow>
           (if find_row tr_key (tx_hash, msg_index) (transfers d Terra) = Some row then Inr d
            else Inl (Conflict ''conflicting Terra event identity''))))"

definition persist_bsc_leg :: "bep20_transfer \<Rightarrow> db \<Rightarrow> db ledger_result" where
  "persist_bsc_leg t d =
     bindR (validate_amount (bt_amount t)) (\<lambda>_.
     if bt_bsc_block t \<le> 0 \<or> bt_tx_hash t = [] \<or> bt_log_index t < 0
     then Inl (Conflict ''invalid BSC event identity'')
     else (let row = \<lparr>tr_height = bt_bsc_block t, tr_tx_hash = bt_tx_hash t,
                      tr_index = bt_log_index t, tr_from = bt_from t, tr_to = bt_to t,
                      tr_amount = bt_amount t, tr_action = []\<rparr> in
       case insert_nothing tr_key row (transfers d Bsc) of
         (rows, True) \<Rightarrow>
           credit_wallets Bsc (bt_bsc_block t) (bt_from t) (bt_to t) (bt_amount t)
             (d\<lparr>transfers := (transfers d)(Bsc := rows)\<rparr>)
       | (_, False) \<Rightarrow>
           (if find_row tr_key (bt_tx_hash t, bt_log_index t) (transfers d Bsc) = Some row then Inr d
            else Inl (Conflict ''conflicting BSC event identity''))))"

text \<open>The pool-level batches: one transaction for the whole list, \<open>enumerate\<close> for the index.\<close>

definition apply_cw20_transfers ::
    "cw20_transfer list \<Rightarrow> int \<Rightarrow> ustring \<Rightarrow> db \<Rightarrow> db ledger_result" where
  "apply_cw20_transfers ts height tx_hash d =
     (if ts = [] then Inr d
      else foldR (\<lambda>(i, t). persist_terra_leg t height tx_hash (int i)) (List.enumerate 0 ts) d)"

definition apply_bep20_transfers :: "bep20_transfer list \<Rightarrow> db \<Rightarrow> db ledger_result" where
  "apply_bep20_transfers ts d = (if ts = [] then Inr d else foldR persist_bsc_leg ts d)"

section \<open>Indexer state and checkpoints\<close>

definition get_state :: "db \<Rightarrow> ustring \<Rightarrow> ustring option" where
  "get_state d key = map_option st_value (find_row st_key key (indexer_state d))"

definition set_state :: "ustring \<Rightarrow> ustring \<Rightarrow> int \<Rightarrow> db \<Rightarrow> db" where
  "set_state key value now d =
     d\<lparr>indexer_state := upsert_row st_key
         \<lparr>st_key = key, st_value = value, st_updated_at = now\<rparr> (indexer_state d)\<rparr>"

definition cursor_key :: "chain \<Rightarrow> ustring" where
  "cursor_key c = (case c of Terra \<Rightarrow> str ''last_indexed_height'' | Bsc \<Rightarrow> str ''last_indexed_bsc_block'')"

definition cursor_hash_key :: "chain \<Rightarrow> ustring" where
  "cursor_hash_key c =
     (case c of Terra \<Rightarrow> str ''last_indexed_block_hash'' | Bsc \<Rightarrow> str ''last_indexed_bsc_block_hash'')"

text \<open>\<open>indexed_terra_height\<close> and \<open>indexed_bsc_block\<close>.\<close>

definition indexed_height :: "db \<Rightarrow> chain \<Rightarrow> int ledger_result" where
  "indexed_height d c = parse_cursor (get_state d (cursor_key c))"

definition publish_checkpoint ::
    "chain \<Rightarrow> int \<Rightarrow> ustring \<Rightarrow> int \<Rightarrow> int \<Rightarrow> db \<Rightarrow> db ledger_result" where
  "publish_checkpoint c height hash tip now d =
     (if (case checkpoints d c of Some cp \<Rightarrow> cp_height cp > height | None \<Rightarrow> False)
      then Inl (Provider ''checkpoint_regression'')
      else (let
        d1 = d\<lparr>canonical_blocks := upsert_row cb_key
               \<lparr>cb_chain = c, cb_height = height, cb_hash = hash\<rparr> (canonical_blocks d)\<rparr>;
        cp = \<lparr>cp_height = height, cp_hash = hash, cp_observed_at = Some now,
              cp_epoch = (case checkpoints d c of Some cp \<Rightarrow> cp_epoch cp | None \<Rightarrow> 1),
              cp_complete = True, cp_canonical = True, cp_degraded = None, cp_network_tip = tip\<rparr>;
        d2 = d1\<lparr>checkpoints := (checkpoints d1)(c := Some cp)\<rparr>;
        d3 = set_state (cursor_key c) (int_str height) now d2;
        d4 = set_state (cursor_hash_key c) hash now d3 in
        Inr (d4\<lparr>canonical_blocks :=
               filter (\<lambda>b. \<not> (cb_chain b = c \<and> cb_height b < sat_sub height 128)) (canonical_blocks d4)\<rparr>)))"

definition permanent_reasons :: "ustring list" where
  "permanent_reasons =
     [str ''legacy_electorate_requires_reconciliation'', str ''missing_canonical_history'',
      str ''fork_beyond_horizon'', str ''registration_baseline_orphaned'',
      str ''lost_registered_history'', str ''baseline_recovery_requested'',
      str ''accounting_corruption'', str ''accounting_invalid_amount'']"

definition new_checkpoint :: "ustring \<Rightarrow> checkpoint" where
  "new_checkpoint reason = \<lparr>cp_height = 0, cp_hash = [], cp_observed_at = None, cp_epoch = 1,
     cp_complete = False, cp_canonical = False, cp_degraded = Some reason, cp_network_tip = 0\<rparr>"

definition degrade :: "chain \<Rightarrow> ustring \<Rightarrow> db \<Rightarrow> db" where
  "degrade c reason d =
     d\<lparr>checkpoints := (checkpoints d)(c := Some (case checkpoints d c of
         None \<Rightarrow> new_checkpoint reason
       | Some cp \<Rightarrow> cp\<lparr>cp_complete := False, cp_canonical := False,
           cp_degraded := (case cp_degraded cp of
               Some old \<Rightarrow> if old \<in> set permanent_reasons then Some old else Some reason
             | None \<Rightarrow> Some reason)\<rparr>))\<rparr>"

text \<open>\<open>rewind_terra\<close> and \<open>rewind_bsc\<close>.\<close>

definition rewind :: "chain \<Rightarrow> int \<Rightarrow> int \<Rightarrow> db \<Rightarrow> db" where
  "rewind c after now d =
     set_state (cursor_key c) (int_str after) now
       (d\<lparr>transfers := (transfers d)(c := filter (\<lambda>t. \<not> tr_height t > after) (transfers d c)),
          balances := (balances d)(c := filter (\<lambda>b. \<not> bl_height b > after) (balances d c))\<rparr>)"

section \<open>Registrations and intents\<close>

definition insert_registration ::
    "chain \<Rightarrow> ustring \<Rightarrow> int \<Rightarrow> int \<Rightarrow> uuid option \<Rightarrow> db \<Rightarrow> (bool \<times> db) ledger_result" where
  "insert_registration c wallet height initial_balance signature_id d =
     bindR (normalize_wallet c wallet) (\<lambda>w.
     bindR (validate_amount initial_balance) (\<lambda>_.
     if height \<le> 0 then Inl (Conflict ''invalid registration height'')
     else (case insert_nothing reg_key
              \<lparr>vr_chain = c, vr_wallet = w, vr_registered_at = height, vr_initial = initial_balance,
               vr_status = str ''active'', vr_signature = signature_id, vr_baseline_height = None,
               vr_baseline_hash = None, vr_baseline_epoch = 1, vr_baseline_verified = False\<rparr>
              (registrations d) of
            (rows, inserted) \<Rightarrow> Inr (inserted, d\<lparr>registrations := rows\<rparr>))))"

definition get_registration :: "db \<Rightarrow> chain \<Rightarrow> ustring \<Rightarrow> registration option ledger_result" where
  "get_registration d c wallet =
     bindR (normalize_wallet c wallet) (\<lambda>w. Inr (find_row reg_key (c, w) (registrations d)))"

definition active_registrations :: "db \<Rightarrow> chain \<Rightarrow> registration list" where
  "active_registrations d c = filter (\<lambda>r. vr_chain r = c \<and> is_active r) (registrations d)"

definition max_registered_height :: "db \<Rightarrow> chain \<Rightarrow> int" where
  "max_registered_height d c =
     (case max_by id (map baseline_of (active_registrations d c)) of Some h \<Rightarrow> h | None \<Rightarrow> 0)"

definition registered_set :: "db \<Rightarrow> chain \<Rightarrow> ustring list" where
  "registered_set d c = map vr_wallet (active_registrations d c)"

definition intent_due :: "int \<Rightarrow> intent_row \<Rightarrow> bool" where
  "intent_due now i \<longleftrightarrow> in_processed_at i = None
     \<and> (case in_retry_after i of None \<Rightarrow> True | Some t \<Rightarrow> t \<le> now)"

definition intent_age_key :: "intent_row \<Rightarrow> int" where
  "intent_age_key i = (case in_last_attempt_at i of Some t \<Rightarrow> t | None \<Rightarrow> in_created_at i)"

definition pending_intents :: "db \<Rightarrow> int \<Rightarrow> intent_row list" where
  "pending_intents d now = take 16 (sort_key intent_age_key (filter (intent_due now) (intents d)))"

definition mark_intent_processed :: "uuid \<Rightarrow> int \<Rightarrow> db \<Rightarrow> db" where
  "mark_intent_processed i_id now d =
     d\<lparr>intents := update_where (\<lambda>i. in_id i = i_id)
         (\<lambda>i. i\<lparr>in_processed_at := Some now, in_retry_after := None, in_last_error := None\<rparr>)
         (intents d)\<rparr>"

end
