(* ===== verification/VotingDb.thy ===== *)
theory VotingDb
  imports Payload LedgerDb
begin

text \<open>
  The voting tables: the statements of \<open>operator-voting/src/db.rs\<close>, and the triggers and the freeze
  function of the migrations that guard them. Each definition is one statement or one function over
  an open transaction; \<open>now\<close> is the transaction's \<open>NOW()\<close> and \<open>clock\<close> a reading of
  \<open>clock_timestamp()\<close>, in microseconds. Constraints and triggers that fail are database errors. The
  \<open>jsonb\<close> parser is a parameter.
\<close>

definition MAX_COMMENTS_PER_WALLET_PER_PROPOSAL :: int where
  "MAX_COMMENTS_PER_WALLET_PER_PROPOSAL = 20"

section \<open>Database errors\<close>

definition sql_error :: "string \<Rightarrow> voting_error" where
  "sql_error state = VDatabase (SqlxDatabase (Some (str state)) [])"

definition insufficient_privilege :: voting_error where "insufficient_privilege = sql_error ''42501''"
definition raise_exception :: voting_error where "raise_exception = sql_error ''P0001''"
definition unique_failed :: voting_error where "unique_failed = sql_error ''23505''"
definition foreign_key_failed :: voting_error where "foreign_key_failed = sql_error ''23503''"
definition check_failed :: voting_error where "check_failed = sql_error ''23514''"

text \<open>\<open>jsonb ->> key\<close> on an object member that is a string, a number or null.\<close>

definition jsonb_text :: "text_lib \<Rightarrow> json \<Rightarrow> string \<Rightarrow> ustring option" where
  "jsonb_text lib v key =
     (case jget v key of
        None \<Rightarrow> None
      | Some JNull \<Rightarrow> None
      | Some (JStr s) \<Rightarrow> Some s
      | Some (JNum n) \<Rightarrow> Some (int_str n)
      | Some other \<Rightarrow> Some (json_text lib other))"

section \<open>Ledger reads\<close>

definition ledger_registration :: "db \<Rightarrow> chain \<Rightarrow> ustring \<Rightarrow> registration option" where
  "ledger_registration d c wallet = find_row reg_key (c, normalize_address wallet) (registrations d)"

definition vbalance_at :: "db \<Rightarrow> chain \<Rightarrow> ustring \<Rightarrow> int \<Rightarrow> int" where
  "vbalance_at d c wallet height = sql_balance_at d c (normalize_address wallet) height"

definition state_height :: "db \<Rightarrow> string \<Rightarrow> int" where
  "state_height d key =
     (case parse_i64 (case get_state d (str key) of Some v \<Rightarrow> v | None \<Rightarrow> str ''0'') of Some h \<Rightarrow> h | None \<Rightarrow> 0)"

definition tip_heights :: "db \<Rightarrow> int \<times> int" where
  "tip_heights d = (state_height d ''last_indexed_height'', state_height d ''last_indexed_bsc_block'')"

section \<open>Signatures and intents\<close>

definition sg_nonce_key :: "signature_row \<Rightarrow> chain \<times> ustring \<times> ustring option" where
  "sg_nonce_key s = (sg_chain s, sg_wallet s, sg_nonce s)"

definition insert_signature_row :: "signature_row \<Rightarrow> db \<Rightarrow> db voting_result" where
  "insert_signature_row row d =
     (if find_row sg_id (sg_id row) (signatures d) \<noteq> None
       \<or> (sg_nonce row \<noteq> None \<and> find_row sg_nonce_key (sg_nonce_key row) (signatures d) \<noteq> None)
      then Inl unique_failed
      else if (case sg_proposal row of None \<Rightarrow> False | Some p \<Rightarrow> find_row pr_id p (proposals d) = None)
      then Inl foreign_key_failed
      else Inr (d\<lparr>signatures := signatures d @ [row]\<rparr>))"

definition insert_signature ::
    "uuid \<Rightarrow> chain \<Rightarrow> ustring \<Rightarrow> ustring option \<Rightarrow> ustring \<Rightarrow> ustring \<Rightarrow> ustring \<Rightarrow> int \<Rightarrow> db \<Rightarrow> (uuid \<times> db) voting_result" where
  "insert_signature sid c wallet pubkey signature payload_hash purpose now d =
     bindR (insert_signature_row
       \<lparr>sg_id = sid, sg_chain = c, sg_wallet = normalize_address wallet, sg_pubkey = pubkey, sg_signature = signature,
        sg_payload_hash = payload_hash, sg_purpose = purpose, sg_created_at = now, sg_signed_payload = None,
        sg_scheme = None, sg_domain = None, sg_nonce = None, sg_proposal = None, sg_revision = None\<rparr> d) (\<lambda>d.
     Inr (sid, d))"

definition pending_intent :: "db \<Rightarrow> chain \<Rightarrow> ustring \<Rightarrow> bool" where
  "pending_intent d c wallet =
     list_ex (\<lambda>i. in_chain i = c \<and> in_wallet i = normalize_address wallet \<and> in_processed_at i = None) (intents d)"

definition insert_registration_intent :: "uuid \<Rightarrow> chain \<Rightarrow> ustring \<Rightarrow> uuid \<Rightarrow> int \<Rightarrow> db \<Rightarrow> db voting_result" where
  "insert_registration_intent row_id c wallet signature_id now d =
     (if find_row intent_key (c, normalize_address wallet) (intents d) \<noteq> None then Inr d
      else if find_row in_id row_id (intents d) \<noteq> None then Inl unique_failed
      else if find_row sg_id signature_id (signatures d) = None then Inl foreign_key_failed
      else Inr (d\<lparr>intents := intents d @
             [\<lparr>in_id = row_id, in_chain = c, in_wallet = normalize_address wallet, in_signature = signature_id,
               in_created_at = now, in_processed_at = None, in_last_attempt_at = None, in_retry_after = None,
               in_attempts = 0, in_last_error = None\<rparr>]\<rparr>))"

section \<open>Proposals\<close>

definition insert_draft ::
    "uuid \<Rightarrow> chain \<Rightarrow> ustring \<Rightarrow> ustring \<Rightarrow> ustring \<Rightarrow> ustring \<Rightarrow> json \<Rightarrow> int \<Rightarrow> db \<Rightarrow> db voting_result" where
  "insert_draft pid c proposer title body_html body_canonical sections now d =
     (if find_row pr_id pid (proposals d) \<noteq> None then Inl unique_failed
      else Inr (d\<lparr>proposals := proposals d @
             [\<lparr>pr_id = pid, pr_chain = c, pr_proposer = normalize_address proposer, pr_title = title,
               pr_body_html = body_html, pr_body_canonical = body_canonical, pr_body_sections = Some sections,
               pr_terra_height = None, pr_bsc_block = None, pr_created_at = now, pr_status = Draft, pr_opened_at = None,
               pr_revision = 1, pr_validity = ValidSnapshot, pr_incident = None, pr_terra_hash = None,
               pr_bsc_hash = None, pr_terra_epoch = None, pr_bsc_epoch = None\<rparr>]\<rparr>))"

text \<open>The trigger \<open>guard_proposals\<close>, on the old and the new row.\<close>

definition guard_proposal_mutation :: "proposal_row \<Rightarrow> proposal_row \<Rightarrow> proposal_row voting_result" where
  "guard_proposal_mutation old new =
     (if (pr_id new, pr_chain new, pr_proposer new, pr_created_at new) \<noteq> (pr_id old, pr_chain old, pr_proposer old, pr_created_at old)
      then Inl insufficient_privilege
      else if pr_status old = Open \<and>
        (pr_title new, pr_body_html new, pr_body_canonical new, pr_body_sections new, pr_terra_height new, pr_bsc_block new,
         pr_revision new, pr_opened_at new, pr_status new, pr_terra_hash new, pr_bsc_hash new, pr_terra_epoch new, pr_bsc_epoch new)
        \<noteq> (pr_title old, pr_body_html old, pr_body_canonical old, pr_body_sections old, pr_terra_height old, pr_bsc_block old,
         pr_revision old, pr_opened_at old, pr_status old, pr_terra_hash old, pr_bsc_hash old, pr_terra_epoch old, pr_bsc_epoch old)
      then Inl insufficient_privilege
      else Inr new)"

text \<open>\<open>UPDATE voting.proposals SET ... WHERE ...\<close> and the number of rows it changed.\<close>

definition update_proposals ::
    "(proposal_row \<Rightarrow> bool) \<Rightarrow> (proposal_row \<Rightarrow> proposal_row voting_result) \<Rightarrow> db \<Rightarrow> (nat \<times> db) voting_result" where
  "update_proposals which set_columns d =
     bindR (mapR (\<lambda>p. if which p then bindR (set_columns p) (guard_proposal_mutation p) else Inr p) (proposals d)) (\<lambda>rows.
     Inr (length (filter which (proposals d)), d\<lparr>proposals := rows\<rparr>))"

definition next_revision :: "int \<Rightarrow> int voting_result" where
  "next_revision n = (if n + 1 > i64_max then Inl (sql_error ''22003'') else Inr (n + 1))"

definition update_draft_sections :: "uuid \<Rightarrow> ustring \<Rightarrow> ustring \<Rightarrow> ustring \<Rightarrow> json \<Rightarrow> db \<Rightarrow> db voting_result" where
  "update_draft_sections pid title body_html body_canonical sections d =
     bindR (update_proposals (\<lambda>p. pr_id p = pid \<and> pr_status p = Draft)
        (\<lambda>p. bindR (next_revision (pr_revision p)) (\<lambda>n.
          Inr (p\<lparr>pr_title := title, pr_body_html := body_html, pr_body_canonical := body_canonical,
                 pr_body_sections := Some sections, pr_revision := n\<rparr>))) d) (\<lambda>(affected, d).
     if affected = 0 then Inl (VConflict ''cannot amend after votes are open'') else Inr d)"

definition vget_proposal :: "db \<Rightarrow> uuid \<Rightarrow> proposal_row option" where
  "vget_proposal d pid = find_row pr_id pid (proposals d)"

text \<open>\<open>ORDER BY created_at DESC\<close>.\<close>

definition vlist_proposals :: "db \<Rightarrow> proposal_status option \<Rightarrow> proposal_row list" where
  "vlist_proposals d status =
     sort_key (\<lambda>p. - pr_created_at p) (filter (\<lambda>p. status = None \<or> status = Some (pr_status p)) (proposals d))"

definition record_revision :: "uuid \<Rightarrow> uuid \<Rightarrow> int \<Rightarrow> db \<Rightarrow> db voting_result" where
  "record_revision pid signature_id now d =
     foldR (\<lambda>p d.
       let row = \<lparr>rv_proposal = pr_id p, rv_revision = pr_revision p, rv_title = pr_title p,
                  rv_body_canonical = pr_body_canonical p, rv_body_sections = pr_body_sections p,
                  rv_signature = Some signature_id, rv_recorded_at = now\<rparr> in
       if find_row rv_key (rv_key row) (revisions d) \<noteq> None then Inl unique_failed
       else if find_row sg_id signature_id (signatures d) = None then Inl foreign_key_failed
       else Inr (d\<lparr>revisions := revisions d @ [row]\<rparr>))
     (filter (\<lambda>p. pr_id p = pid) (proposals d)) d"

section \<open>Freezing\<close>

text \<open>The checkpoint of a chain is positive, fresh, complete, canonical and close to the tip.\<close>

definition freeze_ready :: "int \<Rightarrow> int \<Rightarrow> checkpoint \<Rightarrow> bool" where
  "freeze_ready clock lag cp \<longleftrightarrow>
     \<not> (cp_height cp \<le> 0 \<or> cp_observed_at cp = None \<or> cp_hash cp = [] \<or> cp_network_tip cp < cp_height cp
        \<or> cp_network_tip cp - cp_height cp > lag \<or> \<not> cp_complete cp \<or> \<not> cp_canonical cp \<or> cp_degraded cp \<noteq> None
        \<or> (case cp_observed_at cp of Some t \<Rightarrow> t < clock - seconds 120 \<or> t > clock + seconds 60 | None \<Rightarrow> True))"

definition unverified_baseline :: "(chain \<Rightarrow> int) \<Rightarrow> registration \<Rightarrow> bool" where
  "unverified_baseline height r \<longleftrightarrow> is_active r \<and> baseline_of r \<le> height (vr_chain r)
     \<and> (\<not> vr_baseline_verified r \<or> (case vr_baseline_hash r of None \<Rightarrow> True | Some h \<Rightarrow> h = []))"

definition intents_heartbeat :: "int \<Rightarrow> db \<Rightarrow> bool" where
  "intents_heartbeat clock d =
     list_ex (\<lambda>s. st_key s = str ''intents_ok'' \<and> st_value s = str ''true''
       \<and> clock - seconds 120 \<le> st_updated_at s \<and> st_updated_at s \<le> clock) (indexer_state d)"

text \<open>\<open>payload->>'revision'::bigint\<close>; a text that is not a number is an error.\<close>

definition jsonb_bigint :: "ustring option \<Rightarrow> int option voting_result" where
  "jsonb_bigint v =
     (case v of None \<Rightarrow> Inr None
      | Some s \<Rightarrow> (case parse_i64 s of Some n \<Rightarrow> Inr (Some n) | None \<Rightarrow> Inl (sql_error ''22P02'')))"

text \<open>\<open>signed_payload::jsonb\<close>; NULL stays NULL.\<close>

definition cast_jsonb :: "(ustring \<Rightarrow> json option) \<Rightarrow> ustring option \<Rightarrow> json voting_result" where
  "cast_jsonb jsonb v =
     (case v of None \<Rightarrow> Inr JNull
      | Some s \<Rightarrow> ok_or (sql_error ''22P02'') (jsonb s))"

definition signed_revision ::
    "text_lib \<Rightarrow> (ustring \<Rightarrow> json option) \<Rightarrow> uuid \<Rightarrow> signature_row \<Rightarrow> proposal_row \<Rightarrow> unit voting_result" where
  "signed_revision lib jsonb pid s p =
     bindR (cast_jsonb jsonb (sg_signed_payload s)) (\<lambda>payload.
     if pr_status p \<noteq> Draft \<or> sg_purpose s \<noteq> str ''open_vote'' \<or> sg_proposal s \<noteq> Some pid
       \<or> sg_revision s \<noteq> Some (pr_revision p) then Inl raise_exception
     else bindR (jsonb_bigint (jsonb_text lib payload ''revision'')) (\<lambda>revision.
     if revision \<noteq> Some (pr_revision p) \<or> jsonb_text lib payload ''title'' \<noteq> Some (pr_title p)
       \<or> jsonb_text lib payload ''body_hash'' \<noteq> Some (sha256_hex lib (pr_body_canonical p))
     then Inl raise_exception else Inr ()))"

definition snapshot_of :: "uuid \<Rightarrow> (chain \<Rightarrow> int) \<Rightarrow> db \<Rightarrow> registration \<Rightarrow> snapshot_row" where
  "snapshot_of pid height d r = \<lparr>sn_proposal = pid, sn_chain = vr_chain r, sn_wallet = vr_wallet r,
     sn_weight = sql_balance_at d (vr_chain r) (vr_wallet r) (height (vr_chain r))\<rparr>"

definition insert_snapshots :: "snapshot_row list \<Rightarrow> db \<Rightarrow> db voting_result" where
  "insert_snapshots rows d =
     (if distinct (map sn_key rows) \<and> (\<forall>r\<in>set rows. find_row sn_key (sn_key r) (snapshots d) = None)
      then Inr (d\<lparr>snapshots := snapshots d @ rows\<rparr>) else Inl unique_failed)"

definition opened :: "int \<Rightarrow> checkpoint \<Rightarrow> checkpoint \<Rightarrow> proposal_row \<Rightarrow> proposal_row" where
  "opened clock t b p = p\<lparr>pr_status := Open, pr_validity := ValidSnapshot,
     pr_terra_height := Some (cp_height t), pr_bsc_block := Some (cp_height b), pr_opened_at := Some clock,
     pr_terra_hash := Some (cp_hash t), pr_bsc_hash := Some (cp_hash b),
     pr_terra_epoch := Some (cp_epoch t), pr_bsc_epoch := Some (cp_epoch b)\<rparr>"

definition freeze_proposal ::
    "text_lib \<Rightarrow> (ustring \<Rightarrow> json option) \<Rightarrow> uuid \<Rightarrow> uuid \<Rightarrow> int \<Rightarrow> db \<Rightarrow> ((int \<times> int) \<times> db) voting_result" where
  "freeze_proposal lib jsonb pid signature_id clock d =
     (case (find_row pr_id pid (proposals d), find_row sg_id signature_id (signatures d)) of
        (Some p, Some s) \<Rightarrow>
          bindR (signed_revision lib jsonb pid s p) (\<lambda>_.
          case (checkpoints d Terra, checkpoints d Bsc) of
            (Some t, Some b) \<Rightarrow>
              (let height = (\<lambda>c. case c of Terra \<Rightarrow> cp_height t | Bsc \<Rightarrow> cp_height b) in
               if \<not> freeze_ready clock 2 t \<or> \<not> freeze_ready clock 17 b then Inl raise_exception
               else if list_ex (unverified_baseline height) (registrations d) then Inl raise_exception
               else if \<not> intents_heartbeat clock d then Inl raise_exception
               else bindR (update_proposals (\<lambda>q. pr_id q = pid \<and> pr_status q = Draft) (\<lambda>q. Inr (opened clock t b q)) d) (\<lambda>(affected, d').
               if affected = 0 then Inl raise_exception
               else bindR (insert_snapshots (map (snapshot_of pid height d') (filter is_active (registrations d'))) d') (\<lambda>d''.
               Inr ((cp_height t, cp_height b), d''))))
          | _ \<Rightarrow> Inl raise_exception)
      | _ \<Rightarrow> Inl raise_exception)"

definition open_proposal ::
    "text_lib \<Rightarrow> (ustring \<Rightarrow> json option) \<Rightarrow> uuid \<Rightarrow> uuid \<Rightarrow> int \<Rightarrow> db \<Rightarrow> ((int \<times> int) \<times> db) voting_result" where
  "open_proposal lib jsonb pid signature_id clock d = freeze_proposal lib jsonb pid signature_id clock d"

section \<open>Votes\<close>

definition snapshot_weight :: "db \<Rightarrow> uuid \<Rightarrow> chain \<Rightarrow> ustring \<Rightarrow> int" where
  "snapshot_weight d pid c wallet =
     (case find_row sn_key (pid, c, normalize_address wallet) (snapshots d) of Some r \<Rightarrow> sn_weight r | None \<Rightarrow> 0)"

definition choice_str :: "vote_choice \<Rightarrow> ustring" where
  "choice_str ch = (case ch of VoteFor \<Rightarrow> str ''for'' | VoteAgainst \<Rightarrow> str ''against'' | VoteAbstain \<Rightarrow> str ''abstain'')"

definition choice_of_str :: "ustring \<Rightarrow> vote_choice option" where
  "choice_of_str s = (if s = str ''for'' then Some VoteFor else if s = str ''against'' then Some VoteAgainst
     else if s = str ''abstain'' then Some VoteAbstain else None)"

text \<open>The trigger \<open>guard_votes\<close>, which runs before the conflict clause.\<close>

definition guard_vote_insert :: "text_lib \<Rightarrow> (ustring \<Rightarrow> json option) \<Rightarrow> vote_row \<Rightarrow> db \<Rightarrow> unit voting_result" where
  "guard_vote_insert lib jsonb v d =
     (case (find_row pr_id (vt_proposal v) (proposals d),
            find_row sn_key (vt_proposal v, vt_chain v, vt_wallet v) (snapshots d),
            find_row sg_id (vt_signature v) (signatures d)) of
        (Some p, Some w, Some s) \<Rightarrow>
          if pr_status p \<noteq> Open \<or> pr_validity p \<noteq> ValidSnapshot \<or> sn_weight w \<le> 0 \<or> vt_weight v \<noteq> sn_weight w
            \<or> sg_purpose s \<noteq> str ''vote'' \<or> sg_chain s \<noteq> vt_chain v \<or> sg_wallet s \<noteq> vt_wallet v
            \<or> sg_proposal s \<noteq> Some (vt_proposal v) then Inl insufficient_privilege
          else bindR (cast_jsonb jsonb (sg_signed_payload s)) (\<lambda>payload.
               if jsonb_text lib payload ''choice'' \<noteq> Some (choice_str (vt_choice v))
               then Inl insufficient_privilege else Inr ())
      | _ \<Rightarrow> Inl insufficient_privilege)"

definition insert_vote ::
    "text_lib \<Rightarrow> (ustring \<Rightarrow> json option) \<Rightarrow> uuid \<Rightarrow> chain \<Rightarrow> ustring \<Rightarrow> vote_choice \<Rightarrow> int \<Rightarrow> uuid \<Rightarrow> int \<Rightarrow> db \<Rightarrow> db voting_result" where
  "insert_vote lib jsonb pid c wallet ch weight signature_id now d =
     (let row = \<lparr>vt_proposal = pid, vt_wallet = normalize_address wallet, vt_chain = c, vt_choice = ch,
                 vt_weight = weight, vt_signature = signature_id, vt_created_at = now\<rparr> in
      bindR (guard_vote_insert lib jsonb row d) (\<lambda>_.
      case insert_nothing vt_key row (votes d) of
        (rows, True) \<Rightarrow> Inr (d\<lparr>votes := rows\<rparr>)
      | (_, False) \<Rightarrow> Inl (VConflict ''already voted'')))"

definition get_vote :: "db \<Rightarrow> uuid \<Rightarrow> chain \<Rightarrow> ustring \<Rightarrow> (vote_choice \<times> int) option" where
  "get_vote d pid c wallet =
     map_option (\<lambda>v. (vt_choice v, vt_weight v)) (find_row vt_key (pid, c, normalize_address wallet) (votes d))"

record tally_row =
  ta_choice :: vote_choice
  ta_weight :: int
  ta_voters :: int

text \<open>\<open>GROUP BY choice\<close>: one row per choice that occurs (SQL leaves their order open).\<close>

definition tally :: "db \<Rightarrow> uuid \<Rightarrow> tally_row list" where
  "tally d pid =
     (let cast_votes = filter (\<lambda>v. vt_proposal v = pid) (votes d) in
      map (\<lambda>ch. let vs = filter (\<lambda>v. vt_choice v = ch) cast_votes in
             \<lparr>ta_choice = ch, ta_weight = sum_list (map vt_weight vs), ta_voters = int (length vs)\<rparr>)
        (filter (\<lambda>ch. list_ex (\<lambda>v. vt_choice v = ch) cast_votes) [VoteFor, VoteAgainst, VoteAbstain]))"

section \<open>Comments and analyses\<close>

definition comment_count_for_wallet :: "db \<Rightarrow> uuid \<Rightarrow> chain \<Rightarrow> ustring \<Rightarrow> int" where
  "comment_count_for_wallet d pid c wallet =
     int (length (filter (\<lambda>m. cm_proposal m = pid \<and> cm_chain m = c \<and> cm_wallet m = normalize_address wallet) (comments d)))"

definition insert_comment ::
    "uuid \<Rightarrow> uuid \<Rightarrow> chain \<Rightarrow> ustring \<Rightarrow> ustring \<Rightarrow> uuid \<Rightarrow> int \<Rightarrow> db \<Rightarrow> db voting_result" where
  "insert_comment cid pid c wallet body_html signature_id now d =
     (if comment_count_for_wallet d pid c wallet \<ge> MAX_COMMENTS_PER_WALLET_PER_PROPOSAL
      then Inl (VForbidden ''at most 20 comments per address per proposal'')
      else if find_row cm_id cid (comments d) \<noteq> None then Inl unique_failed
      else if find_row pr_id pid (proposals d) = None \<or> find_row sg_id signature_id (signatures d) = None
      then Inl foreign_key_failed
      else Inr (d\<lparr>comments := comments d @
             [\<lparr>cm_id = cid, cm_proposal = pid, cm_chain = c, cm_wallet = normalize_address wallet,
               cm_body_html = body_html, cm_signature = signature_id, cm_created_at = now\<rparr>]\<rparr>))"

definition vlist_comments :: "db \<Rightarrow> uuid \<Rightarrow> comment_row list" where
  "vlist_comments d pid = sort_key cm_created_at (filter (\<lambda>m. cm_proposal m = pid) (comments d))"

definition analysis_count :: "db \<Rightarrow> uuid \<Rightarrow> chain \<Rightarrow> ustring \<Rightarrow> int" where
  "analysis_count d pid c wallet =
     int (length (filter (\<lambda>a. an_proposal a = pid \<and> an_chain a = c \<and> an_wallet a = wallet) (analyses d)))"

definition guard_analysis_insert :: "analysis_row \<Rightarrow> db \<Rightarrow> unit voting_result" where
  "guard_analysis_insert a d =
     (case find_row pr_id (an_proposal a) (proposals d) of
        None \<Rightarrow> Inl insufficient_privilege
      | Some p \<Rightarrow>
          if pr_status p \<noteq> Draft \<or> pr_proposer p = an_wallet a \<or> an_revision a \<noteq> Some (pr_revision p)
            \<or> analysis_count d (an_proposal a) (an_chain a) (an_wallet a) \<ge> 5
          then Inl insufficient_privilege else Inr ())"

definition insert_analysis ::
    "uuid \<Rightarrow> uuid \<Rightarrow> chain \<Rightarrow> ustring \<Rightarrow> ustring \<Rightarrow> json \<Rightarrow> uuid \<Rightarrow> int \<Rightarrow> db \<Rightarrow> db voting_result" where
  "insert_analysis aid pid c wallet body_html sections signature_id now d =
     (if analysis_count d pid c (normalize_address wallet) \<ge> 5
      then Inl (VForbidden ''at most 5 analyses per address per proposal'')
      else let row = \<lparr>an_id = aid, an_proposal = pid, an_chain = c, an_wallet = normalize_address wallet,
                      an_sections = sections, an_body_html = body_html, an_source = str ''committee'',
                      an_signature = signature_id, an_created_at = now,
                      an_revision = map_option pr_revision (find_row pr_id pid (proposals d))\<rparr> in
      bindR (guard_analysis_insert row d) (\<lambda>_.
      if find_row an_id aid (analyses d) \<noteq> None then Inl unique_failed
      else if find_row sg_id signature_id (signatures d) = None then Inl foreign_key_failed
      else Inr (d\<lparr>analyses := analyses d @ [row]\<rparr>)))"

definition vlist_analysis :: "db \<Rightarrow> uuid \<Rightarrow> analysis_row list" where
  "vlist_analysis d pid = sort_key an_created_at (filter (\<lambda>a. an_proposal a = pid) (analyses d))"

section \<open>Receipts, quota and readiness\<close>

definition insert_receipt_row :: "receipt_row \<Rightarrow> db \<Rightarrow> db voting_result" where
  "insert_receipt_row row d =
     (if find_row rc_signature (rc_signature row) (receipts d) \<noteq> None then Inl unique_failed
      else if find_row sg_id (rc_signature row) (signatures d) = None
        \<or> (case rc_proposal row of None \<Rightarrow> False | Some p \<Rightarrow> find_row pr_id p (proposals d) = None)
      then Inl foreign_key_failed
      else Inr (d\<lparr>receipts := receipts d @ [row]\<rparr>))"

text \<open>The receipts of an actor's purpose in the minute before \<open>clock\<close>.\<close>

definition recent_receipts :: "db \<Rightarrow> chain \<Rightarrow> ustring \<Rightarrow> ustring \<Rightarrow> int \<Rightarrow> receipt_row list" where
  "recent_receipts d c wallet purpose clock =
     filter (\<lambda>r. case find_row sg_id (rc_signature r) (signatures d) of None \<Rightarrow> False
               | Some s \<Rightarrow> sg_chain s = c \<and> sg_wallet s = wallet \<and> sg_purpose s = purpose
                   \<and> rc_accepted_at r > clock - seconds 60) (receipts d)"

text \<open>\<open>ceil(extract(epoch from span))\<close>, for a span in microseconds.\<close>

definition ceil_seconds :: "int \<Rightarrow> int" where
  "ceil_seconds us = - ((- us) div 1000000)"

definition retry_after :: "receipt_row list \<Rightarrow> int \<Rightarrow> int" where
  "retry_after rs clock =
     (case rs of [] \<Rightarrow> 1
      | r # rs \<Rightarrow> max 1 (ceil_seconds (foldl min (rc_accepted_at r) (map rc_accepted_at rs) + seconds 60 - clock)))"

definition enforce_verified_action_quota ::
    "db \<Rightarrow> chain \<Rightarrow> ustring \<Rightarrow> ustring \<Rightarrow> nat \<Rightarrow> int \<Rightarrow> unit voting_result" where
  "enforce_verified_action_quota d c actor purpose per_minute clock =
     (if per_minute = 0 then Inr ()
      else let rs = recent_receipts d c (normalize_address actor) purpose clock in
        if int (length rs) \<ge> int per_minute
        then Inl (VRateLimited (nat (max 1 (min 60 (retry_after rs clock))))) else Inr ())"

definition ledger_ready :: "int \<Rightarrow> db \<Rightarrow> bool" where
  "ledger_ready clock d \<longleftrightarrow>
     (case checkpoints d Terra of None \<Rightarrow> False | Some t \<Rightarrow> freeze_ready clock 2 t)
   \<and> (case checkpoints d Bsc of None \<Rightarrow> False | Some b \<Rightarrow> freeze_ready clock 17 b)
   \<and> intents_heartbeat clock d
   \<and> \<not> list_ex (\<lambda>r. case checkpoints d (vr_chain r) of None \<Rightarrow> False
                     | Some cp \<Rightarrow> unverified_baseline (\<lambda>_. cp_height cp) r) (registrations d)"

definition snapshot_eligible :: "int \<Rightarrow> db \<Rightarrow> chain \<Rightarrow> ustring \<Rightarrow> bool" where
  "snapshot_eligible clock d c actor =
     (case (find_row reg_key (c, normalize_address actor) (registrations d), checkpoints d c) of
        (Some r, Some cp) \<Rightarrow>
          is_active r \<and> vr_baseline_verified r
          \<and> (case vr_baseline_hash r of None \<Rightarrow> False | Some h \<Rightarrow> h \<noteq> [])
          \<and> baseline_of r \<le> cp_height cp \<and> vr_registered_at r \<le> cp_height cp
          \<and> cp_height cp > 0 \<and> cp_complete cp \<and> cp_canonical cp \<and> cp_degraded cp = None
          \<and> cp_network_tip cp \<ge> cp_height cp
          \<and> cp_network_tip cp - cp_height cp \<le> (case c of Terra \<Rightarrow> 2 | Bsc \<Rightarrow> 17)
          \<and> (case cp_observed_at cp of None \<Rightarrow> False
             | Some t \<Rightarrow> clock - seconds 120 \<le> t \<and> t \<le> clock + seconds 60)
      | _ \<Rightarrow> False)"

end
