(* ===== verification/VotingConfig.thy ===== *)
theory VotingConfig
  imports WalletList LedgerConfig VisibleText
begin

text \<open>
  The configuration of the voting API (\<open>operator-voting/src/config.rs\<close>). The URL parser, the CIDR
  parser and the header syntax check are parameters: \<open>'n\<close> is the type of an IP network.
\<close>

record url_parts =
  up_scheme :: ustring
  up_host :: bool
  up_origin :: ustring
  up_username :: bool
  up_password :: bool
  up_query :: bool
  up_fragment :: bool

record 'n config_lib =
  parse_url :: "ustring \<Rightarrow> url_parts option"
  header_ok :: "ustring \<Rightarrow> bool"
  parse_cidr :: "ustring \<Rightarrow> 'n option"

record 'n voting_config =
  vc_database_url :: ustring
  vc_blacklist :: "ustring list"
  vc_committee :: "ustring list"
  vc_min_proposal_raw :: int
  vc_cors_origins :: "ustring list"
  vc_api_bind :: ustring
  vc_terra_chain_id :: ustring
  vc_evm_chain_id :: ustring
  vc_run_mode :: ustring
  vc_apply_migrations :: bool
  vc_post_per_minute :: nat
  vc_post_burst :: nat
  vc_trust_forwarded :: bool
  vc_trusted_proxy_cidrs :: "'n list"

definition normalize_run_mode :: "ustring \<Rightarrow> ustring voting_result" where
  "normalize_run_mode raw =
     (let m = lower (trim raw) in
      if m = str ''prod'' \<or> m = str ''production'' then Inr (str ''prod'')
      else if m = str ''dev'' \<or> m = str ''development'' then Inr (str ''dev'')
      else if m = str ''test'' then Inr (str ''test'')
      else Inl (VInvalidConfig ''RUN_MODE must be prod/production, dev/development or test''))"

definition validate_networks :: "ustring \<Rightarrow> ustring \<Rightarrow> ustring \<Rightarrow> unit voting_result" where
  "validate_networks mode terra evm =
     bindR (normalize_run_mode mode) (\<lambda>m.
     if m = str ''prod'' \<and> (terra \<noteq> str ''columbus-5'' \<or> evm \<noteq> str ''56'')
     then Inl (VInvalidConfig ''production requires Terra columbus-5 and BSC 56'')
     else if \<not> (terra = str ''columbus-5'' \<or> terra = str ''localterra'') \<or> \<not> (evm = str ''56'' \<or> evm = str ''31337'')
     then Inl (VInvalidConfig ''unsupported voting chain configuration'')
     else Inr ())"

definition validate_origin :: "'n config_lib \<Rightarrow> ustring \<Rightarrow> unit voting_result" where
  "validate_origin lib origin =
     bindR (ok_or (VInvalidConfig ''invalid CORS origin'') (parse_url lib origin)) (\<lambda>u.
     if \<not> (up_scheme u = str ''http'' \<or> up_scheme u = str ''https'') \<or> \<not> up_host u \<or> up_origin u \<noteq> origin
       \<or> up_username u \<or> up_password u \<or> up_query u \<or> up_fragment u
     then Inl (VInvalidConfig ''CORS_ORIGINS requires exact HTTP(S) origins without paths, credentials, query or fragment'')
     else if \<not> header_ok lib origin then Inl (VInvalidConfig ''invalid CORS header'') else Inr ())"

definition validate_origins :: "'n config_lib \<Rightarrow> ustring list \<Rightarrow> unit voting_result" where
  "validate_origins lib origins = foldR (\<lambda>origin _. validate_origin lib origin) origins ()"

definition validate_prod_guards :: "'n config_lib \<Rightarrow> ustring \<Rightarrow> ustring list \<Rightarrow> nat \<Rightarrow> bool \<Rightarrow> unit voting_result" where
  "validate_prod_guards lib mode cors_origins per_minute apply_migrations =
     bindR (validate_origins lib cors_origins) (\<lambda>_.
     bindR (normalize_run_mode mode) (\<lambda>m.
     if m \<noteq> str ''prod'' then Inr ()
     else if cors_origins = [] then Inl (VInvalidConfig ''prod requires CORS_ORIGINS'')
     else if per_minute = 0 then Inl (VInvalidConfig ''prod requires RATE_LIMIT_POST_PER_MINUTE > 0'')
     else if apply_migrations
     then Inl (VInvalidConfig ''prod must leave APPLY_MIGRATIONS unset/false (ledger writer owns schema)'')
     else Inr ()))"

definition parse_config_bool :: "ustring \<Rightarrow> bool voting_result" where
  "parse_config_bool raw =
     (let v = lower (trim raw) in
      if v \<in> set [str ''1'', str ''true'', str ''yes'', str ''on''] then Inr True
      else if v \<in> set [str ''0'', str ''false'', str ''no'', str ''off''] then Inr False
      else Inl (VInvalidConfig ''boolean configuration must be true/false''))"

definition config_bool :: "ustring option \<Rightarrow> bool \<Rightarrow> bool voting_result" where
  "config_bool var default_value = (case var of Some v \<Rightarrow> parse_config_bool v | None \<Rightarrow> Inr default_value)"

text \<open>\<open>env_number\<close> at \<open>u64\<close> and at \<open>u32\<close>.\<close>

definition env_number :: "(ustring \<Rightarrow> nat option) \<Rightarrow> ustring option \<Rightarrow> nat \<Rightarrow> nat voting_result" where
  "env_number parse var default_value =
     (case var of Some raw \<Rightarrow> ok_or (VInvalidConfig ''requires an integer'') (parse raw) | None \<Rightarrow> Inr default_value)"

definition vrequire :: "environment \<Rightarrow> string \<Rightarrow> ustring voting_result" where
  "vrequire env key =
     (case env key of None \<Rightarrow> Inl (VMissingEnv key)
      | Some v \<Rightarrow> if trim v = [] then Inl (VMissingEnv key) else Inr v)"

definition default_post_per_minute :: "ustring \<Rightarrow> nat" where
  "default_post_per_minute mode = (if mode = str ''prod'' \<or> mode = str ''production'' then 60 else 600)"

definition env_text :: "environment \<Rightarrow> string \<Rightarrow> string \<Rightarrow> ustring" where
  "env_text env key default_value = (case env key of Some v \<Rightarrow> v | None \<Rightarrow> str default_value)"

definition cidr_list :: "'n config_lib \<Rightarrow> ustring \<Rightarrow> 'n list voting_result" where
  "cidr_list lib raw =
     mapR (\<lambda>s. ok_or (VInvalidConfig ''invalid trusted proxy CIDR'') (parse_cidr lib (trim s)))
       (filter (\<lambda>s. trim s \<noteq> []) (split_on 44 raw))"

definition voting_from_env :: "'n config_lib \<Rightarrow> environment \<Rightarrow> 'n voting_config voting_result" where
  "voting_from_env lib env =
     bindR (vrequire env ''DATABASE_URL'') (\<lambda>database_url.
     bindR (parse_blacklist (env_text env ''VOTING_BLACKLIST_ADDRESSES'' [])) (\<lambda>blacklist.
     bindR (parse_committee (env_text env ''VOTING_COMMITTEE_ADDRESSES'' [])) (\<lambda>committee.
     bindR (env_number parse_u64 (env ''MIN_PROPOSAL_CL8Y'') 1000) (\<lambda>min_human.
     let cors = filter (\<lambda>s. s \<noteq> []) (map trim (split_on 44 (env_text env ''CORS_ORIGINS'' []))) in
     bindR (normalize_run_mode (env_text env ''RUN_MODE'' ''dev'')) (\<lambda>mode.
     bindR (config_bool (env ''APPLY_MIGRATIONS'') (mode \<noteq> str ''prod'')) (\<lambda>apply_migrations.
     bindR (env_number (parse_u32 False) (env ''RATE_LIMIT_POST_PER_MINUTE'') (default_post_per_minute mode)) (\<lambda>per_minute.
     bindR (env_number (parse_u32 False) (env ''RATE_LIMIT_POST_BURST'') 20) (\<lambda>burst.
     if min_human = 0 \<or> burst = 0
     then Inl (VInvalidConfig ''proposal threshold and rate limit burst must be positive'')
     else
     bindR (config_bool (env ''RATE_LIMIT_TRUST_FORWARDED'') False) (\<lambda>trust.
     bindR (cidr_list lib (env_text env ''RATE_LIMIT_TRUSTED_PROXY_CIDRS'' [])) (\<lambda>cidrs.
     if trust \<and> cidrs = []
     then Inl (VInvalidConfig ''forwarded headers require RATE_LIMIT_TRUSTED_PROXY_CIDRS'')
     else let terra = env_text env ''TERRA_CHAIN_ID'' ''columbus-5''; evm = env_text env ''EVM_CHAIN_ID'' ''56'' in
     bindR (validate_networks mode terra evm) (\<lambda>_.
     if mode = str ''prod'' \<and> env_text env ''VOTING_API_REPLICAS'' ''1'' \<noteq> str ''1''
     then Inl (VInvalidConfig ''in-process rate limits require VOTING_API_REPLICAS=1'')
     else
     bindR (validate_prod_guards lib mode cors per_minute apply_migrations) (\<lambda>_.
     Inr \<lparr>vc_database_url = database_url, vc_blacklist = blacklist, vc_committee = committee,
          vc_min_proposal_raw = int min_human * 10 ^ 18, vc_cors_origins = cors,
          vc_api_bind = env_text env ''API_BIND'' ''0.0.0.0:3002'', vc_terra_chain_id = terra, vc_evm_chain_id = evm,
          vc_run_mode = mode, vc_apply_migrations = apply_migrations, vc_post_per_minute = per_minute,
          vc_post_burst = burst, vc_trust_forwarded = trust, vc_trusted_proxy_cidrs = cidrs\<rparr>))))))))))))"

section \<open>What a configuration that loads satisfies\<close>

lemma normalize_run_mode_result: "normalize_run_mode raw = Inr m \<Longrightarrow> m \<in> {str ''prod'', str ''dev'', str ''test''}"
  by (auto simp: normalize_run_mode_def Let_def split: if_splits)

lemma normalize_run_mode_prod: "normalize_run_mode (str ''prod'') = Inr (str ''prod'')"
  by code_simp

lemma validate_origins_iff:
  "validate_origins lib origins = Inr u \<longleftrightarrow> (\<forall>origin\<in>set origins. validate_origin lib origin = Inr ())"
  unfolding validate_origins_def by (induction origins) (auto simp: result_iff)

text \<open>
  A voting configuration that loads: the proposal threshold and the burst are positive, forwarded
  addresses are trusted only from named networks, every CORS origin is its own canonical form, and in
  production the networks are the main ones, there is a CORS origin, the rate limit is on and the API
  does not own the schema.
\<close>

theorem voting_from_env_safe:
  assumes "voting_from_env lib env = Inr cfg"
  shows "vc_min_proposal_raw cfg \<ge> 10 ^ 18 \<and> vc_post_burst cfg > 0
    \<and> (vc_trust_forwarded cfg \<longrightarrow> vc_trusted_proxy_cidrs cfg \<noteq> [])
    \<and> (\<forall>origin\<in>set (vc_cors_origins cfg). \<exists>u. parse_url lib origin = Some u \<and> up_origin u = origin \<and> \<not> up_username u \<and> \<not> up_password u)
    \<and> vc_run_mode cfg \<in> {str ''prod'', str ''dev'', str ''test''}
    \<and> (vc_run_mode cfg = str ''prod'' \<longrightarrow>
         vc_terra_chain_id cfg = str ''columbus-5'' \<and> vc_evm_chain_id cfg = str ''56'' \<and> vc_cors_origins cfg \<noteq> []
         \<and> vc_post_per_minute cfg > 0 \<and> \<not> vc_apply_migrations cfg)"
proof -
  from assms obtain n where n: "n \<noteq> 0" "vc_min_proposal_raw cfg = int n * 10 ^ 18" and burst: "vc_post_burst cfg \<noteq> 0"
    and trust: "\<not> (vc_trust_forwarded cfg \<and> vc_trusted_proxy_cidrs cfg = [])"
    and mode: "normalize_run_mode (env_text env ''RUN_MODE'' ''dev'') = Inr (vc_run_mode cfg)"
    and nets: "validate_networks (vc_run_mode cfg) (vc_terra_chain_id cfg) (vc_evm_chain_id cfg) = Inr ()"
    and guards: "validate_prod_guards lib (vc_run_mode cfg) (vc_cors_origins cfg) (vc_post_per_minute cfg) (vc_apply_migrations cfg) = Inr ()"
    unfolding voting_from_env_def Let_def by (auto simp: result_iff)
  have "1 \<le> int n"
    using n(1) by simp
  then have threshold: "vc_min_proposal_raw cfg \<ge> 10 ^ 18"
    using n(2) by simp
  have "validate_origins lib (vc_cors_origins cfg) = Inr ()"
    using guards by (auto simp: validate_prod_guards_def result_iff)
  then have origins: "\<forall>origin\<in>set (vc_cors_origins cfg). \<exists>u. parse_url lib origin = Some u \<and> up_origin u = origin \<and> \<not> up_username u \<and> \<not> up_password u"
    by (auto simp: validate_origins_iff validate_origin_def result_iff dest!: bspec)
  have "vc_terra_chain_id cfg = str ''columbus-5'' \<and> vc_evm_chain_id cfg = str ''56'' \<and> vc_cors_origins cfg \<noteq> []
         \<and> vc_post_per_minute cfg > 0 \<and> \<not> vc_apply_migrations cfg" if prod: "vc_run_mode cfg = str ''prod''"
    using nets guards unfolding prod validate_networks_def validate_prod_guards_def
    by (auto simp: result_iff normalize_run_mode_prod)
  then show ?thesis
    using threshold burst trust mode normalize_run_mode_result origins by blast
qed

definition plain_lib :: "nat config_lib" where
  "plain_lib = \<lparr>parse_url = (\<lambda>s. Some \<lparr>up_scheme = str ''https'', up_host = True, up_origin = s, up_username = False,
       up_password = False, up_query = False, up_fragment = False\<rparr>),
     header_ok = (\<lambda>_. True), parse_cidr = (\<lambda>_. Some 0)\<rparr>"

definition prod_env :: environment where
  "prod_env key = (if key = ''DATABASE_URL'' then Some (str ''postgres://db'') else if key = ''RUN_MODE'' then Some (str ''prod'')
     else if key = ''CORS_ORIGINS'' then Some (str ''https://vote.example'') else None)"

theorem voting_from_env_safe_witness:
  "\<exists>cfg. voting_from_env plain_lib prod_env = Inr cfg \<and> vc_post_per_minute cfg > 0 \<and> \<not> vc_apply_migrations cfg"
proof -
  have "case voting_from_env plain_lib prod_env of Inr cfg \<Rightarrow> vc_run_mode cfg = str ''prod'' | Inl _ \<Rightarrow> False"
    by code_simp
  then obtain cfg where cfg: "voting_from_env plain_lib prod_env = Inr cfg" "vc_run_mode cfg = str ''prod''"
    by (auto split: sum.splits)
  with voting_from_env_safe [OF cfg(1)] show ?thesis
    by blast
qed

end
