(* ===== verification/LedgerBooks.thy ===== *)
theory LedgerBooks
  imports LedgerDb
begin

text \<open>
  The accounting laws of the ledger tables. \<open>flow\<close> is the abstract specification: the net
  effect on a wallet of the recorded transfers above its baseline. \<open>reconciled\<close> says that the
  stored balance at every height is the baseline plus that flow, \<open>books_ok\<close> collects it with
  the key and bound constraints; every operation of \<open>LedgerDb\<close> is shown to keep it.
\<close>

section \<open>The specification\<close>

definition tracked :: "ustring \<Rightarrow> bool" where
  "tracked w \<longleftrightarrow> w \<noteq> [] \<and> w \<noteq> ZERO_EVM_ADDRESS \<and> lower (trim w) = w"

definition row_delta :: "registration \<Rightarrow> transfer_row \<Rightarrow> int" where
  "row_delta r t = transfer_delta (vr_wallet r) (tr_from t) (tr_to t) (tr_amount t)"

definition in_flow :: "registration \<Rightarrow> int \<Rightarrow> transfer_row \<Rightarrow> bool" where
  "in_flow r h t \<longleftrightarrow> baseline_of r < tr_height t \<and> tr_height t \<le> h"

definition flow :: "transfer_row list \<Rightarrow> registration \<Rightarrow> int \<Rightarrow> int" where
  "flow ts r h = sum_list (map (row_delta r) (filter (in_flow r h) ts))"

definition reconciled :: "db \<Rightarrow> chain \<Rightarrow> registration \<Rightarrow> bool" where
  "reconciled d c r \<longleftrightarrow> (\<forall>h\<ge>baseline_of r.
     stored_balance d c r h = stored_balance d c r (baseline_of r) + flow (transfers d c) r h)"

definition books_ok :: "db \<Rightarrow> chain \<Rightarrow> int \<Rightarrow> bool" where
  "books_ok d c bound \<longleftrightarrow>
     unique_by reg_key (registrations d) \<and> unique_by bal_key (balances d c)
   \<and> unique_by tr_key (transfers d c)
   \<and> (\<forall>t\<in>set (transfers d c). tr_height t \<le> bound)
   \<and> (\<forall>b\<in>set (balances d c). bl_height b \<le> bound \<and> (c, bl_wallet b) \<in> reg_key ` set (registrations d))
   \<and> (\<forall>r\<in>set (registrations d). vr_registered_at r \<le> i64_max)
   \<and> (\<forall>r\<in>set (registrations d). vr_chain r = c \<longrightarrow> is_active r \<longrightarrow> tracked (vr_wallet r) \<longrightarrow> reconciled d c r)"

section \<open>Lookup lemmas\<close>

lemma flow_append: "flow (ts @ us) r h = flow ts r h + flow us r h"
  by (simp add: flow_def)

lemma flow_single: "flow [t] r h = (if in_flow r h t then row_delta r t else 0)"
  by (simp add: flow_def)

lemma flow_baseline [simp]: "flow ts r (baseline_of r) = 0"
proof -
  have "filter (in_flow r (baseline_of r)) ts = []"
    by (auto simp: in_flow_def filter_empty_conv)
  then show ?thesis by (simp add: flow_def)
qed

lemma stored_balance_row:
  assumes "unique_by bal_key (balances d c)" and "b \<in> set (balances d c)" and "bl_wallet b = vr_wallet r"
    and "bl_height b \<le> h"
    and "\<And>q. q \<in> set (balances d c) \<Longrightarrow> bl_wallet q = vr_wallet r \<Longrightarrow> bl_height q \<le> h \<Longrightarrow> bl_height q \<le> bl_height b"
  shows "stored_balance d c r h = bl_balance b"
proof -
  have "max_by bl_height (filter (\<lambda>b. bl_wallet b = vr_wallet r \<and> bl_height b \<le> h) (balances d c)) = Some b"
  proof (rule max_by_eqI)
    fix q
    assume q: "q \<in> set (filter (\<lambda>b. bl_wallet b = vr_wallet r \<and> bl_height b \<le> h) (balances d c))" "q \<noteq> b"
    then have "bl_height q \<noteq> bl_height b"
      using assms(1-3) by (auto simp: bal_key_def dest: unique_byD)
    with q assms(5) [of q] show "bl_height q < bl_height b"
      by auto
  qed (use assms in auto)
  then show ?thesis by (simp add: stored_balance_def)
qed

lemma stored_balance_none:
  assumes "\<And>q. q \<in> set (balances d c) \<Longrightarrow> bl_wallet q = vr_wallet r \<Longrightarrow> h < bl_height q"
  shows "stored_balance d c r h = vr_initial r"
proof -
  have "filter (\<lambda>b. bl_wallet b = vr_wallet r \<and> bl_height b \<le> h) (balances d c) = []"
    using assms by (fastforce simp: filter_empty_conv)
  then show ?thesis by (simp add: stored_balance_def)
qed

text \<open>Only the rows of the wallet at or below the height matter.\<close>

lemma stored_balance_cong:
  assumes "filter (\<lambda>b. bl_wallet b = vr_wallet r \<and> bl_height b \<le> h) (balances d c)
         = filter (\<lambda>b. bl_wallet b = vr_wallet r \<and> bl_height b \<le> h') (balances d' c)"
  shows "stored_balance d c r h = stored_balance d' c r h'"
  using assms by (simp add: stored_balance_def)

lemma stored_balance_above:
  assumes "\<forall>b\<in>set (balances d c). bl_wallet b = vr_wallet r \<longrightarrow> bl_height b \<le> l" and "l \<le> h" and "l \<le> h'"
  shows "stored_balance d c r h = stored_balance d c r h'"
  using assms by (intro stored_balance_cong filter_cong) auto

lemma sql_balance_at_reg:
  assumes "unique_by reg_key (registrations d)" and "r \<in> set (registrations d)" and "vr_chain r = c"
    and "tracked (vr_wallet r)"
  shows "sql_balance_at d c (vr_wallet r) h = (if h < vr_registered_at r then 0 else stored_balance d c r h)"
proof -
  have w: "lower (trim (vr_wallet r)) = vr_wallet r"
    using assms(4) by (simp add: tracked_def)
  then have "lower (vr_wallet r) = vr_wallet r" and "trim (vr_wallet r) = vr_wallet r"
    by (metis lower_idem, metis trim_idem trim_lower)
  then have "lower (sql_trim (vr_wallet r)) = vr_wallet r"
    by (simp add: sql_trim_trimmed)
  moreover have "find_row reg_key (c, vr_wallet r) (registrations d) = Some r"
    using unique_by_find [OF assms(1,2)] assms(3) by (simp add: reg_key_def)
  ultimately show ?thesis
    by (simp add: sql_balance_at_def)
qed

lemma stored_balance_frame: "balances d' c = balances d c \<Longrightarrow> stored_balance d' c r h = stored_balance d c r h"
  by (simp add: stored_balance_def)

lemma sql_balance_at_frame:
  assumes "registrations d' = registrations d" and "balances d' c = balances d c"
  shows "sql_balance_at d' c w h = sql_balance_at d c w h"
proof -
  have "stored_balance d' c r x = stored_balance d c r x" for r x
    by (rule stored_balance_frame [OF assms(2)])
  with assms(1) show ?thesis by (simp add: sql_balance_at_def split: option.split)
qed

section \<open>Posting one transfer\<close>

lemma int_str_no_ws: "c \<in> set (int_str n) \<Longrightarrow> \<not> is_ws c"
proof -
  assume "c \<in> set (int_str n)"
  then have "c = 45 \<or> is_digit c"
    by (auto simp: int_str_def dest: nat_digits_digits split: if_splits)
  then show "\<not> is_ws c"
    using digit_not_ws by (auto simp: is_ws_def)
qed

lemma parse_raw_amount_int_strD:
  assumes "parse_raw_amount (int_str n) = Inr v"
  shows "v = n \<and> valid_amount n"
proof -
  have t: "trim (int_str n) = int_str n"
    using int_str_no_ws by (intro trim_no_ws) blast
  have digits: "list_all is_digit (int_str n)" and v: "v = int (digits_val (int_str n))"
    using assms unfolding parse_raw_amount_def t by (auto simp: Let_def split: if_splits)
  have "0 \<le> n"
    using digits by (auto simp: int_str_def is_digit_def split: if_splits)
  with v parse_raw_amount_valid [OF assms] show ?thesis
    by (simp add: int_str_def)
qed

lemma upsert_checkpoint_iff:
  "upsert_checkpoint c w h bal d = Inr d' \<longleftrightarrow>
     (\<forall>b\<in>set (balances d c). bl_wallet b = w \<longrightarrow> bl_height b \<le> h) \<and> valid_amount bal
   \<and> d' = d\<lparr>balances := (balances d)(c := upsert_row bal_key
            \<lparr>bl_wallet = w, bl_height = h, bl_balance = bal\<rparr> (balances d c))\<rparr>"
proof -
  let ?hs = "map bl_height (filter (\<lambda>b. bl_wallet b = w) (balances d c))"
  have "(case max_by id ?hs of Some x \<Rightarrow> x > h | None \<Rightarrow> False) \<longleftrightarrow>
      \<not> (\<forall>b\<in>set (balances d c). bl_wallet b = w \<longrightarrow> bl_height b \<le> h)"
  proof (cases "max_by id ?hs")
    case None
    then show ?thesis by (auto simp: filter_empty_conv)
  next
    case (Some x)
    from max_by_SomeD [OF Some] show ?thesis using Some by force
  qed
  then show ?thesis
    by (auto simp: upsert_checkpoint_def Let_def result_iff validate_amount_def valid_amount_def uint256_bound_def
        split: if_splits)
qed

lemma stored_upsert:
  assumes "upsert_checkpoint c w H bal d = Inr d'" and "unique_by bal_key (balances d c)"
  shows "stored_balance d' c r h = (if vr_wallet r = w \<and> H \<le> h then bal else stored_balance d c r h)"
proof -
  let ?b = "\<lparr>bl_wallet = w, bl_height = H, bl_balance = bal\<rparr>"
  from assms(1) have le: "\<forall>b\<in>set (balances d c). bl_wallet b = w \<longrightarrow> bl_height b \<le> H"
    and d': "balances d' c = upsert_row bal_key ?b (balances d c)"
    unfolding upsert_checkpoint_iff by auto
  show ?thesis
  proof (cases "vr_wallet r = w \<and> H \<le> h")
    case True
    have "stored_balance d' c r h = bl_balance ?b"
    proof (rule stored_balance_row)
      fix q
      assume "q \<in> set (balances d' c)" "bl_wallet q = vr_wallet r"
      with True le show "bl_height q \<le> bl_height ?b"
        by (cases "q = ?b") (simp_all add: d' set_upsert_row)
    qed (use True assms(2) in \<open>simp_all add: d' set_upsert_row\<close>)
    with True show ?thesis by simp
  next
    case False
    have "filter (\<lambda>b. bl_wallet b = vr_wallet r \<and> bl_height b \<le> h) (upsert_row bal_key ?b t)
        = filter (\<lambda>b. bl_wallet b = vr_wallet r \<and> bl_height b \<le> h) t" for t
    proof -
      have "filter (\<lambda>b. bl_wallet b = vr_wallet r \<and> bl_height b \<le> h) (map (\<lambda>q. if bal_key q = bal_key ?b then ?b else q) t)
        = filter (\<lambda>b. bl_wallet b = vr_wallet r \<and> bl_height b \<le> h) t"
        using False by (induction t) (auto simp: bal_key_def)
      with False show ?thesis
        by (auto simp: upsert_row_def)
    qed
    with False show ?thesis
      by (auto simp: d' intro!: stored_balance_cong)
  qed
qed

text \<open>
  What a posting may touch: the balance rows of its chain, adding rows only at its height and only
  for registered wallets.
\<close>

definition posting :: "chain \<Rightarrow> int \<Rightarrow> db \<Rightarrow> db \<Rightarrow> bool" where
  "posting c H d d' \<longleftrightarrow>
     d' = d\<lparr>balances := (balances d)(c := balances d' c)\<rparr>
   \<and> (unique_by bal_key (balances d c) \<longrightarrow> unique_by bal_key (balances d' c))
   \<and> (\<forall>b\<in>set (balances d' c). b \<in> set (balances d c)
        \<or> bl_height b = H \<and> (c, bl_wallet b) \<in> reg_key ` set (registrations d))"

lemma posting_refl [simp]: "posting c H d d"
  by (simp add: posting_def)

lemma postingD:
  assumes "posting c H d d'"
  shows "registrations d' = registrations d" "transfers d' = transfers d" "checkpoints d' = checkpoints d"
    "indexer_state d' = indexer_state d" "canonical_blocks d' = canonical_blocks d"
    "c' \<noteq> c \<Longrightarrow> balances d' c' = balances d c'"
proof -
  from assms have "d' = d\<lparr>balances := (balances d)(c := balances d' c)\<rparr>"
    by (simp add: posting_def)
  moreover obtain bs where "bs = balances d' c" by simp
  ultimately have d': "d' = d\<lparr>balances := (balances d)(c := bs)\<rparr>"
    by simp
  show "registrations d' = registrations d" "transfers d' = transfers d" "checkpoints d' = checkpoints d"
    "indexer_state d' = indexer_state d" "canonical_blocks d' = canonical_blocks d"
    "c' \<noteq> c \<Longrightarrow> balances d' c' = balances d c'"
    by (simp_all add: d')
qed

lemma posting_trans:
  assumes "posting c H d d'" and "posting c H d' d''"
  shows "posting c H d d''"
proof -
  obtain bs where d': "d' = d\<lparr>balances := (balances d)(c := bs)\<rparr>"
    using assms(1) unfolding posting_def by blast
  obtain bs' where "d'' = d'\<lparr>balances := (balances d')(c := bs')\<rparr>"
    using assms(2) unfolding posting_def by blast
  then have d'': "d'' = d\<lparr>balances := (balances d)(c := bs')\<rparr>"
    by (simp add: d')
  from assms show ?thesis
    unfolding posting_def d' d'' by simp blast
qed

lemma posting_credit_wallet:
  assumes "credit_wallet c H from to amt w d = Inr d'"
  shows "posting c H d d'"
proof (cases "is_registered_in_tx d c w H")
  case True
  then obtain r where r: "find_row reg_key (c, w) (registrations d) = Some r"
    by (auto simp: is_registered_in_tx_def split: option.splits)
  from True assms obtain bal where up: "upsert_checkpoint c w H bal d = Inr d'"
    by (auto simp: credit_wallet_def result_iff)
  from r have "(c, w) \<in> reg_key ` set (registrations d)"
    by (force dest: find_row_SomeD)
  with up show ?thesis
    unfolding upsert_checkpoint_iff by (auto simp: posting_def set_upsert_row)
qed (use assms in \<open>simp add: credit_wallet_def\<close>)

lemma credit_wallet_stored:
  assumes credit: "credit_wallet c H from to amt w d = Inr d'"
    and uniq: "unique_by bal_key (balances d c)" "unique_by reg_key (registrations d)"
    and r: "r \<in> set (registrations d)" "vr_chain r = c" "is_active r" "tracked (vr_wallet r)"
      "vr_registered_at r \<le> i64_max"
    and H: "H \<le> i64_max"
  shows "stored_balance d' c r h = stored_balance d c r h
     + (if vr_wallet r = w \<and> baseline_of r < H \<and> H \<le> h then transfer_delta (vr_wallet r) from to amt else 0)"
proof (cases "is_registered_in_tx d c w H")
  case False
  then have "\<not> (vr_wallet r = w \<and> baseline_of r < H)"
    using unique_by_find [OF uniq(2) r(1)] r by (auto simp: is_registered_in_tx_def reg_key_def)
  moreover have "d' = d"
    using credit False by (simp add: credit_wallet_def)
  ultimately show ?thesis by auto
next
  case True
  with credit obtain prev where prev: "tip_balance_in_tx d c w = Inr prev"
    and up: "upsert_checkpoint c w H (apply_transfer prev w from to amt) d = Inr d'"
    by (auto simp: credit_wallet_def result_iff)
  note stored = stored_upsert [OF up uniq(1), of r h]
  show ?thesis
  proof (cases "vr_wallet r = w")
    case False
    then show ?thesis using stored by simp
  next
    case w: True
    have base: "baseline_of r < H"
      using True unique_by_find [OF uniq(2) r(1)] r w by (auto simp: is_registered_in_tx_def reg_key_def)
    from up have latest: "\<forall>b\<in>set (balances d c). bl_wallet b = vr_wallet r \<longrightarrow> bl_height b \<le> H"
      unfolding upsert_checkpoint_iff w by blast
    have "prev = sql_balance_at d c w i64_max"
      using prev parse_raw_amount_int_strD unfolding tip_balance_in_tx_def by blast
    also have "\<dots> = stored_balance d c r i64_max"
      using sql_balance_at_reg [OF uniq(2) r(1,2,4)] w r(5) by simp
    finally have "H \<le> h \<Longrightarrow> prev = stored_balance d c r h"
      using stored_balance_above [OF latest H, of h] by simp
    then show ?thesis
      using stored base w by (auto simp: apply_transfer_delta)
  qed
qed

lemma credit_fold_stored:
  assumes "foldR (credit_wallet c H from to amt) ws d = Inr d'" and "distinct ws"
    and uniq: "unique_by bal_key (balances d c)" "unique_by reg_key (registrations d)"
    and r: "r \<in> set (registrations d)" "vr_chain r = c" "is_active r" "tracked (vr_wallet r)"
      "vr_registered_at r \<le> i64_max"
    and H: "H \<le> i64_max"
  shows "posting c H d d' \<and> stored_balance d' c r h = stored_balance d c r h
     + (if vr_wallet r \<in> set ws \<and> baseline_of r < H \<and> H \<le> h then transfer_delta (vr_wallet r) from to amt else 0)"
  using assms
proof (induction ws arbitrary: d)
  case Nil
  then show ?case by simp
next
  case (Cons w ws)
  from Cons.prems(1) obtain d1 where d1: "credit_wallet c H from to amt w d = Inr d1"
    and rest: "foldR (credit_wallet c H from to amt) ws d1 = Inr d'"
    by (auto simp: result_iff)
  note post = posting_credit_wallet [OF d1]
  have uniq1: "unique_by bal_key (balances d1 c)"
    using post Cons.prems by (simp add: posting_def)
  have IH: "posting c H d1 d' \<and> stored_balance d' c r h = stored_balance d1 c r h
     + (if vr_wallet r \<in> set ws \<and> baseline_of r < H \<and> H \<le> h then transfer_delta (vr_wallet r) from to amt else 0)"
    using Cons.prems uniq1 by (intro Cons.IH [OF rest]) (simp_all add: postingD [OF post])
  moreover have "stored_balance d1 c r h = stored_balance d c r h
     + (if vr_wallet r = w \<and> baseline_of r < H \<and> H \<le> h then transfer_delta (vr_wallet r) from to amt else 0)"
    using Cons.prems by (intro credit_wallet_stored [OF d1]) simp_all
  ultimately show ?case
    using posting_trans [OF post] Cons.prems(2) by auto
qed

lemma unique_nonempty_distinct: "distinct out \<Longrightarrow> distinct (unique_nonempty as out)"
  by (induction as out rule: unique_nonempty.induct) (auto simp: Let_def)

lemma set_unique_nonempty:
  "set (unique_nonempty as out) =
     set out \<union> {n \<in> (\<lambda>a. lower (trim a)) ` set as. n \<noteq> [] \<and> n \<noteq> ZERO_EVM_ADDRESS}"
  by (induction as out rule: unique_nonempty.induct) (auto simp: Let_def)

declare unique_nonempty.simps [simp del]

lemma tracked_lower: "tracked w \<Longrightarrow> lower w = w"
  by (metis tracked_def lower_idem)

lemma tracked_delta:
  assumes "tracked w" and "w \<notin> set (unique_nonempty [from, to] [])"
  shows "transfer_delta w from to amt = 0"
proof -
  have "lower a \<noteq> w" if "w \<noteq> lower (trim a)" for a
    using that assms(1) by (metis trim_lower tracked_def tracked_lower lower_idem)
  with assms show ?thesis
    by (intro transfer_delta_untouched) (auto simp: tracked_lower set_unique_nonempty tracked_def)
qed

lemma credit_wallets_stored:
  assumes credit: "credit_wallets c H from to amt d = Inr d'"
    and uniq: "unique_by bal_key (balances d c)" "unique_by reg_key (registrations d)"
    and r: "r \<in> set (registrations d)" "vr_chain r = c" "is_active r" "tracked (vr_wallet r)"
      "vr_registered_at r \<le> i64_max"
    and H: "H \<le> i64_max"
  shows "stored_balance d' c r h = stored_balance d c r h
     + (if baseline_of r < H \<and> H \<le> h then transfer_delta (vr_wallet r) from to amt else 0)"
  using credit_fold_stored [OF credit [unfolded credit_wallets_def] _ uniq r H, of h]
    tracked_delta [OF r(4), of "from" to amt] unique_nonempty_distinct [of "[]" "[from, to]"]
  by auto

lemma credit_wallets_posting: "credit_wallets c H from to amt d = Inr d' \<Longrightarrow> posting c H d d'"
  unfolding credit_wallets_def
  by (rule foldR_invariant [where P = "posting c H d"]) (auto dest: posting_credit_wallet intro: posting_trans)

section \<open>Recording a transfer\<close>

text \<open>
  The contract of \<open>persist_terra_leg\<close> and \<open>persist_bsc_leg\<close> alike: a new event identity
  is appended and posted to both legs, a known identity must carry the same data and changes
  nothing.
\<close>

definition post_row :: "chain \<Rightarrow> transfer_row \<Rightarrow> db \<Rightarrow> db \<Rightarrow> bool" where
  "post_row c row d d' \<longleftrightarrow>
     (if find_row tr_key (tr_key row) (transfers d c) = None
      then credit_wallets c (tr_height row) (tr_from row) (tr_to row) (tr_amount row)
             (d\<lparr>transfers := (transfers d)(c := transfers d c @ [row])\<rparr>) = Inr d'
      else find_row tr_key (tr_key row) (transfers d c) = Some row \<and> d' = d)"

definition terra_row :: "cw20_transfer \<Rightarrow> int \<Rightarrow> ustring \<Rightarrow> int \<Rightarrow> transfer_row" where
  "terra_row t height tx_hash i = \<lparr>tr_height = height, tr_tx_hash = tx_hash, tr_index = i,
     tr_from = ct_from t, tr_to = ct_to t, tr_amount = ct_amount t, tr_action = ct_action t\<rparr>"

definition bsc_row :: "bep20_transfer \<Rightarrow> transfer_row" where
  "bsc_row t = \<lparr>tr_height = bt_bsc_block t, tr_tx_hash = bt_tx_hash t, tr_index = bt_log_index t,
     tr_from = bt_from t, tr_to = bt_to t, tr_amount = bt_amount t, tr_action = []\<rparr>"

lemma validate_amount_Inr [result_iff]: "validate_amount a = Inr u \<longleftrightarrow> valid_amount a"
  by (auto simp: validate_amount_def valid_amount_def uint256_bound_def)

lemma persist_terra_leg_iff:
  "persist_terra_leg t height tx_hash i d = Inr d' \<longleftrightarrow>
     valid_amount (ct_amount t) \<and> 0 < height \<and> tx_hash \<noteq> [] \<and> post_row Terra (terra_row t height tx_hash i) d d'"
  unfolding persist_terra_leg_def insert_nothing_def post_row_def terra_row_def
  by (auto simp: result_iff Let_def tr_key_def)

lemma persist_bsc_leg_iff:
  "persist_bsc_leg t d = Inr d' \<longleftrightarrow>
     valid_amount (bt_amount t) \<and> 0 < bt_bsc_block t \<and> bt_tx_hash t \<noteq> [] \<and> 0 \<le> bt_log_index t
   \<and> post_row Bsc (bsc_row t) d d'"
  unfolding persist_bsc_leg_def insert_nothing_def post_row_def bsc_row_def
  by (auto simp: result_iff Let_def tr_key_def)

lemma stored_balance_transfers [simp]:
  "stored_balance (d\<lparr>transfers := x\<rparr>) c r h = stored_balance d c r h"
  by (simp add: stored_balance_def)

lemma post_row_tables:
  assumes "post_row c row d d'"
  shows "registrations d' = registrations d" "checkpoints d' = checkpoints d"
    "indexer_state d' = indexer_state d" "canonical_blocks d' = canonical_blocks d"
    "c' \<noteq> c \<Longrightarrow> transfers d' c' = transfers d c'" "c' \<noteq> c \<Longrightarrow> balances d' c' = balances d c'"
    "transfers d' c = (if find_row tr_key (tr_key row) (transfers d c) = None
       then transfers d c @ [row] else transfers d c)"
proof -
  consider "d' = d" "find_row tr_key (tr_key row) (transfers d c) \<noteq> None"
    | "posting c (tr_height row) (d\<lparr>transfers := (transfers d)(c := transfers d c @ [row])\<rparr>) d'"
      "find_row tr_key (tr_key row) (transfers d c) = None"
    using assms by (auto simp: post_row_def dest: credit_wallets_posting split: if_splits)
  note cases = this
  show "registrations d' = registrations d" "checkpoints d' = checkpoints d"
    "indexer_state d' = indexer_state d" "canonical_blocks d' = canonical_blocks d"
    "c' \<noteq> c \<Longrightarrow> transfers d' c' = transfers d c'" "c' \<noteq> c \<Longrightarrow> balances d' c' = balances d c'"
    "transfers d' c = (if find_row tr_key (tr_key row) (transfers d c) = None
       then transfers d c @ [row] else transfers d c)"
    by (rule cases; simp add: postingD)+
qed

lemma post_row_stored:
  assumes post: "post_row c row d d'"
    and uniq: "unique_by bal_key (balances d c)" "unique_by reg_key (registrations d)"
    and r: "r \<in> set (registrations d)" "vr_chain r = c" "is_active r" "tracked (vr_wallet r)"
      "vr_registered_at r \<le> i64_max"
    and H: "tr_height row \<le> i64_max"
  shows "stored_balance d' c r h = stored_balance d c r h
     + (if find_row tr_key (tr_key row) (transfers d c) = None \<and> in_flow r h row then row_delta r row else 0)"
proof (cases "find_row tr_key (tr_key row) (transfers d c) = None")
  case True
  let ?d = "d\<lparr>transfers := (transfers d)(c := transfers d c @ [row])\<rparr>"
  have credit: "credit_wallets c (tr_height row) (tr_from row) (tr_to row) (tr_amount row) ?d = Inr d'"
    using post True by (simp add: post_row_def)
  have "stored_balance d' c r h = stored_balance ?d c r h
     + (if baseline_of r < tr_height row \<and> tr_height row \<le> h
        then transfer_delta (vr_wallet r) (tr_from row) (tr_to row) (tr_amount row) else 0)"
    by (rule credit_wallets_stored [OF credit]) (use uniq r H in simp_all)
  with True show ?thesis
    by (simp add: in_flow_def row_delta_def)
qed (use post in \<open>auto simp: post_row_def split: if_splits\<close>)

lemma post_row_books:
  assumes post: "post_row c row d d'" and ok: "books_ok d c B" and H: "tr_height row \<le> i64_max"
  shows "books_ok d' c (max B (tr_height row))"
proof -
  from ok have uniq: "unique_by bal_key (balances d c)" "unique_by reg_key (registrations d)"
      "unique_by tr_key (transfers d c)"
    and reg_i64: "\<forall>r\<in>set (registrations d). vr_registered_at r \<le> i64_max"
    and bounds: "\<forall>t\<in>set (transfers d c). tr_height t \<le> B"
      "\<forall>b\<in>set (balances d c). bl_height b \<le> B \<and> (c, bl_wallet b) \<in> reg_key ` set (registrations d)"
    by (simp_all add: books_ok_def)
  note tables = post_row_tables [OF post]
  have bals: "unique_by bal_key (balances d' c) \<and> (\<forall>b\<in>set (balances d' c). b \<in> set (balances d c)
      \<or> bl_height b = tr_height row \<and> (c, bl_wallet b) \<in> reg_key ` set (registrations d))"
    using post uniq(1) credit_wallets_posting
    by (fastforce simp: post_row_def posting_def split: if_splits)
  have trs: "unique_by tr_key (transfers d' c)"
    using uniq(3) by (simp add: tables find_row_None)
  have "reconciled d' c r" if r: "r \<in> set (registrations d)" "vr_chain r = c" "is_active r" "tracked (vr_wallet r)" for r
    unfolding reconciled_def
  proof (intro allI impI)
    fix h
    assume h: "baseline_of r \<le> h"
    have "reconciled d c r"
      using ok r by (simp add: books_ok_def)
    then have old: "stored_balance d c r h = stored_balance d c r (baseline_of r) + flow (transfers d c) r h"
      using h unfolding reconciled_def by blast
    note stored = post_row_stored [OF post uniq(1,2) r reg_i64 [rule_format, OF r(1)] H]
    have "\<not> in_flow r (baseline_of r) row"
      by (simp add: in_flow_def)
    then show "stored_balance d' c r h = stored_balance d' c r (baseline_of r) + flow (transfers d' c) r h"
      using old by (simp add: stored tables flow_append flow_single)
  qed
  moreover have "\<forall>t\<in>set (transfers d' c). tr_height t \<le> max B (tr_height row)"
    using bounds(1) by (auto simp: tables)
  moreover have "\<forall>b\<in>set (balances d' c). bl_height b \<le> max B (tr_height row)
      \<and> (c, bl_wallet b) \<in> reg_key ` set (registrations d')"
  proof
    fix b
    assume "b \<in> set (balances d' c)"
    then consider "b \<in> set (balances d c)"
      | "bl_height b = tr_height row" "(c, bl_wallet b) \<in> reg_key ` set (registrations d)"
      using bals by blast
    then show "bl_height b \<le> max B (tr_height row) \<and> (c, bl_wallet b) \<in> reg_key ` set (registrations d')"
      by cases (use bounds(2) in \<open>auto simp: tables\<close>)
  qed
  ultimately show ?thesis
    using bals trs uniq(2) reg_i64 unfolding books_ok_def tables(1) by blast
qed

lemma post_row_recorded:
  assumes "post_row c row d d'"
  shows "find_row tr_key (tr_key row) (transfers d' c) = Some row"
  using assms post_row_tables(7) [OF assms] by (auto simp: post_row_def find_row_append split: if_splits)

lemma post_row_known: "find_row tr_key (tr_key row) (transfers d c) = Some row' \<Longrightarrow>
    post_row c row d d' \<longleftrightarrow> row' = row \<and> d' = d"
  by (auto simp: post_row_def)

lemma books_ok_frame:
  assumes "registrations d' = registrations d" and "transfers d' c = transfers d c" and "balances d' c = balances d c"
  shows "books_ok d' c B = books_ok d c B"
  using assms by (simp add: books_ok_def reconciled_def stored_balance_def)

lemma books_ok_mono: "books_ok d c B \<Longrightarrow> B \<le> B' \<Longrightarrow> books_ok d c B'"
  by (fastforce simp: books_ok_def)

lemma post_row_books_other:
  "post_row c row d d' \<Longrightarrow> c' \<noteq> c \<Longrightarrow> books_ok d' c' B = books_ok d c' B"
  by (intro books_ok_frame) (simp_all add: post_row_tables)

section \<open>The interface of the ingest loops\<close>

text \<open>
  The ingest loops see one operation per chain: a fallible step that posts the row of one event.
  What follows from that contract is proved once and holds for both chains.
\<close>

locale event_recorder =
  fixes record_event :: "'a \<Rightarrow> db \<Rightarrow> db ledger_result"
    and on_chain :: chain
    and row_of :: "'a \<Rightarrow> transfer_row"
    and admissible :: "'a \<Rightarrow> bool"
  assumes record_event_iff:
    "record_event x d = Inr d' \<longleftrightarrow> admissible x \<and> post_row on_chain (row_of x) d d'"
begin

lemma record_again: "record_event x d = Inr d' \<Longrightarrow> record_event x d' = Inr d'"
  using post_row_known [OF post_row_recorded] by (auto simp: record_event_iff)

lemma record_conflict:
  assumes "record_event x d = Inr d'" and "tr_key (row_of y) = tr_key (row_of x)" and "row_of y \<noteq> row_of x"
  shows "record_event y d' \<noteq> Inr d''"
proof -
  from assms(1) have "find_row tr_key (tr_key (row_of y)) (transfers d' on_chain) = Some (row_of x)"
    using post_row_recorded [of on_chain "row_of x" d d'] assms(2) by (simp add: record_event_iff)
  then show ?thesis
    using assms(3) by (simp add: record_event_iff post_row_known)
qed

lemma record_books:
  "record_event x d = Inr d' \<Longrightarrow> books_ok d on_chain B \<Longrightarrow> tr_height (row_of x) \<le> i64_max
    \<Longrightarrow> books_ok d' on_chain (max B (tr_height (row_of x)))"
  unfolding record_event_iff by (blast intro: post_row_books)

lemma record_frame:
  "record_event x d = Inr d' \<Longrightarrow> registrations d' = registrations d \<and> checkpoints d' = checkpoints d
    \<and> indexer_state d' = indexer_state d \<and> canonical_blocks d' = canonical_blocks d
    \<and> (\<forall>c. c \<noteq> on_chain \<longrightarrow> transfers d' c = transfers d c \<and> balances d' c = balances d c)"
  using post_row_tables [of on_chain "row_of x" d d'] by (simp add: record_event_iff)

lemma record_all_books:
  assumes "foldR record_event xs d = Inr d'" and "books_ok d on_chain B"
    and "\<And>x. x \<in> set xs \<Longrightarrow> tr_height (row_of x) \<le> H" and "H \<le> i64_max"
  shows "books_ok d' on_chain (max B H)"
proof (rule foldR_invariant [OF assms(1), where P = "\<lambda>s. books_ok s on_chain (max B H)"])
  show "books_ok d on_chain (max B H)"
    using assms(2) by (rule books_ok_mono) simp
  fix x s s'
  assume x: "x \<in> set xs" and s: "record_event x s = Inr s'" and ok: "books_ok s on_chain (max B H)"
  from record_books [OF s ok] assms(3) [OF x] assms(4)
  have "books_ok s' on_chain (max (max B H) (tr_height (row_of x)))"
    by simp
  then show "books_ok s' on_chain (max B H)"
    using assms(3) [OF x] by (auto elim!: books_ok_mono)
qed

lemma record_all_frame:
  assumes "foldR record_event xs d = Inr d'"
  shows "registrations d' = registrations d \<and> checkpoints d' = checkpoints d
    \<and> indexer_state d' = indexer_state d \<and> canonical_blocks d' = canonical_blocks d
    \<and> (\<forall>c. c \<noteq> on_chain \<longrightarrow> transfers d' c = transfers d c \<and> balances d' c = balances d c)"
  by (rule foldR_invariant [OF assms, where P = "\<lambda>s. registrations s = registrations d
      \<and> checkpoints s = checkpoints d \<and> indexer_state s = indexer_state d
      \<and> canonical_blocks s = canonical_blocks d
      \<and> (\<forall>c. c \<noteq> on_chain \<longrightarrow> transfers s c = transfers d c \<and> balances s c = balances d c)"])
    (use record_frame in \<open>auto\<close>)

text \<open>What one recorded event does to the balance a client reads.\<close>

lemma record_balance:
  assumes "record_event x d = Inr d'" and ok: "books_ok d on_chain B" and H: "tr_height (row_of x) \<le> i64_max"
    and r: "r \<in> set (registrations d)" "vr_chain r = on_chain" "is_active r" "tracked (vr_wallet r)"
  shows "sql_balance_at d' on_chain (vr_wallet r) h = sql_balance_at d on_chain (vr_wallet r) h
     + (if find_row tr_key (tr_key (row_of x)) (transfers d on_chain) = None \<and> vr_registered_at r \<le> h
           \<and> in_flow r h (row_of x) then row_delta r (row_of x) else 0)"
proof -
  from ok have uniq: "unique_by bal_key (balances d on_chain)" "unique_by reg_key (registrations d)"
    and reg: "vr_registered_at r \<le> i64_max"
    using r(1) by (simp_all add: books_ok_def)
  from assms(1) have post: "post_row on_chain (row_of x) d d'"
    by (simp add: record_event_iff)
  have uniq': "unique_by reg_key (registrations d')" "r \<in> set (registrations d')"
    using uniq(2) r(1) by (simp_all add: post_row_tables [OF post])
  show ?thesis
    using post_row_stored [OF post uniq r reg H, of h]
    by (auto simp: sql_balance_at_reg [OF uniq(2) r(1,2,4)] sql_balance_at_reg [OF uniq' r(2,4)])
qed

end

interpretation terra_recorder: event_recorder
  "\<lambda>(t, height, tx_hash, i). persist_terra_leg t height tx_hash i" Terra
  "\<lambda>(t, height, tx_hash, i). terra_row t height tx_hash i"
  "\<lambda>(t, height, tx_hash, i). valid_amount (ct_amount t) \<and> 0 < height \<and> tx_hash \<noteq> []"
  by unfold_locales (auto simp: persist_terra_leg_iff)

interpretation bsc_recorder: event_recorder
  persist_bsc_leg Bsc bsc_row
  "\<lambda>t. valid_amount (bt_amount t) \<and> 0 < bt_bsc_block t \<and> bt_tx_hash t \<noteq> [] \<and> 0 \<le> bt_log_index t"
  by unfold_locales (auto simp: persist_bsc_leg_iff)

section \<open>Rewinding\<close>

definition cut_books :: "chain \<Rightarrow> int \<Rightarrow> db \<Rightarrow> db" where
  "cut_books c a d =
     d\<lparr>transfers := (transfers d)(c := filter (\<lambda>t. \<not> tr_height t > a) (transfers d c)),
       balances := (balances d)(c := filter (\<lambda>b. \<not> bl_height b > a) (balances d c))\<rparr>"

lemma stored_balance_cut: "stored_balance (cut_books c a d) c r h = stored_balance d c r (min h a)"
  by (rule stored_balance_cong) (auto simp: cut_books_def intro: filter_cong)

lemma flow_cut: "flow (filter (\<lambda>t. \<not> tr_height t > a) ts) r h = flow ts r (min h a)"
proof -
  have "filter (in_flow r h) (filter (\<lambda>t. \<not> tr_height t > a) ts) = filter (in_flow r (min h a)) ts"
    by (auto simp: in_flow_def intro: filter_cong)
  then show ?thesis by (simp add: flow_def)
qed

lemma flow_below_baseline: "h \<le> baseline_of r \<Longrightarrow> flow ts r h = 0"
proof -
  assume "h \<le> baseline_of r"
  then have "filter (in_flow r h) ts = []"
    by (auto simp: in_flow_def filter_empty_conv)
  then show ?thesis by (simp add: flow_def)
qed

lemma reconciled_cut:
  assumes "reconciled d c r"
  shows "reconciled (cut_books c a d) c r"
  unfolding reconciled_def
proof (intro allI impI)
  fix h
  assume h: "baseline_of r \<le> h"
  have tr: "transfers (cut_books c a d) c = filter (\<lambda>t. \<not> tr_height t > a) (transfers d c)"
    by (simp add: cut_books_def)
  show "stored_balance (cut_books c a d) c r h
      = stored_balance (cut_books c a d) c r (baseline_of r) + flow (transfers (cut_books c a d) c) r h"
  proof (cases "baseline_of r \<le> a")
    case True
    with h have "baseline_of r \<le> min h a" by simp
    with assms have "stored_balance d c r (min h a)
        = stored_balance d c r (baseline_of r) + flow (transfers d c) r (min h a)"
      unfolding reconciled_def by blast
    with True show ?thesis
      by (simp add: tr stored_balance_cut flow_cut)
  next
    case False
    then show ?thesis
      using h by (simp add: tr stored_balance_cut flow_cut flow_below_baseline min_absorb2)
  qed
qed

lemma books_ok_cut: "books_ok d c B \<Longrightarrow> books_ok (cut_books c a d) c (min B a)"
proof -
  assume ok: "books_ok d c B"
  have rest: "registrations (cut_books c a d) = registrations d"
    "transfers (cut_books c a d) c = filter (\<lambda>t. \<not> tr_height t > a) (transfers d c)"
    "balances (cut_books c a d) c = filter (\<lambda>b. \<not> bl_height b > a) (balances d c)"
    by (simp_all add: cut_books_def)
  from ok show ?thesis
    unfolding books_ok_def rest by (auto intro: reconciled_cut)
qed

lemma books_ok_cut_other: "c' \<noteq> c \<Longrightarrow> books_ok (cut_books c a d) c' B = books_ok d c' B"
  by (rule books_ok_frame) (simp_all add: cut_books_def)

section \<open>Registering and re-baselining\<close>

lemma stored_balance_update_regs [simp]:
  "stored_balance (d\<lparr>registrations := x\<rparr>) c r h = stored_balance d c r h"
  by (simp add: stored_balance_def)

lemma reconciled_update_regs [simp]:
  "reconciled (d\<lparr>registrations := x\<rparr>) c r = reconciled d c r"
  by (simp add: reconciled_def)

text \<open>A wallet registered at or above every recorded row starts with its own baseline.\<close>

lemma books_ok_register:
  assumes ok: "books_ok d c B" and "reg_key r \<notin> reg_key ` set (registrations d)"
    and "vr_chain r = c \<Longrightarrow> B \<le> baseline_of r" and "vr_registered_at r \<le> i64_max"
  shows "books_ok (d\<lparr>registrations := registrations d @ [r]\<rparr>) c B"
proof -
  let ?d = "d\<lparr>registrations := registrations d @ [r]\<rparr>"
  have "reconciled ?d c r" if "vr_chain r = c"
    unfolding reconciled_def
  proof (intro allI impI)
    fix h
    assume h: "baseline_of r \<le> h"
    have "vr_wallet r \<noteq> bl_wallet b" if "b \<in> set (balances d c)" for b
      using that ok assms(2) \<open>vr_chain r = c\<close> by (fastforce simp: books_ok_def reg_key_def)
    then have init: "stored_balance d c r x = vr_initial r" for x
      by (intro stored_balance_none) fastforce
    have "filter (in_flow r h) (transfers d c) = []"
      using ok assms(3) [OF that] by (fastforce simp: filter_empty_conv in_flow_def books_ok_def)
    then show "stored_balance ?d c r h = stored_balance ?d c r (baseline_of r) + flow (transfers ?d c) r h"
      by (simp add: init flow_def)
  qed
  with ok assms(2,4) show ?thesis
    by (auto simp: books_ok_def)
qed

text \<open>Changing only the verification columns of registrations leaves the books alone.\<close>

lemma books_ok_update_regs:
  assumes "\<And>r. reg_key (f r) = reg_key r \<and> vr_registered_at (f r) = vr_registered_at r
      \<and> vr_initial (f r) = vr_initial r \<and> is_active (f r) = is_active r \<and> baseline_of (f r) = baseline_of r"
  shows "books_ok (d\<lparr>registrations := update_where p f (registrations d)\<rparr>) c B = books_ok d c B"
proof -
  let ?g = "\<lambda>r. if p r then f r else r"
  have key: "reg_key (?g r) = reg_key r" for r
    using assms by simp
  have same: "vr_chain (?g r) = vr_chain r" "vr_wallet (?g r) = vr_wallet r" for r
    using key [of r] unfolding reg_key_def by simp_all
  have rest: "vr_registered_at (?g r) = vr_registered_at r" "vr_initial (?g r) = vr_initial r"
      "is_active (?g r) = is_active r" "baseline_of (?g r) = baseline_of r" for r
    using assms by simp_all
  have "in_flow (?g r) h = in_flow r h" and "row_delta (?g r) = row_delta r" for r h
    by (intro ext, simp add: in_flow_def rest, intro ext, simp only: row_delta_def same)
  then have "flow ts (?g r) h = flow ts r h" for ts r h
    by (simp only: flow_def)
  moreover have "stored_balance d c (?g r) h = stored_balance d c r h" for r h
    by (simp only: stored_balance_def same rest)
  ultimately have recon: "reconciled d c (?g r) = reconciled d c r" for r
    by (simp only: reconciled_def rest)
  have regs: "registrations (d\<lparr>registrations := update_where p f (registrations d)\<rparr>) = map ?g (registrations d)"
    by (simp add: update_where_def)
  have keys: "reg_key ` set (map ?g (registrations d)) = reg_key ` set (registrations d)"
    by (simp only: set_map image_image key)
  have uniq: "unique_by reg_key (map ?g (registrations d)) = unique_by reg_key (registrations d)"
    by (simp only: unique_by_def map_map comp_def key)
  show ?thesis
    unfolding books_ok_def regs keys uniq
    by (simp only: set_map ball_simps same rest recon reconciled_update_regs) simp
qed

end
