(* ===== verification/Checkpoints.thy ===== *)
theory Checkpoints
  imports LedgerBooks
begin

text \<open>
  The published checkpoint of a chain, its cursor and its window of canonical block hashes:
  \<open>publish_checkpoint\<close>, \<open>degrade\<close> and the rewinds. \<open>chain_ok\<close> is the invariant that ties the
  books to what is published: no recorded transfer or balance lies above the checkpoint or the
  cursor. \<open>history_ok\<close> is the invariant of the hash window the fork detector relies on.
\<close>

section \<open>Cursors\<close>

lemma parse_cursor_Inr:
  "parse_cursor value = Inr h \<longleftrightarrow>
     (value = None \<and> h = 0) \<or> (\<exists>raw. value = Some raw \<and> parse_i64 raw = Some h \<and> 0 \<le> h)"
  by (auto simp: parse_cursor_def result_iff split: option.splits if_splits)

lemma parse_i64_int_strD:
  assumes "parse_i64 (int_str n) = Some h"
  shows "h = n"
proof (cases "n < 0")
  case True
  with assms show ?thesis
    by (auto simp: parse_i64_def int_str_def checked_i64_def split: if_splits)
next
  case False
  obtain c r where cr: "nat_digits (nat n) = c # r"
    by (cases "nat_digits (nat n)") auto
  then have "is_digit c"
    using nat_digits_digits [of c "nat n"] by simp
  then have "c \<noteq> 43" "c \<noteq> 45"
    by (auto simp: is_digit_def)
  with assms False cr parse_digits_nat_digits [of "nat n"] show ?thesis
    by (auto simp: parse_i64_def int_str_def checked_i64_def split: if_splits)
qed

lemma get_state_set_state:
  "get_state (set_state k v now d) k' = (if k' = k then Some v else get_state d k')"
  by (simp add: get_state_def set_state_def find_row_upsert)

lemma cursor_keys_distinct [simp]:
  "cursor_key c = cursor_key c' \<longleftrightarrow> c = c'" "cursor_hash_key c = cursor_hash_key c' \<longleftrightarrow> c = c'"
  "cursor_key c \<noteq> cursor_hash_key c'" "cursor_hash_key c' \<noteq> cursor_key c"
  by (cases c; cases c'; simp add: cursor_key_def cursor_hash_key_def)+

section \<open>The checkpoint invariant\<close>

definition checkpoint_height :: "db \<Rightarrow> chain \<Rightarrow> int" where
  "checkpoint_height d c = (case checkpoints d c of Some cp \<Rightarrow> cp_height cp | None \<Rightarrow> 0)"

definition chain_ok :: "db \<Rightarrow> chain \<Rightarrow> bool" where
  "chain_ok d c \<longleftrightarrow> books_ok d c (checkpoint_height d c)
     \<and> (\<forall>h. indexed_height d c = Inr h \<longrightarrow> books_ok d c h)"

definition ledger_ok :: "db \<Rightarrow> bool" where
  "ledger_ok d \<longleftrightarrow> (\<forall>c. chain_ok d c)"

lemma publish_checkpoint_Inr:
  "publish_checkpoint c height hash tip now d = Inr d' \<longleftrightarrow>
     \<not> (\<exists>cp. checkpoints d c = Some cp \<and> height < cp_height cp)
   \<and> d' = d\<lparr>
       canonical_blocks := filter (\<lambda>b. \<not> (cb_chain b = c \<and> cb_height b < sat_sub height 128))
         (upsert_row cb_key \<lparr>cb_chain = c, cb_height = height, cb_hash = hash\<rparr> (canonical_blocks d)),
       checkpoints := (checkpoints d)(c := Some
         \<lparr>cp_height = height, cp_hash = hash, cp_observed_at = Some now,
          cp_epoch = (case checkpoints d c of Some cp \<Rightarrow> cp_epoch cp | None \<Rightarrow> 1),
          cp_complete = True, cp_canonical = True, cp_degraded = None, cp_network_tip = tip\<rparr>),
       indexer_state := upsert_row st_key \<lparr>st_key = cursor_hash_key c, st_value = hash, st_updated_at = now\<rparr>
         (upsert_row st_key \<lparr>st_key = cursor_key c, st_value = int_str height, st_updated_at = now\<rparr>
           (indexer_state d))\<rparr>"
proof -
  have "(case checkpoints d c of Some cp \<Rightarrow> cp_height cp > height | None \<Rightarrow> False)
      \<longleftrightarrow> (\<exists>cp. checkpoints d c = Some cp \<and> height < cp_height cp)"
    by (auto split: option.split)
  then show ?thesis
    unfolding publish_checkpoint_def by (auto simp: Let_def set_state_def)
qed

lemma publish_tables:
  assumes "publish_checkpoint c height hash tip now d = Inr d'"
  shows "registrations d' = registrations d" "transfers d' = transfers d" "balances d' = balances d"
    "checkpoint_height d c \<le> height \<or> checkpoints d c = None" "checkpoint_height d' c = height"
    "c' \<noteq> c \<Longrightarrow> checkpoints d' c' = checkpoints d c'"
    "get_state d' (cursor_key c) = Some (int_str height)"
    "get_state d' (cursor_hash_key c) = Some hash"
    "k \<noteq> cursor_key c \<Longrightarrow> k \<noteq> cursor_hash_key c \<Longrightarrow> get_state d' k = get_state d k"
  using assms unfolding publish_checkpoint_Inr
  by (auto simp: checkpoint_height_def get_state_def find_row_upsert split: option.splits)

lemma publish_indexed_height:
  assumes "publish_checkpoint c height hash tip now d = Inr d'"
  shows "indexed_height d' c = Inr h \<Longrightarrow> h = height"
    and "0 \<le> height \<Longrightarrow> in_i64 height \<Longrightarrow> indexed_height d' c = Inr height"
    and "c' \<noteq> c \<Longrightarrow> indexed_height d' c' = indexed_height d c'"
  using publish_tables [OF assms]
  by (auto simp: indexed_height_def parse_cursor_Inr parse_i64_int_str dest: parse_i64_int_strD)

lemma publish_books:
  assumes "publish_checkpoint c height hash tip now d = Inr d'"
  shows "books_ok d' c' B = books_ok d c' B"
  by (rule books_ok_frame) (simp_all add: publish_tables [OF assms])

text \<open>Publishing at a height that covers every recorded row establishes the invariant.\<close>

lemma chain_ok_publish:
  assumes "publish_checkpoint c height hash tip now d = Inr d'" and "books_ok d c height"
  shows "chain_ok d' c"
  using assms publish_indexed_height(1) [OF assms(1)]
  by (auto simp: chain_ok_def publish_books [OF assms(1)] publish_tables [OF assms(1)])

lemma chain_ok_publish_other:
  assumes "publish_checkpoint c height hash tip now d = Inr d'" and "c' \<noteq> c"
  shows "chain_ok d' c' = chain_ok d c'"
  using assms publish_indexed_height(3) [OF assms] publish_tables(6) [OF assms]
  by (simp add: chain_ok_def publish_books [OF assms(1)] checkpoint_height_def)

section \<open>The window of canonical hashes\<close>

definition blocks_below :: "canonical_block list \<Rightarrow> chain \<Rightarrow> int \<Rightarrow> bool" where
  "blocks_below bs c height \<longleftrightarrow> (\<forall>b\<in>set bs. cb_chain b = c \<longrightarrow> cb_height b \<le> height)"

definition history_ok :: "db \<Rightarrow> chain \<Rightarrow> bool" where
  "history_ok d c \<longleftrightarrow> unique_by cb_key (canonical_blocks d)
     \<and> (\<forall>b\<in>set (canonical_blocks d). cb_chain b = c \<longrightarrow>
          checkpoints d c \<noteq> None \<and> cb_height b \<le> checkpoint_height d c)"

definition canonical_hash :: "db \<Rightarrow> chain \<Rightarrow> int \<Rightarrow> ustring option" where
  "canonical_hash d c height = map_option cb_hash (find_row cb_key (c, height) (canonical_blocks d))"

lemma publish_history:
  assumes pub: "publish_checkpoint c height hash tip now d = Inr d'"
    and uniq: "unique_by cb_key (canonical_blocks d)" and below: "blocks_below (canonical_blocks d) c height"
    and h: "in_i64 height" "0 \<le> height"
  shows "history_ok d' c" and "canonical_hash d' c height = Some hash"
    and "b \<in> set (canonical_blocks d') \<Longrightarrow> cb_chain b = c \<Longrightarrow> height - 128 \<le> cb_height b \<and> cb_height b \<le> height"
proof -
  let ?b = "\<lparr>cb_chain = c, cb_height = height, cb_hash = hash\<rparr>"
  have sub: "sat_sub height 128 = height - 128"
    using h by (auto simp: sat_sub_def in_i64_def i64_max_def i64_min_def intro!: sat_i64_id)
  have blocks: "canonical_blocks d' = filter (\<lambda>b. \<not> (cb_chain b = c \<and> cb_height b < height - 128))
      (upsert_row cb_key ?b (canonical_blocks d))"
    using pub unfolding publish_checkpoint_Inr sub by auto
  have cp: "\<exists>cp. checkpoints d' c = Some cp \<and> cp_height cp = height"
    using pub unfolding publish_checkpoint_Inr by auto
  have mem: "?b \<in> set (canonical_blocks d')"
    by (simp add: blocks set_upsert_row)
  have uniq': "unique_by cb_key (canonical_blocks d')"
    using uniq by (simp add: blocks)
  have window: "height - 128 \<le> cb_height b \<and> cb_height b \<le> height"
    if "b \<in> set (canonical_blocks d')" "cb_chain b = c" for b
    using that below by (cases "b = ?b") (auto simp: blocks set_upsert_row blocks_below_def)
  show "history_ok d' c"
    using window uniq' cp by (auto simp: history_ok_def checkpoint_height_def)
  show "canonical_hash d' c height = Some hash"
    using unique_by_find [OF uniq' mem] by (simp add: canonical_hash_def cb_key_def)
  show "b \<in> set (canonical_blocks d') \<Longrightarrow> cb_chain b = c \<Longrightarrow> height - 128 \<le> cb_height b \<and> cb_height b \<le> height"
    by (rule window)
qed

lemma unique_by_card:
  assumes "unique_by cb_key bs" and "\<And>b. b \<in> set bs \<Longrightarrow> cb_chain b = c \<Longrightarrow> l \<le> cb_height b \<and> cb_height b \<le> u"
  shows "length (filter (\<lambda>b. cb_chain b = c) bs) \<le> nat (u - l + 1)"
proof -
  let ?f = "filter (\<lambda>b. cb_chain b = c) bs"
  have "distinct (map cb_height ?f)"
    using assms(1)
  proof (induction bs)
    case (Cons a bs)
    have "cb_height a \<noteq> cb_height x" if "x \<in> set bs" "cb_chain a = c" "cb_chain x = c" for x
      using Cons.prems that by (auto simp: unique_by_def image_iff cb_key_def)
    with Cons show ?case by (auto simp: unique_by_def)
  qed simp
  then have "length ?f = card (set (map cb_height ?f))"
    by (metis distinct_card length_map)
  also have "\<dots> \<le> card {l..u}"
    using assms(2) by (intro card_mono) auto
  finally show ?thesis by simp
qed

section \<open>Degradation\<close>

lemma degrade_books [simp]: "books_ok (degrade c reason d) c' B = books_ok d c' B"
  by (rule books_ok_frame) (simp_all add: degrade_def)

lemma checkpoint_height_degrade [simp]: "checkpoint_height (degrade c reason d) c' = checkpoint_height d c'"
  by (auto simp: degrade_def checkpoint_height_def new_checkpoint_def split: option.split)

lemma indexed_height_degrade [simp]: "indexed_height (degrade c reason d) c' = indexed_height d c'"
  by (simp add: indexed_height_def get_state_def degrade_def)

lemma chain_ok_degrade [simp]: "chain_ok (degrade c reason d) c' = chain_ok d c'"
  by (simp add: chain_ok_def)

definition degraded_reason :: "db \<Rightarrow> chain \<Rightarrow> ustring option" where
  "degraded_reason d c = Option.bind (checkpoints d c) cp_degraded"

definition certified :: "db \<Rightarrow> chain \<Rightarrow> bool" where
  "certified d c \<longleftrightarrow> (\<exists>cp. checkpoints d c = Some cp \<and> cp_complete cp \<and> cp_canonical cp \<and> cp_degraded cp = None)"

lemma degraded_reason_degrade:
  "degraded_reason (degrade c reason d) c =
     Some (case degraded_reason d c of
         Some old \<Rightarrow> if old \<in> set permanent_reasons then old else reason
       | None \<Rightarrow> reason)"
  by (auto simp: degraded_reason_def degrade_def new_checkpoint_def split: option.split)

lemma degraded_reason_degrade_other:
  "c' \<noteq> c \<Longrightarrow> degraded_reason (degrade c reason d) c' = degraded_reason d c'"
  by (simp add: degraded_reason_def degrade_def)

section \<open>Rewinding\<close>

lemma rewind_cut: "rewind c after now d = set_state (cursor_key c) (int_str after) now (cut_books c after d)"
  by (simp add: rewind_def cut_books_def)

lemma books_ok_set_state [simp]: "books_ok (set_state k v now d) c B = books_ok d c B"
  by (rule books_ok_frame) (simp_all add: set_state_def)

lemma checkpoint_height_set_state [simp]: "checkpoint_height (set_state k v now d) c = checkpoint_height d c"
  by (simp add: set_state_def checkpoint_height_def)

lemma checkpoint_height_cut [simp]: "checkpoint_height (cut_books c a d) c' = checkpoint_height d c'"
  by (simp add: cut_books_def checkpoint_height_def)

lemma get_state_cut [simp]: "get_state (cut_books c a d) k = get_state d k"
  by (simp add: cut_books_def get_state_def)

lemma chain_ok_rewind:
  assumes "chain_ok d c"
  shows "chain_ok (rewind c after now d) c"
proof -
  from assms have "books_ok (cut_books c after d) c (min (checkpoint_height d c) after)"
    by (auto simp: chain_ok_def intro: books_ok_cut)
  then have "books_ok (cut_books c after d) c (checkpoint_height d c)"
    and "books_ok (cut_books c after d) c after"
    by (auto elim: books_ok_mono)
  moreover have "indexed_height (rewind c after now d) c = Inr h \<Longrightarrow> h = after" for h
    by (auto simp: indexed_height_def rewind_cut get_state_set_state parse_cursor_Inr dest: parse_i64_int_strD)
  ultimately show ?thesis
    by (auto simp: chain_ok_def rewind_cut)
qed

lemma chain_ok_rewind_other:
  "c' \<noteq> c \<Longrightarrow> chain_ok (rewind c after now d) c' = chain_ok d c'"
  by (simp add: chain_ok_def rewind_cut books_ok_cut_other indexed_height_def get_state_set_state)

section \<open>A small instance\<close>

text \<open>One Terra wallet registered at height 10 with 100 units, ledger published at height 11.\<close>

definition sample_reg :: registration where
  "sample_reg = \<lparr>vr_chain = Terra, vr_wallet = str ''terra1alice'', vr_registered_at = 10,
     vr_initial = 100, vr_status = str ''active'', vr_signature = None, vr_baseline_height = Some 10,
     vr_baseline_hash = Some (str ''aa''), vr_baseline_epoch = 1, vr_baseline_verified = True\<rparr>"

definition sample_db :: db where
  "sample_db = initial_db\<lparr>registrations := [sample_reg],
     checkpoints := (\<lambda>_. None)(Terra := Some \<lparr>cp_height = 11, cp_hash = str ''bb'',
       cp_observed_at = Some 0, cp_epoch = 1, cp_complete = True, cp_canonical = True,
       cp_degraded = None, cp_network_tip = 11\<rparr>),
     indexer_state := [\<lparr>st_key = str ''last_indexed_height'', st_value = str ''11'', st_updated_at = 0\<rparr>]\<rparr>"

lemma sample_tracked: "tracked (vr_wallet sample_reg)"
  by (simp add: tracked_def sample_reg_def ZERO_EVM_ADDRESS_def trim_def) code_simp

lemma sample_facts:
  "sample_reg \<in> set (registrations sample_db)" "vr_chain sample_reg = Terra" "is_active sample_reg"
  "baseline_of sample_reg = 10" "vr_registered_at sample_reg = 10"
  by (simp_all add: sample_db_def sample_reg_def is_active_def baseline_of_def)

lemma sample_books: "11 \<le> B \<Longrightarrow> books_ok sample_db c B"
  by (auto simp: books_ok_def sample_db_def initial_db_def reconciled_def flow_def stored_balance_def
      sample_reg_def unique_by_def i64_max_def)

lemma sample_chain_ok: "chain_ok sample_db Terra"
proof -
  have "parse_cursor (Some (str ''11'')) = Inr 11"
    by code_simp
  then have "indexed_height sample_db Terra = Inr 11"
    by (simp add: indexed_height_def get_state_def sample_db_def find_row_Cons cursor_key_def)
  moreover have "checkpoint_height sample_db Terra = 11"
    by (simp add: checkpoint_height_def sample_db_def)
  ultimately show ?thesis
    by (auto simp: chain_ok_def sample_books)
qed

section \<open>Properties\<close>

text \<open>
  C25. A CW20 event moves exactly its amount: when \<open>persist_terra_leg\<close> accepts an event, the
  balance the SQL function reports for a registered wallet changes by the transfer at the heights
  from the event on, provided the event is new and above the wallet's baseline, and by nothing
  otherwise.
\<close>

theorem persist_terra_leg_exact:
  assumes "persist_terra_leg t height tx_hash i d = Inr d'" and "books_ok d Terra B" and "height \<le> i64_max"
    and "r \<in> set (registrations d)" "vr_chain r = Terra" "is_active r" "tracked (vr_wallet r)"
  shows "sql_balance_at d' Terra (vr_wallet r) h = sql_balance_at d Terra (vr_wallet r) h
     + (if (tx_hash, i) \<notin> tr_key ` set (transfers d Terra) \<and> vr_registered_at r \<le> h
           \<and> baseline_of r < height \<and> height \<le> h
        then transfer_delta (vr_wallet r) (ct_from t) (ct_to t) (ct_amount t) else 0)"
  using terra_recorder.record_balance [of "(t, height, tx_hash, i)" d d' B r h] assms
  by (simp add: terra_row_def tr_key_def find_row_None in_flow_def row_delta_def)

theorem persist_terra_leg_exact_witness:
  "\<exists>d'. persist_terra_leg \<lparr>ct_contract = [], ct_from = str ''terra1alice'', ct_to = str ''terra1bob'',
            ct_amount = 30, ct_action = str ''transfer''\<rparr> 12 (str ''AB'') 0 sample_db = Inr d'
     \<and> sql_balance_at d' Terra (str ''terra1alice'') 12 = 70
     \<and> sql_balance_at d' Terra (str ''terra1alice'') 11 = 100"
proof -
  let ?t = "\<lparr>ct_contract = [], ct_from = str ''terra1alice'', ct_to = str ''terra1bob'',
            ct_amount = 30, ct_action = str ''transfer''\<rparr> :: cw20_transfer"
  have "(case persist_terra_leg ?t 12 (str ''AB'') 0 sample_db of Inr _ \<Rightarrow> True | Inl _ \<Rightarrow> False)"
    by code_simp
  then obtain d' where d': "persist_terra_leg ?t 12 (str ''AB'') 0 sample_db = Inr d'"
    by (cases "persist_terra_leg ?t 12 (str ''AB'') 0 sample_db") auto
  have w: "vr_wallet sample_reg = str ''terra1alice''"
    by (simp add: sample_reg_def)
  have init: "sql_balance_at sample_db Terra (str ''terra1alice'') 12 = 100"
    "sql_balance_at sample_db Terra (str ''terra1alice'') 11 = 100"
    "transfer_delta (str ''terra1alice'') (str ''terra1alice'') (str ''terra1bob'') 30 = -30"
    by code_simp+
  have "transfers sample_db Terra = []"
    by (simp add: sample_db_def initial_db_def)
  with persist_terra_leg_exact [OF d' sample_books [of 11] _ sample_facts(1,2,3) sample_tracked, of 12]
    persist_terra_leg_exact [OF d' sample_books [of 11] _ sample_facts(1,2,3) sample_tracked, of 11]
  show ?thesis
    using d' init by (simp add: w i64_max_def sample_facts)
qed

text \<open>
  C26. Recording is idempotent and never silently overwrites: replaying an accepted BEP-20 event
  leaves the database as it is, and an event that reuses its \<open>(tx_hash, log_index)\<close> identity
  with other data is refused as a conflict.
\<close>

theorem persist_bsc_leg_replay:
  assumes "persist_bsc_leg t d = Inr d'"
  shows "persist_bsc_leg t d' = Inr d'
     \<and> (\<forall>t'. bt_tx_hash t' = bt_tx_hash t \<and> bt_log_index t' = bt_log_index t \<and> valid_amount (bt_amount t')
          \<and> 0 < bt_bsc_block t' \<and> (bt_bsc_block t', bt_from t', bt_to t', bt_amount t')
              \<noteq> (bt_bsc_block t, bt_from t, bt_to t, bt_amount t)
          \<longrightarrow> persist_bsc_leg t' d' = Inl (Conflict ''conflicting BSC event identity''))"
proof (intro conjI allI impI)
  show again: "persist_bsc_leg t d' = Inr d'"
    by (rule bsc_recorder.record_again [OF assms])
  fix t' :: bep20_transfer
  assume t': "bt_tx_hash t' = bt_tx_hash t \<and> bt_log_index t' = bt_log_index t \<and> valid_amount (bt_amount t')
          \<and> 0 < bt_bsc_block t' \<and> (bt_bsc_block t', bt_from t', bt_to t', bt_amount t')
              \<noteq> (bt_bsc_block t, bt_from t, bt_to t, bt_amount t)"
  have post: "post_row Bsc (bsc_row t) d d'" and valid: "bt_tx_hash t \<noteq> []" "0 \<le> bt_log_index t"
    using assms by (simp_all add: persist_bsc_leg_iff)
  have known: "find_row tr_key (bt_tx_hash t, bt_log_index t) (transfers d' Bsc) = Some (bsc_row t)"
    using post_row_recorded [OF post] by (simp add: tr_key_def bsc_row_def)
  have "validate_amount (bt_amount t') = Inr ()"
    using t' by (simp add: validate_amount_Inr)
  with t' known valid show "persist_bsc_leg t' d' = Inl (Conflict ''conflicting BSC event identity'')"
    by (auto simp: persist_bsc_leg_def insert_nothing_def tr_key_def bsc_row_def Let_def)
qed

theorem persist_bsc_leg_replay_witness:
  "let t = \<lparr>bt_token = [], bt_from = str ''0xa'', bt_to = str ''0xb'', bt_amount = 3, bt_bsc_block = 7,
            bt_tx_hash = str ''0x1'', bt_log_index = 0\<rparr> :: bep20_transfer in
   \<exists>d'. persist_bsc_leg t initial_db = Inr d' \<and> persist_bsc_leg t d' = Inr d'
     \<and> persist_bsc_leg (t\<lparr>bt_amount := 4\<rparr>) d' = Inl (Conflict ''conflicting BSC event identity'')"
proof -
  let ?t = "\<lparr>bt_token = [], bt_from = str ''0xa'', bt_to = str ''0xb'', bt_amount = 3, bt_bsc_block = 7,
            bt_tx_hash = str ''0x1'', bt_log_index = 0\<rparr> :: bep20_transfer"
  have "(case persist_bsc_leg ?t initial_db of Inr _ \<Rightarrow> True | Inl _ \<Rightarrow> False)"
    by code_simp
  then obtain d' where d': "persist_bsc_leg ?t initial_db = Inr d'"
    by (cases "persist_bsc_leg ?t initial_db") auto
  from persist_bsc_leg_replay [OF d', THEN conjunct2, rule_format, of "?t\<lparr>bt_amount := 4\<rparr>"]
    persist_bsc_leg_replay [OF d', THEN conjunct1]
  show ?thesis
    using d' by (simp add: Let_def valid_amount_def uint256_bound_def)
qed

text \<open>
  A published checkpoint never goes back, becomes the cursor, records its hash as the
  canonical one and keeps at most 129 hashes of its chain, none above it and none more than 128
  blocks below; the books and the other chain are untouched.
\<close>

theorem publish_checkpoint_window:
  assumes pub: "publish_checkpoint c height hash tip now d = Inr d'"
    and "unique_by cb_key (canonical_blocks d)" and "blocks_below (canonical_blocks d) c height"
    and "in_i64 height" "0 \<le> height"
  shows "(checkpoints d c \<noteq> None \<longrightarrow> checkpoint_height d c \<le> height) \<and> checkpoint_height d' c = height
     \<and> indexed_height d' c = Inr height \<and> canonical_hash d' c height = Some hash \<and> certified d' c
     \<and> history_ok d' c
     \<and> (\<forall>b\<in>set (canonical_blocks d'). cb_chain b = c \<longrightarrow> height - 128 \<le> cb_height b \<and> cb_height b \<le> height)
     \<and> length (filter (\<lambda>b. cb_chain b = c) (canonical_blocks d')) \<le> 129
     \<and> (\<forall>c' w h. sql_balance_at d' c' w h = sql_balance_at d c' w h)
     \<and> (\<forall>c'. c' \<noteq> c \<longrightarrow> checkpoints d' c' = checkpoints d c')"
proof -
  note window = publish_history [OF assms]
  have "length (filter (\<lambda>b. cb_chain b = c) (canonical_blocks d')) \<le> nat (height - (height - 128) + 1)"
    using window by (intro unique_by_card) (auto simp: history_ok_def)
  moreover have "sql_balance_at d' c' w h = sql_balance_at d c' w h" for c' w h
    by (rule sql_balance_at_frame) (simp_all add: publish_tables [OF pub])
  moreover have "certified d' c"
    using pub by (auto simp: publish_checkpoint_Inr certified_def)
  ultimately show ?thesis
    using window publish_tables [OF pub] publish_indexed_height(2) [OF pub] assms(4,5) by auto
qed

theorem publish_checkpoint_window_witness:
  "\<exists>d'. publish_checkpoint Terra 200 (str ''cc'') 201 5 sample_db = Inr d'
     \<and> canonical_hash d' Terra 200 = Some (str ''cc'')
     \<and> length (filter (\<lambda>b. cb_chain b = Terra) (canonical_blocks d')) \<le> 129"
proof -
  have "(case publish_checkpoint Terra 200 (str ''cc'') 201 5 sample_db of Inr _ \<Rightarrow> True | Inl _ \<Rightarrow> False)"
    by code_simp
  then obtain d' where d': "publish_checkpoint Terra 200 (str ''cc'') 201 5 sample_db = Inr d'"
    by (cases "publish_checkpoint Terra 200 (str ''cc'') 201 5 sample_db") auto
  have "canonical_blocks sample_db = []"
    by (simp add: sample_db_def initial_db_def)
  with publish_checkpoint_window [OF d'] d' show ?thesis
    by (simp add: blocks_below_def in_i64_def i64_max_def i64_min_def)
qed

text \<open>
  A permanent degradation is sticky: whatever the workers report afterwards, on either chain,
  the chain keeps its reason and stays uncertified, and its books and cursor are unchanged.
\<close>

theorem degrade_permanent_sticky:
  assumes "degraded_reason d c = Some p" and "p \<in> set permanent_reasons"
  shows "let d' = fold (\<lambda>(c', reason). degrade c' reason) reports d in
     degraded_reason d' c = Some p \<and> \<not> certified d' c
   \<and> indexed_height d' c = indexed_height d c \<and> (\<forall>B. books_ok d' c B = books_ok d c B)"
proof -
  have "degraded_reason (fold (\<lambda>(c', reason). degrade c' reason) reports d) c = Some p
     \<and> indexed_height (fold (\<lambda>(c', reason). degrade c' reason) reports d) c = indexed_height d c
     \<and> (\<forall>B. books_ok (fold (\<lambda>(c', reason). degrade c' reason) reports d) c B = books_ok d c B)"
    using assms
  proof (induction reports arbitrary: d)
    case (Cons cr reports)
    obtain c' reason where cr: "cr = (c', reason)" by (cases cr)
    have "degraded_reason (degrade c' reason d) c = Some p"
      using Cons.prems by (cases "c' = c") (simp_all add: degraded_reason_degrade degraded_reason_degrade_other)
    from Cons.IH [OF this Cons.prems(2)] show ?case by (simp add: cr)
  qed simp
  then show ?thesis
    by (auto simp: Let_def certified_def degraded_reason_def bind_eq_Some_conv)
qed

theorem degrade_permanent_sticky_witness:
  "let d = degrade Terra (str ''fork_beyond_horizon'') sample_db;
       d' = fold (\<lambda>(c', reason). degrade c' reason) [(Terra, str ''worker_deadline''), (Bsc, [])] d in
   degraded_reason d' Terra = Some (str ''fork_beyond_horizon'') \<and> \<not> certified d' Terra"
proof -
  have "degraded_reason (degrade Terra (str ''fork_beyond_horizon'') sample_db) Terra
      = Some (str ''fork_beyond_horizon'')"
    by (simp add: degraded_reason_degrade) (simp add: degraded_reason_def sample_db_def)
  from degrade_permanent_sticky [OF this, of "[(Terra, str ''worker_deadline''), (Bsc, [])]"]
  show ?thesis by (simp add: Let_def permanent_reasons_def)
qed

text \<open>
  Rewinding a chain to height \<open>a\<close> restores its past: every wallet registered by then has at
  every height the balance it had at \<open>min h a\<close> before, the cursor is \<open>a\<close>, the books are
  consistent again and the other chain is untouched.
\<close>

theorem rewind_restores:
  assumes "chain_ok d c" and "r \<in> set (registrations d)" "vr_chain r = c" "tracked (vr_wallet r)"
    and "vr_registered_at r \<le> a" and "0 \<le> a" "in_i64 a"
  shows "sql_balance_at (rewind c a now d) c (vr_wallet r) h = sql_balance_at d c (vr_wallet r) (min h a)
     \<and> indexed_height (rewind c a now d) c = Inr a \<and> chain_ok (rewind c a now d) c
     \<and> (\<forall>c' w h. c' \<noteq> c \<longrightarrow> sql_balance_at (rewind c a now d) c' w h = sql_balance_at d c' w h)"
proof (intro conjI allI impI)
  have regs: "registrations (rewind c a now d) = registrations d"
    and bals: "balances (rewind c a now d) = balances (cut_books c a d)"
    by (simp_all add: rewind_cut set_state_def cut_books_def)
  have uniq: "unique_by reg_key (registrations d)"
    using assms(1) by (simp add: chain_ok_def books_ok_def)
  have stored: "stored_balance (rewind c a now d) c r h = stored_balance d c r (min h a)"
    using stored_balance_cut [of c a d r h] by (simp add: stored_balance_def bals)
  show "sql_balance_at (rewind c a now d) c (vr_wallet r) h = sql_balance_at d c (vr_wallet r) (min h a)"
    using sql_balance_at_reg [OF uniq assms(2-4)] assms(5)
      sql_balance_at_reg [of "rewind c a now d" r c] uniq assms(2-4)
    by (auto simp: regs stored min_def)
  show "indexed_height (rewind c a now d) c = Inr a"
    using assms(6,7) by (simp add: indexed_height_def rewind_cut get_state_set_state parse_cursor_Inr parse_i64_int_str)
  show "chain_ok (rewind c a now d) c"
    by (rule chain_ok_rewind [OF assms(1)])
  fix c' w h
  assume "c' \<noteq> c"
  then show "sql_balance_at (rewind c a now d) c' w h = sql_balance_at d c' w h"
    by (intro sql_balance_at_frame) (simp_all add: regs bals cut_books_def)
qed

theorem rewind_restores_witness:
  "sql_balance_at (rewind Terra 10 0 sample_db) Terra (str ''terra1alice'') 40
     = sql_balance_at sample_db Terra (str ''terra1alice'') 10"
proof -
  have "vr_wallet sample_reg = str ''terra1alice''"
    by (simp add: sample_reg_def)
  with rewind_restores [OF sample_chain_ok sample_facts(1,2) sample_tracked, of 10 0 40]
  show ?thesis by (simp add: sample_facts in_i64_def i64_max_def i64_min_def)
qed

end
