(* ===== verification/Effects.thy ===== *)
theory Effects
  imports Checkpoints
begin

text \<open>
  The effects of the ledger's asynchronous functions: a connection pool with the committed
  database and the database as an open transaction sees it, and an outside world that network
  calls read and advance. An action returns an error or a value together with the new state.
  A function that returns early with an error drops its transaction, so only \<open>committed\<close>
  matters afterwards; statements executed on the pool itself (\<open>on_pool\<close>) change \<open>committed\<close>
  at once and survive the rollback of an enclosing transaction.

  \<open>holds P m Q R\<close> is the triple used for invariants: from \<open>P\<close>, a successful run ends in
  \<open>Q\<close> with its value and a failed run in \<open>R\<close>.
\<close>

named_theorems wp \<open>rules for the triples of actions\<close>

record 'w pool =
  committed :: db
  tx :: db
  tx_now :: int
  world :: 'w

type_synonym ('w, 'e, 'a) eff = "'w pool \<Rightarrow> ('e + 'a) \<times> 'w pool"
type_synonym ('w, 'a) act = "('w, ledger_error, 'a) eff"

definition ret :: "'a \<Rightarrow> ('w, 'e, 'a) eff" where
  "ret x s = (Inr x, s)"

definition fail :: "'e \<Rightarrow> ('w, 'e, 'a) eff" where
  "fail e s = (Inl e, s)"

definition bindA :: "('w, 'e, 'a) eff \<Rightarrow> ('a \<Rightarrow> ('w, 'e, 'b) eff) \<Rightarrow> ('w, 'e, 'b) eff" where
  "bindA m f s = (case m s of (Inl e, s') \<Rightarrow> (Inl e, s') | (Inr x, s') \<Rightarrow> f x s')"

definition thenA :: "('w, 'e, 'a) eff \<Rightarrow> ('w, 'e, 'b) eff \<Rightarrow> ('w, 'e, 'b) eff" where
  "thenA m n = bindA m (\<lambda>_. n)"

definition lift :: "'e + 'a \<Rightarrow> ('w, 'e, 'a) eff" where
  "lift r s = (r, s)"

definition begin_tx :: "('w \<Rightarrow> int) \<Rightarrow> ('w, 'e, unit) eff" where
  "begin_tx clock s = (Inr (), s\<lparr>tx := committed s, tx_now := clock (world s)\<rparr>)"

definition commit_tx :: "('w, 'e, unit) eff" where
  "commit_tx s = (Inr (), s\<lparr>committed := tx s\<rparr>)"

definition read_tx :: "(db \<Rightarrow> 'a) \<Rightarrow> ('w, 'e, 'a) eff" where
  "read_tx q s = (Inr (q (tx s)), s)"

definition in_tx :: "(int \<Rightarrow> db \<Rightarrow> 'e + db) \<Rightarrow> ('w, 'e, unit) eff" where
  "in_tx f s = (case f (tx_now s) (tx s) of Inl e \<Rightarrow> (Inl e, s) | Inr d \<Rightarrow> (Inr (), s\<lparr>tx := d\<rparr>))"

definition in_txv :: "(int \<Rightarrow> db \<Rightarrow> 'e + (db \<times> 'a)) \<Rightarrow> ('w, 'e, 'a) eff" where
  "in_txv f s = (case f (tx_now s) (tx s) of Inl e \<Rightarrow> (Inl e, s) | Inr (d, x) \<Rightarrow> (Inr x, s\<lparr>tx := d\<rparr>))"

definition read_pool :: "(db \<Rightarrow> 'a) \<Rightarrow> ('w, 'e, 'a) eff" where
  "read_pool q s = (Inr (q (committed s)), s)"

definition on_pool :: "('w \<Rightarrow> int) \<Rightarrow> (int \<Rightarrow> db \<Rightarrow> db) \<Rightarrow> ('w, 'e, unit) eff" where
  "on_pool clock f s = (Inr (), s\<lparr>committed := f (clock (world s)) (committed s)\<rparr>)"

definition on_poolv :: "('w \<Rightarrow> int) \<Rightarrow> (int \<Rightarrow> db \<Rightarrow> db \<times> 'a) \<Rightarrow> ('w, 'e, 'a) eff" where
  "on_poolv clock f s = (case f (clock (world s)) (committed s) of (d, x) \<Rightarrow> (Inr x, s\<lparr>committed := d\<rparr>))"

definition call :: "('w \<Rightarrow> ('e + 'a) \<times> 'w) \<Rightarrow> ('w, 'e, 'a) eff" where
  "call f s = (case f (world s) of (r, w) \<Rightarrow> (r, s\<lparr>world := w\<rparr>))"

fun forA :: "('x \<Rightarrow> ('w, 'e, unit) eff) \<Rightarrow> 'x list \<Rightarrow> ('w, 'e, unit) eff" where
  "forA f [] = ret ()"
| "forA f (x # xs) = thenA (f x) (forA f xs)"

text \<open>\<open>tryA m h\<close> runs the handler \<open>h\<close> on the error of \<open>m\<close>, in the state the error left.\<close>

definition tryA :: "('w, 'e, 'a) eff \<Rightarrow> ('e \<Rightarrow> ('w, 'e, 'a) eff) \<Rightarrow> ('w, 'e, 'a) eff" where
  "tryA m h s = (case m s of (Inl e, s') \<Rightarrow> h e s' | (Inr x, s') \<Rightarrow> (Inr x, s'))"

text \<open>Inversion of a successful run.\<close>

named_theorems run_iff \<open>inversion of a successful run of an action\<close>

lemma bindA_run [run_iff]:
  "bindA m f s = (Inr y, s') \<longleftrightarrow> (\<exists>x s1. m s = (Inr x, s1) \<and> f x s1 = (Inr y, s'))"
  by (auto simp: bindA_def split: prod.splits sum.splits)

lemma thenA_run [run_iff]: "thenA m n s = (Inr y, s') \<longleftrightarrow> (\<exists>x s1. m s = (Inr x, s1) \<and> n s1 = (Inr y, s'))"
  by (simp add: thenA_def bindA_run)

lemma ret_run [run_iff]: "ret x s = (Inr y, s') \<longleftrightarrow> y = x \<and> s' = s"
  by (auto simp: ret_def)

lemma fail_run [run_iff]: "\<not> fail e s = (Inr y, s')"
  by (simp add: fail_def)

lemma lift_run [run_iff]: "lift r s = (Inr y, s') \<longleftrightarrow> r = Inr y \<and> s' = s"
  by (auto simp: lift_def)

lemma begin_tx_run [run_iff]:
  "begin_tx clock s = (Inr y, s') \<longleftrightarrow> s' = s\<lparr>tx := committed s, tx_now := clock (world s)\<rparr>"
  by (auto simp: begin_tx_def)

lemma commit_tx_run [run_iff]: "commit_tx s = (Inr y, s') \<longleftrightarrow> s' = s\<lparr>committed := tx s\<rparr>"
  by (auto simp: commit_tx_def)

lemma read_tx_run [run_iff]: "read_tx q s = (Inr y, s') \<longleftrightarrow> y = q (tx s) \<and> s' = s"
  by (auto simp: read_tx_def)

lemma in_tx_run [run_iff]: "in_tx f s = (Inr y, s') \<longleftrightarrow> (\<exists>d. f (tx_now s) (tx s) = Inr d \<and> s' = s\<lparr>tx := d\<rparr>)"
  by (auto simp: in_tx_def split: sum.split)

lemma in_txv_run [run_iff]: "in_txv f s = (Inr y, s') \<longleftrightarrow> (\<exists>d. f (tx_now s) (tx s) = Inr (d, y) \<and> s' = s\<lparr>tx := d\<rparr>)"
  by (auto simp: in_txv_def split: sum.split)

section \<open>Triples\<close>

definition holds ::
    "('w pool \<Rightarrow> bool) \<Rightarrow> ('w, 'e, 'a) eff \<Rightarrow> ('a \<Rightarrow> 'w pool \<Rightarrow> bool) \<Rightarrow> ('w pool \<Rightarrow> bool) \<Rightarrow> bool" where
  "holds P m Q R \<longleftrightarrow> (\<forall>s. P s \<longrightarrow> (case m s of (Inr x, s') \<Rightarrow> Q x s' | (Inl e, s') \<Rightarrow> R s'))"

lemma holdsI: "(\<And>s. P s \<Longrightarrow> case m s of (Inr x, s') \<Rightarrow> Q x s' | (Inl e, s') \<Rightarrow> R s') \<Longrightarrow> holds P m Q R"
  by (simp add: holds_def)

lemma holdsD: "holds P m Q R \<Longrightarrow> P s \<Longrightarrow> m s = (Inr x, s') \<Longrightarrow> Q x s'"
  by (force simp: holds_def)

lemma holds_errorD: "holds P m Q R \<Longrightarrow> P s \<Longrightarrow> m s = (Inl e, s') \<Longrightarrow> R s'"
  by (force simp: holds_def)

lemma holds_weaken:
  "holds P m Q R \<Longrightarrow> (\<And>s. P' s \<Longrightarrow> P s) \<Longrightarrow> (\<And>x s. Q x s \<Longrightarrow> Q' x s) \<Longrightarrow> (\<And>s. R s \<Longrightarrow> R' s)
    \<Longrightarrow> holds P' m Q' R'"
  by (fastforce simp: holds_def split: prod.splits sum.splits)

lemma holds_bindA [wp]:
  "holds P m Q R \<Longrightarrow> (\<And>x. holds (Q x) (f x) Q' R) \<Longrightarrow> holds P (bindA m f) Q' R"
  by (fastforce simp: holds_def bindA_def split: prod.splits sum.splits)

lemma holds_thenA [wp]:
  "holds P m (\<lambda>_. Q) R \<Longrightarrow> holds Q n Q' R \<Longrightarrow> holds P (thenA m n) Q' R"
  unfolding thenA_def by (rule holds_bindA)

lemma holds_tryA:
  "holds P m Q R \<Longrightarrow> (\<And>e. holds R (h e) Q R') \<Longrightarrow> (\<And>s. R s \<Longrightarrow> R' s) \<Longrightarrow> holds P (tryA m h) Q R'"
  by (fastforce simp: holds_def tryA_def split: prod.splits sum.splits)

lemma holds_ret: "(\<And>s. P s \<Longrightarrow> Q x s) \<Longrightarrow> holds P (ret x) Q R"
  by (simp add: holds_def ret_def)

lemma holds_fail: "(\<And>s. P s \<Longrightarrow> R s) \<Longrightarrow> holds P (fail e) Q R"
  by (simp add: holds_def fail_def)

lemma holds_lift: "(\<And>x s. r = Inr x \<Longrightarrow> P s \<Longrightarrow> Q x s) \<Longrightarrow> (\<And>s. P s \<Longrightarrow> R s) \<Longrightarrow> holds P (lift r) Q R"
  by (auto simp: holds_def lift_def split: sum.split)

lemma holds_if: "(b \<Longrightarrow> holds P m Q R) \<Longrightarrow> (\<not> b \<Longrightarrow> holds P n Q R) \<Longrightarrow> holds P (if b then m else n) Q R"
  by simp

lemma holds_begin: "(\<And>s. P s \<Longrightarrow> Q () (s\<lparr>tx := committed s, tx_now := clock (world s)\<rparr>))
    \<Longrightarrow> holds P (begin_tx clock) Q R"
  by (simp add: holds_def begin_tx_def)

lemma holds_commit: "(\<And>s. P s \<Longrightarrow> Q () (s\<lparr>committed := tx s\<rparr>)) \<Longrightarrow> holds P commit_tx Q R"
  by (simp add: holds_def commit_tx_def)

lemma holds_read_tx: "(\<And>s. P s \<Longrightarrow> Q (q (tx s)) s) \<Longrightarrow> holds P (read_tx q) Q R"
  by (simp add: holds_def read_tx_def)

lemma holds_read_pool: "(\<And>s. P s \<Longrightarrow> Q (q (committed s)) s) \<Longrightarrow> holds P (read_pool q) Q R"
  by (simp add: holds_def read_pool_def)

lemma holds_in_tx:
  "(\<And>s d. P s \<Longrightarrow> f (tx_now s) (tx s) = Inr d \<Longrightarrow> Q () (s\<lparr>tx := d\<rparr>)) \<Longrightarrow> (\<And>s. P s \<Longrightarrow> R s)
    \<Longrightarrow> holds P (in_tx f) Q R"
  by (auto simp: holds_def in_tx_def split: sum.split)

lemma holds_in_txv:
  "(\<And>s d x. P s \<Longrightarrow> f (tx_now s) (tx s) = Inr (d, x) \<Longrightarrow> Q x (s\<lparr>tx := d\<rparr>)) \<Longrightarrow> (\<And>s. P s \<Longrightarrow> R s)
    \<Longrightarrow> holds P (in_txv f) Q R"
  by (auto simp: holds_def in_txv_def split: sum.split prod.split)

lemma holds_on_pool:
  "(\<And>s. P s \<Longrightarrow> Q () (s\<lparr>committed := f (clock (world s)) (committed s)\<rparr>)) \<Longrightarrow> holds P (on_pool clock f) Q R"
  by (simp add: holds_def on_pool_def)

lemma holds_on_poolv:
  "(\<And>s d x. P s \<Longrightarrow> f (clock (world s)) (committed s) = (d, x) \<Longrightarrow> Q x (s\<lparr>committed := d\<rparr>))
    \<Longrightarrow> holds P (on_poolv clock f) Q R"
  by (auto simp: holds_def on_poolv_def split: prod.split)

text \<open>A network call changes nothing but the world.\<close>

lemma holds_call: "(\<And>s x w. P s \<Longrightarrow> Q x (s\<lparr>world := w\<rparr>)) \<Longrightarrow> (\<And>s w. P s \<Longrightarrow> R (s\<lparr>world := w\<rparr>))
    \<Longrightarrow> holds P (call f) Q R"
  by (auto simp: holds_def call_def split: prod.split sum.split)

lemma holds_forA: "(\<And>x. x \<in> set xs \<Longrightarrow> holds P (f x) (\<lambda>_. P) R) \<Longrightarrow> holds P (forA f xs) (\<lambda>_. P) R"
  by (induction xs) (auto intro: holds_ret holds_thenA)

text \<open>Assertions on the two databases only, which network calls keep.\<close>

definition dbs :: "(db \<Rightarrow> db \<Rightarrow> bool) \<Rightarrow> 'w pool \<Rightarrow> bool" where
  "dbs P s \<longleftrightarrow> P (committed s) (tx s)"

lemma dbs_call [wp]: "holds (dbs P) (call f) (\<lambda>_. dbs P) (dbs P)"
  by (rule holds_call) (simp_all add: dbs_def)

lemmas holds_basic = holds_ret holds_fail holds_lift holds_if holds_begin holds_commit holds_read_tx
  holds_read_pool holds_in_tx holds_in_txv holds_on_pool holds_call

section \<open>A stage of a transaction\<close>

text \<open>
  Between its begin and its publication a transaction keeps one relation between the committed and
  the working database, and that relation is enough for the error exit. The rules of such a stage
  are the same whatever the relation says.
\<close>

lemma same_then: "holds P m (\<lambda>_. P) R \<Longrightarrow> holds P n Q R \<Longrightarrow> holds P (thenA m n) Q R"
  by (rule holds_thenA)

lemma same_bind: "holds P m (\<lambda>_. P) R \<Longrightarrow> (\<And>x. holds P (f x) Q R) \<Longrightarrow> holds P (bindA m f) Q R"
  by (rule holds_bindA)

locale tx_stage =
  fixes stage :: "db \<Rightarrow> db \<Rightarrow> bool"
    and exit_ok :: "db \<Rightarrow> bool"
  assumes stage_exit: "stage cm t \<Longrightarrow> exit_ok cm"
begin

lemma stage_call: "holds (dbs stage) (call f) (\<lambda>_. dbs stage) (dbs (\<lambda>cm _. exit_ok cm))"
  by (rule holds_call) (auto simp: dbs_def intro: stage_exit)

lemma stage_read: "holds (dbs stage) (read_tx q) (\<lambda>_. dbs stage) R"
  by (rule holds_read_tx)

lemma stage_lift: "holds (dbs stage) (lift r) (\<lambda>_. dbs stage) (dbs (\<lambda>cm _. exit_ok cm))"
  by (rule holds_lift) (auto simp: dbs_def intro: stage_exit)

lemma stage_ret: "holds (dbs stage) (ret x) (\<lambda>_. dbs stage) R"
  by (rule holds_ret)

lemma stage_fail: "holds (dbs stage) (fail e) Q (dbs (\<lambda>cm _. exit_ok cm))"
  by (rule holds_fail) (auto simp: dbs_def intro: stage_exit)

lemma stage_in_tx:
  "(\<And>now cm t t'. stage cm t \<Longrightarrow> f now t = Inr t' \<Longrightarrow> stage cm t')
    \<Longrightarrow> holds (dbs stage) (in_tx f) (\<lambda>_. dbs stage) (dbs (\<lambda>cm _. exit_ok cm))"
  by (rule holds_in_tx) (auto simp: dbs_def intro: stage_exit)

lemma stage_in_txv:
  "(\<And>now cm t t' x. stage cm t \<Longrightarrow> f now t = Inr (t', x) \<Longrightarrow> stage cm t')
    \<Longrightarrow> holds (dbs stage) (in_txv f) (\<lambda>_. dbs stage) (dbs (\<lambda>cm _. exit_ok cm))"
  by (rule holds_in_txv) (auto simp: dbs_def intro: stage_exit)

lemma stage_report:
  assumes "\<And>now cm t. stage cm t \<Longrightarrow> exit_ok (f now cm)"
  shows "holds (dbs stage) (thenA (on_pool k f) (fail e)) Q (dbs (\<lambda>cm _. exit_ok cm))"
proof (rule holds_thenA)
  show "holds (dbs stage) (on_pool k f) (\<lambda>_. dbs (\<lambda>cm _. exit_ok cm)) (dbs (\<lambda>cm _. exit_ok cm))"
    by (rule holds_on_pool) (use assms in \<open>auto simp: dbs_def\<close>)
  show "holds (dbs (\<lambda>cm _. exit_ok cm)) (fail e) Q (dbs (\<lambda>cm _. exit_ok cm))"
    by (rule holds_fail)
qed

lemmas stage_rules = same_then same_bind stage_call stage_read stage_lift stage_ret stage_fail holds_if

end

end
