(* ===== verification/VotingApi.thy ===== *)
theory VotingApi
  imports VotingDb VotingConfig Effects
begin

text \<open>
  The actions of the voting API (\<open>operator-voting/src/api.rs\<close>): how a signed request is
  authenticated and replayed, and the handlers that change state. Each handler is one transaction
  over the database; reading the wall clock and drawing a UUID are operations of the outside world
  that may return anything. The advisory and row locks of the code are why a handler is one step.
\<close>

section \<open>Environment and requests\<close>

record ('k, 's, 'w) voting_env =
  texts :: text_lib
  crypto :: "('k, 's) crypto_lib"
  json_parse :: "ustring \<Rightarrow> json option"
  jsonb_parse :: "ustring \<Rightarrow> json option"
  uuid_text :: "uuid \<Rightarrow> ustring"
  read_clock :: "'w \<Rightarrow> int \<times> 'w"
  fresh_uuid :: "'w \<Rightarrow> uuid \<times> 'w"

type_synonym ('w, 'a) vact = "('w, voting_error, 'a) eff"

definition ask_clock :: "('k, 's, 'w) voting_env \<Rightarrow> ('w, int) vact" where
  "ask_clock env s = (case read_clock env (world s) of (t, w) \<Rightarrow> (Inr t, s\<lparr>world := w\<rparr>))"

definition draw_uuid :: "('k, 's, 'w) voting_env \<Rightarrow> ('w, uuid) vact" where
  "draw_uuid env s = (case fresh_uuid env (world s) of (u, w) \<Rightarrow> (Inr u, s\<lparr>world := w\<rparr>))"

lemma ask_clock_run [run_iff]: "ask_clock env s = (Inr t, s') \<longleftrightarrow> (\<exists>w. read_clock env (world s) = (t, w) \<and> s' = s\<lparr>world := w\<rparr>)"
  by (auto simp: ask_clock_def split: prod.split)

lemma draw_uuid_run [run_iff]: "draw_uuid env s = (Inr u, s') \<longleftrightarrow> (\<exists>w. fresh_uuid env (world s) = (u, w) \<and> s' = s\<lparr>world := w\<rparr>)"
  by (auto simp: draw_uuid_def split: prod.split)

text \<open>\<open>timestamp()\<close>: whole seconds.\<close>

definition unix_time :: "int \<Rightarrow> int" where
  "unix_time us = us div 1000000"

record signed_request =
  sq_chain :: ustring
  sq_address :: ustring
  sq_payload :: ustring
  sq_signature :: ustring
  sq_pubkey :: "ustring option"

record create_draft_request =
  dq_signed :: signed_request
  dq_title :: ustring
  dq_sections :: "json option"
  dq_body_html :: "ustring option"

record amend_request =
  mq_signed :: signed_request
  mq_title :: ustring
  mq_sections :: json

record comment_request =
  cq_signed :: signed_request
  cq_body_html :: ustring

record analysis_request =
  aq_signed :: signed_request
  aq_sections :: analysis_sections

record open_request =
  oq_signed :: signed_request
  oq_terra_height :: "int option"
  oq_bsc_block :: "int option"

record cast_vote_request =
  vq_signed :: signed_request
  vq_choice :: ustring

section \<open>Authentication\<close>

definition verify_signed :: "('k, 's, 'w) voting_env \<Rightarrow> signed_request \<Rightarrow> ustring \<Rightarrow> unit voting_result" where
  "verify_signed env req message =
     (if sq_chain req = str ''terra''
      then bindR (ok_or (VBadRequest ''terra pubkey required'') (sq_pubkey req)) (\<lambda>pubkey.
           verify_terra (crypto env) (normalize_address (sq_address req)) message (sq_signature req) pubkey)
      else if sq_chain req = str ''bsc''
      then verify_eip191 (crypto env) (normalize_address (sq_address req)) message (sq_signature req)
      else Inl (VBadRequest ''unsupported chain; use terra or bsc''))"

definition deny_cross_scheme :: "ustring \<Rightarrow> ustring \<Rightarrow> unit voting_result" where
  "deny_cross_scheme chain payload_chain =
     (if chain \<noteq> payload_chain then Inl (VUnauthorized ''rejecting cross-scheme signature (ADR-36 vs EIP-191)'') else Inr ())"

definition deny_blacklisted :: "'n voting_config \<Rightarrow> ustring \<Rightarrow> unit voting_result" where
  "deny_blacklisted cfg address =
     (if list_contains (vc_blacklist cfg) address then Inl (VForbidden ''address is blacklisted'') else Inr ())"

definition require_committee :: "'n voting_config \<Rightarrow> ustring \<Rightarrow> unit voting_result" where
  "require_committee cfg address =
     (if \<not> list_contains (vc_committee cfg) address
      then Inl (VForbidden ''only VOTING_COMMITTEE_ADDRESSES may perform this action'') else Inr ())"

text \<open>The chain column of a payload whose chain text has been checked.\<close>

definition chain_arg :: "ustring \<Rightarrow> chain" where
  "chain_arg s = (if s = str ''bsc'' then Bsc else Terra)"

definition bounded_nonce :: "signed_payload \<Rightarrow> ustring voting_result" where
  "bounded_nonce payload =
     ok_or (VBadRequest ''bounded unique nonce required'')
       (case sp_nonce payload of None \<Rightarrow> None | Some n \<Rightarrow> if n \<noteq> [] \<and> str_len n \<le> 128 then Some n else None)"

text \<open>Everything that is checked before the database is asked.\<close>

definition check_request ::
    "('k, 's, 'w) voting_env \<Rightarrow> 'n voting_config \<Rightarrow> signed_request \<Rightarrow> string \<Rightarrow> uuid option
      \<Rightarrow> (signed_payload \<times> ustring) voting_result" where
  "check_request env cfg req purpose proposal_id =
     bindR (parse_domain (json_parse env) (sq_payload req) (str purpose) (sq_address req)
              (vc_terra_chain_id cfg) (vc_evm_chain_id cfg)) (\<lambda>payload.
     bindR (case proposal_id of None \<Rightarrow> Inr ()
            | Some target \<Rightarrow> if sp_proposal_id payload \<noteq> Some (uuid_text env target)
                            then Inl (VUnauthorized ''signed action targets a different proposal'') else Inr ()) (\<lambda>_.
     bindR (deny_cross_scheme (sq_chain req) (sp_chain payload)) (\<lambda>_.
     bindR (verify_signed env req (sq_payload req)) (\<lambda>_.
     bindR (deny_blacklisted cfg (sq_address req)) (\<lambda>_.
     bindR (if purpose = ''analyze'' \<or> purpose = ''open_vote'' then require_committee cfg (sq_address req) else Inr ()) (\<lambda>_.
     if sp_version payload \<noteq> 2 then Inl (VBadRequest ''payload version 2 required; reload and re-sign'')
     else bindR (bounded_nonce payload) (\<lambda>nonce. Inr (payload, nonce))))))))"

section \<open>Begin and finish\<close>

text \<open>The signature with this nonce that has a receipt: its id, payload hash and response.\<close>

definition prior_action :: "chain \<Rightarrow> ustring \<Rightarrow> ustring \<Rightarrow> db \<Rightarrow> (uuid \<times> ustring \<times> json) option" where
  "prior_action c wallet nonce d =
     (case List.find (\<lambda>s. sg_chain s = c \<and> sg_wallet s = wallet \<and> sg_nonce s = Some nonce
                       \<and> find_row rc_signature (sg_id s) (receipts d) \<noteq> None) (signatures d) of
        None \<Rightarrow> None
      | Some s \<Rightarrow> map_option (\<lambda>r. (sg_id s, sg_payload_hash s, rc_response r)) (find_row rc_signature (sg_id s) (receipts d)))"

definition action_signature ::
    "signed_request \<Rightarrow> string \<Rightarrow> uuid option \<Rightarrow> signed_payload \<Rightarrow> ustring \<Rightarrow> ustring \<Rightarrow> uuid \<Rightarrow> int \<Rightarrow> signature_row" where
  "action_signature req purpose proposal_id payload nonce hash sid now =
     \<lparr>sg_id = sid, sg_chain = chain_arg (sq_chain req), sg_wallet = normalize_address (sq_address req),
      sg_pubkey = sq_pubkey req, sg_signature = sq_signature req, sg_payload_hash = hash, sg_purpose = str purpose,
      sg_created_at = now, sg_signed_payload = Some (sq_payload req),
      sg_scheme = Some (if sq_chain req = str ''terra'' then str ''ADR-36'' else str ''EIP-191''),
      sg_domain = Some (sp_app payload @ [58] @ sp_chain_id payload), sg_nonce = Some nonce,
      sg_proposal = proposal_id, sg_revision = sp_revision payload\<rparr>"

text \<open>The part of \<open>begin_action\<close> after a lookup that found no earlier receipt.\<close>

definition accept_action ::
    "('k, 's, 'w) voting_env \<Rightarrow> 'n voting_config \<Rightarrow> signed_request \<Rightarrow> string \<Rightarrow> uuid option \<Rightarrow> signed_payload \<Rightarrow> ustring
      \<Rightarrow> ('w, uuid) vact" where
  "accept_action env cfg req purpose proposal_id payload nonce =
     thenA (bindA (read_tx (\<lambda>d. case proposal_id of None \<Rightarrow> Inr ()
              | Some pid \<Rightarrow> bindR (ok_or (VNotFound ''proposal'') (vget_proposal d pid)) (\<lambda>_. Inr ()))) lift)
    (bindA (ask_clock env) (\<lambda>t1.
     thenA (lift (validate_time payload (unix_time t1)))
    (bindA (ask_clock env) (\<lambda>t2.
     thenA (bindA (read_tx (\<lambda>d. enforce_verified_action_quota d (chain_arg (sp_chain payload)) (sq_address req)
              (str purpose) (vc_post_per_minute cfg) t2)) lift)
    (bindA (ask_clock env) (\<lambda>t3.
     thenA (lift (validate_time payload (unix_time t3)))
    (bindA (draw_uuid env) (\<lambda>sid.
     thenA (in_tx (\<lambda>now. insert_signature_row
              (action_signature req purpose proposal_id payload nonce (body_hash (texts env) (sq_payload req)) sid now)))
       (ret sid)))))))))"

definition begin_action ::
    "('k, 's, 'w) voting_env \<Rightarrow> 'n voting_config \<Rightarrow> signed_request \<Rightarrow> string \<Rightarrow> uuid option
      \<Rightarrow> ('w, uuid \<times> json option \<times> signed_payload) vact" where
  "begin_action env cfg req purpose proposal_id =
     bindA (lift (check_request env cfg req purpose proposal_id)) (\<lambda>(payload, nonce).
     thenA (begin_tx (\<lambda>w. fst (read_clock env w)))
    (bindA (read_tx (prior_action (chain_arg (sq_chain req)) (normalize_address (sq_address req)) nonce)) (\<lambda>prior.
     case prior of
       Some (sid, old_hash, response) \<Rightarrow>
         if old_hash \<noteq> body_hash (texts env) (sq_payload req)
         then fail (VConflict ''nonce already consumed by different signed bytes'')
         else ret (sid, Some response, payload)
     | None \<Rightarrow>
         bindA (accept_action env cfg req purpose proposal_id payload nonce) (\<lambda>sid. ret (sid, None, payload)))))"

definition jset :: "(ustring \<times> json) list \<Rightarrow> string \<Rightarrow> json \<Rightarrow> (ustring \<times> json) list" where
  "jset kvs key v = filter (\<lambda>kv. fst kv \<noteq> str key) kvs @ [(str key, v)]"

definition uuid_json :: "('k, 's, 'w) voting_env \<Rightarrow> uuid \<Rightarrow> json" where
  "uuid_json env u = JStr (uuid_text env u)"

text \<open>The stored payload of the action, read again.\<close>

definition stored_payload :: "('k, 's, 'w) voting_env \<Rightarrow> uuid \<Rightarrow> db \<Rightarrow> signed_payload voting_result" where
  "stored_payload env sid d =
     (case find_row sg_id sid (signatures d) of
        None \<Rightarrow> Inl (VDatabase SqlxRowNotFound)
      | Some s \<Rightarrow>
          (case sg_signed_payload s of
             None \<Rightarrow> Inl (VDatabase (SqlxColumnDecode []))
           | Some raw \<Rightarrow> ok_or (VUnauthorized ''stored action payload invalid'') (Option.bind (json_parse env raw) payload_of_json)))"

definition finish_action ::
    "('k, 's, 'w) voting_env \<Rightarrow> uuid \<Rightarrow> uuid option \<Rightarrow> (ustring \<times> json) list \<Rightarrow> ('w, json) vact" where
  "finish_action env sid proposal_id response =
     bindA (ask_clock env) (\<lambda>accepted_at.
     bindA (bindA (read_tx (stored_payload env sid)) lift) (\<lambda>payload.
     thenA (lift (validate_time payload (unix_time accepted_at)))
    (bindA (read_tx (\<lambda>d. Option.bind proposal_id (\<lambda>pid. map_option pr_revision (vget_proposal d pid)))) (\<lambda>revision.
     let content = map_of response (str ''receipt_content'');
         answer = JObj (jset (filter (\<lambda>kv. fst kv \<noteq> str ''receipt_content'') response) ''receipt_id'' (uuid_json env sid)) in
     thenA (in_tx (\<lambda>_. insert_receipt_row \<lparr>rc_signature = sid, rc_proposal = proposal_id, rc_revision = revision,
              rc_response = answer, rc_content = content, rc_accepted_at = accepted_at\<rparr>))
    (thenA commit_tx (ret answer))))))"

text \<open>A handler either repeats the stored answer of a replayed request or runs its body.\<close>

definition once :: "('w, uuid \<times> json option \<times> signed_payload) vact \<Rightarrow> (uuid \<Rightarrow> signed_payload \<Rightarrow> ('w, json) vact) \<Rightarrow> ('w, json) vact" where
  "once begin_it body =
     bindA begin_it (\<lambda>(sid, prior, payload). case prior of Some response \<Rightarrow> ret response | None \<Rightarrow> body sid payload)"

definition require_revision :: "signed_payload \<Rightarrow> proposal_row \<Rightarrow> unit voting_result" where
  "require_revision payload proposal =
     (if sp_revision payload \<noteq> Some (pr_revision proposal)
      then Inl (VConflict ''stale or missing revision; reload and re-sign'') else Inr ())"

definition require_text :: "ustring option \<Rightarrow> ustring \<Rightarrow> voting_error \<Rightarrow> unit voting_result" where
  "require_text signed actual e = (if signed \<noteq> Some actual then Inl e else Inr ())"

definition fetch_proposal :: "uuid \<Rightarrow> ('w, proposal_row) vact" where
  "fetch_proposal pid = bindA (read_tx (\<lambda>d. ok_or (VNotFound ''proposal'') (vget_proposal d pid))) lift"

definition require_registration :: "chain \<Rightarrow> ustring \<Rightarrow> string \<Rightarrow> ('w, registration) vact" where
  "require_registration c wallet message =
     bindA (read_tx (\<lambda>d. ok_or (VForbidden message) (ledger_registration d c wallet))) lift"

section \<open>Registering\<close>

definition registration_json :: "registration \<Rightarrow> json" where
  "registration_json r = JObj [(str ''chain'', JStr (chain_str (vr_chain r))), (str ''address'', JStr (vr_wallet r)),
     (str ''registered_at_height'', JNum (vr_registered_at r)), (str ''status'', JStr (vr_status r))]"

definition register_body :: "('k, 's, 'w) voting_env \<Rightarrow> 'n voting_config \<Rightarrow> signed_request \<Rightarrow> uuid \<Rightarrow> signed_payload \<Rightarrow> ('w, json) vact" where
  "register_body env cfg req sid payload =
     (let c = chain_arg (sp_chain payload) in
      thenA (lift (deny_cross_scheme (sq_chain req) (sp_chain payload)))
     (thenA (lift (deny_blacklisted cfg (sq_address req)))
     (bindA (draw_uuid env) (\<lambda>row_id.
      thenA (in_tx (insert_registration_intent row_id c (sq_address req) sid))
     (bindA (read_tx (\<lambda>d. ledger_registration d c (sq_address req))) (\<lambda>existing.
      finish_action env sid None
        [(str ''ok'', JBool True), (str ''signature_id'', uuid_json env sid), (str ''pending'', JBool (existing = None)),
         (str ''registration'', case existing of None \<Rightarrow> JNull | Some r \<Rightarrow> registration_json r)]))))))"

definition register :: "('k, 's, 'w) voting_env \<Rightarrow> 'n voting_config \<Rightarrow> signed_request \<Rightarrow> ('w, json) vact" where
  "register env cfg req = once (begin_action env cfg req ''register'' None) (register_body env cfg req)"

section \<open>Drafting and amending\<close>

definition title_ok :: "ustring \<Rightarrow> unit voting_result" where
  "title_ok title = (if trim title = [] \<or> str_len title > 200 then Inl (VBadRequest ''proposal too large'') else Inr ())"

definition draft_checks ::
    "('k, 's, 'w) voting_env \<Rightarrow> 'n voting_config \<Rightarrow> create_draft_request \<Rightarrow> signed_payload \<Rightarrow> prepared voting_result" where
  "draft_checks env cfg req payload =
     bindR (title_ok (dq_title req)) (\<lambda>_.
     if (case dq_body_html req of None \<Rightarrow> False | Some html \<Rightarrow> html \<noteq> [])
     then Inl (VBadRequest ''new drafts must use body_sections; body_html is read-only'')
     else bindR (deny_blacklisted cfg (sq_address (dq_signed req))) (\<lambda>_.
     bindR (ok_or (VBadRequest ''body_sections is required'') (dq_sections req)) (\<lambda>sections.
     bindR (prepare_sections (texts env) sections) (\<lambda>prep.
     bindR (deny_cross_scheme (sq_chain (dq_signed req)) (sp_chain payload)) (\<lambda>_.
     bindR (require_text (sp_title payload) (dq_title req) (VUnauthorized ''signed title mismatch'')) (\<lambda>_.
     bindR (require_text (sp_body_hash payload) (pp_hash prep) (VUnauthorized ''signed body hash mismatch'')) (\<lambda>_.
     Inr prep)))))))"

text \<open>The balance a proposer is judged by.\<close>

definition proposer_balance :: "chain \<Rightarrow> ustring \<Rightarrow> registration \<Rightarrow> db \<Rightarrow> int" where
  "proposer_balance c wallet reg d =
     vbalance_at d c wallet (resolve_balance_height None
       (case c of Terra \<Rightarrow> fst (tip_heights d) | Bsc \<Rightarrow> snd (tip_heights d)) (Some (vr_registered_at reg)))"

definition draft_body ::
    "('k, 's, 'w) voting_env \<Rightarrow> 'n voting_config \<Rightarrow> create_draft_request \<Rightarrow> uuid \<Rightarrow> signed_payload \<Rightarrow> ('w, json) vact" where
  "draft_body env cfg req sid payload =
     (let c = chain_arg (sp_chain payload); wallet = sq_address (dq_signed req) in
      bindA (lift (draft_checks env cfg req payload)) (\<lambda>prep.
      bindA (require_registration c wallet ''register before drafting'') (\<lambda>reg.
      bindA (read_tx (proposer_balance c wallet reg)) (\<lambda>bal.
      if bal < vc_min_proposal_raw cfg
      then fail (VForbidden ''need at least 1000 CL8Y on this address's chain to start a draft'')
      else bindA (draw_uuid env) (\<lambda>pid.
      thenA (in_tx (insert_draft pid c wallet (dq_title req) (pp_html prep) (pp_canonical prep) (JObj (pp_sanitized prep))))
     (thenA (in_tx (record_revision pid sid))
     (finish_action env sid (Some pid)
        [(str ''id'', uuid_json env pid), (str ''status'', JStr (str ''draft'')), (str ''revision'', JNum 1),
         (str ''terra_height'', JNull), (str ''bsc_block'', JNull)])))))))"

definition create_draft :: "('k, 's, 'w) voting_env \<Rightarrow> 'n voting_config \<Rightarrow> create_draft_request \<Rightarrow> ('w, json) vact" where
  "create_draft env cfg req = once (begin_action env cfg (dq_signed req) ''draft'' None) (draft_body env cfg req)"

text \<open>The checks of an amendment against the stored proposal; the result is the prepared new body.\<close>

definition amend_checks ::
    "('k, 's, 'w) voting_env \<Rightarrow> uuid \<Rightarrow> amend_request \<Rightarrow> signed_payload \<Rightarrow> proposal_row \<Rightarrow> prepared voting_result" where
  "amend_checks env pid req payload proposal =
     (if pr_status proposal \<noteq> Draft then Inl (VConflict ''cannot amend after votes are open'')
      else if normalize_address (sq_address (mq_signed req)) \<noteq> pr_proposer proposal
      then Inl (VForbidden ''only the proposer may amend sections'')
      else bindR (case pr_body_sections proposal of
                    Some s \<Rightarrow> bindR (prepare_sections (texts env) s) (\<lambda>p. Inr (pp_hash p))
                  | None \<Rightarrow> Inr (body_hash (texts env) (pr_body_html proposal))) (\<lambda>current_hash.
           bindR (prepare_sections (texts env) (mq_sections req)) (\<lambda>prep.
           bindR (deny_cross_scheme (sq_chain (mq_signed req)) (sp_chain payload)) (\<lambda>_.
           bindR (require_text (sp_proposal_id payload) (uuid_text env pid) (VUnauthorized ''amend is for a different proposal'')) (\<lambda>_.
           bindR (require_text (sp_title payload) (mq_title req) (VUnauthorized ''signed title mismatch'')) (\<lambda>_.
           bindR (require_text (sp_body_hash payload) (pp_hash prep) (VUnauthorized ''signed body hash mismatch'')) (\<lambda>_.
           bindR (require_text (sp_prev_body_hash payload) current_hash (VConflict ''stale prev_body_hash; reload and re-sign'')) (\<lambda>_.
           bindR (require_revision payload proposal) (\<lambda>_. Inr prep)))))))))"

definition amend_body ::
    "('k, 's, 'w) voting_env \<Rightarrow> 'n voting_config \<Rightarrow> uuid \<Rightarrow> amend_request \<Rightarrow> uuid \<Rightarrow> signed_payload \<Rightarrow> ('w, json) vact" where
  "amend_body env cfg pid req sid payload =
     thenA (lift (title_ok (mq_title req)))
    (thenA (lift (deny_blacklisted cfg (sq_address (mq_signed req))))
    (bindA (fetch_proposal pid) (\<lambda>proposal.
     bindA (lift (amend_checks env pid req payload proposal)) (\<lambda>prep.
     thenA (in_tx (\<lambda>_. update_draft_sections pid (mq_title req) (pp_html prep) (pp_canonical prep) (JObj (pp_sanitized prep))))
    (thenA (in_tx (record_revision pid sid))
    (finish_action env sid (Some pid)
       [(str ''ok'', JBool True), (str ''body_hash'', JStr (pp_hash prep)), (str ''revision'', JNum (pr_revision proposal + 1))]))))))"

definition amend_sections :: "('k, 's, 'w) voting_env \<Rightarrow> 'n voting_config \<Rightarrow> uuid \<Rightarrow> amend_request \<Rightarrow> ('w, json) vact" where
  "amend_sections env cfg pid req = once (begin_action env cfg (mq_signed req) ''amend'' (Some pid)) (amend_body env cfg pid req)"

section \<open>Comments and analyses\<close>

definition MAX_COMMENT_BYTES :: nat where "MAX_COMMENT_BYTES = 8 * 1024"

definition comment_checks ::
    "('k, 's, 'w) voting_env \<Rightarrow> uuid \<Rightarrow> comment_request \<Rightarrow> signed_payload \<Rightarrow> ustring voting_result" where
  "comment_checks env pid req payload =
     (let sanitized = sanitize_html (texts env) (cq_body_html req) in
      if visible_len sanitized = 0 then Inl (VBadRequest ''comment is empty'')
      else bindR (deny_cross_scheme (sq_chain (cq_signed req)) (sp_chain payload)) (\<lambda>_.
           bindR (require_text (sp_proposal_id payload) (uuid_text env pid) (VUnauthorized ''comment is for a different proposal'')) (\<lambda>_.
           bindR (require_text (sp_body_hash payload) (body_hash (texts env) (cq_body_html req)) (VUnauthorized ''signed body hash mismatch'')) (\<lambda>_.
           Inr sanitized))))"

text \<open>A status is \<open>Draft\<close> or \<open>Open\<close>, so comments are never closed.\<close>

definition comment_body ::
    "('k, 's, 'w) voting_env \<Rightarrow> 'n voting_config \<Rightarrow> uuid \<Rightarrow> comment_request \<Rightarrow> uuid \<Rightarrow> signed_payload \<Rightarrow> ('w, json) vact" where
  "comment_body env cfg pid req sid payload =
     (let c = chain_arg (sp_chain payload); wallet = sq_address (cq_signed req) in
      thenA (lift (if str_len (cq_body_html req) > MAX_COMMENT_BYTES then Inl (VBadRequest ''comment too large'') else Inr ()))
     (thenA (lift (deny_blacklisted cfg wallet))
     (bindA (fetch_proposal pid) (\<lambda>proposal.
      thenA (lift (if pr_status proposal \<noteq> Draft \<and> pr_status proposal \<noteq> Open then Inl (VForbidden ''comments are closed'') else Inr ()))
     (bindA (lift (comment_checks env pid req payload)) (\<lambda>sanitized.
      bindA (require_registration c wallet ''register before commenting'') (\<lambda>_.
      bindA (draw_uuid env) (\<lambda>cid.
      thenA (in_tx (insert_comment cid pid c wallet sanitized sid))
     (finish_action env sid (Some pid)
        [(str ''id'', uuid_json env cid), (str ''max_per_wallet'', JNum MAX_COMMENTS_PER_WALLET_PER_PROPOSAL),
         (str ''receipt_content'', JObj [(str ''id'', uuid_json env cid), (str ''signed_body_html'', JStr (cq_body_html req)),
            (str ''body_html'', JStr sanitized)])])))))))))"

definition add_comment :: "('k, 's, 'w) voting_env \<Rightarrow> 'n voting_config \<Rightarrow> uuid \<Rightarrow> comment_request \<Rightarrow> ('w, json) vact" where
  "add_comment env cfg pid req = once (begin_action env cfg (cq_signed req) ''comment'' (Some pid)) (comment_body env cfg pid req)"

definition analysis_checks ::
    "('k, 's, 'w) voting_env \<Rightarrow> uuid \<Rightarrow> analysis_request \<Rightarrow> signed_payload \<Rightarrow> proposal_row \<Rightarrow> analysis_sections voting_result" where
  "analysis_checks env pid req payload proposal =
     (if pr_status proposal \<noteq> Draft then Inl (VConflict ''analysis is append-only before open'')
      else if normalize_address (sq_address (aq_signed req)) = pr_proposer proposal
      then Inl (VForbidden ''proposer cannot attach independent analysis'')
      else bindR (prepare_analysis (texts env) (aq_sections req)) (\<lambda>(sanitized, _, expected_hash).
           bindR (deny_cross_scheme (sq_chain (aq_signed req)) (sp_chain payload)) (\<lambda>_.
           bindR (require_text (sp_proposal_id payload) (uuid_text env pid) (VUnauthorized ''analysis is for a different proposal'')) (\<lambda>_.
           bindR (require_text (sp_body_hash payload) expected_hash (VUnauthorized ''signed body hash mismatch'')) (\<lambda>_.
           bindR (require_revision payload proposal) (\<lambda>_. Inr sanitized))))))"

definition analysis_body ::
    "('k, 's, 'w) voting_env \<Rightarrow> 'n voting_config \<Rightarrow> uuid \<Rightarrow> analysis_request \<Rightarrow> uuid \<Rightarrow> signed_payload \<Rightarrow> ('w, json) vact" where
  "analysis_body env cfg pid req sid payload =
     (let c = chain_arg (sp_chain payload); wallet = sq_address (aq_signed req) in
      thenA (lift (deny_blacklisted cfg wallet))
     (thenA (lift (require_committee cfg wallet))
     (bindA (fetch_proposal pid) (\<lambda>proposal.
      bindA (lift (analysis_checks env pid req payload proposal)) (\<lambda>sanitized.
      bindA (draw_uuid env) (\<lambda>aid.
      thenA (in_tx (insert_analysis aid pid c wallet (render_analysis_html sanitized) (analysis_json sanitized) sid))
     (finish_action env sid (Some pid)
        [(str ''id'', uuid_json env aid), (str ''source'', JStr (str ''committee'')),
         (str ''receipt_content'', JObj [(str ''id'', uuid_json env aid), (str ''sections'', analysis_json sanitized),
            (str ''body_html'', JStr (render_analysis_html sanitized))])])))))))"

definition attach_analysis :: "('k, 's, 'w) voting_env \<Rightarrow> 'n voting_config \<Rightarrow> uuid \<Rightarrow> analysis_request \<Rightarrow> ('w, json) vact" where
  "attach_analysis env cfg pid req = once (begin_action env cfg (aq_signed req) ''analyze'' (Some pid)) (analysis_body env cfg pid req)"

section \<open>Opening and voting\<close>

definition open_checks ::
    "('k, 's, 'w) voting_env \<Rightarrow> uuid \<Rightarrow> open_request \<Rightarrow> signed_payload \<Rightarrow> proposal_row \<Rightarrow> unit voting_result" where
  "open_checks env pid req payload proposal =
     (if pr_status proposal \<noteq> Draft then Inl (VConflict ''proposal is not a draft (already open?)'')
      else bindR (ok_or (VBadRequest ''legacy proposal has no template sections'') (pr_body_sections proposal)) (\<lambda>sections.
           bindR (prepare_sections (texts env) sections) (\<lambda>prep.
           bindR (deny_cross_scheme (sq_chain (oq_signed req)) (sp_chain payload)) (\<lambda>_.
           bindR (require_text (sp_proposal_id payload) (uuid_text env pid) (VUnauthorized ''open is for a different proposal'')) (\<lambda>_.
           bindR (require_text (sp_body_hash payload) (pp_hash prep) (VUnauthorized ''open_vote must sign the current section hash'')) (\<lambda>_.
           bindR (require_text (sp_title payload) (pr_title proposal) (VUnauthorized ''signed open title mismatch'')) (\<lambda>_.
           require_revision payload proposal)))))))"

text \<open>The database functions that return a value with the new database, inside the transaction.\<close>

definition in_tx_value :: "(db \<Rightarrow> ('a \<times> db) voting_result) \<Rightarrow> ('w, 'a) vact" where
  "in_tx_value f = in_txv (\<lambda>_ d. bindR (f d) (\<lambda>(x, d'). Inr (d', x)))"

definition open_body ::
    "('k, 's, 'w) voting_env \<Rightarrow> 'n voting_config \<Rightarrow> uuid \<Rightarrow> open_request \<Rightarrow> uuid \<Rightarrow> signed_payload \<Rightarrow> ('w, json) vact" where
  "open_body env cfg pid req sid payload =
     thenA (lift (deny_blacklisted cfg (sq_address (oq_signed req))))
    (thenA (lift (require_committee cfg (sq_address (oq_signed req))))
    (bindA (fetch_proposal pid) (\<lambda>proposal.
     thenA (lift (open_checks env pid req payload proposal))
    (bindA (ask_clock env) (\<lambda>clock.
     bindA (in_tx_value (open_proposal (texts env) (jsonb_parse env) pid sid clock)) (\<lambda>(terra_h, bsc_b).
     finish_action env sid (Some pid)
       [(str ''ok'', JBool True), (str ''status'', JStr (str ''open'')), (str ''terra_height'', JNum terra_h),
        (str ''bsc_block'', JNum bsc_b)]))))))"

definition open_vote :: "('k, 's, 'w) voting_env \<Rightarrow> 'n voting_config \<Rightarrow> uuid \<Rightarrow> open_request \<Rightarrow> ('w, json) vact" where
  "open_vote env cfg pid req = once (begin_action env cfg (oq_signed req) ''open_vote'' (Some pid)) (open_body env cfg pid req)"

definition height_json :: "int option \<Rightarrow> json" where
  "height_json h = (case h of None \<Rightarrow> JNull | Some n \<Rightarrow> JNum n)"

definition vote_checks ::
    "('k, 's, 'w) voting_env \<Rightarrow> 'n voting_config \<Rightarrow> uuid \<Rightarrow> cast_vote_request \<Rightarrow> signed_payload \<Rightarrow> vote_choice voting_result" where
  "vote_checks env cfg pid req payload =
     bindR (ok_or (VBadRequest ''choice must be for, against, or abstain'') (choice_of_str (vq_choice req))) (\<lambda>ch.
     bindR (deny_blacklisted cfg (sq_address (vq_signed req))) (\<lambda>_.
     bindR (deny_cross_scheme (sq_chain (vq_signed req)) (sp_chain payload)) (\<lambda>_.
     bindR (require_text (sp_proposal_id payload) (uuid_text env pid) (VUnauthorized ''vote is for a different proposal'')) (\<lambda>_.
     bindR (require_text (sp_choice payload) (vq_choice req) (VUnauthorized ''signed choice mismatch'')) (\<lambda>_. Inr ch)))))"

definition vote_body ::
    "('k, 's, 'w) voting_env \<Rightarrow> 'n voting_config \<Rightarrow> uuid \<Rightarrow> cast_vote_request \<Rightarrow> uuid \<Rightarrow> signed_payload \<Rightarrow> ('w, json) vact" where
  "vote_body env cfg pid req sid payload =
     (let c = chain_arg (sp_chain payload); wallet = sq_address (vq_signed req) in
      bindA (lift (vote_checks env cfg pid req payload)) (\<lambda>ch.
      bindA (fetch_proposal pid) (\<lambda>proposal.
      if pr_status proposal \<noteq> Open then fail (VForbidden ''votes are closed until the poll is opened'')
      else if pr_validity proposal \<noteq> ValidSnapshot then fail (VConflict ''snapshot invalidated by chain incident'')
      else bindA (require_registration c wallet ''register before voting'') (\<lambda>_.
      bindA (read_tx (\<lambda>d. snapshot_weight d pid c wallet)) (\<lambda>weight.
      if weight \<le> 0 then fail (VForbidden ''no snapshot weight at proposal freeze'')
      else thenA (in_tx (insert_vote (texts env) (jsonb_parse env) pid c wallet ch weight sid))
     (finish_action env sid (Some pid)
        [(str ''ok'', JBool True), (str ''weight'', JStr (int_str weight)),
         (str ''snapshot'', JObj [(str ''terra_height'', height_json (pr_terra_height proposal)),
            (str ''bsc_block'', height_json (pr_bsc_block proposal))])]))))))"

definition cast_vote :: "('k, 's, 'w) voting_env \<Rightarrow> 'n voting_config \<Rightarrow> uuid \<Rightarrow> cast_vote_request \<Rightarrow> ('w, json) vact" where
  "cast_vote env cfg pid req = once (begin_action env cfg (vq_signed req) ''vote'' (Some pid)) (vote_body env cfg pid req)"

end
