(* ===== verification/VotingQueries.thy ===== *)
theory VotingQueries
  imports VotingApi
begin

text \<open>
  The routes of the voting API that only read (\<open>operator-voting/src/api.rs\<close> and
  \<open>contracts.rs\<close>), and the router that dispatches every route. A read is a function of the
  committed database and of \<open>clock\<close>, the database's \<open>clock_timestamp()\<close>. The order of the members
  of a JSON object has no meaning. \<open>stamp\<close> prints a timestamp.
\<close>

section \<open>Rows as JSON\<close>

definition status_str :: "proposal_status \<Rightarrow> ustring" where
  "status_str s = (case s of Draft \<Rightarrow> str ''draft'' | Open \<Rightarrow> str ''open'')"

definition validity_str :: "snapshot_validity \<Rightarrow> ustring" where
  "validity_str v = (case v of ValidSnapshot \<Rightarrow> str ''valid'' | InvalidSnapshot \<Rightarrow> str ''invalid''
     | LegacyUnverified \<Rightarrow> str ''legacy_unverified'')"

definition opt_json :: "('a \<Rightarrow> json) \<Rightarrow> 'a option \<Rightarrow> json" where
  "opt_json f v = (case v of None \<Rightarrow> JNull | Some x \<Rightarrow> f x)"

definition tally_json :: "tally_row \<Rightarrow> json" where
  "tally_json t = JObj [(str ''choice'', JStr (choice_str (ta_choice t))), (str ''weight'', JStr (int_str (ta_weight t))),
     (str ''voters'', JNum (ta_voters t))]"

definition comment_json :: "(uuid \<Rightarrow> ustring) \<Rightarrow> (int \<Rightarrow> ustring) \<Rightarrow> comment_row \<Rightarrow> json" where
  "comment_json uuid stamp m = JObj [(str ''id'', JStr (uuid (cm_id m))), (str ''chain'', JStr (chain_str (cm_chain m))),
     (str ''wallet_address'', JStr (cm_wallet m)), (str ''body_html'', JStr (cm_body_html m)),
     (str ''created_at'', JStr (stamp (cm_created_at m)))]"

definition analysis_row_json :: "(uuid \<Rightarrow> ustring) \<Rightarrow> (int \<Rightarrow> ustring) \<Rightarrow> analysis_row \<Rightarrow> json" where
  "analysis_row_json uuid stamp a = JObj [(str ''id'', JStr (uuid (an_id a))), (str ''chain'', JStr (chain_str (an_chain a))),
     (str ''wallet_address'', JStr (an_wallet a)), (str ''body_html'', JStr (an_body_html a)),
     (str ''source'', JStr (an_source a)), (str ''revision'', opt_json JNum (an_revision a)),
     (str ''created_at'', JStr (stamp (an_created_at a))), (str ''sections'', an_sections a),
     (str ''machine_generated'', JBool (an_source a = str ''ai''))]"

definition proposal_summary :: "proposal_row \<Rightarrow> ustring option" where
  "proposal_summary p = Option.bind (Option.bind (pr_body_sections p) as_object) summary_html"

definition proposal_list_json :: "(uuid \<Rightarrow> ustring) \<Rightarrow> (int \<Rightarrow> ustring) \<Rightarrow> proposal_row \<Rightarrow> tally_row list \<Rightarrow> (ustring \<times> json) list" where
  "proposal_list_json uuid stamp p tallies =
     [(str ''id'', JStr (uuid (pr_id p))), (str ''chain'', JStr (chain_str (pr_chain p))), (str ''proposer'', JStr (pr_proposer p)),
      (str ''title'', JStr (pr_title p)), (str ''revision'', JNum (pr_revision p)),
      (str ''snapshot_validity'', JStr (validity_str (pr_validity p))), (str ''snapshot_incident'', opt_json JStr (pr_incident p)),
      (str ''summary'', opt_json JStr (proposal_summary p)), (str ''terra_height'', opt_json JNum (pr_terra_height p)),
      (str ''bsc_block'', opt_json JNum (pr_bsc_block p)), (str ''created_at'', JStr (stamp (pr_created_at p))),
      (str ''opened_at'', opt_json (\<lambda>t. JStr (stamp t)) (pr_opened_at p)), (str ''status'', JStr (status_str (pr_status p))),
      (str ''tally'', JArr (map tally_json tallies))]"

definition registration_row_json :: "registration \<Rightarrow> json" where
  "registration_row_json r = JObj [(str ''chain'', JStr (chain_str (vr_chain r))), (str ''wallet_address'', JStr (vr_wallet r)),
     (str ''registered_at_height'', JNum (vr_registered_at r)), (str ''initial_balance'', JStr (int_str (vr_initial r))),
     (str ''status'', JStr (vr_status r))]"

section \<open>The read routes\<close>

definition registration_lookup :: "ustring \<Rightarrow> db \<Rightarrow> json voting_result" where
  "registration_lookup addr d =
     (let terra = ledger_registration d Terra addr; bsc = ledger_registration d Bsc addr;
          pending_terra = pending_intent d Terra addr; pending_bsc = pending_intent d Bsc addr in
      if terra = None \<and> bsc = None \<and> \<not> pending_terra \<and> \<not> pending_bsc then Inl (VNotFound ''not registered'')
      else Inr (JObj [(str ''terra'', opt_json registration_row_json terra), (str ''bsc'', opt_json registration_row_json bsc),
             (str ''pending'', JObj [(str ''terra'', JBool pending_terra), (str ''bsc'', JBool pending_bsc)])]))"

definition list_proposals :: "('k, 's, 'w) voting_env \<Rightarrow> (int \<Rightarrow> ustring) \<Rightarrow> ustring option \<Rightarrow> db \<Rightarrow> json voting_result" where
  "list_proposals env stamp status d =
     (let rows = (\<lambda>wanted. JArr (map (\<lambda>p. JObj (proposal_list_json (uuid_text env) stamp p (tally d (pr_id p)))) (vlist_proposals d wanted))) in
      case status of
        None \<Rightarrow> Inr (rows None)
      | Some s \<Rightarrow> if s = str ''draft'' then Inr (rows (Some Draft)) else if s = str ''open'' then Inr (rows (Some Open))
                 else Inl (VBadRequest ''status must be draft or open''))"

definition get_proposal :: "('k, 's, 'w) voting_env \<Rightarrow> (int \<Rightarrow> ustring) \<Rightarrow> uuid \<Rightarrow> db \<Rightarrow> json voting_result" where
  "get_proposal env stamp pid d =
     bindR (ok_or (VNotFound ''proposal'') (vget_proposal d pid)) (\<lambda>p.
     Inr (JObj (proposal_list_json (uuid_text env) stamp p (tally d pid) @
       [(str ''body_html'', JStr (pr_body_html p)), (str ''body_sections'', opt_json (\<lambda>s. s) (pr_body_sections p)),
        (str ''body_hash'', opt_json JStr (Option.bind (pr_body_sections p)
           (\<lambda>s. case prepare_sections (texts env) s of Inr prep \<Rightarrow> Some (pp_hash prep) | Inl _ \<Rightarrow> None))),
        (str ''comments'', JArr (map (comment_json (uuid_text env) stamp) (vlist_comments d pid))),
        (str ''analysis'', JArr (map (analysis_row_json (uuid_text env) stamp) (vlist_analysis d pid))),
        (str ''advisory'', JBool True)])))"

definition list_comments :: "('k, 's, 'w) voting_env \<Rightarrow> (int \<Rightarrow> ustring) \<Rightarrow> uuid \<Rightarrow> db \<Rightarrow> json voting_result" where
  "list_comments env stamp pid d =
     bindR (ok_or (VNotFound ''proposal'') (vget_proposal d pid)) (\<lambda>_.
     Inr (JArr (map (comment_json (uuid_text env) stamp) (vlist_comments d pid))))"

definition list_analysis :: "('k, 's, 'w) voting_env \<Rightarrow> (int \<Rightarrow> ustring) \<Rightarrow> uuid \<Rightarrow> db \<Rightarrow> json voting_result" where
  "list_analysis env stamp pid d =
     bindR (ok_or (VNotFound ''proposal'') (vget_proposal d pid)) (\<lambda>_.
     Inr (JArr (map (analysis_row_json (uuid_text env) stamp) (vlist_analysis d pid))))"

definition get_vote_route :: "uuid \<Rightarrow> ustring \<Rightarrow> ustring option \<Rightarrow> db \<Rightarrow> json voting_result" where
  "get_vote_route pid addr chain_query d =
     bindR (resolve_chain addr chain_query) (\<lambda>c.
     case get_vote d pid (chain_arg c) addr of
       Some (ch, weight) \<Rightarrow> Inr (JObj [(str ''choice'', JStr (choice_str ch)), (str ''weight'', JStr (int_str weight))])
     | None \<Rightarrow> Inl (VNotFound ''vote''))"

definition get_balance :: "ustring \<Rightarrow> ustring option \<Rightarrow> int option \<Rightarrow> int \<Rightarrow> db \<Rightarrow> json voting_result" where
  "get_balance addr chain_query height clock d =
     bindR (resolve_chain addr chain_query) (\<lambda>chain.
     let c = chain_arg chain;
         reg = ledger_registration d c addr;
         pending = (if reg \<noteq> None then False else pending_intent d c addr);
         tip = (if chain = str ''terra'' then fst (tip_heights d) else snd (tip_heights d));
         as_of_height = resolve_balance_height height tip (map_option vr_registered_at reg) in
     Inr (JObj [(str ''chain'', JStr chain), (str ''address'', JStr (normalize_address addr)), (str ''height'', JNum as_of_height),
       (str ''as_of_height'', JNum as_of_height), (str ''balance'', JStr (int_str (vbalance_at d c addr as_of_height))),
       (str ''registered'', JBool (reg \<noteq> None)), (str ''snapshot_eligible'', JBool (snapshot_eligible clock d c addr)),
       (str ''pending'', JBool pending), (str ''initial_balance'', opt_json (\<lambda>r. JStr (int_str (vr_initial r))) reg)]))"

definition get_frozen_weight :: "('k, 's, 'w) voting_env \<Rightarrow> uuid \<Rightarrow> ustring \<Rightarrow> ustring option \<Rightarrow> db \<Rightarrow> json voting_result" where
  "get_frozen_weight env pid addr chain_query d =
     bindR (resolve_chain addr chain_query) (\<lambda>chain.
     bindR (ok_or (VNotFound ''proposal'') (vget_proposal d pid)) (\<lambda>p.
     let weight = snapshot_weight d pid (chain_arg chain) addr in
     Inr (JObj [(str ''proposal_id'', uuid_json env pid), (str ''chain'', JStr chain), (str ''address'', JStr (normalize_address addr)),
       (str ''weight'', JStr (int_str weight)),
       (str ''eligible'', JBool (pr_status p = Open \<and> pr_validity p = ValidSnapshot \<and> weight > 0))])))"

text \<open>The readiness probe: the query of \<open>ledger_ready\<close> within three seconds, or not ready.\<close>

definition voting_readiness :: "bool option \<Rightarrow> int \<times> json" where
  "voting_readiness answer =
     (let ready = (answer = Some True) in
      (if ready then 200 else 503,
       JObj [(str ''ready'', JBool ready), (str ''service'', JStr (str ''operator-voting'')),
             (str ''reason'', JStr (if ready then str ''ready'' else str ''dual_chain_ledger_unavailable''))]))"

section \<open>Canonicalization and metadata\<close>

datatype canonical_request = CanonProposal json | CanonAnalysis analysis_sections | CanonComment ustring

record canonical_response =
  cr_version :: int
  cr_body_hash :: ustring
  cr_canonical_json :: "ustring option"
  cr_sections :: "json option"
  cr_body_html :: ustring

definition canonicalize :: "text_lib \<Rightarrow> canonical_request \<Rightarrow> canonical_response voting_result" where
  "canonicalize lib req =
     (case req of
        CanonProposal sections \<Rightarrow>
          bindR (prepare_sections lib sections) (\<lambda>p.
          Inr \<lparr>cr_version = 2, cr_body_hash = pp_hash p, cr_canonical_json = Some (pp_canonical p),
               cr_sections = Some (JObj (pp_sanitized p)), cr_body_html = pp_html p\<rparr>)
      | CanonAnalysis sections \<Rightarrow>
          bindR (prepare_analysis lib sections) (\<lambda>(clean, canonical, hash).
          Inr \<lparr>cr_version = 2, cr_body_hash = hash, cr_canonical_json = Some canonical,
               cr_sections = Some (analysis_json clean), cr_body_html = render_analysis_html clean\<rparr>)
      | CanonComment html \<Rightarrow>
          if str_len html > MAX_COMMENT_BYTES then Inl (VBadRequest ''comment too large'')
          else let clean = sanitize_html lib html in
            if visible_len clean = 0 then Inl (VBadRequest ''comment empty'')
            else Inr \<lparr>cr_version = 2, cr_body_hash = body_hash lib clean, cr_canonical_json = None,
                      cr_sections = None, cr_body_html = clean\<rparr>)"

section \<open>The router\<close>

datatype api_post =
    PostRegister signed_request
  | PostDraft create_draft_request
  | PutSections uuid amend_request
  | PostComment uuid comment_request
  | PostAnalysis uuid analysis_request
  | PostOpen uuid open_request
  | PostVote uuid cast_vote_request

definition handle :: "('k, 's, 'w) voting_env \<Rightarrow> 'n voting_config \<Rightarrow> api_post \<Rightarrow> ('w, json) vact" where
  "handle env cfg request =
     (case request of
        PostRegister req \<Rightarrow> register env cfg req
      | PostDraft req \<Rightarrow> create_draft env cfg req
      | PutSections pid req \<Rightarrow> amend_sections env cfg pid req
      | PostComment pid req \<Rightarrow> add_comment env cfg pid req
      | PostAnalysis pid req \<Rightarrow> attach_analysis env cfg pid req
      | PostOpen pid req \<Rightarrow> open_vote env cfg pid req
      | PostVote pid req \<Rightarrow> cast_vote env cfg pid req)"

definition post_purpose :: "api_post \<Rightarrow> string" where
  "post_purpose request =
     (case request of
        PostRegister _ \<Rightarrow> ''register'' | PostDraft _ \<Rightarrow> ''draft'' | PutSections _ _ \<Rightarrow> ''amend'' | PostComment _ _ \<Rightarrow> ''comment''
      | PostAnalysis _ _ \<Rightarrow> ''analyze'' | PostOpen _ _ \<Rightarrow> ''open_vote'' | PostVote _ _ \<Rightarrow> ''vote'')"

definition post_signed :: "api_post \<Rightarrow> signed_request" where
  "post_signed request =
     (case request of
        PostRegister req \<Rightarrow> req | PostDraft req \<Rightarrow> dq_signed req | PutSections _ req \<Rightarrow> mq_signed req
      | PostComment _ req \<Rightarrow> cq_signed req | PostAnalysis _ req \<Rightarrow> aq_signed req | PostOpen _ req \<Rightarrow> oq_signed req
      | PostVote _ req \<Rightarrow> vq_signed req)"

definition post_target :: "api_post \<Rightarrow> uuid option" where
  "post_target request =
     (case request of
        PostRegister _ \<Rightarrow> None | PostDraft _ \<Rightarrow> None | PutSections pid _ \<Rightarrow> Some pid | PostComment pid _ \<Rightarrow> Some pid
      | PostAnalysis pid _ \<Rightarrow> Some pid | PostOpen pid _ \<Rightarrow> Some pid | PostVote pid _ \<Rightarrow> Some pid)"

definition post_body :: "('k, 's, 'w) voting_env \<Rightarrow> 'n voting_config \<Rightarrow> api_post \<Rightarrow> uuid \<Rightarrow> signed_payload \<Rightarrow> ('w, json) vact" where
  "post_body env cfg request =
     (case request of
        PostRegister req \<Rightarrow> register_body env cfg req
      | PostDraft req \<Rightarrow> draft_body env cfg req
      | PutSections pid req \<Rightarrow> amend_body env cfg pid req
      | PostComment pid req \<Rightarrow> comment_body env cfg pid req
      | PostAnalysis pid req \<Rightarrow> analysis_body env cfg pid req
      | PostOpen pid req \<Rightarrow> open_body env cfg pid req
      | PostVote pid req \<Rightarrow> vote_body env cfg pid req)"

text \<open>Every mutating route is one authenticated action around its body.\<close>

lemma handle_once:
  "handle env cfg request =
     once (begin_action env cfg (post_signed request) (post_purpose request) (post_target request)) (post_body env cfg request)"
  by (cases request) (simp_all add: handle_def post_signed_def post_purpose_def post_target_def post_body_def register_def
      create_draft_def amend_sections_def add_comment_def attach_analysis_def open_vote_def cast_vote_def)

end
