(* ===== verification/VotingInv.thy ===== *)
theory VotingInv
  imports VotingQueries
begin

text \<open>
  Invariants of the voting API. \<open>prepared_statements\<close> is the interface between the handlers and the
  database: a predicate that every single statement keeps, under what the handlers have checked
  before they issue it; the texts that are stored are prepared ones. Inside it every handler is shown
  to be atomic (a request that fails changes nothing) and to keep the predicate when it commits.
  \<open>voting_statements\<close> is the interface of the predicates that do not look at the texts, and gives the
  other. The interpretations give the predicate its meanings: the integrity of the voting tables, the
  authenticity of the recorded signatures, the immutability of what was recorded before, and the
  shape of the stored texts.
\<close>

section \<open>The interface\<close>

text \<open>The action has its receipt, with the answer that was returned.\<close>

definition answered :: "uuid \<Rightarrow> json \<Rightarrow> db \<Rightarrow> bool" where
  "answered sid answer d \<longleftrightarrow> (\<exists>r\<in>set (receipts d). rc_signature r = sid \<and> rc_response r = answer)"

locale recorded_statements =
  fixes env :: "('k, 's, 'w) voting_env" and cfg :: "'n voting_config" and I :: "db \<Rightarrow> bool"
  assumes signature_kept: "I d \<Longrightarrow> check_request env cfg req purpose proposal_id = Inr (payload, nonce) \<Longrightarrow>
      insert_signature_row (action_signature req purpose proposal_id payload nonce (body_hash (texts env) (sq_payload req)) sid now) d = Inr d' \<Longrightarrow> I d'"
    and intent_kept: "I d \<Longrightarrow> insert_registration_intent row_id c wallet sid now d = Inr d' \<Longrightarrow> I d'"
    and record_kept: "I d \<Longrightarrow> record_revision pid sid now d = Inr d' \<Longrightarrow> I d'"
    and freeze_kept: "I d \<Longrightarrow> freeze_proposal (texts env) (jsonb_parse env) pid sid clock d = Inr (hs, d') \<Longrightarrow> I d'"
    and vote_kept: "I d \<Longrightarrow> insert_vote (texts env) (jsonb_parse env) pid c wallet ch weight sid now d = Inr d' \<Longrightarrow> I d'"
    and comment_kept: "I d \<Longrightarrow> insert_comment cid pid c wallet html sid now d = Inr d' \<Longrightarrow> I d'"
    and receipt_kept: "I d \<Longrightarrow> stored_payload env (rc_signature row) d = Inr payload \<Longrightarrow>
      validate_time payload (unix_time (rc_accepted_at row)) = Inr () \<Longrightarrow> insert_receipt_row row d = Inr d' \<Longrightarrow> I d'"

text \<open>Texts are stored as they were prepared from a request.\<close>

locale prepared_statements = recorded_statements env cfg I
  for env :: "('k, 's, 'w) voting_env" and cfg :: "'n voting_config" and I :: "db \<Rightarrow> bool" +
  assumes draft_prepared: "I d \<Longrightarrow> prepare_sections (texts env) raw = Inr prep \<Longrightarrow>
      insert_draft pid c proposer title (pp_html prep) (pp_canonical prep) (JObj (pp_sanitized prep)) now d = Inr d' \<Longrightarrow> I d'"
    and amend_prepared: "I d \<Longrightarrow> prepare_sections (texts env) raw = Inr prep \<Longrightarrow>
      update_draft_sections pid title (pp_html prep) (pp_canonical prep) (JObj (pp_sanitized prep)) d = Inr d' \<Longrightarrow> I d'"
    and analysis_prepared: "I d \<Longrightarrow> prepare_analysis (texts env) sections = Inr (clean, canonical, hash) \<Longrightarrow>
      insert_analysis aid pid c wallet (render_analysis_html clean) (analysis_json clean) sid now d = Inr d' \<Longrightarrow> I d'"

text \<open>Most predicates are kept by a statement whatever text it stores.\<close>

locale voting_statements = recorded_statements env cfg I
  for env :: "('k, 's, 'w) voting_env" and cfg :: "'n voting_config" and I :: "db \<Rightarrow> bool" +
  assumes draft_kept: "I d \<Longrightarrow> insert_draft pid c proposer title html canonical sections now d = Inr d' \<Longrightarrow> I d'"
    and amend_kept: "I d \<Longrightarrow> update_draft_sections pid title html canonical sections d = Inr d' \<Longrightarrow> I d'"
    and analysis_kept: "I d \<Longrightarrow> insert_analysis aid pid c wallet html sections sid now d = Inr d' \<Longrightarrow> I d'"

sublocale voting_statements \<subseteq> prepared_statements
  by unfold_locales (erule (1) draft_kept, erule (1) amend_kept, erule (1) analysis_kept)

sublocale prepared_statements \<subseteq> stage: tx_stage "\<lambda>cm t. cm = cm0 \<and> I t" "\<lambda>cm. cm = cm0" for cm0
  by unfold_locales simp

lemma holds_ask_clock: "holds (dbs P) (ask_clock env) (\<lambda>_. dbs P) R"
  by (simp add: holds_def ask_clock_def dbs_def split: prod.split)

lemma holds_draw_uuid: "holds (dbs P) (draw_uuid env) (\<lambda>_. dbs P) R"
  by (simp add: holds_def draw_uuid_def dbs_def split: prod.split)

lemma holds_bind_lift: "(\<And>x. r = Inr x \<Longrightarrow> holds P (f x) Q R) \<Longrightarrow> (\<And>s. P s \<Longrightarrow> R s) \<Longrightarrow> holds P (bindA (lift r) f) Q R"
  by (cases r) (auto simp: holds_def bindA_def lift_def)

context prepared_statements
begin

lemmas api_rules = stage.stage_rules stage.stage_in_tx stage.stage_in_txv holds_ask_clock holds_draw_uuid

lemma fetch_kept: "holds (dbs (\<lambda>cm t. cm = cm0 \<and> I t)) (fetch_proposal pid) (\<lambda>_. dbs (\<lambda>cm t. cm = cm0 \<and> I t)) (dbs (\<lambda>cm _. cm = cm0))"
  unfolding fetch_proposal_def by (intro api_rules)

lemma require_kept: "holds (dbs (\<lambda>cm t. cm = cm0 \<and> I t)) (require_registration c w m) (\<lambda>_. dbs (\<lambda>cm t. cm = cm0 \<and> I t)) (dbs (\<lambda>cm _. cm = cm0))"
  unfolding require_registration_def by (intro api_rules)

lemma begin_kept:
  assumes "I cm0"
  shows "holds (dbs (\<lambda>cm _. cm = cm0)) (begin_action env cfg req purpose proposal_id)
     (\<lambda>_. dbs (\<lambda>cm t. cm = cm0 \<and> I t)) (dbs (\<lambda>cm _. cm = cm0))"
  unfolding begin_action_def
proof (rule holds_bind_lift, simp_all only: split_paired_all prod.case, rule holds_thenA)
  show "holds (dbs (\<lambda>cm _. cm = cm0)) (begin_tx (\<lambda>w. fst (read_clock env w))) (\<lambda>_. dbs (\<lambda>cm t. cm = cm0 \<and> I t)) (dbs (\<lambda>cm _. cm = cm0))"
    by (rule holds_begin) (use assms in \<open>simp add: dbs_def\<close>)
next
  fix payload nonce
  assume checked: "check_request env cfg req purpose proposal_id = Inr (payload, nonce)"
  have accept: "holds (dbs (\<lambda>cm t. cm = cm0 \<and> I t)) (accept_action env cfg req purpose proposal_id payload nonce)
      (\<lambda>_. dbs (\<lambda>cm t. cm = cm0 \<and> I t)) (dbs (\<lambda>cm _. cm = cm0))"
    unfolding accept_action_def
    by (intro api_rules) (auto intro: signature_kept [OF _ checked])
  show "holds (dbs (\<lambda>cm t. cm = cm0 \<and> I t))
      (bindA (read_tx (prior_action (chain_arg (sq_chain req)) (normalize_address (sq_address req)) nonce)) (\<lambda>prior.
       case prior of
         Some (sid, old_hash, response) \<Rightarrow>
           if old_hash \<noteq> body_hash (texts env) (sq_payload req)
           then fail (VConflict ''nonce already consumed by different signed bytes'')
           else ret (sid, Some response, payload)
       | None \<Rightarrow> bindA (accept_action env cfg req purpose proposal_id payload nonce) (\<lambda>sid. ret (sid, None, payload))))
      (\<lambda>_. dbs (\<lambda>cm t. cm = cm0 \<and> I t)) (dbs (\<lambda>cm _. cm = cm0))"
    by (rule same_bind, rule stage.stage_read) (auto split: option.split intro!: api_rules accept)
qed

lemma finish_kept:
  "holds (dbs (\<lambda>cm t. cm = cm0 \<and> I t)) (finish_action env sid proposal_id response)
     (\<lambda>x. dbs (\<lambda>cm _. I cm \<and> answered sid x cm)) (dbs (\<lambda>cm _. cm = cm0))"
proof (rule holdsI)
  fix s :: "'w pool"
  assume s: "dbs (\<lambda>cm t. cm = cm0 \<and> I t) s"
  have receipt: "I d'" if "I d" "stored_payload env i d = Inr payload" "validate_time payload (unix_time t) = Inr ()"
    "insert_receipt_row \<lparr>rc_signature = i, rc_proposal = p, rc_revision = r, rc_response = a, rc_content = c, rc_accepted_at = t\<rparr> d = Inr d'"
    for d d' i payload t p r a c
    using receipt_kept [OF that(1) _ _ that(4)] that(2,3) by simp
  have answer: "answered i a d'" if
    "insert_receipt_row \<lparr>rc_signature = i, rc_proposal = p, rc_revision = r, rc_response = a, rc_content = c, rc_accepted_at = t\<rparr> d = Inr d'"
    for d d' i t p r a c
    using that by (auto simp: insert_receipt_row_def answered_def split: if_splits)
  show "case finish_action env sid proposal_id response s of
      (Inr x, s') \<Rightarrow> dbs (\<lambda>cm _. I cm \<and> answered sid x cm) s' | (Inl e, s') \<Rightarrow> dbs (\<lambda>cm _. cm = cm0) s'"
    using s
    by (auto intro: receipt answer simp: finish_action_def bindA_def thenA_def ask_clock_def read_tx_def lift_def in_tx_def
        commit_tx_def ret_def dbs_def Let_def split: prod.splits sum.splits)
qed

lemmas statements_kept = intent_kept draft_prepared amend_prepared record_kept vote_kept comment_kept analysis_prepared freeze_kept

lemmas body_rules = api_rules fetch_kept require_kept finish_kept

lemmas body_defs = register_body_def comment_body_def vote_body_def
  Let_def post_body_def api_post.case

lemma open_body_kept:
  "holds (dbs (\<lambda>cm t. cm = cm0 \<and> I t)) (open_body env cfg pid req sid payload)
     (\<lambda>x. dbs (\<lambda>cm _. I cm \<and> answered sid x cm)) (dbs (\<lambda>cm _. cm = cm0))"
  unfolding open_body_def in_tx_value_def open_proposal_def
  by (intro body_rules, auto simp: result_iff split: prod.split intro!: body_rules intro: statements_kept)

lemma checks_prepared:
  "draft_checks env cfg dreq payload = Inr prep \<Longrightarrow> \<exists>raw. prepare_sections (texts env) raw = Inr prep"
  "amend_checks env pid mreq payload proposal = Inr prep \<Longrightarrow> \<exists>raw. prepare_sections (texts env) raw = Inr prep"
  "analysis_checks env pid areq payload proposal = Inr clean \<Longrightarrow> \<exists>raw canonical hash. prepare_analysis (texts env) raw = Inr (clean, canonical, hash)"
  by (auto simp: draft_checks_def amend_checks_def analysis_checks_def result_iff split: if_splits option.splits prod.splits)

lemma holds_checked:
  assumes "\<And>x. r = Inr x \<Longrightarrow> holds (dbs (\<lambda>cm t. cm = cm0 \<and> I t)) (f x) Q (dbs (\<lambda>cm _. cm = cm0))"
  shows "holds (dbs (\<lambda>cm t. cm = cm0 \<and> I t)) (bindA (lift r) f) Q (dbs (\<lambda>cm _. cm = cm0))"
  by (rule holds_bind_lift) (use assms in \<open>auto simp: dbs_def\<close>)

text \<open>The bodies that store a text know that it was prepared.\<close>

lemma texts_kept:
  "holds (dbs (\<lambda>cm t. cm = cm0 \<and> I t)) (draft_body env cfg dreq sid payload)
     (\<lambda>x. dbs (\<lambda>cm _. I cm \<and> answered sid x cm)) (dbs (\<lambda>cm _. cm = cm0))"
  "holds (dbs (\<lambda>cm t. cm = cm0 \<and> I t)) (amend_body env cfg pid mreq sid payload)
     (\<lambda>x. dbs (\<lambda>cm _. I cm \<and> answered sid x cm)) (dbs (\<lambda>cm _. cm = cm0))"
  "holds (dbs (\<lambda>cm t. cm = cm0 \<and> I t)) (analysis_body env cfg pid areq sid payload)
     (\<lambda>x. dbs (\<lambda>cm _. I cm \<and> answered sid x cm)) (dbs (\<lambda>cm _. cm = cm0))"
  unfolding draft_body_def amend_body_def analysis_body_def Let_def
  subgoal
    by (rule holds_checked, drule checks_prepared(1), elim exE, intro body_rules) (auto intro: statements_kept)
  subgoal
    by (rule holds_thenA [OF stage.stage_lift], rule holds_thenA [OF stage.stage_lift], rule holds_bindA [OF fetch_kept], rule holds_checked,
        drule checks_prepared(2), elim exE, intro body_rules) (auto intro: statements_kept)
  subgoal
    by (rule holds_thenA [OF stage.stage_lift], rule holds_thenA [OF stage.stage_lift], rule holds_bindA [OF fetch_kept], rule holds_checked,
        drule checks_prepared(3), elim exE, intro body_rules) (auto intro: statements_kept)
  done

text \<open>The body of every mutating route keeps the predicate and leaves a receipt, or leaves the database alone.\<close>

lemma body_kept:
  "holds (dbs (\<lambda>cm t. cm = cm0 \<and> I t)) (post_body env cfg request sid payload)
     (\<lambda>x. dbs (\<lambda>cm _. I cm \<and> answered sid x cm)) (dbs (\<lambda>cm _. cm = cm0))"
proof (cases request)
  case (PostOpen pid req)
  then show ?thesis by (simp add: post_body_def open_body_kept)
next
  case (PostDraft req)
  then show ?thesis by (simp add: post_body_def texts_kept)
next
  case (PutSections pid req)
  then show ?thesis by (simp add: post_body_def texts_kept)
next
  case (PostAnalysis pid req)
  then show ?thesis by (simp add: post_body_def texts_kept)
qed (simp_all only: body_defs, (intro body_rules, auto intro: statements_kept)+)

theorem handle_kept:
  assumes "I cm0"
  shows "holds (dbs (\<lambda>cm _. cm = cm0)) (handle env cfg request) (\<lambda>_. dbs (\<lambda>cm _. I cm)) (dbs (\<lambda>cm _. cm = cm0))"
  unfolding handle_once once_def
proof (rule holds_bindA [OF begin_kept [OF assms]])
  fix x :: "uuid \<times> json option \<times> signed_payload"
  obtain sid prior payload where x: "x = (sid, prior, payload)"
    using prod_cases3 by blast
  show "holds (dbs (\<lambda>cm t. cm = cm0 \<and> I t))
      (case x of (sid, prior, payload) \<Rightarrow> case prior of Some response \<Rightarrow> ret response | None \<Rightarrow> post_body env cfg request sid payload)
      (\<lambda>_. dbs (\<lambda>cm _. I cm)) (dbs (\<lambda>cm _. cm = cm0))"
  proof (cases prior)
    case None
    have "holds (dbs (\<lambda>cm t. cm = cm0 \<and> I t)) (post_body env cfg request sid payload) (\<lambda>_. dbs (\<lambda>cm _. I cm)) (dbs (\<lambda>cm _. cm = cm0))"
      by (rule holds_weaken [OF body_kept]) (simp_all add: dbs_def)
    then show ?thesis by (simp add: x None)
  next
    case (Some r)
    show ?thesis
      unfolding x Some prod.case option.case by (rule holds_ret) (use assms in \<open>simp add: dbs_def\<close>)
  qed
qed

end

end
