(* ===== verification/VotingTables.thy ===== *)
theory VotingTables
  imports VotingDb "HOL-Library.Sublist"
begin

text \<open>
  What the statements on the voting tables do, as equations and equivalences (their branches solved
  for success), the integrity of the voting tables, and the order \<open>grown\<close> in which the tables may
  develop: what was recorded stays, an opened proposal stays as it is, the ledger is not touched.
\<close>

section \<open>Solved forms\<close>

lemma mapR_iff: "mapR f xs = Inr ys \<longleftrightarrow> list_all2 (\<lambda>x y. f x = Inr y) xs ys"
  by (induction xs arbitrary: ys) (auto simp: result_iff list_all2_Cons1)

lemma list_all2_map_iff: "list_all2 (\<lambda>x y. P x \<and> y = g x) xs ys \<longleftrightarrow> list_all P xs \<and> ys = map g xs"
  by (induction xs arbitrary: ys) (auto simp: list_all2_Cons1)

lemma guard_draft:
  "pr_status p = Draft \<Longrightarrow> (pr_id q, pr_chain q, pr_proposer q, pr_created_at q) = (pr_id p, pr_chain p, pr_proposer p, pr_created_at p) \<Longrightarrow>
     guard_proposal_mutation p q = Inr q"
  by (simp add: guard_proposal_mutation_def)

definition identity_of :: "proposal_row \<Rightarrow> uuid \<times> chain \<times> ustring \<times> int" where
  "identity_of p = (pr_id p, pr_chain p, pr_proposer p, pr_created_at p)"

lemma update_proposals_draft:
  assumes "\<And>p. which p \<Longrightarrow> pr_status p = Draft" and "\<And>p q. f p = Inr q \<longleftrightarrow> ok p \<and> q = g p"
    and "\<And>p. identity_of (g p) = identity_of p"
  shows "update_proposals which f d = Inr (n, d') \<longleftrightarrow>
     list_all (\<lambda>p. which p \<longrightarrow> ok p) (proposals d) \<and> n = length (filter which (proposals d))
     \<and> d' = d\<lparr>proposals := update_where which g (proposals d)\<rparr>"
proof -
  have "(if which p then bindR (f p) (guard_proposal_mutation p) else Inr p) = Inr q \<longleftrightarrow>
      (which p \<longrightarrow> ok p) \<and> q = (if which p then g p else p)" for p q
    using assms(1) assms(2) [of p] assms(3) [of p] by (auto simp: result_iff identity_of_def guard_draft)
  then have "mapR (\<lambda>p. if which p then bindR (f p) (guard_proposal_mutation p) else Inr p) (proposals d) = Inr rows \<longleftrightarrow>
      list_all (\<lambda>p. which p \<longrightarrow> ok p) (proposals d) \<and> rows = update_where which g (proposals d)" for rows
    by (simp add: mapR_iff list_all2_map_iff update_where_def)
  then show ?thesis
    unfolding update_proposals_def by (auto simp: result_iff)
qed

definition amended :: "ustring \<Rightarrow> ustring \<Rightarrow> ustring \<Rightarrow> json \<Rightarrow> proposal_row \<Rightarrow> proposal_row" where
  "amended title html canonical sections p = p\<lparr>pr_title := title, pr_body_html := html, pr_body_canonical := canonical,
     pr_body_sections := Some sections, pr_revision := pr_revision p + 1\<rparr>"

abbreviation draft_with :: "uuid \<Rightarrow> proposal_row \<Rightarrow> bool" where
  "draft_with pid p \<equiv> pr_id p = pid \<and> pr_status p = Draft"

lemma update_draft_sections_iff:
  "update_draft_sections pid title html canonical sections d = Inr d' \<longleftrightarrow>
     (\<exists>p\<in>set (proposals d). draft_with pid p)
     \<and> (\<forall>p\<in>set (proposals d). draft_with pid p \<longrightarrow> pr_revision p + 1 \<le> i64_max)
     \<and> d' = d\<lparr>proposals := update_where (draft_with pid) (amended title html canonical sections) (proposals d)\<rparr>"
proof -
  have f: "bindR (next_revision (pr_revision p)) (\<lambda>n. Inr (p\<lparr>pr_title := title, pr_body_html := html, pr_body_canonical := canonical,
      pr_body_sections := Some sections, pr_revision := n\<rparr>)) = Inr q
      \<longleftrightarrow> pr_revision p + 1 \<le> i64_max \<and> q = amended title html canonical sections p" for p q
    by (auto simp: next_revision_def amended_def result_iff)
  have ident: "identity_of (amended title html canonical sections p) = identity_of p" for p
    by (simp add: identity_of_def amended_def)
  note upd = update_proposals_draft [of "draft_with pid", OF _ f ident, simplified]
  show ?thesis
    unfolding update_draft_sections_def
    by (auto simp: result_iff upd list_all_iff filter_empty_conv split: if_splits)
qed

lemma stored_balance_proposals [simp]: "stored_balance (d\<lparr>proposals := ps\<rparr>) c w h = stored_balance d c w h"
  by (simp add: stored_balance_def)

lemma sql_balance_at_proposals [simp]: "sql_balance_at (d\<lparr>proposals := ps\<rparr>) c w h = sql_balance_at d c w h"
  by (simp add: sql_balance_at_def split: option.split)

definition height_at :: "db \<Rightarrow> chain \<Rightarrow> int" where
  "height_at d c = (case checkpoints d c of Some cp \<Rightarrow> cp_height cp | None \<Rightarrow> 0)"

text \<open>The ledger can be frozen now.\<close>

definition freezable :: "int \<Rightarrow> db \<Rightarrow> bool" where
  "freezable clock d \<longleftrightarrow> (\<exists>t b. checkpoints d Terra = Some t \<and> checkpoints d Bsc = Some b \<and> freeze_ready clock 2 t \<and> freeze_ready clock 17 b)
     \<and> (\<forall>r\<in>set (registrations d). \<not> unverified_baseline (height_at d) r) \<and> intents_heartbeat clock d"

definition open_with :: "db \<Rightarrow> int \<Rightarrow> proposal_row \<Rightarrow> proposal_row" where
  "open_with d clock p = (case (checkpoints d Terra, checkpoints d Bsc) of (Some t, Some b) \<Rightarrow> opened clock t b p | _ \<Rightarrow> p)"

definition snapshots_for :: "uuid \<Rightarrow> db \<Rightarrow> snapshot_row list" where
  "snapshots_for pid d = map (snapshot_of pid (height_at d) d) (filter is_active (registrations d))"

lemma snapshot_of_proposals [simp]: "snapshot_of pid h (d\<lparr>proposals := ps\<rparr>) = snapshot_of pid h d"
  by (simp add: snapshot_of_def fun_eq_iff)

lemma freeze_proposal_solved:
  "freeze_proposal lib jsonb pid sid clock d = Inr (hs, d') \<longleftrightarrow>
     (\<exists>p s. find_row pr_id pid (proposals d) = Some p \<and> find_row sg_id sid (signatures d) = Some s
        \<and> signed_revision lib jsonb pid s p = Inr ())
     \<and> freezable clock d
     \<and> distinct (map sn_key (snapshots_for pid d)) \<and> (\<forall>r\<in>set (snapshots_for pid d). sn_key r \<notin> sn_key ` set (snapshots d))
     \<and> hs = (height_at d Terra, height_at d Bsc)
     \<and> d' = d\<lparr>proposals := update_where (draft_with pid) (open_with d clock) (proposals d),
              snapshots := snapshots d @ snapshots_for pid d\<rparr>"
proof (cases "find_row pr_id pid (proposals d)"; cases "find_row sg_id sid (signatures d)")
  fix p s
  assume p: "find_row pr_id pid (proposals d) = Some p" and s: "find_row sg_id sid (signatures d) = Some s"
  show ?thesis
  proof (cases "\<exists>t b. checkpoints d Terra = Some t \<and> checkpoints d Bsc = Some b")
    case True
    then obtain t b where cps: "checkpoints d Terra = Some t" "checkpoints d Bsc = Some b"
      by blast
    have height: "(\<lambda>c. case c of Terra \<Rightarrow> cp_height t | Bsc \<Rightarrow> cp_height b) = height_at d"
      by (auto simp: height_at_def cps fun_eq_iff split: chain.splits)
    have ident: "identity_of (opened clock t b q) = identity_of q" for q
      by (simp add: identity_of_def opened_def)
    have "(Inr (opened clock t b q) = Inr q') = (True \<and> q' = opened clock t b q)" for q q' :: proposal_row
      by auto
    from update_proposals_draft [of "draft_with pid", OF _ this ident]
    have upd: "update_proposals (draft_with pid) (\<lambda>q. Inr (opened clock t b q)) d = Inr (n, d1) \<longleftrightarrow>
        n = length (filter (draft_with pid) (proposals d)) \<and> d1 = d\<lparr>proposals := update_where (draft_with pid) (opened clock t b) (proposals d)\<rparr>" for n d1
      by (simp add: list_all_iff)
    have open_eq: "open_with d clock = opened clock t b"
      by (simp add: open_with_def cps fun_eq_iff)
    have some: "length (filter (draft_with pid) (proposals d)) \<noteq> 0" if "signed_revision lib jsonb pid s p = Inr ()"
    proof -
      have "draft_with pid p" "p \<in> set (proposals d)"
        using that find_row_SomeD [OF p] by (auto simp: signed_revision_def result_iff)
      then show ?thesis by (auto simp: filter_empty_conv)
    qed
    have insert: "insert_snapshots rows d1 = Inr d2 \<longleftrightarrow> distinct (map sn_key rows) \<and> (\<forall>r\<in>set rows. sn_key r \<notin> sn_key ` set (snapshots d1))
        \<and> d2 = d1\<lparr>snapshots := snapshots d1 @ rows\<rparr>" for rows d1 d2
      by (auto simp: insert_snapshots_def find_row_None)
    show ?thesis
      unfolding freeze_proposal_def
      by (simp add: p s cps result_iff Let_def height upd open_eq insert freezable_def snapshots_for_def list_ex_iff split_paired_Ex
            height_at_def [of d Terra] height_at_def [of d Bsc])
         (use some in \<open>auto simp: cps\<close>)
  next
    case False
    then have "\<not> freezable clock d"
      by (auto simp: freezable_def)
    moreover have "freeze_proposal lib jsonb pid sid clock d \<noteq> Inr (hs, d')"
      using False unfolding freeze_proposal_def
      by (auto simp: p s result_iff split: option.splits)
    ultimately show ?thesis by blast
  qed
qed (simp_all add: freeze_proposal_def)

lemma insert_signature_row_iff:
  "insert_signature_row row d = Inr d' \<longleftrightarrow>
     sg_id row \<notin> sg_id ` set (signatures d)
     \<and> (sg_nonce row \<noteq> None \<longrightarrow> sg_nonce_key row \<notin> sg_nonce_key ` set (signatures d))
     \<and> (\<forall>p. sg_proposal row = Some p \<longrightarrow> p \<in> pr_id ` set (proposals d))
     \<and> d' = d\<lparr>signatures := signatures d @ [row]\<rparr>"
  unfolding insert_signature_row_def by (auto simp: find_row_None split: option.splits)

lemma insert_registration_intent_iff:
  "insert_registration_intent row_id c wallet sid now d = Inr d' \<longleftrightarrow>
     (if (c, normalize_address wallet) \<in> intent_key ` set (intents d) then d' = d
      else row_id \<notin> in_id ` set (intents d) \<and> sid \<in> sg_id ` set (signatures d)
        \<and> d' = d\<lparr>intents := intents d @ [\<lparr>in_id = row_id, in_chain = c, in_wallet = normalize_address wallet, in_signature = sid,
            in_created_at = now, in_processed_at = None, in_last_attempt_at = None, in_retry_after = None,
            in_attempts = 0, in_last_error = None\<rparr>]\<rparr>)"
  unfolding insert_registration_intent_def by (auto simp: find_row_None)

lemma insert_receipt_row_iff:
  "insert_receipt_row row d = Inr d' \<longleftrightarrow>
     rc_signature row \<notin> rc_signature ` set (receipts d) \<and> rc_signature row \<in> sg_id ` set (signatures d)
     \<and> (\<forall>p. rc_proposal row = Some p \<longrightarrow> p \<in> pr_id ` set (proposals d))
     \<and> d' = d\<lparr>receipts := receipts d @ [row]\<rparr>"
  unfolding insert_receipt_row_def by (auto simp: find_row_None split: option.splits)

definition new_draft :: "uuid \<Rightarrow> chain \<Rightarrow> ustring \<Rightarrow> ustring \<Rightarrow> ustring \<Rightarrow> ustring \<Rightarrow> json \<Rightarrow> int \<Rightarrow> proposal_row" where
  "new_draft pid c proposer title html canonical sections now =
     \<lparr>pr_id = pid, pr_chain = c, pr_proposer = normalize_address proposer, pr_title = title,
      pr_body_html = html, pr_body_canonical = canonical, pr_body_sections = Some sections,
      pr_terra_height = None, pr_bsc_block = None, pr_created_at = now, pr_status = Draft, pr_opened_at = None,
      pr_revision = 1, pr_validity = ValidSnapshot, pr_incident = None, pr_terra_hash = None,
      pr_bsc_hash = None, pr_terra_epoch = None, pr_bsc_epoch = None\<rparr>"

lemma insert_draft_iff:
  "insert_draft pid c proposer title html canonical sections now d = Inr d' \<longleftrightarrow>
     pid \<notin> pr_id ` set (proposals d)
     \<and> d' = d\<lparr>proposals := proposals d @ [new_draft pid c proposer title html canonical sections now]\<rparr>"
  by (auto simp: insert_draft_def new_draft_def find_row_None)

definition revision_of :: "uuid \<Rightarrow> int \<Rightarrow> proposal_row \<Rightarrow> revision_row" where
  "revision_of sid now p = \<lparr>rv_proposal = pr_id p, rv_revision = pr_revision p, rv_title = pr_title p,
     rv_body_canonical = pr_body_canonical p, rv_body_sections = pr_body_sections p,
     rv_signature = Some sid, rv_recorded_at = now\<rparr>"

lemma filter_unique:
  "unique_by key t \<Longrightarrow> filter (\<lambda>r. key r = k) t = (case find_row key k t of None \<Rightarrow> [] | Some r \<Rightarrow> [r])"
proof (induction t)
  case (Cons r t)
  then show ?case
    using find_row_None [of key k t]
    by (cases "key r = k") (auto simp: find_row_Cons unique_by_def filter_empty_conv)
qed simp

lemma record_revision_iff:
  assumes "unique_by pr_id (proposals d)"
  shows "record_revision pid sid now d = Inr d' \<longleftrightarrow>
     (case find_row pr_id pid (proposals d) of
        None \<Rightarrow> d' = d
      | Some p \<Rightarrow> (pid, pr_revision p) \<notin> rv_key ` set (revisions d) \<and> sid \<in> sg_id ` set (signatures d)
          \<and> d' = d\<lparr>revisions := revisions d @ [revision_of sid now p]\<rparr>)"
proof (cases "find_row pr_id pid (proposals d)")
  case (Some p)
  then show ?thesis
    using find_row_SomeD [OF Some]
    by (auto simp: record_revision_def filter_unique [OF assms] Let_def find_row_None revision_of_def rv_key_def)
qed (auto simp: record_revision_def filter_unique [OF assms])

text \<open>A vote row that the trigger lets in.\<close>

definition vote_backed :: "text_lib \<Rightarrow> (ustring \<Rightarrow> json option) \<Rightarrow> vote_row \<Rightarrow> proposal_row \<Rightarrow> snapshot_row \<Rightarrow> signature_row \<Rightarrow> bool" where
  "vote_backed lib jsonb v p w s \<longleftrightarrow>
     pr_id p = vt_proposal v \<and> sn_key w = vt_key v \<and> sg_id s = vt_signature v
     \<and> 0 < vt_weight v \<and> sn_weight w = vt_weight v
     \<and> sg_purpose s = str ''vote'' \<and> sg_chain s = vt_chain v \<and> sg_wallet s = vt_wallet v \<and> sg_proposal s = Some (vt_proposal v)
     \<and> (\<exists>payload. cast_jsonb jsonb (sg_signed_payload s) = Inr payload
          \<and> jsonb_text lib payload ''choice'' = Some (choice_str (vt_choice v)))"

lemma guard_vote_insert_Inr:
  assumes "guard_vote_insert lib jsonb v d = Inr ()"
  shows "\<exists>p\<in>set (proposals d). \<exists>w\<in>set (snapshots d). \<exists>s\<in>set (signatures d).
     vote_backed lib jsonb v p w s \<and> pr_status p = Open \<and> pr_validity p = ValidSnapshot"
proof -
  from assms obtain p w s where rows: "find_row pr_id (vt_proposal v) (proposals d) = Some p"
    "find_row sn_key (vt_proposal v, vt_chain v, vt_wallet v) (snapshots d) = Some w"
    "find_row sg_id (vt_signature v) (signatures d) = Some s"
    unfolding guard_vote_insert_def by (auto split: option.splits)
  then show ?thesis
    using assms find_row_SomeD [OF rows(1)] find_row_SomeD [OF rows(2)] find_row_SomeD [OF rows(3)]
    by (auto simp: guard_vote_insert_def vote_backed_def vt_key_def result_iff)
qed

lemma insert_vote_Inr:
  assumes "insert_vote lib jsonb pid c wallet ch weight sid now d = Inr d'"
  shows "\<exists>v. v = \<lparr>vt_proposal = pid, vt_wallet = normalize_address wallet, vt_chain = c, vt_choice = ch,
       vt_weight = weight, vt_signature = sid, vt_created_at = now\<rparr>
     \<and> vt_key v \<notin> vt_key ` set (votes d) \<and> d' = d\<lparr>votes := votes d @ [v]\<rparr>
     \<and> (\<exists>p\<in>set (proposals d). \<exists>w\<in>set (snapshots d). \<exists>s\<in>set (signatures d).
          vote_backed lib jsonb v p w s \<and> pr_status p = Open \<and> pr_validity p = ValidSnapshot)"
  using assms unfolding insert_vote_def Let_def
  by (auto simp: result_iff insert_nothing_def find_row_None dest!: guard_vote_insert_Inr split: if_splits)

lemma insert_comment_iff:
  "insert_comment cid pid c wallet html sid now d = Inr d' \<longleftrightarrow>
     comment_count_for_wallet d pid c wallet < 20 \<and> cid \<notin> cm_id ` set (comments d)
     \<and> pid \<in> pr_id ` set (proposals d) \<and> sid \<in> sg_id ` set (signatures d)
     \<and> d' = d\<lparr>comments := comments d @ [\<lparr>cm_id = cid, cm_proposal = pid, cm_chain = c, cm_wallet = normalize_address wallet,
               cm_body_html = html, cm_signature = sid, cm_created_at = now\<rparr>]\<rparr>"
  by (auto simp: insert_comment_def find_row_None MAX_COMMENTS_PER_WALLET_PER_PROPOSAL_def)

lemma guard_analysis_insert_Inr:
  assumes "guard_analysis_insert a d = Inr ()"
  shows "\<exists>p\<in>set (proposals d). pr_id p = an_proposal a \<and> pr_status p = Draft \<and> pr_proposer p \<noteq> an_wallet a
     \<and> an_revision a = Some (pr_revision p) \<and> analysis_count d (an_proposal a) (an_chain a) (an_wallet a) < 5"
proof (cases "find_row pr_id (an_proposal a) (proposals d)")
  case (Some p)
  then show ?thesis
    using assms find_row_SomeD [OF Some] by (auto simp: guard_analysis_insert_def split: if_splits)
qed (use assms in \<open>simp add: guard_analysis_insert_def\<close>)

lemma insert_analysis_Inr:
  assumes "insert_analysis aid pid c wallet html sections sid now d = Inr d'"
  shows "\<exists>a. an_proposal a = pid \<and> an_chain a = c \<and> an_wallet a = normalize_address wallet \<and> an_id a = aid \<and> an_signature a = sid
     \<and> guard_analysis_insert a d = Inr () \<and> aid \<notin> an_id ` set (analyses d)
     \<and> sid \<in> sg_id ` set (signatures d) \<and> d' = d\<lparr>analyses := analyses d @ [a]\<rparr>"
proof -
  define a where "a = \<lparr>an_id = aid, an_proposal = pid, an_chain = c, an_wallet = normalize_address wallet,
    an_sections = sections, an_body_html = html, an_source = str ''committee'', an_signature = sid, an_created_at = now,
    an_revision = map_option pr_revision (find_row pr_id pid (proposals d))\<rparr>"
  have cols: "an_proposal a = pid" "an_chain a = c" "an_wallet a = normalize_address wallet" "an_id a = aid" "an_signature a = sid"
    by (simp_all add: a_def)
  have "guard_analysis_insert a d = Inr ()" "aid \<notin> an_id ` set (analyses d)" "sid \<in> sg_id ` set (signatures d)"
    "d' = d\<lparr>analyses := analyses d @ [a]\<rparr>"
    using assms unfolding insert_analysis_def Let_def a_def [symmetric]
    by (simp_all add: result_iff find_row_None split: if_splits)
  with cols show ?thesis by blast
qed

end
