(* ===== verification/VotingIntegrity.thy ===== *)
theory VotingIntegrity
  imports VotingInv VotingTables
begin

text \<open>
  The integrity of the voting tables. \<open>voting_ok\<close> says that keys are unique, that weights exist
  for opened proposals only and an opened proposal carries its snapshot columns, that every vote is
  backed by a snapshot row of its weight and by a vote signature of the same wallet for the same
  proposal and choice, that a revision row repeats the proposal it records, and that comments and
  analyses stay within their quota. Each statement of the voting API keeps it.
\<close>

section \<open>The invariant\<close>

definition keys_ok :: "db \<Rightarrow> bool" where
  "keys_ok d \<longleftrightarrow> unique_by pr_id (proposals d) \<and> unique_by sg_id (signatures d)
     \<and> unique_by sg_nonce_key (filter (\<lambda>s. sg_nonce s \<noteq> None) (signatures d))
     \<and> unique_by sn_key (snapshots d) \<and> unique_by vt_key (votes d) \<and> unique_by cm_id (comments d)
     \<and> unique_by an_id (analyses d) \<and> unique_by rc_signature (receipts d) \<and> unique_by rv_key (revisions d)"

definition frozen :: "proposal_row \<Rightarrow> bool" where
  "frozen p \<longleftrightarrow> pr_status p = Open \<and> pr_terra_height p \<noteq> None \<and> pr_bsc_block p \<noteq> None \<and> pr_opened_at p \<noteq> None
     \<and> pr_terra_hash p \<noteq> None \<and> pr_bsc_hash p \<noteq> None \<and> pr_terra_epoch p \<noteq> None \<and> pr_bsc_epoch p \<noteq> None"

definition snapshots_ok :: "db \<Rightarrow> bool" where
  "snapshots_ok d \<longleftrightarrow> (\<forall>p\<in>set (proposals d). pr_status p = Open \<longrightarrow> frozen p)
     \<and> (\<forall>w\<in>set (snapshots d). \<exists>p\<in>set (proposals d). pr_id p = sn_proposal w \<and> pr_status p = Open)"

definition votes_ok :: "text_lib \<Rightarrow> (ustring \<Rightarrow> json option) \<Rightarrow> db \<Rightarrow> bool" where
  "votes_ok lib jsonb d \<longleftrightarrow>
     (\<forall>v\<in>set (votes d). \<exists>p\<in>set (proposals d). \<exists>w\<in>set (snapshots d). \<exists>s\<in>set (signatures d).
        pr_status p = Open \<and> vote_backed lib jsonb v p w s)"

definition revision_ok :: "proposal_row \<Rightarrow> revision_row \<Rightarrow> bool" where
  "revision_ok p r \<longleftrightarrow> pr_id p = rv_proposal r \<and> rv_revision r \<le> pr_revision p
     \<and> (rv_revision r = pr_revision p \<longrightarrow>
          rv_title r = pr_title p \<and> rv_body_canonical r = pr_body_canonical p \<and> rv_body_sections r = pr_body_sections p)"

definition revisions_ok :: "db \<Rightarrow> bool" where
  "revisions_ok d \<longleftrightarrow> (\<forall>r\<in>set (revisions d). \<exists>p\<in>set (proposals d). revision_ok p r)"

definition comment_total :: "db \<Rightarrow> uuid \<Rightarrow> chain \<Rightarrow> ustring \<Rightarrow> nat" where
  "comment_total d pid c w = length (filter (\<lambda>m. cm_proposal m = pid \<and> cm_chain m = c \<and> cm_wallet m = w) (comments d))"

definition quotas_ok :: "db \<Rightarrow> bool" where
  "quotas_ok d \<longleftrightarrow> (\<forall>pid c w. comment_total d pid c w \<le> 20 \<and> analysis_count d pid c w \<le> 5)"

definition receipts_ok :: "db \<Rightarrow> bool" where
  "receipts_ok d \<longleftrightarrow> rc_signature ` set (receipts d) \<subseteq> sg_id ` set (signatures d)"

definition voting_ok :: "text_lib \<Rightarrow> (ustring \<Rightarrow> json option) \<Rightarrow> db \<Rightarrow> bool" where
  "voting_ok lib jsonb d \<longleftrightarrow>
     keys_ok d \<and> snapshots_ok d \<and> votes_ok lib jsonb d \<and> revisions_ok d \<and> quotas_ok d \<and> receipts_ok d"

lemmas voting_ok_defs = voting_ok_def keys_ok_def snapshots_ok_def votes_ok_def revisions_ok_def quotas_ok_def receipts_ok_def

lemma voting_ok_initial: "voting_ok lib jsonb initial_db"
  by (simp add: voting_ok_defs initial_db_def comment_total_def analysis_count_def)

section \<open>Each statement keeps it\<close>

lemma votes_ok_mono:
  assumes "votes_ok lib jsonb d" and "votes d' = votes d"
    and "set (signatures d) \<subseteq> set (signatures d')" and "set (snapshots d) \<subseteq> set (snapshots d')"
    and "\<And>p. p \<in> set (proposals d) \<Longrightarrow> pr_status p = Open \<Longrightarrow> \<exists>q\<in>set (proposals d'). pr_id q = pr_id p \<and> pr_status q = Open"
  shows "votes_ok lib jsonb d'"
  unfolding votes_ok_def
proof
  fix v
  assume "v \<in> set (votes d')"
  then obtain p w s where p: "p \<in> set (proposals d)" "pr_status p = Open" and w: "w \<in> set (snapshots d)"
    and s: "s \<in> set (signatures d)" and backed: "vote_backed lib jsonb v p w s"
    using assms(1,2) unfolding votes_ok_def by auto
  moreover obtain q where "q \<in> set (proposals d')" "pr_id q = pr_id p" "pr_status q = Open"
    using assms(5) p by blast
  ultimately show "\<exists>p\<in>set (proposals d'). \<exists>w\<in>set (snapshots d'). \<exists>s\<in>set (signatures d').
      pr_status p = Open \<and> vote_backed lib jsonb v p w s"
    using assms(3,4) by (fastforce simp: vote_backed_def)
qed

lemma snapshots_ok_mono:
  assumes "snapshots_ok d" and "snapshots d' = snapshots d"
    and "\<And>p. p \<in> set (proposals d') \<Longrightarrow> pr_status p = Open \<Longrightarrow> frozen p"
    and "\<And>p. p \<in> set (proposals d) \<Longrightarrow> pr_status p = Open \<Longrightarrow> \<exists>q\<in>set (proposals d'). pr_id q = pr_id p \<and> pr_status q = Open"
  shows "snapshots_ok d'"
  unfolding snapshots_ok_def
proof (intro conjI ballI impI)
  fix w
  assume "w \<in> set (snapshots d')"
  then obtain p where "p \<in> set (proposals d)" "pr_id p = sn_proposal w" "pr_status p = Open"
    using assms(1,2) unfolding snapshots_ok_def by auto
  with assms(4) show "\<exists>p\<in>set (proposals d'). pr_id p = sn_proposal w \<and> pr_status p = Open"
    by metis
qed (rule assms(3))

lemma revisions_ok_mono:
  assumes "revisions_ok d" and "revisions d' = revisions d"
    and "\<And>p r. p \<in> set (proposals d) \<Longrightarrow> revision_ok p r \<Longrightarrow> \<exists>q\<in>set (proposals d'). revision_ok q r"
  shows "revisions_ok d'"
  using assms unfolding revisions_ok_def by (metis (no_types, lifting))

lemma quotas_ok_frame: "comments d' = comments d \<Longrightarrow> analyses d' = analyses d \<Longrightarrow> quotas_ok d' = quotas_ok d"
  by (simp add: quotas_ok_def comment_total_def analysis_count_def)

lemma comment_total_snoc:
  "comment_total (d\<lparr>comments := comments d @ [m]\<rparr>) pid c w =
     comment_total d pid c w + (if cm_proposal m = pid \<and> cm_chain m = c \<and> cm_wallet m = w then 1 else 0)"
  by (simp add: comment_total_def)

lemma analysis_count_snoc:
  "analysis_count (d\<lparr>analyses := analyses d @ [a]\<rparr>) pid c w =
     analysis_count d pid c w + (if an_proposal a = pid \<and> an_chain a = c \<and> an_wallet a = w then 1 else 0)"
  by (simp add: analysis_count_def)

lemma quotas_ok_comment:
  "quotas_ok d \<Longrightarrow> comment_total d (cm_proposal m) (cm_chain m) (cm_wallet m) < 20 \<Longrightarrow> quotas_ok (d\<lparr>comments := comments d @ [m]\<rparr>)"
  unfolding quotas_ok_def comment_total_snoc by (simp add: analysis_count_def)

lemma quotas_ok_analysis:
  "quotas_ok d \<Longrightarrow> analysis_count d (an_proposal a) (an_chain a) (an_wallet a) < 5 \<Longrightarrow> quotas_ok (d\<lparr>analyses := analyses d @ [a]\<rparr>)"
  unfolding quotas_ok_def analysis_count_snoc by (simp add: comment_total_def)

lemma receipts_ok_frame: "receipts d' = receipts d \<Longrightarrow> signatures d' = signatures d \<Longrightarrow> receipts_ok d' = receipts_ok d"
  by (simp add: receipts_ok_def)

text \<open>The proposals may be rewritten, as long as no revision, snapshot or opened proposal is lost.\<close>

lemma voting_ok_rewrite:
  assumes ok: "voting_ok lib jsonb d"
    and same: "d' = d\<lparr>proposals := map g (proposals d)\<rparr>"
    and g: "\<And>p. pr_id (g p) = pr_id p" "\<And>p. p \<in> set (proposals d) \<Longrightarrow> pr_status (g p) = pr_status p"
      "\<And>p. frozen p \<Longrightarrow> frozen (g p)" "\<And>p r. revision_ok p r \<Longrightarrow> revision_ok (g p) r"
  shows "voting_ok lib jsonb d'"
proof -
  have mem: "g p \<in> set (proposals d')" if "p \<in> set (proposals d)" for p
    using that by (simp add: same)
  have status: "\<exists>q\<in>set (proposals d'). pr_id q = pr_id p \<and> pr_status q = Open" if "p \<in> set (proposals d)" "pr_status p = Open" for p
    using that mem g(1,2) by metis
  have "votes_ok lib jsonb d'"
    by (rule votes_ok_mono [of lib jsonb d]) (use ok status in \<open>simp_all add: voting_ok_def same\<close>)
  moreover have "snapshots_ok d'"
  proof (rule snapshots_ok_mono [of d])
    fix p
    assume "p \<in> set (proposals d')" "pr_status p = Open"
    then obtain q where "q \<in> set (proposals d)" "p = g q" "pr_status q = Open"
      using g(2) by (auto simp: same)
    then show "frozen p"
      using ok g(3) by (simp add: voting_ok_def snapshots_ok_def)
  qed (use ok status in \<open>simp_all add: voting_ok_def same\<close>)
  moreover have "revisions_ok d'"
  proof (rule revisions_ok_mono [of d])
    fix p r
    assume "p \<in> set (proposals d)" "revision_ok p r"
    with mem g(4) show "\<exists>q\<in>set (proposals d'). revision_ok q r" by blast
  qed (use ok in \<open>simp_all add: voting_ok_def same\<close>)
  moreover have "keys_ok d'"
    using ok g(1) by (simp add: voting_ok_def keys_ok_def same unique_by_def comp_def)
  ultimately show ?thesis
    using ok quotas_ok_frame [of d' d] receipts_ok_frame [of d' d] by (simp add: voting_ok_def same)
qed

lemma keep_signature:
  assumes ok: "voting_ok lib jsonb d" and run: "insert_signature_row row d = Inr d'"
  shows "voting_ok lib jsonb d'"
proof -
  have d': "d' = d\<lparr>signatures := signatures d @ [row]\<rparr>"
    and new: "sg_id row \<notin> sg_id ` set (signatures d)" "sg_nonce row \<noteq> None \<longrightarrow> sg_nonce_key row \<notin> sg_nonce_key ` set (signatures d)"
    using run by (simp_all add: insert_signature_row_iff)
  have "votes_ok lib jsonb d'"
    by (rule votes_ok_mono [of lib jsonb d]) (use ok in \<open>auto simp: voting_ok_def d'\<close>)
  moreover have "keys_ok d'"
    using ok new by (auto simp: voting_ok_def keys_ok_def d')
  ultimately show ?thesis
    using ok quotas_ok_frame [of d' d] by (auto simp: voting_ok_def snapshots_ok_def revisions_ok_def receipts_ok_def d')
qed

lemma keep_intent:
  "voting_ok lib jsonb d \<Longrightarrow> insert_registration_intent row_id c wallet sid now d = Inr d' \<Longrightarrow> voting_ok lib jsonb d'"
  unfolding insert_registration_intent_iff voting_ok_defs
  by (auto simp: comment_total_def analysis_count_def split: if_splits)

lemma keep_receipt:
  "voting_ok lib jsonb d \<Longrightarrow> insert_receipt_row row d = Inr d' \<Longrightarrow> voting_ok lib jsonb d'"
  unfolding insert_receipt_row_iff voting_ok_defs
  by (elim conjE, intro conjI) (auto simp: comment_total_def analysis_count_def)

lemma keep_draft:
  assumes ok: "voting_ok lib jsonb d" and run: "insert_draft pid c proposer title html canonical sections now d = Inr d'"
  shows "voting_ok lib jsonb d'"
proof -
  let ?p = "new_draft pid c proposer title html canonical sections now"
  have new: "pid \<notin> pr_id ` set (proposals d)" and d': "d' = d\<lparr>proposals := proposals d @ [?p]\<rparr>"
    using run by (simp_all add: insert_draft_iff)
  have cols: "pr_id ?p = pid" "pr_status ?p = Draft"
    by (simp_all add: new_draft_def)
  have "votes_ok lib jsonb d'"
    by (rule votes_ok_mono [of lib jsonb d]) (use ok in \<open>auto simp: voting_ok_def d'\<close>)
  moreover have "snapshots_ok d'"
    by (rule snapshots_ok_mono [of d]) (use ok cols in \<open>auto simp: voting_ok_def snapshots_ok_def d'\<close>)
  moreover have "revisions_ok d'"
    by (rule revisions_ok_mono [of d]) (use ok in \<open>auto simp: voting_ok_def d'\<close>)
  moreover have "keys_ok d'"
    using ok new cols by (simp add: voting_ok_def keys_ok_def d')
  ultimately show ?thesis
    using ok quotas_ok_frame [of d' d] receipts_ok_frame [of d' d] by (simp add: voting_ok_def d')
qed

lemma keep_amend:
  assumes ok: "voting_ok lib jsonb d" and run: "update_draft_sections pid title html canonical sections d = Inr d'"
  shows "voting_ok lib jsonb d'"
proof -
  let ?g = "amended title html canonical sections"
  have "d' = d\<lparr>proposals := map (\<lambda>p. if draft_with pid p then ?g p else p) (proposals d)\<rparr>"
    using run unfolding update_draft_sections_iff update_where_def by blast
  moreover have "pr_id (?g p) = pr_id p" "pr_status (?g p) = pr_status p" "revision_ok p r \<Longrightarrow> revision_ok (?g p) r"
      "frozen (?g p) = frozen p" for p r
    by (auto simp: amended_def revision_ok_def frozen_def)
  ultimately show ?thesis
    by (intro voting_ok_rewrite [OF ok, of _ "\<lambda>p. if draft_with pid p then ?g p else p"]) simp_all
qed

lemma keep_record:
  assumes ok: "voting_ok lib jsonb d" and run: "record_revision pid sid now d = Inr d'"
  shows "voting_ok lib jsonb d'"
proof -
  have uniq: "unique_by pr_id (proposals d)"
    using ok by (simp add: voting_ok_def keys_ok_def)
  show ?thesis
  proof (cases "find_row pr_id pid (proposals d)")
    case None
    then show ?thesis using ok run by (simp add: record_revision_iff [OF uniq])
  next
    case (Some p)
    then have new: "(pid, pr_revision p) \<notin> rv_key ` set (revisions d)"
      and d': "d' = d\<lparr>revisions := revisions d @ [revision_of sid now p]\<rparr>"
      using run by (simp_all add: record_revision_iff [OF uniq])
    have p: "p \<in> set (proposals d)" "pr_id p = pid"
      using find_row_SomeD [OF Some] by simp_all
    have "revision_ok p (revision_of sid now p)" "rv_key (revision_of sid now p) = (pid, pr_revision p)"
      by (simp_all add: revision_ok_def revision_of_def rv_key_def p(2))
    then show ?thesis
      using ok new p(1) by (auto simp: voting_ok_defs d' comment_total_def analysis_count_def)
  qed
qed

lemma keep_freeze:
  assumes ok: "voting_ok lib jsonb d" and run: "freeze_proposal lib' jsonb' pid sid clock d = Inr (hs, d')"
  shows "voting_ok lib jsonb d'"
proof -
  from run obtain p s where found: "find_row pr_id pid (proposals d) = Some p" "signed_revision lib' jsonb' pid s p = Inr ()"
    and ready: "freezable clock d" and new: "distinct (map sn_key (snapshots_for pid d))"
      "\<forall>r\<in>set (snapshots_for pid d). sn_key r \<notin> sn_key ` set (snapshots d)"
    and d': "d' = d\<lparr>proposals := update_where (draft_with pid) (open_with d clock) (proposals d),
              snapshots := snapshots d @ snapshots_for pid d\<rparr>"
    unfolding freeze_proposal_solved by blast
  obtain t b where cps: "checkpoints d Terra = Some t" "checkpoints d Bsc = Some b"
    using ready by (auto simp: freezable_def)
  let ?g = "open_with d clock"
  have g: "pr_id (?g q) = pr_id q" "frozen (?g q)" "pr_status (?g q) = Open"
    "revision_ok (?g q) r = revision_ok q r" for q r
    by (simp_all add: open_with_def cps opened_def frozen_def revision_ok_def)
  have p: "p \<in> set (proposals d)" "draft_with pid p"
    using found find_row_SomeD [OF found(1)] by (auto simp: signed_revision_def result_iff)
  then have opened_p: "?g p \<in> set (proposals d')" "pr_id (?g p) = pid"
    by (force simp: d' update_where_def) (simp add: g p)
  have open_same: "q \<in> set (proposals d')" if "q \<in> set (proposals d)" "pr_status q = Open" for q
    using that by (force simp: d' update_where_def image_iff)
  have rev_ok: "\<exists>q'\<in>set (proposals d'). revision_ok q' r" if "q \<in> set (proposals d)" "revision_ok q r" for q r
  proof
    let ?q = "if draft_with pid q then ?g q else q"
    show "revision_ok ?q r" using that(2) by (simp add: g)
    show "?q \<in> set (proposals d')" using that(1) by (simp add: d' update_where_def)
  qed
  have of_pid: "sn_proposal w = pid" if "w \<in> set (snapshots_for pid d)" for w
    using that by (auto simp: snapshots_for_def snapshot_of_def)
  have "votes_ok lib jsonb d'"
    by (rule votes_ok_mono [of lib jsonb d]) (use ok open_same in \<open>auto simp: voting_ok_def d'\<close>)
  moreover have "keys_ok d'"
    using ok new g(1) by (auto simp: voting_ok_def keys_ok_def d' unique_by_def [of sn_key])
  moreover have "snapshots_ok d'"
  proof -
    have "\<exists>q\<in>set (proposals d'). pr_id q = sn_proposal w \<and> pr_status q = Open" if w: "w \<in> set (snapshots d')" for w
    proof (cases "w \<in> set (snapshots d)")
      case True
      then show ?thesis
        using ok open_same by (fastforce simp: voting_ok_def snapshots_ok_def)
    next
      case False
      with w have "sn_proposal w = pid" by (intro of_pid) (simp add: d')
      with opened_p g(3) show ?thesis by metis
    qed
    moreover have "pr_status q = Open \<longrightarrow> frozen q" if "q \<in> set (proposals d')" for q
      using that ok g(2) by (auto simp: voting_ok_def snapshots_ok_def d' update_where_def)
    ultimately show ?thesis by (simp add: snapshots_ok_def)
  qed
  moreover have "revisions_ok d'"
    using ok rev_ok by (fastforce simp: voting_ok_def revisions_ok_def d')
  moreover have "quotas_ok d'" "receipts_ok d'"
    using ok by (simp_all add: voting_ok_defs d' comment_total_def analysis_count_def)
  ultimately show ?thesis by (simp add: voting_ok_def)
qed

lemma keep_vote:
  assumes ok: "voting_ok lib jsonb d" and run: "insert_vote lib jsonb pid c wallet ch weight sid now d = Inr d'"
  shows "voting_ok lib jsonb d'"
proof -
  from insert_vote_Inr [OF run] obtain v where new: "vt_key v \<notin> vt_key ` set (votes d)"
    and d': "d' = d\<lparr>votes := votes d @ [v]\<rparr>"
    and backed: "\<exists>p\<in>set (proposals d). \<exists>w\<in>set (snapshots d). \<exists>s\<in>set (signatures d).
          vote_backed lib jsonb v p w s \<and> pr_status p = Open \<and> pr_validity p = ValidSnapshot"
    by blast
  have "votes_ok lib jsonb d'"
    using ok backed by (auto simp: voting_ok_def votes_ok_def d')
  then show ?thesis
    using ok new by (simp add: voting_ok_def keys_ok_def snapshots_ok_def revisions_ok_def quotas_ok_def receipts_ok_def d'
        comment_total_def analysis_count_def)
qed

lemma keep_comment:
  assumes ok: "voting_ok lib jsonb d" and run: "insert_comment cid pid c wallet html sid now d = Inr d'"
  shows "voting_ok lib jsonb d'"
proof -
  obtain m where count: "comment_total d pid c (normalize_address wallet) < 20" and new: "cm_id m \<notin> cm_id ` set (comments d)"
    and m: "cm_proposal m = pid" "cm_chain m = c" "cm_wallet m = normalize_address wallet"
    and d': "d' = d\<lparr>comments := comments d @ [m]\<rparr>"
  proof -
    let ?m = "\<lparr>cm_id = cid, cm_proposal = pid, cm_chain = c, cm_wallet = normalize_address wallet,
      cm_body_html = html, cm_signature = sid, cm_created_at = now\<rparr>"
    assume "\<And>m. comment_total d pid c (normalize_address wallet) < 20 \<Longrightarrow> cm_id m \<notin> cm_id ` set (comments d)
      \<Longrightarrow> cm_proposal m = pid \<Longrightarrow> cm_chain m = c \<Longrightarrow> cm_wallet m = normalize_address wallet
      \<Longrightarrow> d' = d\<lparr>comments := comments d @ [m]\<rparr> \<Longrightarrow> thesis"
    from this [of ?m] show thesis
      using run unfolding insert_comment_iff comment_count_for_wallet_def comment_total_def by simp
  qed
  have "quotas_ok d'"
    unfolding d' by (rule quotas_ok_comment) (use ok count m in \<open>simp_all add: voting_ok_def\<close>)
  moreover have "votes_ok lib jsonb d'"
    by (rule votes_ok_mono [of lib jsonb d]) (use ok in \<open>auto simp: voting_ok_def d'\<close>)
  ultimately show ?thesis
    using ok new by (simp add: voting_ok_def keys_ok_def snapshots_ok_def revisions_ok_def receipts_ok_def d')
qed

lemma keep_analysis:
  assumes ok: "voting_ok lib jsonb d" and run: "insert_analysis aid pid c wallet html sections sid now d = Inr d'"
  shows "voting_ok lib jsonb d'"
proof -
  obtain a where guard: "guard_analysis_insert a d = Inr ()" and new: "an_id a \<notin> an_id ` set (analyses d)"
    and d': "d' = d\<lparr>analyses := analyses d @ [a]\<rparr>"
    using insert_analysis_Inr [OF run] by auto
  have "analysis_count d (an_proposal a) (an_chain a) (an_wallet a) < 5"
    using guard_analysis_insert_Inr [OF guard] by blast
  then have "quotas_ok d'"
    unfolding d' by - (rule quotas_ok_analysis, use ok in \<open>simp_all add: voting_ok_def\<close>)
  moreover have "votes_ok lib jsonb d'"
    by (rule votes_ok_mono [of lib jsonb d]) (use ok in \<open>auto simp: voting_ok_def d'\<close>)
  ultimately show ?thesis
    using ok new by (simp add: voting_ok_def keys_ok_def snapshots_ok_def revisions_ok_def receipts_ok_def d')
qed

lemmas voting_ok_kept = keep_signature keep_intent keep_draft keep_amend keep_record keep_freeze keep_vote keep_comment
  keep_analysis keep_receipt

interpretation integrity: voting_statements env cfg "voting_ok (texts env) (jsonb_parse env)" for env cfg
  by unfold_locales (erule voting_ok_kept, assumption)+

end
