(* ===== verification/VotingSample.thy ===== *)
theory VotingSample
  imports VotingIntegrity
begin

text \<open>
  A small voting deployment on which the witnesses evaluate the handlers: toy hashes and keys whose
  EVM wallet is \<open>0xab\<close>, a payload parser that knows three texts, a clock that stands at second 1050,
  and a database with one opened proposal on which \<open>0xab\<close> has weight 5.
\<close>

definition sample_texts :: text_lib where
  "sample_texts = \<lparr>sanitize_html = (\<lambda>s. s), json_text = (\<lambda>_. []), sha256_hex = (\<lambda>s. s)\<rparr>"

definition sample_action :: "string \<Rightarrow> uuid option \<Rightarrow> signed_payload" where
  "sample_action purpose target = \<lparr>sp_version = 2, sp_nonce = Some (str purpose), sp_app = APP_NAME, sp_chain = str ''bsc'',
     sp_chain_id = str ''56'', sp_purpose = str purpose, sp_address = str ''0xAB'', sp_issued_at = 1000,
     sp_expires_at = 1120, sp_revision = None, sp_title = None, sp_body_hash = Some (str ''hello''),
     sp_proposal_id = map_option nat_digits target, sp_choice = Some (str ''for''), sp_prev_body_hash = None\<rparr>"

definition sample_parse :: "ustring \<Rightarrow> json option" where
  "sample_parse raw =
     (if raw = str ''register'' \<or> raw = str ''again'' then Some (payload_json (sample_action ''register'' None))
      else if raw = str ''vote'' then Some (payload_json (sample_action ''vote'' (Some 7)))
      else if raw = str ''comment'' then Some (payload_json (sample_action ''comment'' (Some 7)))
      else None)"

definition sample_voting_env :: "(nat list, nat list, nat) voting_env" where
  "sample_voting_env = \<lparr>texts = sample_texts, crypto = toy_crypto, json_parse = sample_parse, jsonb_parse = sample_parse,
     uuid_text = nat_digits, read_clock = (\<lambda>n. (1050000000, n)), fresh_uuid = (\<lambda>n. (n, n + 1))\<rparr>"

definition sample_voting_config :: "nat voting_config" where
  "sample_voting_config = \<lparr>vc_database_url = [], vc_blacklist = [], vc_committee = [], vc_min_proposal_raw = 0,
     vc_cors_origins = [], vc_api_bind = [], vc_terra_chain_id = str ''columbus-5'', vc_evm_chain_id = str ''56'',
     vc_run_mode = str ''test'', vc_apply_migrations = False, vc_post_per_minute = 5, vc_post_burst = 5,
     vc_trust_forwarded = False, vc_trusted_proxy_cidrs = []\<rparr>"

definition sample_signed :: "string \<Rightarrow> signed_request" where
  "sample_signed raw = \<lparr>sq_chain = str ''bsc'', sq_address = str ''0xab'', sq_payload = str raw,
     sq_signature = replicate 65 1, sq_pubkey = None\<rparr>"

definition sample_vote :: api_post where
  "sample_vote = PostVote 7 \<lparr>vq_signed = sample_signed ''vote'', vq_choice = str ''for''\<rparr>"

definition sample_register :: api_post where
  "sample_register = PostRegister (sample_signed ''register'')"

definition sample_again :: api_post where
  "sample_again = PostRegister (sample_signed ''again'')"

definition open_row :: proposal_row where
  "open_row = \<lparr>pr_id = 7, pr_chain = Bsc, pr_proposer = str ''0xcd'', pr_title = str ''t'', pr_body_html = [],
     pr_body_canonical = [], pr_body_sections = Some JNull, pr_terra_height = Some 10, pr_bsc_block = Some 20,
     pr_created_at = 0, pr_status = Open, pr_opened_at = Some 0, pr_revision = 1, pr_validity = ValidSnapshot,
     pr_incident = None, pr_terra_hash = Some [], pr_bsc_hash = Some [], pr_terra_epoch = Some 1, pr_bsc_epoch = Some 1\<rparr>"

definition sample_holder :: registration where
  "sample_holder = \<lparr>vr_chain = Bsc, vr_wallet = str ''0xab'', vr_registered_at = 10, vr_initial = 5, vr_status = str ''active'',
     vr_signature = None, vr_baseline_height = None, vr_baseline_hash = Some [], vr_baseline_epoch = 1, vr_baseline_verified = True\<rparr>"

definition poll_db :: db where
  "poll_db = initial_db\<lparr>registrations := [sample_holder], proposals := [open_row],
     snapshots := [\<lparr>sn_proposal = 7, sn_chain = Bsc, sn_wallet = str ''0xab'', sn_weight = 5\<rparr>]\<rparr>"

definition api_pool :: "db \<Rightarrow> nat pool" where
  "api_pool d = \<lparr>committed = d, tx = d, tx_now = 0, world = 100\<rparr>"

lemma poll_db_ok: "voting_ok lib jsonb poll_db"
  by (simp add: voting_ok_defs poll_db_def initial_db_def comment_total_def analysis_count_def frozen_def open_row_def unique_by_def)

text \<open>The vote is accepted once; the receipt is named by the signature's identifier 100.\<close>

lemma sample_vote_runs:
  "case handle sample_voting_env sample_voting_config sample_vote (api_pool poll_db) of
     (Inr x, s') \<Rightarrow> map vt_weight (votes (committed s')) = [5] \<and> map rc_signature (receipts (committed s')) = [100]
   | _ \<Rightarrow> False"
  by code_simp

lemma sample_vote_accepted:
  "\<exists>x s'. handle sample_voting_env sample_voting_config sample_vote (api_pool poll_db) = (Inr x, s')
     \<and> map vt_weight (votes (committed s')) = [5]"
  using sample_vote_runs by (auto split: prod.splits sum.splits)

lemma sample_register_accepted:
  "\<exists>x s'. handle sample_voting_env sample_voting_config sample_register (api_pool initial_db) = (Inr x, s')"
proof -
  have "case handle sample_voting_env sample_voting_config sample_register (api_pool initial_db) of (Inr x, s') \<Rightarrow> True | _ \<Rightarrow> False"
    by code_simp
  then show ?thesis by (auto split: prod.splits sum.splits)
qed

end
