(* ===== verification/VotingHistory.thy ===== *)
theory VotingHistory
  imports VotingSample
begin

text \<open>
  What the voting API can do to what is already recorded. \<open>grown\<close> is the order in which the database
  may develop under the API: the tables of signatures, intents, snapshots, votes, comments, analyses,
  receipts and revisions only get rows added, an opened proposal stays as it is, and the ledger's
  tables are not touched. \<open>authentic\<close> says that each recorded signature, read again as a request,
  passes the checks that an incoming request has to pass. The two predicates are instances of the
  interface \<open>voting_statements\<close>; the theorems at the end hold for every request and every state.
\<close>

section \<open>The order of development\<close>

definition kept_by :: "proposal_row \<Rightarrow> proposal_row \<Rightarrow> bool" where
  "kept_by p q \<longleftrightarrow> identity_of q = identity_of p \<and> pr_revision p \<le> pr_revision q \<and> (pr_status p = Open \<longrightarrow> q = p)"

definition grown :: "db \<Rightarrow> db \<Rightarrow> bool" where
  "grown d0 d \<longleftrightarrow>
     registrations d = registrations d0 \<and> transfers d = transfers d0 \<and> balances d = balances d0
     \<and> checkpoints d = checkpoints d0 \<and> canonical_blocks d = canonical_blocks d0 \<and> indexer_state d = indexer_state d0
     \<and> prefix (intents d0) (intents d) \<and> prefix (signatures d0) (signatures d) \<and> prefix (snapshots d0) (snapshots d)
     \<and> prefix (votes d0) (votes d) \<and> prefix (comments d0) (comments d) \<and> prefix (analyses d0) (analyses d)
     \<and> prefix (receipts d0) (receipts d) \<and> prefix (revisions d0) (revisions d)
     \<and> (\<forall>p\<in>set (proposals d0). \<exists>q\<in>set (proposals d). kept_by p q)"

lemma kept_by_refl [simp]: "kept_by p p"
  by (simp add: kept_by_def)

lemma kept_by_trans: "kept_by p q \<Longrightarrow> kept_by q r \<Longrightarrow> kept_by p r"
  by (auto simp: kept_by_def)

lemma grown_refl [simp]: "grown d d"
  by (auto simp: grown_def intro: kept_by_refl)

lemma grown_trans:
  assumes "grown d0 d1" and "grown d1 d2"
  shows "grown d0 d2"
proof -
  have "\<exists>r\<in>set (proposals d2). kept_by p r" if "p \<in> set (proposals d0)" for p
    using that assms kept_by_trans unfolding grown_def by blast
  then show ?thesis
    using assms unfolding grown_def by (auto intro: prefix_order.trans)
qed

lemma grown_map_proposals:
  assumes "\<And>p. p \<in> set (proposals d) \<Longrightarrow> kept_by p (g p)"
  shows "grown d (d\<lparr>proposals := map g (proposals d), snapshots := snapshots d @ ws\<rparr>)"
  using assms by (auto simp: grown_def)

lemma grow_signature: "insert_signature_row row d = Inr d' \<Longrightarrow> grown d d'"
  by (auto simp: insert_signature_row_iff grown_def intro: kept_by_refl)

lemma grow_intent: "insert_registration_intent row_id c wallet sid now d = Inr d' \<Longrightarrow> grown d d'"
  by (auto simp: insert_registration_intent_iff grown_def intro: kept_by_refl split: if_splits)

lemma grow_draft: "insert_draft pid c proposer title html canonical sections now d = Inr d' \<Longrightarrow> grown d d'"
  by (auto simp: insert_draft_iff grown_def intro: kept_by_refl)

lemma grow_amend:
  assumes "update_draft_sections pid title html canonical sections d = Inr d'"
  shows "grown d d'"
proof -
  have d': "d' = d\<lparr>proposals := map (\<lambda>p. if draft_with pid p then amended title html canonical sections p else p) (proposals d)\<rparr>"
    using assms unfolding update_draft_sections_iff update_where_def by blast
  show ?thesis
    using grown_map_proposals [of d "\<lambda>p. if draft_with pid p then amended title html canonical sections p else p" "[]"]
    by (simp add: d' kept_by_def amended_def identity_of_def)
qed

lemma grown_revision: "grown d (d\<lparr>revisions := revisions d @ rows\<rparr>)"
  by (auto simp: grown_def intro: kept_by_refl)

lemma grow_record: "record_revision pid sid now d = Inr d' \<Longrightarrow> grown d d'"
  unfolding record_revision_def
  by (erule foldR_invariant [where P = "grown d"], simp)
    (auto simp: Let_def elim!: grown_trans intro!: grown_revision split: if_splits)

lemma grow_freeze:
  assumes "freeze_proposal lib jsonb pid sid clock d = Inr (hs, d')"
  shows "grown d d'"
proof -
  have ready: "freezable clock d"
    and d': "d' = d\<lparr>proposals := map (\<lambda>p. if draft_with pid p then open_with d clock p else p) (proposals d),
                    snapshots := snapshots d @ snapshots_for pid d\<rparr>"
    using assms unfolding freeze_proposal_solved update_where_def by blast+
  obtain t b where "checkpoints d Terra = Some t" "checkpoints d Bsc = Some b"
    using ready by (auto simp: freezable_def)
  then show ?thesis
    unfolding d' by (intro grown_map_proposals) (auto simp: kept_by_def open_with_def opened_def identity_of_def)
qed

lemma grow_vote: "insert_vote lib jsonb pid c wallet ch weight sid now d = Inr d' \<Longrightarrow> grown d d'"
  by (drule insert_vote_Inr) (auto simp: grown_def intro: kept_by_refl)

lemma grow_comment: "insert_comment cid pid c wallet html sid now d = Inr d' \<Longrightarrow> grown d d'"
  by (auto simp: insert_comment_iff grown_def intro: kept_by_refl)

lemma grow_analysis: "insert_analysis aid pid c wallet html sections sid now d = Inr d' \<Longrightarrow> grown d d'"
  by (drule insert_analysis_Inr) (auto simp: grown_def intro: kept_by_refl)

lemma grow_receipt: "insert_receipt_row row d = Inr d' \<Longrightarrow> grown d d'"
  by (auto simp: insert_receipt_row_iff grown_def intro: kept_by_refl)

lemmas grow_rules = grow_signature grow_intent grow_draft grow_amend grow_record grow_freeze grow_vote grow_comment
  grow_analysis grow_receipt

interpretation history: voting_statements env cfg "grown d0" for env cfg d0
  by unfold_locales (erule grown_trans, erule grow_rules)+

section \<open>Authentic signatures\<close>

text \<open>A signature row read as the request it came from.\<close>

definition request_of :: "signature_row \<Rightarrow> ustring \<Rightarrow> signed_request" where
  "request_of s raw = \<lparr>sq_chain = chain_str (sg_chain s), sq_address = sg_wallet s, sq_payload = raw,
     sq_signature = sg_signature s, sq_pubkey = sg_pubkey s\<rparr>"

definition authentic :: "('k, 's, 'w) voting_env \<Rightarrow> 'n voting_config \<Rightarrow> signature_row \<Rightarrow> bool" where
  "authentic env cfg s \<longleftrightarrow>
     (\<exists>raw purpose payload nonce. sg_signed_payload s = Some raw \<and> sg_purpose s = str purpose \<and> sg_nonce s = Some nonce
        \<and> sg_payload_hash s = body_hash (texts env) raw \<and> sg_revision s = sp_revision payload
        \<and> check_request env cfg (request_of s raw) purpose (sg_proposal s) = Inr (payload, nonce))"

lemma check_request_chain:
  "check_request env cfg req purpose target = Inr (payload, nonce) \<Longrightarrow>
     sq_chain req = chain_str (chain_arg (sq_chain req)) \<and> sp_chain payload = sq_chain req"
  by (auto simp: check_request_def result_iff deny_cross_scheme_def chain_arg_def chain_str_def dest!: parse_domain_facts)

lemma parse_domain_normal: "parse_domain parse raw purpose (normalize_address a) = parse_domain parse raw purpose a"
  unfolding fun_eq_iff parse_domain_def check_payload_domain_def normalize_address_idem by blast

lemma verify_signed_normal:
  "verify_signed env (req\<lparr>sq_address := normalize_address (sq_address req)\<rparr>) = verify_signed env req"
  by (simp add: verify_signed_def fun_eq_iff)

lemma lists_normal:
  "deny_blacklisted cfg (normalize_address a) = deny_blacklisted cfg a"
  "require_committee cfg (normalize_address a) = require_committee cfg a"
  by (simp_all add: deny_blacklisted_def require_committee_def list_contains_def)

lemma check_request_normal:
  "check_request env cfg (req\<lparr>sq_address := normalize_address (sq_address req)\<rparr>) purpose target
     = check_request env cfg req purpose target"
  by (simp add: check_request_def parse_domain_normal verify_signed_normal lists_normal)

lemma check_request_authentic:
  assumes "check_request env cfg req purpose target = Inr (payload, nonce)"
  shows "authentic env cfg (action_signature req purpose target payload nonce (body_hash (texts env) (sq_payload req)) sid now)"
proof -
  let ?s = "action_signature req purpose target payload nonce (body_hash (texts env) (sq_payload req)) sid now"
  have "request_of ?s (sq_payload req) = req\<lparr>sq_address := normalize_address (sq_address req)\<rparr>"
    using check_request_chain [OF assms] by (simp add: request_of_def action_signature_def)
  then have "check_request env cfg (request_of ?s (sq_payload req)) purpose target = Inr (payload, nonce)"
    using assms by (simp add: check_request_normal)
  then show ?thesis
    unfolding authentic_def by (auto simp: action_signature_def)
qed

definition all_authentic :: "('k, 's, 'w) voting_env \<Rightarrow> 'n voting_config \<Rightarrow> db \<Rightarrow> bool" where
  "all_authentic env cfg d \<longleftrightarrow> (\<forall>s\<in>set (signatures d). authentic env cfg s)"

lemma all_authentic_frame: "signatures d' = signatures d \<Longrightarrow> all_authentic env cfg d' = all_authentic env cfg d"
  by (simp add: all_authentic_def)

lemma signatures_kept:
  "insert_registration_intent row_id c wallet sid now d = Inr d' \<Longrightarrow> signatures d' = signatures d"
  "insert_draft pid c proposer title html canonical sections now d = Inr d' \<Longrightarrow> signatures d' = signatures d"
  "update_draft_sections pid title html canonical sections d = Inr d' \<Longrightarrow> signatures d' = signatures d"
  "freeze_proposal lib jsonb pid sid clock d = Inr (hs, d') \<Longrightarrow> signatures d' = signatures d"
  "insert_vote lib jsonb pid c wallet ch weight sid now d = Inr d' \<Longrightarrow> signatures d' = signatures d"
  "insert_comment cid pid c wallet html sid now d = Inr d' \<Longrightarrow> signatures d' = signatures d"
  "insert_analysis aid pid c wallet html sections sid now d = Inr d' \<Longrightarrow> signatures d' = signatures d"
  "insert_receipt_row row d = Inr d' \<Longrightarrow> signatures d' = signatures d"
  by (auto simp: insert_registration_intent_iff insert_draft_iff update_draft_sections_iff freeze_proposal_solved insert_comment_iff
      insert_receipt_row_iff dest!: insert_vote_Inr insert_analysis_Inr split: if_splits)

lemma record_signatures: "record_revision pid sid now d = Inr d' \<Longrightarrow> signatures d' = signatures d"
  unfolding record_revision_def
  by (rule foldR_invariant [where P = "\<lambda>e. signatures e = signatures d"]) (auto simp: Let_def split: if_splits)

interpretation authenticity: voting_statements env cfg "all_authentic env cfg" for env cfg
proof unfold_locales
  fix d d' req purpose target payload nonce sid now
  assume "all_authentic env cfg d" "check_request env cfg req purpose target = Inr (payload, nonce)"
    "insert_signature_row (action_signature req purpose target payload nonce (body_hash (texts env) (sq_payload req)) sid now) d = Inr d'"
  then show "all_authentic env cfg d'"
    by (auto simp: insert_signature_row_iff all_authentic_def intro: check_request_authentic)
qed (simp_all only: all_authentic_frame [OF signatures_kept(1)] all_authentic_frame [OF signatures_kept(2)]
      all_authentic_frame [OF signatures_kept(3)] all_authentic_frame [OF signatures_kept(4)] all_authentic_frame [OF signatures_kept(5)]
      all_authentic_frame [OF signatures_kept(6)] all_authentic_frame [OF signatures_kept(7)] all_authentic_frame [OF signatures_kept(8)]
      all_authentic_frame [OF record_signatures])

end
