(* ===== verification/VotingProps.thy ===== *)
theory VotingProps
  imports VotingHistory
begin

text \<open>
  The theorems about the voting API as a whole: every action is atomic and keeps the tables' integrity,
  what was recorded stays, recorded signatures are authentic, a repeated request returns the stored
  answer, opening a vote records the ledger's balances, and a tally never exceeds the snapshot.
\<close>

section \<open>Replays\<close>

lemma accept_action_Inr:
  assumes "accept_action env cfg req purpose target payload nonce s = (Inr sid, s1)"
  shows "committed s1 = committed s \<and>
     (\<exists>now. insert_signature_row (action_signature req purpose target payload nonce (body_hash (texts env) (sq_payload req)) sid now) (tx s)
        = Inr (tx s1))"
  using assms unfolding accept_action_def run_iff by auto

lemma begin_action_Inr:
  assumes "begin_action env cfg req purpose target s = (Inr (sid, prior, payload), s1)"
  shows "\<exists>nonce. check_request env cfg req purpose target = Inr (payload, nonce) \<and> committed s1 = committed s \<and>
     (let found = prior_action (chain_arg (sq_chain req)) (normalize_address (sq_address req)) nonce (committed s) in
      case prior of
        Some answer \<Rightarrow> found = Some (sid, body_hash (texts env) (sq_payload req), answer)
      | None \<Rightarrow> (\<exists>now. insert_signature_row (action_signature req purpose target payload nonce
                   (body_hash (texts env) (sq_payload req)) sid now) (committed s) = Inr (tx s1)))"
proof -
  obtain payload' nonce where checked: "check_request env cfg req purpose target = Inr (payload', nonce)"
    using assms by (cases "check_request env cfg req purpose target") (auto simp: begin_action_def bindA_def lift_def)
  let ?s0 = "s\<lparr>tx := committed s, tx_now := fst (read_clock env (world s))\<rparr>"
  let ?found = "prior_action (chain_arg (sq_chain req)) (normalize_address (sq_address req)) nonce (committed s)"
  have run: "(case ?found of
         Some (sid, old_hash, response) \<Rightarrow>
           if old_hash \<noteq> body_hash (texts env) (sq_payload req)
           then fail (VConflict ''nonce already consumed by different signed bytes'')
           else ret (sid, Some response, payload')
       | None \<Rightarrow> bindA (accept_action env cfg req purpose target payload' nonce) (\<lambda>sid. ret (sid, None, payload'))) ?s0
     = (Inr (sid, prior, payload), s1)"
    using assms by (simp add: begin_action_def bindA_def thenA_def lift_def checked begin_tx_def read_tx_def)
  show ?thesis
  proof (cases ?found)
    case None
    then obtain s2 where "accept_action env cfg req purpose target payload' nonce ?s0 = (Inr sid, s1)"
      and "prior = None" "payload = payload'"
      using run by (auto simp: bindA_def ret_def split: prod.splits sum.splits)
    with accept_action_Inr [OF this(1)] show ?thesis
      by (auto simp: checked None)
  next
    case (Some found)
    then show ?thesis
      using run by (cases found) (auto simp: checked fail_def ret_def split: if_splits)
  qed
qed

interpretation remembered: voting_statements env cfg
    "\<lambda>d. voting_ok (texts env) (jsonb_parse env) d \<and> row \<in> set (signatures d)" for env cfg row
proof -
  have keep: "row \<in> set (signatures d')" if "grown d d'" "row \<in> set (signatures d)" for d d'
    using that set_mono_prefix unfolding grown_def by blast
  show "voting_statements env cfg (\<lambda>d. voting_ok (texts env) (jsonb_parse env) d \<and> row \<in> set (signatures d))"
    by unfold_locales
      (use keep grow_rules voting_ok_kept in \<open>metis (no_types, lifting)\<close>)+
qed

lemma prior_action_remembered:
  assumes ok: "voting_ok lib jsonb d" and row: "row \<in> set (signatures d)" "sg_nonce row = Some nonce"
    and ans: "answered (sg_id row) x d"
  shows "prior_action (sg_chain row) (sg_wallet row) nonce d = Some (sg_id row, sg_payload_hash row, x)"
proof -
  let ?P = "\<lambda>s. sg_chain s = sg_chain row \<and> sg_wallet s = sg_wallet row \<and> sg_nonce s = Some nonce
                       \<and> find_row rc_signature (sg_id s) (receipts d) \<noteq> None"
  obtain r where r: "r \<in> set (receipts d)" "rc_signature r = sg_id row" "rc_response r = x"
    using ans by (auto simp: answered_def)
  have found: "find_row rc_signature (sg_id row) (receipts d) = Some r"
    using ok unique_by_find [OF _ r(1), of rc_signature] r(2) by (simp add: voting_ok_def keys_ok_def)
  have "\<exists>s. s \<in> set (signatures d) \<and> ?P s"
    using row found by auto
  then obtain s where s: "List.find ?P (signatures d) = Some s"
    by (cases "List.find ?P (signatures d)") (auto simp: find_None_iff)
  then have mem: "s \<in> set (signatures d)" "?P s"
    by (auto simp: find_Some_iff)
  have "s = row"
    by (rule unique_byD [of sg_nonce_key "filter (\<lambda>s. sg_nonce s \<noteq> None) (signatures d)"])
      (use ok row mem in \<open>simp_all add: voting_ok_def keys_ok_def sg_nonce_key_def\<close>)
  then show ?thesis
    unfolding prior_action_def s by (simp add: found r(3))
qed

text \<open>After a successful action its nonce leads to its answer.\<close>

lemma handle_remembers:
  assumes run: "handle env cfg request s = (Inr x, s')" and ok: "voting_ok (texts env) (jsonb_parse env) (committed s)"
  shows "\<exists>payload nonce sid. check_request env cfg (post_signed request) (post_purpose request) (post_target request) = Inr (payload, nonce)
     \<and> prior_action (chain_arg (sq_chain (post_signed request))) (normalize_address (sq_address (post_signed request))) nonce (committed s')
        = Some (sid, body_hash (texts env) (sq_payload (post_signed request)), x)"
proof -
  let ?req = "post_signed request"
  obtain sid prior payload s1 where begun: "begin_action env cfg ?req (post_purpose request) (post_target request) s = (Inr (sid, prior, payload), s1)"
    and rest: "(case prior of Some response \<Rightarrow> ret response | None \<Rightarrow> post_body env cfg request sid payload) s1 = (Inr x, s')"
    using run by (auto simp: handle_once once_def bindA_run)
  obtain nonce where checked: "check_request env cfg ?req (post_purpose request) (post_target request) = Inr (payload, nonce)"
    and same: "committed s1 = committed s"
    and found: "let found = prior_action (chain_arg (sq_chain ?req)) (normalize_address (sq_address ?req)) nonce (committed s) in
      case prior of
        Some answer \<Rightarrow> found = Some (sid, body_hash (texts env) (sq_payload ?req), answer)
      | None \<Rightarrow> (\<exists>now. insert_signature_row (action_signature ?req (post_purpose request) (post_target request) payload nonce
                   (body_hash (texts env) (sq_payload ?req)) sid now) (committed s) = Inr (tx s1))"
    using begin_action_Inr [OF begun] by blast
  show ?thesis
  proof (cases prior)
    case (Some answer)
    then show ?thesis
      using checked same found rest by (auto simp: ret_run)
  next
    case None
    then obtain now where inserted: "insert_signature_row (action_signature ?req (post_purpose request) (post_target request) payload nonce
                   (body_hash (texts env) (sq_payload ?req)) sid now) (committed s) = Inr (tx s1)"
      using found by auto
    define row where "row = action_signature ?req (post_purpose request) (post_target request) payload nonce
                   (body_hash (texts env) (sq_payload ?req)) sid now"
    have cols: "sg_id row = sid" "sg_nonce row = Some nonce" "sg_chain row = chain_arg (sq_chain ?req)"
      "sg_wallet row = normalize_address (sq_address ?req)" "sg_payload_hash row = body_hash (texts env) (sq_payload ?req)"
      by (simp_all add: row_def action_signature_def)
    have start: "voting_ok (texts env) (jsonb_parse env) (tx s1)" "row \<in> set (signatures (tx s1))"
      using inserted ok keep_signature unfolding row_def [symmetric] by (auto simp: insert_signature_row_iff)
    have body: "post_body env cfg request sid payload s1 = (Inr x, s')"
      using rest None by simp
    have "dbs (\<lambda>cm _. (voting_ok (texts env) (jsonb_parse env) cm \<and> row \<in> set (signatures cm)) \<and> answered sid x cm) s'"
      by (rule holdsD [OF remembered.body_kept _ body])
        (use start in \<open>simp add: dbs_def\<close>)
    then have "prior_action (sg_chain row) (sg_wallet row) nonce (committed s') = Some (sg_id row, sg_payload_hash row, x)"
      by (intro prior_action_remembered [of "texts env" "jsonb_parse env"]) (simp_all add: dbs_def cols)
    with checked show ?thesis
      by (auto simp: cols)
  qed
qed

lemma begin_replayed:
  assumes "check_request env cfg req purpose target = Inr (payload, nonce)"
    and "prior_action (chain_arg (sq_chain req)) (normalize_address (sq_address req)) nonce (committed s) = Some (sid, hash, x)"
  shows "begin_action env cfg req purpose target s =
     (let s' = s\<lparr>tx := committed s, tx_now := fst (read_clock env (world s))\<rparr> in
      if hash = body_hash (texts env) (sq_payload req) then (Inr (sid, Some x, payload), s')
      else (Inl (VConflict ''nonce already consumed by different signed bytes''), s'))"
  using assms by (simp add: begin_action_def bindA_def thenA_def lift_def begin_tx_def read_tx_def ret_def fail_def Let_def)

lemma replay_facts:
  assumes run: "handle env cfg request s = (Inr x, s')" and ok: "voting_ok (texts env) (jsonb_parse env) (committed s)"
    and later: "committed t = committed s'"
  shows "\<exists>t'. handle env cfg request t = (Inr x, t') \<and> committed t' = committed t"
proof -
  from handle_remembers [OF run ok] obtain payload nonce sid where
    "check_request env cfg (post_signed request) (post_purpose request) (post_target request) = Inr (payload, nonce)"
    "prior_action (chain_arg (sq_chain (post_signed request))) (normalize_address (sq_address (post_signed request))) nonce (committed t)
        = Some (sid, body_hash (texts env) (sq_payload (post_signed request)), x)"
    by (auto simp: later)
  then show ?thesis
    by (simp add: handle_once once_def bindA_def begin_replayed ret_def Let_def)
qed

lemma reuse_facts:
  assumes run: "handle env cfg request s = (Inr x, s')" and ok: "voting_ok (texts env) (jsonb_parse env) (committed s)"
    and later: "committed t = committed s'"
    and first: "check_request env cfg (post_signed request) (post_purpose request) (post_target request) = Inr (p, nonce)"
    and second: "check_request env cfg (post_signed other) (post_purpose other) (post_target other) = Inr (q, nonce)"
    and wallet: "sq_chain (post_signed other) = sq_chain (post_signed request)"
      "normalize_address (sq_address (post_signed other)) = normalize_address (sq_address (post_signed request))"
    and differ: "body_hash (texts env) (sq_payload (post_signed other)) \<noteq> body_hash (texts env) (sq_payload (post_signed request))"
  shows "\<exists>t'. handle env cfg other t = (Inl (VConflict ''nonce already consumed by different signed bytes''), t') \<and> committed t' = committed t"
proof -
  from handle_remembers [OF run ok] first obtain sid where
    "prior_action (chain_arg (sq_chain (post_signed other))) (normalize_address (sq_address (post_signed other))) nonce (committed t)
        = Some (sid, body_hash (texts env) (sq_payload (post_signed request)), x)"
    by (auto simp: later wallet)
  with second differ show ?thesis
    by (simp add: handle_once once_def bindA_def begin_replayed Let_def)
qed

text \<open>
  C14. Running a request again, at any later time on the same database, returns the answer of the first
  run and changes nothing.
\<close>

theorem voting_action_replay:
  assumes "handle env cfg request s = (Inr x, s')" and "voting_ok (texts env) (jsonb_parse env) (committed s)"
    and "committed t = committed s'"
  shows "\<exists>t'. handle env cfg request t = (Inr x, t') \<and> committed t' = committed t"
  by (rule replay_facts [OF assms])

theorem voting_action_replay_witness:
  "\<exists>x s' t'. handle sample_voting_env sample_voting_config sample_vote (api_pool poll_db) = (Inr x, s')
     \<and> handle sample_voting_env sample_voting_config sample_vote (api_pool (committed s')) = (Inr x, t')
     \<and> committed t' = committed s'"
proof -
  obtain x s' where run: "handle sample_voting_env sample_voting_config sample_vote (api_pool poll_db) = (Inr x, s')"
    using sample_vote_accepted by blast
  have "voting_ok (texts sample_voting_env) (jsonb_parse sample_voting_env) (committed (api_pool poll_db))"
    by (simp add: api_pool_def poll_db_ok)
  from voting_action_replay [OF run this, of "api_pool (committed s')"] run show ?thesis
    by (auto simp: api_pool_def)
qed

text \<open>
  C15. A nonce that a wallet has used cannot be used again for other signed bytes: the request is
  refused as a conflict and nothing changes.
\<close>

theorem voting_nonce_conflict:
  assumes "handle env cfg request s = (Inr x, s')" and "voting_ok (texts env) (jsonb_parse env) (committed s)"
    and "committed t = committed s'"
    and "check_request env cfg (post_signed request) (post_purpose request) (post_target request) = Inr (p, nonce)"
    and "check_request env cfg (post_signed other) (post_purpose other) (post_target other) = Inr (q, nonce)"
    and "sq_chain (post_signed other) = sq_chain (post_signed request)"
    and "normalize_address (sq_address (post_signed other)) = normalize_address (sq_address (post_signed request))"
    and "body_hash (texts env) (sq_payload (post_signed other)) \<noteq> body_hash (texts env) (sq_payload (post_signed request))"
  shows "\<exists>t'. handle env cfg other t = (Inl (VConflict ''nonce already consumed by different signed bytes''), t') \<and> committed t' = committed t"
  by (rule reuse_facts [OF assms])

lemma sample_register_checked:
  "check_request sample_voting_env sample_voting_config (post_signed sample_register) (post_purpose sample_register) (post_target sample_register)
     = Inr (sample_action ''register'' None, str ''register'')"
  "check_request sample_voting_env sample_voting_config (post_signed sample_again) (post_purpose sample_again) (post_target sample_again)
     = Inr (sample_action ''register'' None, str ''register'')"
  by code_simp+

theorem voting_nonce_conflict_witness:
  "\<exists>x s' t'. handle sample_voting_env sample_voting_config sample_register (api_pool initial_db) = (Inr x, s')
     \<and> handle sample_voting_env sample_voting_config sample_again (api_pool (committed s'))
        = (Inl (VConflict ''nonce already consumed by different signed bytes''), t') \<and> committed t' = committed s'"
proof -
  obtain x s' where run: "handle sample_voting_env sample_voting_config sample_register (api_pool initial_db) = (Inr x, s')"
    using sample_register_accepted by blast
  have ok: "voting_ok (texts sample_voting_env) (jsonb_parse sample_voting_env) (committed (api_pool initial_db))"
    by (simp add: api_pool_def voting_ok_initial)
  have pool: "committed (api_pool (committed s')) = committed s'"
    by (simp add: api_pool_def)
  have "sq_chain (post_signed sample_again) = sq_chain (post_signed sample_register)"
    "normalize_address (sq_address (post_signed sample_again)) = normalize_address (sq_address (post_signed sample_register))"
    "body_hash (texts sample_voting_env) (sq_payload (post_signed sample_again)) \<noteq> body_hash (texts sample_voting_env) (sq_payload (post_signed sample_register))"
    by (simp_all add: sample_again_def sample_register_def sample_signed_def post_signed_def body_hash_def sample_voting_env_def sample_texts_def)
  from voting_nonce_conflict [OF run ok pool sample_register_checked this] run pool show ?thesis
    by auto
qed

section \<open>Every action\<close>

text \<open>
  C2. Every mutating request, whatever it asks and whatever the clock and the identifiers drawn, keeps the
  integrity of the voting tables; a request that fails leaves the database as it was.
\<close>

theorem voting_action_integrity:
  assumes "handle env cfg request s = (r, s')" and "voting_ok (texts env) (jsonb_parse env) (committed s)"
  shows "voting_ok (texts env) (jsonb_parse env) (committed s') \<and> (\<forall>e. r = Inl e \<longrightarrow> committed s' = committed s)"
  using integrity.handle_kept [OF assms(2), of cfg request] assms
  unfolding holds_def dbs_def by (fastforce split: sum.splits)

theorem voting_action_integrity_witness:
  "\<exists>x s'. handle sample_voting_env sample_voting_config sample_vote (api_pool poll_db) = (Inr x, s')
     \<and> votes_ok sample_texts sample_parse (committed s') \<and> length (votes (committed s')) = 1"
proof -
  obtain x s' where run: "handle sample_voting_env sample_voting_config sample_vote (api_pool poll_db) = (Inr x, s')"
    and votes: "map vt_weight (votes (committed s')) = [5]"
    by (rule exE [OF sample_vote_accepted]) auto
  have "voting_ok (texts sample_voting_env) (jsonb_parse sample_voting_env) (committed (api_pool poll_db))"
    by (simp add: api_pool_def poll_db_ok)
  from voting_action_integrity [OF run this] run show ?thesis
    using arg_cong [OF votes, of length] by (auto simp: voting_ok_def sample_voting_env_def)
qed

text \<open>
  No action takes anything back: an opened proposal stays as it is, a draft keeps its identity and its
  revision never falls, every recorded table only grows, and the ledger's tables are not touched.
\<close>

theorem voting_action_append_only:
  assumes "handle env cfg request s = (r, s')"
  shows "grown (committed s) (committed s')"
  using history.handle_kept [OF grown_refl, of "committed s" env cfg request] assms
  unfolding holds_def dbs_def by (fastforce split: sum.splits)

theorem voting_action_append_only_witness:
  "\<exists>x s'. handle sample_voting_env sample_voting_config sample_vote (api_pool poll_db) = (Inr x, s')
     \<and> prefix (snapshots poll_db) (snapshots (committed s')) \<and> open_row \<in> set (proposals (committed s'))"
proof -
  obtain x s' where run: "handle sample_voting_env sample_voting_config sample_vote (api_pool poll_db) = (Inr x, s')"
    using sample_vote_accepted by blast
  from voting_action_append_only [OF run] have grown: "grown poll_db (committed s')"
    by (simp add: api_pool_def)
  have "open_row \<in> set (proposals poll_db)" "pr_status open_row = Open"
    by (simp_all add: poll_db_def open_row_def)
  with grown run show ?thesis
    unfolding grown_def kept_by_def by blast
qed

text \<open>
  C13. Every recorded signature is authentic: read again as a request, it passes the checks of an incoming
  request, so it was made by the recorded wallet over the recorded payload, for the recorded purpose
  and proposal.
\<close>

theorem voting_signatures_authentic:
  assumes "handle env cfg request s = (r, s')" and "all_authentic env cfg (committed s)"
  shows "all_authentic env cfg (committed s')"
  using authenticity.handle_kept [OF assms(2), of request] assms
  unfolding holds_def dbs_def by (fastforce split: sum.splits)

theorem voting_signatures_authentic_witness:
  "\<exists>x s'. handle sample_voting_env sample_voting_config sample_vote (api_pool poll_db) = (Inr x, s')
     \<and> all_authentic sample_voting_env sample_voting_config (committed s')"
proof -
  obtain x s' where run: "handle sample_voting_env sample_voting_config sample_vote (api_pool poll_db) = (Inr x, s')"
    using sample_vote_accepted by blast
  have "all_authentic sample_voting_env sample_voting_config (committed (api_pool poll_db))"
    by (simp add: all_authentic_def api_pool_def poll_db_def initial_db_def)
  from voting_signatures_authentic [OF run this] run show ?thesis
    by blast
qed

section \<open>A draft that cannot move\<close>

text \<open>A stored body the preparation refuses stops the two actions that prepare it again.\<close>

lemma action_success:
  assumes "once (begin_action env cfg req purpose target) body s = (Inr x, s')"
  obtains (replayed) "committed s' = committed s"
    | (ran) sid payload s1 where "body sid payload s1 = (Inr x, s')" "proposals (tx s1) = proposals (committed s)"
proof -
  obtain sid prior payload s1 where begun: "begin_action env cfg req purpose target s = (Inr (sid, prior, payload), s1)"
    and rest: "(case prior of Some response \<Rightarrow> ret response | None \<Rightarrow> body sid payload) s1 = (Inr x, s')"
    using assms by (auto simp: once_def bindA_run)
  note start = begin_action_Inr [OF begun]
  show thesis
  proof (cases prior)
    case (Some response)
    with rest start show thesis by (intro replayed) (auto simp: ret_run)
  next
    case None
    with start obtain row where "insert_signature_row row (committed s) = Inr (tx s1)"
      by (auto simp: Let_def)
    with None rest show thesis
      by (intro ran) (auto simp: insert_signature_row_iff)
  qed
qed

lemma refused_draft_stays:
  assumes stored: "vget_proposal (committed s) pid = Some q" "pr_body_sections q = Some body"
    and refused: "prepare_sections (texts env) body = Inl e"
    and request: "request \<in> range (PutSections pid) \<union> range (PostOpen pid)"
    and run: "handle env cfg request s = (r, s')"
  shows "committed s' = committed s"
proof (cases r)
  case (Inl e)
  with run holds_errorD [OF history.handle_kept [OF grown_refl, of "committed s" env cfg request], of s e s'] show ?thesis
    by (simp add: dbs_def)
next
  case (Inr x)
  have opened: "open_checks env pid oreq payload q \<noteq> Inr ()" for oreq payload
    using stored(2) refused by (auto simp: open_checks_def result_iff)
  have amended: "amend_checks env pid mreq payload q \<noteq> Inr prep" for mreq payload prep
    using stored(2) refused by (auto simp: amend_checks_def result_iff)
  have "once (begin_action env cfg (post_signed request) (post_purpose request) (post_target request)) (post_body env cfg request) s
      = (Inr x, s')"
    using run Inr by (simp add: handle_once)
  then show ?thesis
  proof (cases rule: action_success)
    case (ran sid payload s1)
    have "vget_proposal (tx s1) pid = Some q"
      using stored(1) ran(2) by (simp add: vget_proposal_def)
    with ran(1) request opened amended show ?thesis
      by (auto simp: post_body_def amend_body_def open_body_def fetch_proposal_def run_iff)
  qed
qed

text \<open>
  C30. The size limit counts the submitted and the cleaned text together, so a text that grows when it
  is cleaned can be accepted in a form that is then refused. A body whose solution is a run of a few
  thousand ampersands, each written as \<open>&amp;\<close> by the sanitizer's HTML serialization, is accepted as a
  draft; the stored form is refused as too large when it is prepared again, so no request to open
  or to amend that draft ever changes anything.
\<close>

theorem accepted_body_refused_when_stored:
  assumes "escapes_ampersands (texts env)" and "prints_compactly (texts env)" and "6394 \<le> n" and "n \<le> 10762"
  shows "\<exists>p. prepare_sections (texts env) (JObj (ampersand_body n)) = Inr p
     \<and> prepare_sections (texts env) (JObj (pp_sanitized p)) = Inl (VBadRequest ''proposal too large'')
     \<and> (\<forall>s pid q request r s'. vget_proposal (committed s) pid = Some q
          \<longrightarrow> pr_body_sections q = Some (JObj (pp_sanitized p))
          \<longrightarrow> request \<in> range (PutSections pid) \<union> range (PostOpen pid)
          \<longrightarrow> handle env cfg request s = (r, s') \<longrightarrow> committed s' = committed s)"
proof -
  let ?p = "prepared_of (texts env) (ampersand_body n)"
  have "prepare_sections (texts env) (JObj (ampersand_body n)) = Inr ?p"
    by (rule ampersand_accepted [OF assms(1,2)]) (use assms(3,4) in simp_all)
  moreover have refused: "prepare_sections (texts env) (JObj (pp_sanitized ?p)) = Inl (VBadRequest ''proposal too large'')"
    by (rule ampersand_refused [OF assms(1,3)])
  ultimately show ?thesis
    using refused_draft_stays [OF _ _ refused] by blast
qed

theorem accepted_body_refused_when_stored_witness:
  "\<exists>p. prepare_sections escaping_lib (JObj (ampersand_body 7000)) = Inr p
     \<and> prepare_sections escaping_lib (JObj (pp_sanitized p)) = Inl (VBadRequest ''proposal too large'')"
  using accepted_body_refused_when_stored [where env = "sample_voting_env\<lparr>texts := escaping_lib\<rparr>" and n = 7000
      and cfg = sample_voting_config] escaping_lib_ok
  by auto

end
