(* ===== verification/Tally.thy ===== *)
theory Tally
  imports VotingProps
begin

text \<open>
  The tally of a poll against its snapshot: a tally counts every vote once under its choice, and the
  weights it adds up are those of distinct snapshot rows, so it never exceeds the frozen power.
\<close>

section \<open>Grouping by choice\<close>

definition of_choice :: "vote_row list \<Rightarrow> vote_choice \<Rightarrow> vote_row list" where
  "of_choice vs ch = filter (\<lambda>v. vt_choice v = ch) vs"

text \<open>The choices are the enumeration of their type, in the order a tally lists them.\<close>

instantiation vote_choice :: enum
begin

definition enum_vote_choice :: "vote_choice list" where
  "enum_vote_choice = [VoteFor, VoteAgainst, VoteAbstain]"

definition enum_all_vote_choice :: "(vote_choice \<Rightarrow> bool) \<Rightarrow> bool" where
  "enum_all_vote_choice P \<longleftrightarrow> P VoteFor \<and> P VoteAgainst \<and> P VoteAbstain"

definition enum_ex_vote_choice :: "(vote_choice \<Rightarrow> bool) \<Rightarrow> bool" where
  "enum_ex_vote_choice P \<longleftrightarrow> P VoteFor \<or> P VoteAgainst \<or> P VoteAbstain"

instance
proof
  show "UNIV = set (enum_class.enum :: vote_choice list)" "distinct (enum_class.enum :: vote_choice list)"
    by (auto simp: enum_vote_choice_def intro: vote_choice.exhaust)
  show "enum_class.enum_all P \<longleftrightarrow> Ball UNIV P" "enum_class.enum_ex P \<longleftrightarrow> Bex UNIV P" for P :: "vote_choice \<Rightarrow> bool"
    unfolding enum_all_vote_choice_def enum_ex_vote_choice_def by (metis (full_types) UNIV_I vote_choice.exhaust)+
qed

end

lemma sum_by_choice:
  fixes f :: "vote_row \<Rightarrow> int"
  shows "sum_list (map (\<lambda>ch. sum_list (map f (of_choice vs ch))) enum_class.enum) = sum_list (map f vs)"
proof (induction vs)
  case (Cons v vs)
  then show ?case
    by (cases "vt_choice v") (simp_all add: of_choice_def enum_vote_choice_def)
qed (simp add: of_choice_def enum_vote_choice_def)

text \<open>Choices without a vote have no row and add nothing.\<close>

lemma sum_skip:
  fixes g :: "'a \<Rightarrow> int"
  shows "(\<And>x. x \<in> set xs \<Longrightarrow> \<not> p x \<Longrightarrow> g x = 0) \<Longrightarrow> sum_list (map g (filter p xs)) = sum_list (map g xs)"
  by (induction xs) auto

lemma tally_rows:
  "tally d pid = map (\<lambda>ch. \<lparr>ta_choice = ch, ta_weight = sum_list (map vt_weight (of_choice (filter (\<lambda>v. vt_proposal v = pid) (votes d)) ch)),
       ta_voters = int (length (of_choice (filter (\<lambda>v. vt_proposal v = pid) (votes d)) ch))\<rparr>)
     (filter (\<lambda>ch. of_choice (filter (\<lambda>v. vt_proposal v = pid) (votes d)) ch \<noteq> []) enum_class.enum)"
proof -
  have "list_ex (\<lambda>v. vt_choice v = ch) vs \<longleftrightarrow> of_choice vs ch \<noteq> []" for ch vs
    by (auto simp: of_choice_def list_ex_iff filter_empty_conv)
  then show ?thesis
    by (simp add: tally_def of_choice_def enum_vote_choice_def Let_def)
qed

lemma tally_totals:
  assumes "vs = filter (\<lambda>v. vt_proposal v = pid) (votes d)"
  shows "sum_list (map ta_weight (tally d pid)) = sum_list (map vt_weight vs)"
    and "sum_list (map ta_voters (tally d pid)) = int (length vs)"
proof -
  have weight: "sum_list (map ta_weight (tally d pid)) =
      sum_list (map (\<lambda>ch. sum_list (map vt_weight (of_choice vs ch))) (filter (\<lambda>ch. of_choice vs ch \<noteq> []) enum_class.enum))"
    and voters: "sum_list (map ta_voters (tally d pid)) =
      sum_list (map (\<lambda>ch. sum_list (map (\<lambda>_. 1) (of_choice vs ch))) (filter (\<lambda>ch. of_choice vs ch \<noteq> []) enum_class.enum))"
    by (simp_all add: tally_rows assms comp_def sum_list_triv)
  show "sum_list (map ta_weight (tally d pid)) = sum_list (map vt_weight vs)"
    unfolding weight by (subst sum_skip) (auto simp: sum_by_choice)
  show "sum_list (map ta_voters (tally d pid)) = int (length vs)"
    unfolding voters using sum_by_choice [of "\<lambda>_. 1" vs] by (subst sum_skip) (auto simp: sum_list_triv)
qed

section \<open>The bound\<close>

lemma sum_list_unique:
  fixes f :: "'r \<Rightarrow> int"
  assumes "unique_by key t"
  shows "sum_list (map f t) = (\<Sum>k\<in>key ` set t. f (the (find_row key k t)))"
proof -
  have "distinct t" and inj: "inj_on key (set t)"
    using assms by (simp_all add: unique_by_def distinct_map)
  then have "sum_list (map f t) = (\<Sum>r\<in>set t. f r)"
    by (simp add: sum_list_distinct_conv_sum_set)
  also have "\<dots> = (\<Sum>r\<in>set t. f (the (find_row key (key r) t)))"
    by (rule sum.cong) (simp_all add: unique_by_find [OF assms])
  also have "\<dots> = (\<Sum>k\<in>key ` set t. f (the (find_row key k t)))"
    by (simp add: sum.reindex [OF inj])
  finally show ?thesis .
qed

lemma vote_weight_bound:
  assumes ok: "voting_ok lib jsonb d"
  shows "sum_list (map vt_weight (filter (\<lambda>v. vt_proposal v = pid) (votes d)))
     \<le> sum_list (map sn_weight (filter (\<lambda>w. sn_proposal w = pid \<and> 0 < sn_weight w) (snapshots d)))"
proof -
  let ?vs = "filter (\<lambda>v. vt_proposal v = pid) (votes d)"
  let ?ws = "filter (\<lambda>w. sn_proposal w = pid \<and> 0 < sn_weight w) (snapshots d)"
  have uniq: "unique_by vt_key ?vs" "unique_by sn_key ?ws"
    using ok by (simp_all add: voting_ok_def keys_ok_def)
  have row: "\<exists>w\<in>set ?ws. sn_key w = vt_key v \<and> sn_weight w = vt_weight v" if v: "v \<in> set ?vs" for v
  proof -
    obtain p w s where "w \<in> set (snapshots d)" "vote_backed lib jsonb v p w s"
      using ok v unfolding voting_ok_def votes_ok_def by auto
    then show ?thesis
      using v by (auto simp: vote_backed_def sn_key_def vt_key_def intro!: bexI [of _ w])
  qed
  have same: "vt_weight (the (find_row vt_key k ?vs)) = sn_weight (the (find_row sn_key k ?ws))" if k: "k \<in> vt_key ` set ?vs" for k
  proof -
    obtain v where v: "v \<in> set ?vs" "k = vt_key v" using k by blast
    obtain w where w: "w \<in> set ?ws" "sn_key w = k" "sn_weight w = vt_weight v"
      using row [OF v(1)] v(2) by auto
    show ?thesis
      using unique_by_find [OF uniq(1) v(1)] unique_by_find [OF uniq(2) w(1)] v(2) w(2,3) by simp
  qed
  have "sum_list (map vt_weight ?vs) = (\<Sum>k\<in>vt_key ` set ?vs. sn_weight (the (find_row sn_key k ?ws)))"
    unfolding sum_list_unique [OF uniq(1)] by (rule sum.cong) (use same in auto)
  also have "\<dots> \<le> (\<Sum>k\<in>sn_key ` set ?ws. sn_weight (the (find_row sn_key k ?ws)))"
  proof (rule sum_mono2)
    show "vt_key ` set ?vs \<subseteq> sn_key ` set ?ws"
    proof
      fix k assume "k \<in> vt_key ` set ?vs"
      then obtain v where v: "v \<in> set ?vs" "k = vt_key v" by blast
      from row [OF v(1)] v(2) show "k \<in> sn_key ` set ?ws" by force
    qed
    show "0 \<le> sn_weight (the (find_row sn_key k ?ws))" if k: "k \<in> sn_key ` set ?ws - vt_key ` set ?vs" for k
    proof -
      obtain w where "w \<in> set ?ws" "k = sn_key w" using k by blast
      then show ?thesis using unique_by_find [OF uniq(2)] by fastforce
    qed
  qed simp
  finally show ?thesis
    unfolding sum_list_unique [OF uniq(2)] .
qed

text \<open>
  C16. A tally counts each vote of the proposal once, and its total weight is at most the frozen power:
  the sum of the positive snapshot weights of the proposal.
\<close>

theorem tally_within_snapshot:
  assumes "voting_ok lib jsonb d"
  shows "distinct (map ta_choice (tally d pid))
     \<and> sum_list (map ta_voters (tally d pid)) = int (card (vt_key ` {v \<in> set (votes d). vt_proposal v = pid}))
     \<and> sum_list (map ta_weight (tally d pid)) \<le> sum_list (map sn_weight (filter (\<lambda>w. sn_proposal w = pid \<and> 0 < sn_weight w) (snapshots d)))"
proof -
  let ?vs = "filter (\<lambda>v. vt_proposal v = pid) (votes d)"
  have "unique_by vt_key ?vs"
    using assms by (simp add: voting_ok_def keys_ok_def)
  then have "card (vt_key ` set ?vs) = length ?vs"
    by (metis distinct_card length_map set_map unique_by_def)
  moreover have "distinct (map ta_choice (tally d pid))"
    by (simp add: tally_rows comp_def enum_vote_choice_def)
  ultimately show ?thesis
    using tally_totals [of ?vs pid d] vote_weight_bound [OF assms, of pid] by simp
qed

definition voted_db :: db where
  "voted_db = poll_db\<lparr>signatures := [\<lparr>sg_id = 1, sg_chain = Bsc, sg_wallet = str ''0xab'', sg_pubkey = None, sg_signature = [],
       sg_payload_hash = [], sg_purpose = str ''vote'', sg_created_at = 0, sg_signed_payload = Some (str ''vote''), sg_scheme = None,
       sg_domain = None, sg_nonce = None, sg_proposal = Some 7, sg_revision = None\<rparr>],
     votes := [\<lparr>vt_proposal = 7, vt_wallet = str ''0xab'', vt_chain = Bsc, vt_choice = VoteFor, vt_weight = 5, vt_signature = 1,
       vt_created_at = 0\<rparr>]\<rparr>"

theorem tally_within_snapshot_witness:
  "map ta_weight (tally voted_db 7) = [5] \<and> sum_list (map ta_voters (tally voted_db 7)) = 1
     \<and> sum_list (map ta_weight (tally voted_db 7)) \<le> 5"
proof -
  have "cast_jsonb sample_parse (Some (str ''vote'')) = Inr (payload_json (sample_action ''vote'' (Some 7)))"
    "jsonb_text sample_texts (payload_json (sample_action ''vote'' (Some 7))) ''choice'' = Some (choice_str VoteFor)"
    by code_simp+
  then have "voting_ok sample_texts sample_parse voted_db"
    using poll_db_ok [of sample_texts sample_parse]
    by (auto simp: voting_ok_defs voted_db_def poll_db_def initial_db_def comment_total_def analysis_count_def unique_by_def
        vote_backed_def open_row_def sn_key_def vt_key_def)
  from tally_within_snapshot [OF this, of 7] show ?thesis
    by (simp add: tally_rows voted_db_def poll_db_def enum_vote_choice_def of_choice_def)
qed

end
