(* ===== verification/Providers.thy ===== *)
theory Providers
  imports Effects LedgerConfig
begin

text \<open>
  What the ledger's components see of the chain clients: the operations of \<open>LcdClient\<close>,
  \<open>BscClient\<close> and the \<open>LiveBalanceSource\<close> trait as a record of network actions over an
  arbitrary world. A client is identified by its provider URLs, so a client pinned to one provider
  (the \<open>source\<close> of a snapshot) is the one-element list. Every theorem about a caller holds for
  every such record, whatever the providers answer. \<open>finality_polls\<close> is how many polls the
one-minute deadline of a reconciliation leaves room for.
\<close>

type_synonym ('w, 'a) net = "'w \<Rightarrow> (ledger_error + 'a) \<times> 'w"

type_synonym urls = "ustring list"

section \<open>Snapshots\<close>

record live_balance =
  lb_height :: int
  lb_amount :: int
  lb_block_hash :: ustring

record live_balances =
  lbs_height :: int
  lbs_block_hash :: ustring
  lbs_balances :: "int list"

text \<open>One transaction of a block: its hash and the result of decoding its \<open>wasm\<close> events.\<close>

record execution =
  ex_tx_hash :: ustring
  ex_wasm_events :: "cw20_event list ledger_result"

record terra_block =
  tb_hash :: ustring
  tb_executions :: "execution list"
  tb_tip :: int
  tb_source :: urls

record bsc_range =
  br_to :: int
  br_tip :: int
  br_end_hash :: ustring
  br_logs :: "bep20_log list"
  br_hashes :: "(int \<times> ustring) list"
  br_source :: urls

text \<open>
  How a bounded wait ends: in time, cut before the callee committed anything, or cut after it
  committed but before it answered.
\<close>

datatype deadline = InTime | CutBefore | CutAfter

section \<open>The operations\<close>

record 'w network =
  clock :: "'w \<Rightarrow> int"
  lcd_canonical_block :: "urls \<Rightarrow> int \<Rightarrow> ('w, terra_block) net"
  lcd_block_hash :: "urls \<Rightarrow> int \<Rightarrow> ('w, ustring) net"
  lcd_latest_height_at_least :: "urls \<Rightarrow> int \<Rightarrow> ('w, int) net"
  bsc_canonical_range ::
    "urls \<Rightarrow> bool \<Rightarrow> ustring \<Rightarrow> int \<Rightarrow> int \<Rightarrow> (int \<times> ustring option) list \<Rightarrow> ('w, bsc_range) net"
  bsc_finish_range :: "urls \<Rightarrow> int \<Rightarrow> ustring \<Rightarrow> ('w, int) net"
  bsc_block_hash :: "urls \<Rightarrow> int \<Rightarrow> ('w, ustring) net"
  bsc_block_number_at_least :: "urls \<Rightarrow> int \<Rightarrow> ('w, int) net"
  terra_live_balance :: "ustring \<Rightarrow> ('w, live_balance) net"
  bsc_live_balance :: "ustring \<Rightarrow> ('w, live_balance) net"
  bulk_live_balances :: "chain \<Rightarrow> ustring list \<Rightarrow> ('w, live_balances) net"
  lcd_latest_height :: "urls \<Rightarrow> ('w, int) net"
  bsc_block_number :: "urls \<Rightarrow> ('w, int) net"
  finality_polls :: "'w \<Rightarrow> nat"
  register_deadline :: "uuid \<Rightarrow> 'w \<Rightarrow> deadline"

definition BSC_FINALITY_DEPTH :: int where
  "BSC_FINALITY_DEPTH = 15"

definition chain_block_hash :: "'w network \<Rightarrow> chain \<Rightarrow> urls \<Rightarrow> int \<Rightarrow> ('w, ustring) net" where
  "chain_block_hash net c urls height =
     (case c of Terra \<Rightarrow> lcd_block_hash net urls height | Bsc \<Rightarrow> bsc_block_hash net urls height)"

text \<open>
  A small network over no state: every block exists, has one fixed hash and holds no transactions,
  and the head is at 1000.
\<close>

definition quiet_hash :: ustring where
  "quiet_hash = str ''bb''"

definition quiet_network :: "unit network" where
  "quiet_network = \<lparr>clock = (\<lambda>_. 0),
     lcd_canonical_block = (\<lambda>urls h w. (Inr \<lparr>tb_hash = quiet_hash, tb_executions = [], tb_tip = 1000, tb_source = urls\<rparr>, w)),
     lcd_block_hash = (\<lambda>urls h w. (Inr quiet_hash, w)),
     lcd_latest_height_at_least = (\<lambda>urls m w. (Inr 1000, w)),
     bsc_canonical_range = (\<lambda>urls plan token from to bs w.
       (if 0 \<le> to \<and> to \<le> 1000
        then Inr \<lparr>br_to = to, br_tip = 1000, br_end_hash = quiet_hash, br_logs = [],
                  br_hashes = [(to, quiet_hash)], br_source = urls\<rparr>
        else Inl (Provider ''unfinalized_bsc_range''), w)),
     bsc_finish_range = (\<lambda>urls h hash w. (Inr 1000, w)),
     bsc_block_hash = (\<lambda>urls h w. (Inr quiet_hash, w)),
     bsc_block_number_at_least = (\<lambda>urls m w. (Inr 1000, w)),
     terra_live_balance = (\<lambda>a w. (Inr \<lparr>lb_height = 1000, lb_amount = 5,
       lb_block_hash = replicate 64 98\<rparr>, w)),
     bsc_live_balance = (\<lambda>a w. (Inr \<lparr>lb_height = 1000, lb_amount = 5,
       lb_block_hash = str ''0x'' @ replicate 64 98\<rparr>, w)),
     bulk_live_balances = (\<lambda>c ws w. (Inr \<lparr>lbs_height = 1000, lbs_block_hash = quiet_hash,
       lbs_balances = map (\<lambda>_. 5) ws\<rparr>, w)),
     lcd_latest_height = (\<lambda>urls w. (Inr 1000, w)),
     bsc_block_number = (\<lambda>urls w. (Inr 1015, w)),
     finality_polls = (\<lambda>w. 3),
     register_deadline = (\<lambda>_ _. InTime)\<rparr>"

end
