(* ===== verification/Ingest.thy ===== *)
theory Ingest
  imports Providers
begin

text \<open>
  Block ingestion and fork handling (\<open>ledger/src/ingest.rs\<close>). Each function is one transaction
  over the pool with the network calls at their places; \<open>cfg\<close> supplies the pinned token. The
  theorems show what an ingest or a canonicality check can do to the books for every behaviour of
  the providers.
\<close>

section \<open>Windows and admission\<close>

definition INGEST_CHUNK :: int where "INGEST_CHUNK = 32"
definition INGEST_STALE_GAP :: int where "INGEST_STALE_GAP = 10000"

record ingest_window_t =
  iw_start :: int
  iw_end :: int
  iw_jumped_to_tip :: bool

definition ingest_window :: "int \<Rightarrow> int \<Rightarrow> int \<Rightarrow> int \<Rightarrow> ingest_window_t option" where
  "ingest_window last_h tip chunk stale_gap =
     (if tip \<le> 0 \<or> last_h \<ge> tip then None
      else (let start = (if last_h \<le> 0 then tip else last_h + 1) in
        Some \<lparr>iw_start = start, iw_end = min (sat_add start (max chunk 1 - 1)) tip,
              iw_jumped_to_tip = (last_h \<le> 0)\<rparr>))"

definition admit_contiguous :: "chain \<Rightarrow> int \<Rightarrow> db \<Rightarrow> unit ledger_result" where
  "admit_contiguous c from d =
     (case checkpoints d c of
        Some cp \<Rightarrow> if cp_height cp > 0 \<and> from > cp_height cp + 1
                   then Inl (Provider ''noncontiguous_ingest'') else Inr ()
      | None \<Rightarrow> Inr ())"

section \<open>Registration baselines\<close>

definition unverified_baselines :: "chain \<Rightarrow> int \<Rightarrow> db \<Rightarrow> registration list" where
  "unverified_baselines c to d =
     filter (\<lambda>r. vr_chain r = c \<and> is_active r \<and> \<not> vr_baseline_verified r \<and> baseline_of r \<le> to)
       (registrations d)"

definition mark_verified :: "chain \<Rightarrow> ustring \<Rightarrow> db \<Rightarrow> db" where
  "mark_verified c wallet d =
     d\<lparr>registrations := update_where (\<lambda>r. vr_chain r = c \<and> vr_wallet r = wallet)
         (\<lambda>r. r\<lparr>vr_baseline_verified := True\<rparr>) (registrations d)\<rparr>"

text \<open>The loop keeps the hashes it fetched; a mismatch degrades the chain on the pool.\<close>

fun verify_baselines_loop ::
    "'w network \<Rightarrow> chain \<Rightarrow> urls \<Rightarrow> (int \<times> ustring) list \<Rightarrow> registration list \<Rightarrow> ('w, unit) act" where
  "verify_baselines_loop net c urls hashes [] = ret ()"
| "verify_baselines_loop net c urls hashes (r # rs) =
     bindA (case map_of hashes (baseline_of r) of
              Some h \<Rightarrow> ret h
            | None \<Rightarrow> call (chain_block_hash net c urls (baseline_of r)))
       (\<lambda>actual.
        thenA (if vr_baseline_hash r \<noteq> Some actual
               then thenA (on_pool (clock net) (\<lambda>_. degrade c (str ''registration_baseline_orphaned'')))
                          (fail (Provider ''registration_baseline_orphaned''))
               else in_tx (\<lambda>_ d. Inr (mark_verified c (vr_wallet r) d)))
          (verify_baselines_loop net c urls ((baseline_of r, actual) # hashes) rs))"

definition verify_registration_baselines ::
    "'w network \<Rightarrow> chain \<Rightarrow> int \<Rightarrow> urls \<Rightarrow> ('w, unit) act" where
  "verify_registration_baselines net c to urls =
     bindA (read_tx (unverified_baselines c to)) (verify_baselines_loop net c urls [])"

section \<open>Terra\<close>

text \<open>
  The event loop of one execution: events keep their original position as the index, whatever the
  registered set. The second component counts the recorded transfers.
\<close>

definition persist_execution ::
    "ustring \<Rightarrow> ustring list \<Rightarrow> int \<Rightarrow> execution \<Rightarrow> db \<times> nat \<Rightarrow> (db \<times> nat) ledger_result" where
  "persist_execution token registered height ex dn =
     bindR (ex_wasm_events ex) (\<lambda>events.
     foldR (\<lambda>(index, event) dn.
       bindR (parse_cw20_wasm_events [event] token registered) (\<lambda>ts.
       foldR (\<lambda>t (d, n). bindR (persist_terra_leg t height (ex_tx_hash ex) (int index) d)
                            (\<lambda>d'. Inr (d', Suc n))) ts dn))
       (List.enumerate 0 events) dn)"

definition ingest_terra_height ::
    "'w network \<Rightarrow> urls \<Rightarrow> ledger_config \<Rightarrow> int \<Rightarrow> ('w, nat) act" where
  "ingest_terra_height net lcd cfg height =
     thenA (begin_tx (clock net))
     (thenA (bindA (read_tx (admit_contiguous Terra height)) lift)
     (bindA (call (lcd_canonical_block net lcd height)) (\<lambda>block.
      thenA (verify_registration_baselines net Terra height (tb_source block))
     (bindA (read_tx (\<lambda>d. registered_set d Terra)) (\<lambda>registered.
      bindA (in_txv (\<lambda>_ d. foldR (persist_execution (cl8y_token_address cfg) registered height)
                              (tb_executions block) (d, 0))) (\<lambda>count.
      bindA (call (lcd_block_hash net (tb_source block) height)) (\<lambda>hash.
      thenA (if hash \<noteq> tb_hash block then fail (Provider ''terra_changed_during_ingest'') else ret ())
     (thenA (in_tx (publish_checkpoint Terra height (tb_hash block) (tb_tip block)))
     (thenA commit_tx (ret count))))))))))"

section \<open>BSC\<close>

definition persist_log ::
    "ustring \<Rightarrow> ustring list \<Rightarrow> bep20_log \<Rightarrow> db \<times> nat \<Rightarrow> (db \<times> nat) ledger_result" where
  "persist_log token registered log dn =
     bindR (parse_bep20_transfer_log log token registered) (\<lambda>parsed.
     case parsed of
       None \<Rightarrow> Inr dn
     | Some t \<Rightarrow> bindR (persist_bsc_leg t (fst dn)) (\<lambda>d'. Inr (d', Suc (snd dn))))"

definition insert_canonical_block :: "chain \<Rightarrow> int \<times> ustring \<Rightarrow> db \<Rightarrow> db" where
  "insert_canonical_block c hh d =
     d\<lparr>canonical_blocks := upsert_row cb_key
         \<lparr>cb_chain = c, cb_height = fst hh, cb_hash = snd hh\<rparr> (canonical_blocks d)\<rparr>"

text \<open>The second half of \<open>ingest_bsc_range_plan\<close>, once a range has been observed.\<close>

definition store_bsc_range ::
    "'w network \<Rightarrow> ledger_config \<Rightarrow> registration list \<Rightarrow> bsc_range \<Rightarrow> ('w, nat) act" where
  "store_bsc_range net cfg baselines rng =
     thenA (in_tx (\<lambda>_ d. Inr (fold (\<lambda>r. mark_verified Bsc (vr_wallet r))
                            (filter (\<lambda>r. baseline_of r \<le> br_to rng) baselines) d)))
    (bindA (read_tx (\<lambda>d. registered_set d Bsc)) (\<lambda>registered.
     bindA (in_txv (\<lambda>_ d. foldR (persist_log (bsc_cl8y_token_address cfg) registered)
                             (br_logs rng) (d, 0))) (\<lambda>count.
     thenA (in_tx (\<lambda>_ d. Inr (fold (insert_canonical_block Bsc) (br_hashes rng) d)))
    (bindA (call (bsc_finish_range net (br_source rng) (br_to rng) (br_end_hash rng))) (\<lambda>tip.
     thenA (in_tx (publish_checkpoint Bsc (br_to rng) (br_end_hash rng) tip))
    (thenA commit_tx (ret count)))))))"

definition ingest_bsc_range_plan ::
    "'w network \<Rightarrow> urls \<Rightarrow> ledger_config \<Rightarrow> int \<Rightarrow> int \<Rightarrow> bool \<Rightarrow> ('w, nat) act" where
  "ingest_bsc_range_plan net bsc cfg from to plan =
     (if from > to then ret 0
      else
      thenA (begin_tx (clock net))
     (thenA (bindA (read_tx (admit_contiguous Bsc from)) lift)
     (bindA (read_tx (unverified_baselines Bsc to)) (\<lambda>baselines.
      bindA (tryA
        (call (bsc_canonical_range net bsc plan (bsc_cl8y_token_address cfg) from to
                 (map (\<lambda>r. (baseline_of r, vr_baseline_hash r)) baselines)))
        (\<lambda>e. thenA (if e = Provider ''registration_baseline_orphaned''
                    then on_pool (clock net) (\<lambda>_. degrade Bsc (str ''registration_baseline_orphaned''))
                    else ret ())
                   (fail e))) (store_bsc_range net cfg baselines)))))"

definition ingest_bsc_range ::
    "'w network \<Rightarrow> urls \<Rightarrow> ledger_config \<Rightarrow> int \<Rightarrow> int \<Rightarrow> ('w, nat) act" where
  "ingest_bsc_range net bsc cfg from to = ingest_bsc_range_plan net bsc cfg from to False"

definition ingest_bsc_next_range ::
    "'w network \<Rightarrow> urls \<Rightarrow> ledger_config \<Rightarrow> int \<Rightarrow> ('w, nat) act" where
  "ingest_bsc_next_range net bsc cfg from =
     ingest_bsc_range_plan net bsc cfg from (sat_add from (INGEST_CHUNK - 1)) True"

section \<open>Canonicality\<close>

definition recent_blocks :: "chain \<Rightarrow> db \<Rightarrow> canonical_block list" where
  "recent_blocks c d =
     take 129 (rev (sort_key cb_height (filter (\<lambda>b. cb_chain b = c) (canonical_blocks d))))"

fun find_ancestor :: "'w network \<Rightarrow> chain \<Rightarrow> urls \<Rightarrow> canonical_block list \<Rightarrow> ('w, int option) act" where
  "find_ancestor net c urls [] = ret None"
| "find_ancestor net c urls (b # bs) =
     bindA (call (chain_block_hash net c urls (cb_height b))) (\<lambda>h.
     if h = cb_hash b then ret (Some (cb_height b)) else find_ancestor net c urls bs)"

definition snapshot_height :: "chain \<Rightarrow> proposal_row \<Rightarrow> int option" where
  "snapshot_height c p = (case c of Terra \<Rightarrow> pr_terra_height p | Bsc \<Rightarrow> pr_bsc_block p)"

definition snapshot_epoch :: "chain \<Rightarrow> proposal_row \<Rightarrow> int option" where
  "snapshot_epoch c p = (case c of Terra \<Rightarrow> pr_terra_epoch p | Bsc \<Rightarrow> pr_bsc_epoch p)"

definition invalidate :: "string \<Rightarrow> proposal_row \<Rightarrow> proposal_row" where
  "invalidate incident p = p\<lparr>pr_validity := InvalidSnapshot, pr_incident := Some (str incident)\<rparr>"

text \<open>\<open>UPDATE ledger_checkpoints SET complete=false, canonical=false, degraded_reason=...\<close>.\<close>

definition force_degrade :: "chain \<Rightarrow> string \<Rightarrow> db \<Rightarrow> db" where
  "force_degrade c reason d =
     d\<lparr>checkpoints := (checkpoints d)(c := map_option
         (\<lambda>cp. cp\<lparr>cp_complete := False, cp_canonical := False, cp_degraded := Some (str reason)\<rparr>)
         (checkpoints d c))\<rparr>"

definition beyond_horizon :: "chain \<Rightarrow> db \<Rightarrow> db" where
  "beyond_horizon c d =
     force_degrade c ''fork_beyond_horizon''
       (d\<lparr>proposals := update_where
            (\<lambda>p. pr_status p = Open \<and> (snapshot_epoch c p = None
               \<or> (\<exists>cp\<in>set_option (checkpoints d c). snapshot_epoch c p = Some (cp_epoch cp))))
            (invalidate ''fork_beyond_horizon: common ancestor unknown; review required'')
            (proposals d)\<rparr>)"

text \<open>The rewind to the common ancestor, up to the publication of its hash.\<close>

definition rewind_to_ancestor :: "chain \<Rightarrow> int \<Rightarrow> db \<Rightarrow> db" where
  "rewind_to_ancestor c a d =
     (let d1 = d\<lparr>transfers := (transfers d)(c := filter (\<lambda>t. \<not> tr_height t > a) (transfers d c)),
                balances := (balances d)(c := filter (\<lambda>b. \<not> bl_height b > a) (balances d c))\<rparr>;
          d2 = d1\<lparr>canonical_blocks :=
                 filter (\<lambda>b. \<not> (cb_chain b = c \<and> cb_height b > a)) (canonical_blocks d1)\<rparr>;
          d3 = d2\<lparr>proposals := update_where
                 (\<lambda>p. case snapshot_height c p of Some h \<Rightarrow> h > a | None \<Rightarrow> False)
                 (invalidate ''canonical source fork'') (proposals d2)\<rparr> in
      d3\<lparr>checkpoints := (checkpoints d3)(c := map_option (\<lambda>cp. cp\<lparr>cp_height := a\<rparr>) (checkpoints d3 c))\<rparr>)"

definition registrations_above :: "chain \<Rightarrow> int \<Rightarrow> db \<Rightarrow> bool" where
  "registrations_above c a d \<longleftrightarrow>
     (\<exists>r\<in>set (registrations d). vr_chain r = c \<and> baseline_of r > a \<and> is_active r)"

text \<open>The part of \<open>canonicality\<close> after the tip hash differed from the stored one.\<close>

definition publish_ancestor :: "'w network \<Rightarrow> chain \<Rightarrow> urls \<Rightarrow> int \<Rightarrow> ('w, unit) act" where
  "publish_ancestor net c urls a =
     thenA (in_tx (\<lambda>_ d. Inr (rewind_to_ancestor c a d)))
    (bindA (read_tx (registrations_above c a)) (\<lambda>affected.
     bindA (call (chain_block_hash net c urls a)) (\<lambda>ha.
     thenA (in_tx (publish_checkpoint c a ha a))
    (thenA (if affected then in_tx (\<lambda>_ d. Inr (force_degrade c ''registration_baseline_orphaned'' d))
            else ret ())
    (thenA commit_tx
      (if affected then fail (Provider ''registration_baseline_orphaned'') else ret ()))))))"

definition resolve_fork :: "'w network \<Rightarrow> chain \<Rightarrow> urls \<Rightarrow> canonical_block list \<Rightarrow> ('w, unit) act" where
  "resolve_fork net c urls older =
     bindA (find_ancestor net c urls older) (\<lambda>ancestor.
     case ancestor of
       None \<Rightarrow> thenA (in_tx (\<lambda>_ d. Inr (beyond_horizon c d)))
                    (thenA commit_tx (fail (Provider ''fork_beyond_horizon'')))
     | Some a \<Rightarrow> publish_ancestor net c urls a)"

definition canonicality :: "'w network \<Rightarrow> chain \<Rightarrow> int \<Rightarrow> urls \<Rightarrow> ('w, unit) act" where
  "canonicality net c last_h urls =
     (if last_h \<le> 0 then ret ()
      else
      thenA (begin_tx (clock net))
     (bindA (read_tx (\<lambda>d. checkpoint_height d c)) (\<lambda>last_h.
      if last_h \<le> 0 then fail (Provider ''missing_canonical_checkpoint'')
      else bindA (read_tx (recent_blocks c)) (\<lambda>recent.
      if (case recent of [] \<Rightarrow> True | b # _ \<Rightarrow> cb_height b \<noteq> last_h)
      then thenA (on_pool (clock net) (\<lambda>_. degrade c (str ''missing_canonical_history'')))
                 (fail (Provider ''missing_canonical_history''))
      else bindA (call (chain_block_hash net c urls last_h)) (\<lambda>h.
      if h = cb_hash (hd recent) then ret () else resolve_fork net c urls (tl recent))))))"

end
