(* ===== verification/IngestInv.thy ===== *)
theory IngestInv
  imports Ingest
begin

text \<open>
  Ingestion and fork handling keep the ledger consistent, for every behaviour of the providers:
  \<open>ledger_inv\<close> is the invariant of the committed database, \<open>pre_publish\<close> what an open
  transaction maintains until \<open>publish_checkpoint\<close> turns it into the invariant again.
\<close>

definition ledger_inv :: "db \<Rightarrow> bool" where
  "ledger_inv d \<longleftrightarrow> (\<forall>c. chain_ok d c \<and> history_ok d c)"

definition pre_publish :: "chain \<Rightarrow> int \<Rightarrow> db \<Rightarrow> bool" where
  "pre_publish c H d \<longleftrightarrow> (\<forall>c'. c' \<noteq> c \<longrightarrow> chain_ok d c' \<and> history_ok d c')
     \<and> unique_by cb_key (canonical_blocks d) \<and> blocks_below (canonical_blocks d) c (max (checkpoint_height d c) H)
     \<and> books_ok d c (max (checkpoint_height d c) H)"

lemma ledger_inv_pre_publish: "ledger_inv d \<Longrightarrow> pre_publish c H d"
  using books_ok_mono [of d c "checkpoint_height d c"]
  by (fastforce simp: ledger_inv_def pre_publish_def chain_ok_def history_ok_def blocks_below_def)

lemma history_ok_publish:
  assumes pub: "publish_checkpoint c height hash tip now d = Inr d'"
    and "unique_by cb_key (canonical_blocks d)" and "blocks_below (canonical_blocks d) c height"
  shows "history_ok d' c" and "c' \<noteq> c \<Longrightarrow> history_ok d c' \<Longrightarrow> history_ok d' c'"
proof -
  have blocks: "canonical_blocks d' = filter (\<lambda>b. \<not> (cb_chain b = c \<and> cb_height b < sat_sub height 128))
      (upsert_row cb_key \<lparr>cb_chain = c, cb_height = height, cb_hash = hash\<rparr> (canonical_blocks d))"
    and cp: "\<exists>cp. checkpoints d' c = Some cp \<and> cp_height cp = height"
    using pub unfolding publish_checkpoint_Inr by auto
  have "cb_height b \<le> height" if "b \<in> set (canonical_blocks d')" "cb_chain b = c" for b
    using that assms(3) by (cases "b = \<lparr>cb_chain = c, cb_height = height, cb_hash = hash\<rparr>")
      (auto simp: blocks set_upsert_row blocks_below_def)
  then show "history_ok d' c"
    using assms(2) cp by (auto simp: history_ok_def checkpoint_height_def blocks)
  assume c': "c' \<noteq> c" and old: "history_ok d c'"
  have "b \<in> set (canonical_blocks d') \<Longrightarrow> cb_chain b = c' \<Longrightarrow> b \<in> set (canonical_blocks d)" for b
    using c' by (auto simp: blocks set_upsert_row)
  then show "history_ok d' c'"
    using old assms(2) publish_tables(6) [OF pub c']
    by (auto simp: history_ok_def checkpoint_height_def blocks)
qed

lemma pre_publish_publish:
  assumes pre: "pre_publish c H d" and pub: "publish_checkpoint c H hash tip now d = Inr d'"
    and "0 \<le> H \<or> checkpoints d c \<noteq> None"
  shows "ledger_inv d'"
proof -
  have "max (checkpoint_height d c) H = H"
    using publish_tables(4) [OF pub] assms(3) by (auto simp: checkpoint_height_def)
  then have "books_ok d c H" "blocks_below (canonical_blocks d) c H" "unique_by cb_key (canonical_blocks d)"
    using pre by (simp_all add: pre_publish_def)
  note own = chain_ok_publish [OF pub this(1)] history_ok_publish [OF pub this(3,2)]
  have "chain_ok d' c' \<and> history_ok d' c'" for c'
    using own pre chain_ok_publish_other [OF pub] by (cases "c' = c") (auto simp: pre_publish_def)
  then show ?thesis by (simp add: ledger_inv_def)
qed

text \<open>Updates that leave the ledger's own tables alone.\<close>

lemma ledger_inv_frame:
  assumes "registrations d' = registrations d" "transfers d' = transfers d" "balances d' = balances d"
    "\<And>c. checkpoint_height d' c = checkpoint_height d c" "\<And>c. checkpoints d' c = None \<longleftrightarrow> checkpoints d c = None"
    "canonical_blocks d' = canonical_blocks d" "\<And>c. indexed_height d' c = indexed_height d c"
  shows "ledger_inv d' = ledger_inv d"
proof -
  have "books_ok d' c B = books_ok d c B" for c B
    by (rule books_ok_frame) (simp_all add: assms)
  moreover have "history_ok d' c = history_ok d c" for c
    using assms(4-6) by (simp add: history_ok_def)
  ultimately show ?thesis
    by (simp add: ledger_inv_def chain_ok_def assms)
qed

lemma ledger_inv_degrade [simp]: "ledger_inv d \<Longrightarrow> ledger_inv (degrade c reason d)"
proof -
  assume inv: "ledger_inv d"
  have blocks: "canonical_blocks (degrade c reason d) = canonical_blocks d"
    by (simp add: degrade_def)
  have "checkpoints d c' \<noteq> None \<Longrightarrow> checkpoints (degrade c reason d) c' \<noteq> None" for c'
    by (auto simp: degrade_def)
  then have "history_ok (degrade c reason d) c'" for c'
    using inv unfolding ledger_inv_def history_ok_def blocks checkpoint_height_degrade by blast
  with inv show ?thesis by (simp add: ledger_inv_def)
qed

lemma pre_publish_mark_verified [simp]: "pre_publish c H (mark_verified c0 w d) = pre_publish c H d"
proof -
  have books: "books_ok (mark_verified c0 w d) c' B = books_ok d c' B" for c' B
    unfolding mark_verified_def
    by (rule books_ok_update_regs) (simp add: reg_key_def is_active_def baseline_of_def split: option.split)
  have "checkpoint_height (mark_verified c0 w d) c' = checkpoint_height d c'"
    "indexed_height (mark_verified c0 w d) c' = indexed_height d c'"
    "history_ok (mark_verified c0 w d) c' = history_ok d c'" for c'
    by (simp_all add: mark_verified_def checkpoint_height_def indexed_height_def get_state_def history_ok_def)
  then show ?thesis
    by (simp add: pre_publish_def books chain_ok_def) (simp add: mark_verified_def)
qed

lemma pre_publish_fold_verified: "pre_publish c H (fold (\<lambda>r. mark_verified c0 (vr_wallet r)) rs d) = pre_publish c H d"
  by (induction rs arbitrary: d) simp_all

section \<open>Triples over both databases\<close>

abbreviation during :: "chain \<Rightarrow> int \<Rightarrow> 'w pool \<Rightarrow> bool" where
  "during c H \<equiv> dbs (\<lambda>cm t. ledger_inv cm \<and> pre_publish c H t)"

abbreviation inv_pool :: "'w pool \<Rightarrow> bool" where
  "inv_pool \<equiv> dbs (\<lambda>cm _. ledger_inv cm)"

interpretation ingest_stage: tx_stage "\<lambda>cm t. ledger_inv cm \<and> pre_publish c H t" ledger_inv for c H
  by unfold_locales simp

lemma during_begin: "holds inv_pool (begin_tx k) (\<lambda>_. during c H) inv_pool"
  by (rule holds_begin) (simp add: dbs_def ledger_inv_pre_publish)

lemma during_publish:
  "0 \<le> H \<Longrightarrow> holds (during c H) (in_tx (publish_checkpoint c H hash tip))
     (\<lambda>_. dbs (\<lambda>cm t. ledger_inv cm \<and> ledger_inv t)) inv_pool"
  by (rule holds_in_tx) (auto simp: dbs_def intro: pre_publish_publish)

lemma inv_commit: "holds (dbs (\<lambda>cm t. ledger_inv cm \<and> ledger_inv t)) (thenA commit_tx (ret x)) (\<lambda>_. inv_pool) inv_pool"
  by (intro holds_thenA holds_commit holds_ret) (auto simp: dbs_def)

section \<open>The ingest transactions\<close>

lemma post_row_pre_publish:
  assumes "post_row c row d d'" and "pre_publish c H d" and "tr_height row \<le> H" and "H \<le> i64_max"
  shows "pre_publish c H d'"
proof -
  note tables = post_row_tables [OF assms(1)]
  have cp: "checkpoint_height d' c' = checkpoint_height d c'" for c'
    by (simp add: checkpoint_height_def tables)
  have "books_ok d' c (max (max (checkpoint_height d c) H) (tr_height row))"
    using assms by (intro post_row_books [OF assms(1)]) (simp_all add: pre_publish_def)
  then have "books_ok d' c (max (checkpoint_height d' c) H)"
    by (rule books_ok_mono) (use assms(3) in \<open>simp add: cp\<close>)
  moreover have "chain_ok d' c' = chain_ok d c'" if "c' \<noteq> c" for c'
    using that post_row_books_other [OF assms(1) that]
    by (simp add: chain_ok_def cp indexed_height_def get_state_def tables)
  moreover have "history_ok d' c' = history_ok d c'" for c'
    by (simp add: history_ok_def cp tables)
  ultimately show ?thesis
    using assms(2) by (simp add: pre_publish_def tables cp)
qed

lemma verify_baselines_during:
  "holds (during c H) (verify_baselines_loop net c' urls hashes rs) (\<lambda>_. during c H) inv_pool"
proof (induction rs arbitrary: hashes)
  case Nil
  show ?case by (simp add: ingest_stage.stage_ret)
next
  case (Cons r rs)
  have mark: "holds (during c H) (in_tx (\<lambda>_ d. Inr (mark_verified c' (vr_wallet r) d)))
      (\<lambda>_. during c H) inv_pool"
    by (rule ingest_stage.stage_in_tx) auto
  have report: "holds (during c H) (thenA (on_pool k (\<lambda>_. degrade c' reason)) (fail e)) (\<lambda>_. during c H) inv_pool"
    for k reason e
    by (rule ingest_stage.stage_report) simp
  show ?case
    by (simp split: option.split)
       (intro conjI allI impI ingest_stage.stage_rules report Cons.IH mark)
qed

lemma persist_execution_pre:
  assumes "foldR (persist_execution token regs height) exs (d, n) = Inr (d', n')"
    and "pre_publish Terra height d" and "height \<le> i64_max"
  shows "pre_publish Terra height d'"
proof -
  let ?P = "\<lambda>dn. pre_publish Terra height (fst dn)"
  have leg: "?P dn'" if "bindR (persist_terra_leg t height h i d) (\<lambda>d'. Inr (d', Suc n)) = Inr dn'"
      "pre_publish Terra height d" for t h i d n dn'
    using that assms(3)
    by (auto simp: result_iff persist_terra_leg_iff terra_row_def intro: post_row_pre_publish)
  have legs: "?P dn'" if "foldR (\<lambda>t (d, n). bindR (persist_terra_leg t height h i d) (\<lambda>d'. Inr (d', Suc n))) ts dn = Inr dn'"
      "?P dn" for ts h i dn dn'
    by (rule foldR_invariant [OF that(1), where P = ?P]) (use that(2) leg in \<open>auto\<close>)
  have event: "?P dn'" if "persist_execution token regs height ex dn = Inr dn'" "?P dn" for ex dn dn'
  proof -
    note ev = that
    obtain events where "foldR (\<lambda>(index, event) dn.
       bindR (parse_cw20_wasm_events [event] token regs) (\<lambda>ts.
       foldR (\<lambda>t (d, n). bindR (persist_terra_leg t height (ex_tx_hash ex) (int index) d)
                            (\<lambda>d'. Inr (d', Suc n))) ts dn))
       (List.enumerate 0 events) dn = Inr dn'"
      using ev(1) unfolding persist_execution_def result_iff by blast
    then show ?thesis
      by (rule foldR_invariant [where P = ?P]) (use ev(2) legs in \<open>auto simp: result_iff\<close>)
  qed
  have "?P (d', n')"
    by (rule foldR_invariant [OF assms(1), where P = ?P]) (use assms(2) event in auto)
  then show ?thesis by simp
qed

lemma ingest_terra_inv:
  assumes "0 \<le> height" and "height \<le> i64_max"
  shows "holds inv_pool (ingest_terra_height net lcd cfg height) (\<lambda>_. inv_pool) inv_pool"
proof -
  have persist: "holds (during Terra height)
      (in_txv (\<lambda>_ d. foldR (persist_execution token regs height) exs (d, 0))) (\<lambda>_. during Terra height) inv_pool"
    for token regs exs
    by (rule ingest_stage.stage_in_txv) (auto intro: persist_execution_pre assms(2))
  have finish: "holds (during Terra height)
      (thenA (in_tx (publish_checkpoint Terra height hash tip)) (thenA commit_tx (ret count)))
      (\<lambda>_. inv_pool) inv_pool" for hash tip count
    by (rule holds_thenA [OF during_publish [OF assms(1)] inv_commit])
  show ?thesis
    unfolding ingest_terra_height_def verify_registration_baselines_def
    by (rule holds_thenA [OF during_begin [of _ Terra height]])
       (intro ingest_stage.stage_rules verify_baselines_during persist finish)
qed

text \<open>
  What the BSC books need of \<open>BscClient::canonical_range\<close>: the logs and hashes of a range lie
  at or below its end, which is a non-negative \<open>i64\<close>.
\<close>

definition range_bounded :: "bsc_range \<Rightarrow> bool" where
  "range_bounded r \<longleftrightarrow> 0 \<le> br_to r \<and> br_to r \<le> i64_max \<and> (\<forall>l\<in>set (br_logs r). lg_block_number l \<le> br_to r)
     \<and> (\<forall>hh\<in>set (br_hashes r). fst hh \<le> br_to r)"

definition ranges_bounded :: "'w network \<Rightarrow> bool" where
  "ranges_bounded net \<longleftrightarrow> (\<forall>urls plan token from to baselines w r w'.
     bsc_canonical_range net urls plan token from to baselines w = (Inr r, w') \<longrightarrow> range_bounded r)"

lemma ranges_boundedD:
  "ranges_bounded net \<Longrightarrow> bsc_canonical_range net urls plan token from to bs w = (Inr r, w') \<Longrightarrow> range_bounded r"
  unfolding ranges_bounded_def by blast

lemma persist_log_pre:
  assumes "foldR (persist_log token regs) logs (d, n) = Inr (d', n')"
    and "pre_publish Bsc H d" and "\<forall>l\<in>set logs. lg_block_number l \<le> H" and "H \<le> i64_max"
  shows "pre_publish Bsc H d'"
proof -
  let ?P = "\<lambda>dn. pre_publish Bsc H (fst dn)"
  have step: "?P dn'" if l: "l \<in> set logs" and "persist_log token regs l dn = Inr dn'" "?P dn" for l dn dn'
  proof -
    from that(2) obtain parsed where parsed: "parse_bep20_transfer_log l token regs = Inr parsed"
      and rest: "(case parsed of None \<Rightarrow> Inr dn
        | Some t \<Rightarrow> bindR (persist_bsc_leg t (fst dn)) (\<lambda>d'. Inr (d', Suc (snd dn)))) = Inr dn'"
      by (auto simp: persist_log_def result_iff)
    show ?thesis
    proof (cases parsed)
      case None
      then show ?thesis using rest that(3) by simp
    next
      case (Some t)
      have "bt_bsc_block t = lg_block_number l"
        using parse_bep20_transfer_log_block parsed Some by blast
      then have "tr_height (bsc_row t) \<le> H"
        using assms(3) l by (simp add: bsc_row_def)
      moreover obtain d1 where "persist_bsc_leg t (fst dn) = Inr d1" "dn' = (d1, Suc (snd dn))"
        using rest Some by (auto simp: result_iff)
      ultimately show ?thesis
        using that(3) assms(4) by (auto simp: persist_bsc_leg_iff intro: post_row_pre_publish)
    qed
  qed
  have "?P (d', n')"
    by (rule foldR_invariant [OF assms(1), where P = ?P]) (use assms(2) step in auto)
  then show ?thesis by simp
qed

lemma insert_block_pre: "pre_publish c H d \<Longrightarrow> fst hh \<le> H \<Longrightarrow> pre_publish c H (insert_canonical_block c hh d)"
proof -
  assume pre: "pre_publish c H d" and le: "fst hh \<le> H"
  let ?d = "insert_canonical_block c hh d"
  have cp: "checkpoint_height ?d c' = checkpoint_height d c'" "checkpoints ?d = checkpoints d"
      "indexed_height ?d c' = indexed_height d c'" "books_ok ?d c' B = books_ok d c' B" for c' B
    by (simp_all add: insert_canonical_block_def checkpoint_height_def indexed_height_def get_state_def)
       (rule books_ok_frame; simp)
  have blocks: "set (canonical_blocks ?d) = insert \<lparr>cb_chain = c, cb_height = fst hh, cb_hash = snd hh\<rparr>
      {q \<in> set (canonical_blocks d). cb_key q \<noteq> (c, fst hh)}"
    by (simp add: insert_canonical_block_def set_upsert_row cb_key_def)
  have uniq: "unique_by cb_key (canonical_blocks ?d)"
    using pre by (simp add: insert_canonical_block_def pre_publish_def)
  have below: "blocks_below (canonical_blocks ?d) c (max (checkpoint_height d c) H)"
    using pre le by (simp add: pre_publish_def blocks_below_def blocks)
  have "history_ok ?d c'" if "c' \<noteq> c" for c'
    using pre that uniq by (auto simp: pre_publish_def history_ok_def cp blocks)
  with pre uniq below show ?thesis
    by (simp add: pre_publish_def chain_ok_def cp)
qed

lemma insert_blocks_pre:
  "pre_publish c H d \<Longrightarrow> \<forall>hh\<in>set hs. fst hh \<le> H \<Longrightarrow> pre_publish c H (fold (insert_canonical_block c) hs d)"
  by (induction hs arbitrary: d) (simp_all add: insert_block_pre)

lemma holds_call_val:
  "(\<And>s x w w'. P s \<Longrightarrow> f w = (Inr x, w') \<Longrightarrow> Q x (s\<lparr>world := w'\<rparr>)) \<Longrightarrow> (\<And>s w. P s \<Longrightarrow> R (s\<lparr>world := w\<rparr>))
    \<Longrightarrow> holds P (call f) Q R"
  by (fastforce simp: holds_def call_def split: prod.split sum.split)

lemma holds_pure: "(b \<Longrightarrow> holds P m Q R) \<Longrightarrow> holds (\<lambda>s. b \<and> P s) m Q R"
  by (auto simp: holds_def)

lemma store_bsc_range_inv:
  assumes r: "range_bounded rng"
  shows "holds (dbs (\<lambda>cm t. ledger_inv cm \<and> ledger_inv t)) (store_bsc_range net cfg baselines rng)
    (\<lambda>_. inv_pool) inv_pool"
proof -
  let ?K = "during Bsc (br_to rng)"
  have mark: "holds ?K (in_tx (\<lambda>_ d. Inr (fold (\<lambda>r. mark_verified Bsc (vr_wallet r)) rs d))) (\<lambda>_. ?K) inv_pool" for rs
    by (rule ingest_stage.stage_in_tx) (auto simp: pre_publish_fold_verified)
  have persist: "holds ?K (in_txv (\<lambda>_ d. foldR (persist_log token regs) (br_logs rng) (d, 0))) (\<lambda>_. ?K) inv_pool"
    for token regs
    by (rule ingest_stage.stage_in_txv) (use r in \<open>auto simp: range_bounded_def intro: persist_log_pre\<close>)
  have blocks: "holds ?K (in_tx (\<lambda>_ d. Inr (fold (insert_canonical_block Bsc) (br_hashes rng) d))) (\<lambda>_. ?K) inv_pool"
    by (rule ingest_stage.stage_in_tx) (use r in \<open>auto simp: range_bounded_def intro: insert_blocks_pre\<close>)
  have finish: "holds ?K (thenA (in_tx (publish_checkpoint Bsc (br_to rng) hash tip)) (thenA commit_tx (ret count)))
      (\<lambda>_. inv_pool) inv_pool" for hash tip and count :: nat
    by (rule holds_thenA [OF during_publish inv_commit]) (use r in \<open>simp add: range_bounded_def\<close>)
  have "holds ?K (store_bsc_range net cfg baselines rng) (\<lambda>_. inv_pool) inv_pool"
    unfolding store_bsc_range_def by (intro ingest_stage.stage_rules mark persist blocks finish)
  then show ?thesis
    by (rule holds_weaken) (auto simp: dbs_def ledger_inv_pre_publish)
qed

lemma ingest_bsc_inv:
  assumes net: "ranges_bounded net"
  shows "holds inv_pool (ingest_bsc_range_plan net bsc cfg from to plan) (\<lambda>_. inv_pool) inv_pool"
proof (cases "from > to")
  case True
  then show ?thesis
    by (simp add: ingest_bsc_range_plan_def holds_ret)
next
  case False
  let ?tx = "dbs (\<lambda>cm t. ledger_inv cm \<and> ledger_inv t)"
  have start: "holds inv_pool (begin_tx (clock net)) (\<lambda>_. ?tx) inv_pool"
    by (rule holds_begin) (simp add: dbs_def)
  have admit: "holds ?tx (bindA (read_tx (admit_contiguous Bsc from)) lift) (\<lambda>_. ?tx) inv_pool"
    by (rule holds_bindA [OF holds_read_tx [where Q = "\<lambda>_. ?tx"]])
       (auto intro!: holds_lift simp: dbs_def)
  have read: "holds ?tx (read_tx (unverified_baselines Bsc to)) (\<lambda>_. ?tx) inv_pool"
    by (rule holds_read_tx) simp
  have range: "holds ?tx (tryA (call (bsc_canonical_range net bsc plan token from to bs))
        (\<lambda>e. thenA (if e = Provider ''registration_baseline_orphaned''
                    then on_pool (clock net) (\<lambda>_. degrade Bsc (str ''registration_baseline_orphaned''))
                    else ret ())
                   (fail e)))
      (\<lambda>r s. range_bounded r \<and> ?tx s) inv_pool" for token bs
  proof (rule holds_tryA [where R = ?tx])
    show "holds ?tx (call (bsc_canonical_range net bsc plan token from to bs)) (\<lambda>r s. range_bounded r \<and> ?tx s) ?tx"
      by (rule holds_call_val) (use net in \<open>auto simp: dbs_def dest: ranges_boundedD\<close>)
    show "holds ?tx (thenA (if e = Provider ''registration_baseline_orphaned''
          then on_pool (clock net) (\<lambda>_. degrade Bsc (str ''registration_baseline_orphaned'')) else ret ()) (fail e))
        (\<lambda>r s. range_bounded r \<and> ?tx s) inv_pool" for e
      by (rule holds_thenA [where Q = ?tx])
         (auto intro!: holds_if holds_on_pool holds_ret holds_fail simp: dbs_def)
  qed (simp add: dbs_def)
  have store: "holds (\<lambda>s. range_bounded r \<and> ?tx s) (store_bsc_range net cfg bs r) (\<lambda>_. inv_pool) inv_pool" for r bs
    by (rule holds_pure) (rule store_bsc_range_inv)
  show ?thesis
    unfolding ingest_bsc_range_plan_def if_not_P [OF False]
    by (rule holds_thenA [OF start], rule holds_thenA [OF admit], rule holds_bindA [OF read],
        rule holds_bindA [OF range], rule store)
qed

section \<open>Canonicality\<close>

lemma ledger_inv_force_degrade [simp]: "ledger_inv (force_degrade c reason d) = ledger_inv d"
  by (rule ledger_inv_frame)
     (auto simp: force_degrade_def checkpoint_height_def indexed_height_def get_state_def split: option.split)

lemma ledger_inv_proposals [simp]: "ledger_inv (d\<lparr>proposals := x\<rparr>) = ledger_inv d"
  by (rule ledger_inv_frame) (simp_all add: checkpoint_height_def indexed_height_def get_state_def)

lemma ledger_inv_beyond_horizon [simp]: "ledger_inv (beyond_horizon c d) = ledger_inv d"
  by (simp add: beyond_horizon_def)

lemma rewind_to_ancestor_tables:
  shows "registrations (rewind_to_ancestor c a d) = registrations d"
    "transfers (rewind_to_ancestor c a d) = transfers (cut_books c a d)"
    "balances (rewind_to_ancestor c a d) = balances (cut_books c a d)"
    "canonical_blocks (rewind_to_ancestor c a d) =
       filter (\<lambda>b. \<not> (cb_chain b = c \<and> cb_height b > a)) (canonical_blocks d)"
    "checkpoints (rewind_to_ancestor c a d) =
       (checkpoints d)(c := map_option (\<lambda>cp. cp\<lparr>cp_height := a\<rparr>) (checkpoints d c))"
    "indexer_state (rewind_to_ancestor c a d) = indexer_state d"
  by (simp_all add: rewind_to_ancestor_def cut_books_def Let_def)

lemma pre_publish_rewind:
  assumes inv: "ledger_inv d" and cp: "checkpoints d c \<noteq> None"
  shows "pre_publish c a (rewind_to_ancestor c a d) \<and> checkpoints (rewind_to_ancestor c a d) c \<noteq> None"
proof -
  let ?d = "rewind_to_ancestor c a d"
  have own: "checkpoint_height ?d c = a"
    using cp by (auto simp: checkpoint_height_def rewind_to_ancestor_tables)
  have other: "checkpoint_height ?d c' = checkpoint_height d c'" if "c' \<noteq> c" for c'
    using that by (simp add: checkpoint_height_def rewind_to_ancestor_tables)
  have idx: "indexed_height ?d c' = indexed_height d c'" for c'
    by (simp add: indexed_height_def get_state_def rewind_to_ancestor_tables)
  have books: "books_ok ?d c' B = books_ok (cut_books c a d) c' B" for c' B
    by (rule books_ok_frame) (simp_all add: rewind_to_ancestor_tables, simp add: cut_books_def)
  have "books_ok (cut_books c a d) c (min (checkpoint_height d c) a)"
    using inv by (intro books_ok_cut) (simp add: ledger_inv_def chain_ok_def)
  then have "books_ok ?d c a"
    unfolding books by (rule books_ok_mono) simp
  moreover have "chain_ok ?d c' \<and> history_ok ?d c'" if "c' \<noteq> c" for c'
    using inv that by (auto simp: ledger_inv_def chain_ok_def history_ok_def books other idx books_ok_cut_other
        rewind_to_ancestor_tables)
  moreover have "unique_by cb_key (canonical_blocks ?d)" and "blocks_below (canonical_blocks ?d) c a"
    using inv by (auto simp: ledger_inv_def history_ok_def rewind_to_ancestor_tables blocks_below_def)
  ultimately show ?thesis
    using cp by (simp add: pre_publish_def own) (simp add: rewind_to_ancestor_tables)
qed

lemma find_ancestor_same: "(\<And>f :: ('w, ustring) net. holds P (call f) (\<lambda>_. P) R) \<Longrightarrow> holds P (find_ancestor net c urls bs) (\<lambda>_. P) R"
proof (induction bs)
  case Nil
  show ?case by (simp add: holds_ret)
next
  case (Cons b bs)
  have step: "holds P (if h = cb_hash b then ret (Some (cb_height b)) else find_ancestor net c urls bs) (\<lambda>_. P) R" for h
    by (rule holds_if) (auto intro: holds_ret Cons)
  show ?case
    by (simp only: find_ancestor.simps) (rule holds_bindA [OF Cons.prems], rule step)
qed

lemma publish_ancestor_inv:
  "holds (dbs (\<lambda>cm t. ledger_inv cm \<and> ledger_inv t \<and> checkpoints t c \<noteq> None)) (publish_ancestor net c urls a)
     (\<lambda>_. inv_pool) inv_pool"
proof -
  let ?tx = "dbs (\<lambda>cm t. ledger_inv cm \<and> ledger_inv t)"
  let ?P = "dbs (\<lambda>cm t. ledger_inv cm \<and> ledger_inv t \<and> checkpoints t c \<noteq> None)"
  let ?K = "dbs (\<lambda>cm t. ledger_inv cm \<and> pre_publish c a t \<and> checkpoints t c \<noteq> None)"
  have rewind: "holds ?P (in_tx (\<lambda>_ d. Inr (rewind_to_ancestor c a d))) (\<lambda>_. ?K) inv_pool"
    by (rule holds_in_tx) (use pre_publish_rewind in \<open>auto simp: dbs_def\<close>)
  have read: "holds ?K (read_tx (registrations_above c a)) (\<lambda>_. ?K) inv_pool"
    by (rule holds_read_tx)
  have call: "holds ?K (call f) (\<lambda>_. ?K) inv_pool" for f :: "('a, ustring) net"
    by (rule holds_call) (simp_all add: dbs_def)
  have publish: "holds ?K (in_tx (publish_checkpoint c a ha a)) (\<lambda>_. ?tx) inv_pool" for ha
    by (rule holds_in_tx) (auto simp: dbs_def intro: pre_publish_publish)
  have degrade: "holds ?tx (if affected then in_tx (\<lambda>_ d. Inr (force_degrade c ''registration_baseline_orphaned'' d))
      else ret ()) (\<lambda>_. ?tx) inv_pool" for affected
    by (rule holds_if) (auto intro!: holds_in_tx holds_ret simp: dbs_def)
  have commit: "holds ?tx commit_tx (\<lambda>_. inv_pool) inv_pool"
    by (rule holds_commit) (simp add: dbs_def)
  have finish: "holds inv_pool (if affected then fail e else ret ()) (\<lambda>_. inv_pool) inv_pool" for affected e
    by (rule holds_if) (auto intro: holds_fail holds_ret)
  show ?thesis
    unfolding publish_ancestor_def
    by (rule holds_thenA [OF rewind], rule holds_bindA [OF read], rule holds_bindA [OF call],
        rule holds_thenA [OF publish], rule holds_thenA [OF degrade], rule holds_thenA [OF commit finish])
qed

lemma resolve_fork_inv:
  "holds (dbs (\<lambda>cm t. ledger_inv cm \<and> ledger_inv t \<and> checkpoints t c \<noteq> None)) (resolve_fork net c urls older)
     (\<lambda>_. inv_pool) inv_pool"
proof -
  let ?tx = "dbs (\<lambda>cm t. ledger_inv cm \<and> ledger_inv t)"
  let ?P = "dbs (\<lambda>cm t. ledger_inv cm \<and> ledger_inv t \<and> checkpoints t c \<noteq> None)"
  have find: "holds ?P (find_ancestor net c urls older) (\<lambda>_. ?P) inv_pool"
    by (rule find_ancestor_same) (auto intro!: holds_call simp: dbs_def)
  have horizon: "holds ?P (thenA (in_tx (\<lambda>_ d. Inr (beyond_horizon c d))) (thenA commit_tx (fail e)))
      (\<lambda>_. inv_pool) inv_pool" for e
  proof (rule holds_thenA [where Q = ?tx])
    show "holds ?P (in_tx (\<lambda>_ d. Inr (beyond_horizon c d))) (\<lambda>_. ?tx) inv_pool"
      by (rule holds_in_tx) (auto simp: dbs_def)
    show "holds ?tx (thenA commit_tx (fail e)) (\<lambda>_. inv_pool) inv_pool"
      by (rule holds_thenA [where Q = inv_pool]) (auto intro!: holds_commit holds_fail simp: dbs_def)
  qed
  show ?thesis
    unfolding resolve_fork_def
    by (rule holds_bindA [OF find])
       (simp split: option.split del: not_None_eq, intro conjI allI impI horizon publish_ancestor_inv)
qed

lemma canonicality_inv: "holds inv_pool (canonicality net c last_h urls) (\<lambda>_. inv_pool) inv_pool"
proof (cases "last_h \<le> 0")
  case True
  then show ?thesis by (simp add: canonicality_def holds_ret)
next
  case False
  let ?tx = "dbs (\<lambda>cm t. ledger_inv cm \<and> ledger_inv t)"
  let ?P = "dbs (\<lambda>cm t. ledger_inv cm \<and> ledger_inv t \<and> checkpoints t c \<noteq> None)"
  have start: "holds inv_pool (begin_tx (clock net)) (\<lambda>_. ?tx) inv_pool"
    by (rule holds_begin) (simp add: dbs_def)
  have height: "holds ?tx (read_tx (\<lambda>d. checkpoint_height d c)) (\<lambda>h s. (0 < h \<longrightarrow> ?P s) \<and> ?tx s) inv_pool"
    by (rule holds_read_tx) (auto simp: dbs_def checkpoint_height_def split: option.splits)
  have missing: "holds ?P (thenA (on_pool k (\<lambda>_. degrade c reason)) (fail e)) (\<lambda>_. inv_pool) inv_pool" for k reason e
    by (rule holds_thenA [where Q = inv_pool]) (auto intro!: holds_on_pool holds_fail simp: dbs_def)
  have call: "holds ?P (call f) (\<lambda>_. ?P) inv_pool" for f :: "('a, ustring) net"
    by (rule holds_call) (simp_all add: dbs_def)
  have read: "holds ?P (read_tx (recent_blocks c)) (\<lambda>_. ?P) inv_pool"
    by (rule holds_read_tx)
  have ok: "holds ?P (ret ()) (\<lambda>_. inv_pool) inv_pool"
    by (rule holds_ret) (simp add: dbs_def)
  have rest: "holds (\<lambda>s. (0 < h \<longrightarrow> ?P s) \<and> ?tx s)
     (if h \<le> 0 then fail (Provider ''missing_canonical_checkpoint'')
      else bindA (read_tx (recent_blocks c)) (\<lambda>recent.
      if (case recent of [] \<Rightarrow> True | b # _ \<Rightarrow> cb_height b \<noteq> h)
      then thenA (on_pool (clock net) (\<lambda>_. degrade c (str ''missing_canonical_history'')))
                 (fail (Provider ''missing_canonical_history''))
      else bindA (call (chain_block_hash net c urls h)) (\<lambda>h.
      if h = cb_hash (hd recent) then ret () else resolve_fork net c urls (tl recent))))
     (\<lambda>_. inv_pool) inv_pool" for h
  proof (cases "h \<le> 0")
    case True
    then show ?thesis by (auto intro!: holds_fail simp: dbs_def)
  next
    case False
    have "holds ?P (bindA (read_tx (recent_blocks c)) (\<lambda>recent.
      if (case recent of [] \<Rightarrow> True | b # _ \<Rightarrow> cb_height b \<noteq> h)
      then thenA (on_pool (clock net) (\<lambda>_. degrade c (str ''missing_canonical_history'')))
                 (fail (Provider ''missing_canonical_history''))
      else bindA (call (chain_block_hash net c urls h)) (\<lambda>h.
      if h = cb_hash (hd recent) then ret () else resolve_fork net c urls (tl recent))))
     (\<lambda>_. inv_pool) inv_pool"
      by (rule holds_bindA [OF read], rule holds_if, rule missing, rule holds_bindA [OF call],
          rule holds_if, rule ok, rule resolve_fork_inv)
    then show ?thesis
      using False by (auto elim!: holds_weaken)
  qed
  show ?thesis
    unfolding canonicality_def if_not_P [OF False]
    by (rule holds_thenA [OF start], rule holds_bindA [OF height], rule rest)
qed

end
