(* ===== verification/IngestProps.thy ===== *)
theory IngestProps
  imports IngestInv
begin

text \<open>
  The properties of ingestion: windows never skip history, an ingest transaction is atomic and
  keeps the ledger consistent whatever the providers answer, and a fork is resolved at the highest
  common ancestor, with every snapshot above it marked invalid.
\<close>

section \<open>Windows\<close>

text \<open>
  A planned window is never empty, starts right after the cursor (or at the tip for an empty
  electorate), ends at or below the tip and spans at most the chunk; there is no window exactly
  when the cursor has caught up or there is no tip.
\<close>

theorem ingest_window_bounds:
  assumes "in_i64 last_h" and "in_i64 tip" and "in_i64 chunk"
  shows "(ingest_window last_h tip chunk gap = None \<longleftrightarrow> tip \<le> 0 \<or> tip \<le> last_h)
     \<and> (\<forall>w. ingest_window last_h tip chunk gap = Some w \<longrightarrow>
          iw_start w \<le> iw_end w \<and> iw_end w \<le> tip \<and> iw_end w - iw_start w < max chunk 1
        \<and> (0 < last_h \<longrightarrow> iw_start w = last_h + 1 \<and> \<not> iw_jumped_to_tip w)
        \<and> (last_h \<le> 0 \<longrightarrow> iw_start w = tip \<and> iw_end w = tip \<and> iw_jumped_to_tip w))"
proof -
  have add: "sat_add a (max chunk 1 - 1) = min (a + (max chunk 1 - 1)) i64_max" if "0 < a" "a \<le> i64_max" for a
    using that assms(3) by (auto simp: sat_add_def sat_i64_def in_i64_def i64_max_def i64_min_def)
  show ?thesis
  proof (cases "tip \<le> 0 \<or> last_h \<ge> tip")
    case True
    then show ?thesis by (auto simp: ingest_window_def)
  next
    case False
    let ?start = "if last_h \<le> 0 then tip else last_h + 1"
    have s: "0 < ?start" "?start \<le> i64_max" "?start \<le> tip" and t: "tip \<le> i64_max"
      using False assms(1,2) by (auto simp: in_i64_def)
    from False have "ingest_window last_h tip chunk gap =
        Some \<lparr>iw_start = ?start, iw_end = min (min (?start + (max chunk 1 - 1)) i64_max) tip,
              iw_jumped_to_tip = (last_h \<le> 0)\<rparr>"
      by (simp only: ingest_window_def Let_def add [OF s(1,2)] if_False)
    then show ?thesis
      using False s t by auto
  qed
qed

theorem ingest_window_bounds_witness:
  "\<exists>w. ingest_window 1 30162104 32 10000 = Some w \<and> iw_start w = 2 \<and> iw_end w - iw_start w < 32"
proof -
  have "in_i64 1" "in_i64 30162104" "in_i64 32"
    by (simp_all add: in_i64_def i64_max_def i64_min_def)
  from ingest_window_bounds [OF this, of 10000] show ?thesis
    by (cases "ingest_window 1 30162104 32 10000") auto
qed

section \<open>Atomicity\<close>

abbreviation orphaned :: "chain \<Rightarrow> db \<Rightarrow> db" where
  "orphaned c \<equiv> degrade c (str ''registration_baseline_orphaned'')"

text \<open>A failed ingest leaves the committed database alone, or degraded.\<close>

interpretation atomic: tx_stage
  "\<lambda>cm t. cm = cm0 \<and> checkpoints t = checkpoints cm0" "\<lambda>cm. cm = cm0 \<or> cm = orphaned c cm0" for cm0 c
  by unfold_locales simp

lemma checkpoints_mark_verified [simp]: "checkpoints (mark_verified c w d) = checkpoints d"
  by (simp add: mark_verified_def)

lemma checkpoints_fold_verified: "checkpoints (fold (\<lambda>r. mark_verified c (vr_wallet r)) rs d) = checkpoints d"
  by (induction rs arbitrary: d) simp_all

lemma checkpoints_insert_blocks: "checkpoints (fold (insert_canonical_block c) hs d) = checkpoints d"
  by (induction hs arbitrary: d) (simp_all add: insert_canonical_block_def)

lemma checkpoints_persist_execution:
  assumes "foldR (persist_execution token regs height) exs dn = Inr dn'"
  shows "checkpoints (fst dn') = checkpoints (fst dn)"
proof -
  let ?P = "\<lambda>q. checkpoints (fst q) = checkpoints (fst dn)"
  have leg: "?P q'" if "foldR (\<lambda>t (d, n). bindR (persist_terra_leg t height h i d) (\<lambda>d'. Inr (d', Suc n))) ts q = Inr q'"
      "?P q" for ts h i q q'
    by (rule foldR_invariant [OF that(1), where P = ?P])
       (use that(2) in \<open>auto simp: result_iff persist_terra_leg_iff dest!: post_row_tables(2)\<close>)
  have event: "?P q'" if ev: "persist_execution token regs height ex q = Inr q'" "?P q" for ex q q'
  proof -
    obtain events where "foldR (\<lambda>(index, event) dn.
       bindR (parse_cw20_wasm_events [event] token regs) (\<lambda>ts.
       foldR (\<lambda>t (d, n). bindR (persist_terra_leg t height (ex_tx_hash ex) (int index) d)
                            (\<lambda>d'. Inr (d', Suc n))) ts dn))
       (List.enumerate 0 events) q = Inr q'"
      using ev(1) unfolding persist_execution_def result_iff by blast
    then show ?thesis
      by (rule foldR_invariant [where P = ?P]) (use ev(2) leg in \<open>auto simp: result_iff\<close>)
  qed
  show ?thesis
    by (rule foldR_invariant [OF assms, where P = ?P]) (use event in auto)
qed

lemma checkpoints_persist_log:
  assumes "foldR (persist_log token regs) logs dn = Inr dn'"
  shows "checkpoints (fst dn') = checkpoints (fst dn)"
  by (rule foldR_invariant [OF assms, where P = "\<lambda>q. checkpoints (fst q) = checkpoints (fst dn)"])
     (auto simp: persist_log_def result_iff persist_bsc_leg_iff split: option.splits dest!: post_row_tables(2))

definition advanced :: "db \<Rightarrow> chain \<Rightarrow> int \<Rightarrow> db \<Rightarrow> bool" where
  "advanced cm0 c height cm \<longleftrightarrow> checkpoint_height cm c = height \<and> certified cm c
     \<and> (checkpoints cm0 c = None \<or> checkpoint_height cm0 c \<le> height)"

lemma atomic_publish:
  "holds (dbs (\<lambda>cm t. cm = cm0 \<and> checkpoints t = checkpoints cm0))
     (thenA (in_tx (publish_checkpoint c height hash tip)) (thenA commit_tx (ret x)))
     (\<lambda>_. dbs (\<lambda>cm _. advanced cm0 c height cm)) (dbs (\<lambda>cm _. cm = cm0 \<or> cm = orphaned c' cm0))"
proof (rule holds_thenA)
  show "holds (dbs (\<lambda>cm t. cm = cm0 \<and> checkpoints t = checkpoints cm0)) (in_tx (publish_checkpoint c height hash tip))
      (\<lambda>_. dbs (\<lambda>cm t. advanced cm0 c height t)) (dbs (\<lambda>cm _. cm = cm0 \<or> cm = orphaned c' cm0))"
  proof (rule holds_in_tx)
    fix s d
    assume s: "dbs (\<lambda>cm t. cm = cm0 \<and> checkpoints t = checkpoints cm0) s"
      and pub: "publish_checkpoint c height hash tip (tx_now s) (tx s) = Inr d"
    have "certified d c"
      using pub by (auto simp: publish_checkpoint_Inr certified_def)
    then show "dbs (\<lambda>cm t. advanced cm0 c height t) (s\<lparr>tx := d\<rparr>)"
      using s publish_tables(4,5) [OF pub] by (auto simp: dbs_def advanced_def checkpoint_height_def)
  qed (simp add: dbs_def)
  show "holds (dbs (\<lambda>cm t. advanced cm0 c height t)) (thenA commit_tx (ret x))
      (\<lambda>_. dbs (\<lambda>cm _. advanced cm0 c height cm)) (dbs (\<lambda>cm _. cm = cm0 \<or> cm = orphaned c' cm0))"
    by (intro holds_thenA holds_commit holds_ret) (auto simp: dbs_def)
qed

lemma verify_baselines_atomic:
  "holds (dbs (\<lambda>cm t. cm = cm0 \<and> checkpoints t = checkpoints cm0)) (verify_baselines_loop net c urls hashes rs)
     (\<lambda>_. dbs (\<lambda>cm t. cm = cm0 \<and> checkpoints t = checkpoints cm0)) (dbs (\<lambda>cm _. cm = cm0 \<or> cm = orphaned c cm0))"
proof (induction rs arbitrary: hashes)
  case Nil
  show ?case by (simp add: atomic.stage_ret)
next
  case (Cons r rs)
  show ?case
    by (simp split: option.split)
       (intro conjI allI impI atomic.stage_rules atomic.stage_report atomic.stage_in_tx Cons.IH; auto)
qed

lemma admit_stage:
  "holds (dbs (\<lambda>cm t. cm = cm0 \<and> checkpoints t = checkpoints cm0)) (bindA (read_tx (admit_contiguous c from)) lift)
     (\<lambda>_ s. admit_contiguous c from cm0 = Inr () \<and> dbs (\<lambda>cm t. cm = cm0 \<and> checkpoints t = checkpoints cm0) s)
     (dbs (\<lambda>cm _. cm = cm0 \<or> cm = orphaned c' cm0))"
  by (rule holds_bindA [where Q = "\<lambda>r s. r = admit_contiguous c from cm0 \<and> dbs (\<lambda>cm t. cm = cm0 \<and> checkpoints t = checkpoints cm0) s"])
     (auto intro!: holds_read_tx holds_lift simp: dbs_def admit_contiguous_def)

lemma admit_contiguous_Inr:
  "admit_contiguous c from d = Inr u \<longleftrightarrow> \<not> (0 < checkpoint_height d c \<and> checkpoint_height d c + 1 < from)"
  by (auto simp: admit_contiguous_def checkpoint_height_def split: option.splits)

lemma ingest_terra_atomic:
  "holds (dbs (\<lambda>cm _. cm = cm0)) (ingest_terra_height net lcd cfg height)
     (\<lambda>_. dbs (\<lambda>cm _. advanced cm0 Terra height cm
        \<and> (0 < checkpoint_height cm0 Terra \<longrightarrow> height \<le> checkpoint_height cm0 Terra + 1)))
     (dbs (\<lambda>cm _. cm = cm0 \<or> cm = orphaned Terra cm0))"
proof -
  let ?S = "dbs (\<lambda>cm t. cm = cm0 \<and> checkpoints t = checkpoints cm0)"
  let ?E = "dbs (\<lambda>cm _. cm = cm0 \<or> cm = orphaned Terra cm0)"
  let ?Q = "dbs (\<lambda>cm _. advanced cm0 Terra height cm)"
  have start: "holds (dbs (\<lambda>cm _. cm = cm0)) (begin_tx (clock net)) (\<lambda>_. ?S) ?E"
    by (rule holds_begin) (simp add: dbs_def)
  have persist: "holds ?S (in_txv (\<lambda>_ d. foldR (persist_execution token regs height) exs (d, 0))) (\<lambda>_. ?S) ?E"
    for token regs exs
    by (rule atomic.stage_in_txv) (auto dest: checkpoints_persist_execution)
  have rest: "holds ?S
     (bindA (call (lcd_canonical_block net lcd height)) (\<lambda>block.
      thenA (verify_registration_baselines net Terra height (tb_source block))
     (bindA (read_tx (\<lambda>d. registered_set d Terra)) (\<lambda>registered.
      bindA (in_txv (\<lambda>_ d. foldR (persist_execution (cl8y_token_address cfg) registered height)
                              (tb_executions block) (d, 0))) (\<lambda>count.
      bindA (call (lcd_block_hash net (tb_source block) height)) (\<lambda>hash.
      thenA (if hash \<noteq> tb_hash block then fail (Provider ''terra_changed_during_ingest'') else ret ())
     (thenA (in_tx (publish_checkpoint Terra height (tb_hash block) (tb_tip block)))
     (thenA commit_tx (ret count))))))))) (\<lambda>_. ?Q) ?E"
    unfolding verify_registration_baselines_def
    by (intro atomic_publish verify_baselines_atomic persist atomic.stage_rules)
  show ?thesis
    unfolding ingest_terra_height_def
    by (rule holds_thenA [OF start], rule holds_thenA [OF admit_stage], rule holds_pure, rule holds_weaken, rule rest)
       (auto simp: dbs_def admit_contiguous_Inr)
qed

text \<open>
  C28. Ingesting a Terra block is atomic and safe against every provider: if the invariant of the
  ledger holds it still holds, a failed ingest leaves the committed database as it was or only
  marks the chain degraded, and a successful one moves the checkpoint forward by at most one block
  and certifies it.
\<close>

theorem ingest_terra_height_safe:
  assumes "ledger_inv (committed s)" and "0 \<le> height" and "height \<le> i64_max"
    and run: "ingest_terra_height net lcd cfg height s = (r, s')"
  shows "ledger_inv (committed s')
     \<and> (case r of
          Inl e \<Rightarrow> committed s' = committed s \<or> committed s' = orphaned Terra (committed s)
        | Inr count \<Rightarrow> checkpoint_height (committed s') Terra = height \<and> certified (committed s') Terra
            \<and> (0 < checkpoint_height (committed s) Terra \<longrightarrow>
                 checkpoint_height (committed s) Terra \<le> height
               \<and> height \<le> checkpoint_height (committed s) Terra + 1))"
proof -
  note inv = ingest_terra_inv [OF assms(2,3), of net lcd cfg]
    and atomic = ingest_terra_atomic [of "committed s" net lcd cfg height]
  have pre: "inv_pool s" "dbs (\<lambda>cm _. cm = committed s) s"
    using assms(1) by (simp_all add: dbs_def)
  show ?thesis
  proof (cases r)
    case (Inl e)
    with run have "ingest_terra_height net lcd cfg height s = (Inl e, s')" by simp
    from holds_errorD [OF inv pre(1) this] holds_errorD [OF atomic pre(2) this] Inl
    show ?thesis by (simp add: dbs_def)
  next
    case (Inr n)
    with run have "ingest_terra_height net lcd cfg height s = (Inr n, s')" by simp
    from holdsD [OF inv pre(1) this] holdsD [OF atomic pre(2) this] Inr
    show ?thesis by (auto simp: dbs_def advanced_def checkpoint_height_def split: option.splits)
  qed
qed

lemma initial_books: "0 \<le> B \<Longrightarrow> books_ok initial_db c B"
  by (simp add: books_ok_def initial_db_def unique_by_def)

lemma initial_ledger_inv: "ledger_inv initial_db"
proof -
  have zero: "parse_i64 (str ''0'') = Some 0"
    by code_simp
  have "indexed_height initial_db c = Inr 0" for c
    by (cases c) (simp_all add: indexed_height_def get_state_def initial_db_def find_row_Cons cursor_key_def
        parse_cursor_def zero)
  moreover have "checkpoint_height initial_db c = 0" and "history_ok initial_db c" for c
    by (simp_all add: checkpoint_height_def history_ok_def initial_db_def)
  ultimately show ?thesis
    by (auto simp: ledger_inv_def chain_ok_def initial_books)
qed

definition sample_config :: ledger_config where
  "sample_config = \<lparr>database_url = [], terra_lcd_urls = [], terra_chain_id = [], terra_rpc_urls = [],
     cl8y_token_address = str ''terra1token'', bsc_cl8y_token_address = str ''0x'', bsc_rpc_urls = [],
     run_mode = Dev, api_bind = [], poll_interval_ms = 0\<rparr>"

definition fresh_pool :: "db \<Rightarrow> unit pool" where
  "fresh_pool d = \<lparr>committed = d, tx = d, tx_now = 0, world = ()\<rparr>"

theorem ingest_terra_height_safe_witness:
  "\<exists>s'. ingest_terra_height quiet_network [str ''u''] sample_config 7 (fresh_pool initial_db) = (Inr 0, s')
     \<and> ledger_inv (committed s') \<and> checkpoint_height (committed s') Terra = 7 \<and> certified (committed s') Terra"
proof -
  let ?run = "ingest_terra_height quiet_network [str ''u''] sample_config 7 (fresh_pool initial_db)"
  have "fst ?run = Inr 0"
    by (simp add: ingest_terra_height_def thenA_def bindA_def begin_tx_def read_tx_def lift_def call_def in_txv_def
        in_tx_def commit_tx_def ret_def quiet_network_def fresh_pool_def admit_contiguous_def initial_db_def
        verify_registration_baselines_def unverified_baselines_def publish_checkpoint_def Let_def)
  then have run: "?run = (Inr 0, snd ?run)"
    by (metis prod.collapse)
  have "ledger_inv (committed (fresh_pool initial_db))"
    by (simp add: fresh_pool_def initial_ledger_inv)
  from ingest_terra_height_safe [OF this _ _ run] show ?thesis
    using run by (auto simp: i64_max_def)
qed

lemma store_bsc_range_atomic:
  "holds (dbs (\<lambda>cm t. cm = cm0 \<and> checkpoints t = checkpoints cm0)) (store_bsc_range net cfg bs rng)
     (\<lambda>_. dbs (\<lambda>cm _. \<exists>h. advanced cm0 Bsc h cm)) (dbs (\<lambda>cm _. cm = cm0 \<or> cm = orphaned Bsc cm0))"
proof -
  let ?S = "dbs (\<lambda>cm t. cm = cm0 \<and> checkpoints t = checkpoints cm0)"
  let ?E = "dbs (\<lambda>cm _. cm = cm0 \<or> cm = orphaned Bsc cm0)"
  have mark: "holds ?S (in_tx (\<lambda>_ d. Inr (fold (\<lambda>r. mark_verified Bsc (vr_wallet r)) rs d))) (\<lambda>_. ?S) ?E" for rs
    by (rule atomic.stage_in_tx) (auto simp: checkpoints_fold_verified)
  have persist: "holds ?S (in_txv (\<lambda>_ d. foldR (persist_log token regs) logs (d, 0))) (\<lambda>_. ?S) ?E" for token regs logs
    by (rule atomic.stage_in_txv) (auto dest: checkpoints_persist_log)
  have blocks: "holds ?S (in_tx (\<lambda>_ d. Inr (fold (insert_canonical_block Bsc) hs d))) (\<lambda>_. ?S) ?E" for hs
    by (rule atomic.stage_in_tx) (auto simp: checkpoints_insert_blocks)
  have publish: "holds ?S (thenA (in_tx (publish_checkpoint Bsc height hash tip)) (thenA commit_tx (ret count)))
      (\<lambda>_. dbs (\<lambda>cm _. \<exists>h. advanced cm0 Bsc h cm)) ?E" for height hash tip and count :: nat
    by (rule holds_weaken [OF atomic_publish]) (auto simp: dbs_def)
  show ?thesis
    unfolding store_bsc_range_def by (intro mark persist blocks publish atomic.stage_rules)
qed

lemma ingest_bsc_atomic:
  "holds (dbs (\<lambda>cm _. cm = cm0)) (ingest_bsc_range_plan net bsc cfg from to plan)
     (\<lambda>_. dbs (\<lambda>cm _. (to < from \<and> cm = cm0) \<or> (\<exists>h. advanced cm0 Bsc h cm)))
     (dbs (\<lambda>cm _. cm = cm0 \<or> cm = orphaned Bsc cm0))"
proof (cases "from > to")
  case True
  then show ?thesis by (auto simp: ingest_bsc_range_plan_def dbs_def intro!: holds_ret)
next
  case False
  let ?S = "dbs (\<lambda>cm t. cm = cm0 \<and> checkpoints t = checkpoints cm0)"
  let ?E = "dbs (\<lambda>cm _. cm = cm0 \<or> cm = orphaned Bsc cm0)"
  have start: "holds (dbs (\<lambda>cm _. cm = cm0)) (begin_tx (clock net)) (\<lambda>_. ?S) ?E"
    by (rule holds_begin) (simp add: dbs_def)
  have admit: "holds ?S (bindA (read_tx (admit_contiguous Bsc from)) lift) (\<lambda>_. ?S) ?E"
    by (rule holds_weaken [OF admit_stage]) (auto simp: dbs_def)
  have range: "holds ?S (tryA (call f)
        (\<lambda>e. thenA (if e = Provider ''registration_baseline_orphaned''
                    then on_pool (clock net) (\<lambda>_. orphaned Bsc) else ret ()) (fail e))) (\<lambda>_. ?S) ?E"
    for f :: "('a, bsc_range) net"
  proof (rule holds_tryA [where R = ?S])
    show "holds ?S (call f) (\<lambda>_. ?S) ?S"
      by (rule holds_call) (simp_all add: dbs_def)
    show "holds ?S (thenA (if e = Provider ''registration_baseline_orphaned''
          then on_pool (clock net) (\<lambda>_. orphaned Bsc) else ret ()) (fail e)) (\<lambda>_. ?S) ?E" for e
      by (rule holds_thenA [where Q = ?E]) (auto intro!: holds_if holds_on_pool holds_ret holds_fail simp: dbs_def)
  qed (simp add: dbs_def)
  have store: "holds ?S (store_bsc_range net cfg bs rng)
      (\<lambda>_. dbs (\<lambda>cm _. (to < from \<and> cm = cm0) \<or> (\<exists>h. advanced cm0 Bsc h cm))) ?E" for bs rng
    by (rule holds_weaken [OF store_bsc_range_atomic]) (auto simp: dbs_def)
  show ?thesis
    unfolding ingest_bsc_range_plan_def if_not_P [OF False]
    by (rule holds_thenA [OF start], rule holds_thenA [OF admit], rule holds_bindA [OF atomic.stage_read],
        rule holds_bindA [OF range], rule store)
qed

text \<open>
  The same for a BSC range, under the client's contract that a range's logs and hashes lie
  at or below its end: the invariant is kept, a failure changes nothing or degrades the chain, and
  success certifies the chain at a height that is not below the previous checkpoint.
\<close>

theorem ingest_bsc_range_safe:
  assumes "ledger_inv (committed s)" and "ranges_bounded net"
    and run: "ingest_bsc_range_plan net bsc cfg from to plan s = (r, s')"
  shows "ledger_inv (committed s')
     \<and> (case r of
          Inl e \<Rightarrow> committed s' = committed s \<or> committed s' = orphaned Bsc (committed s)
        | Inr count \<Rightarrow> if to < from then committed s' = committed s
            else certified (committed s') Bsc
              \<and> (checkpoints (committed s) Bsc = None
                 \<or> checkpoint_height (committed s) Bsc \<le> checkpoint_height (committed s') Bsc))"
proof -
  note inv = ingest_bsc_inv [OF assms(2), of bsc cfg "from" to plan]
    and atomic = ingest_bsc_atomic [of "committed s" net bsc cfg "from" to plan]
  have pre: "inv_pool s" "dbs (\<lambda>cm _. cm = committed s) s"
    using assms(1) by (simp_all add: dbs_def)
  show ?thesis
  proof (cases r)
    case (Inl e)
    with run have "ingest_bsc_range_plan net bsc cfg from to plan s = (Inl e, s')" by simp
    from holds_errorD [OF inv pre(1) this] holds_errorD [OF atomic pre(2) this] Inl
    show ?thesis by (simp add: dbs_def)
  next
    case (Inr n)
    with run have run': "ingest_bsc_range_plan net bsc cfg from to plan s = (Inr n, s')" by simp
    have "to < from \<Longrightarrow> committed s' = committed s"
      using run' by (simp add: ingest_bsc_range_plan_def ret_def)
    with holdsD [OF inv pre(1) run'] holdsD [OF atomic pre(2) run'] Inr
    show ?thesis by (auto simp: dbs_def advanced_def)
  qed
qed

theorem ingest_bsc_range_safe_witness:
  "\<exists>s'. ingest_bsc_range quiet_network [str ''u''] sample_config 100 131 (fresh_pool initial_db) = (Inr 0, s')
     \<and> ledger_inv (committed s') \<and> certified (committed s') Bsc"
proof -
  let ?run = "ingest_bsc_range_plan quiet_network [str ''u''] sample_config 100 131 False (fresh_pool initial_db)"
  have "fst ?run = Inr 0"
    by (simp add: ingest_bsc_range_plan_def store_bsc_range_def thenA_def bindA_def begin_tx_def read_tx_def lift_def
        call_def in_txv_def in_tx_def tryA_def commit_tx_def ret_def quiet_network_def fresh_pool_def
        admit_contiguous_def initial_db_def unverified_baselines_def publish_checkpoint_def Let_def
        insert_canonical_block_def)
  then have run: "?run = (Inr 0, snd ?run)"
    by (metis prod.collapse)
  have "ledger_inv (committed (fresh_pool initial_db))"
    by (simp add: fresh_pool_def initial_ledger_inv)
  moreover have "ranges_bounded quiet_network"
    by (auto simp: ranges_bounded_def range_bounded_def quiet_network_def i64_max_def split: if_splits)
  ultimately show ?thesis
    using ingest_bsc_range_safe [OF _ _ run] run by (auto simp: ingest_bsc_range_def)
qed

section \<open>Forks\<close>

text \<open>
  The providers at \<open>urls\<close> answer the hash queries for the heights \<open>hs\<close> from one chain, whatever else
  the outside world does meanwhile.
\<close>

definition honest :: "'w network \<Rightarrow> chain \<Rightarrow> urls \<Rightarrow> int set \<Rightarrow> (int \<Rightarrow> ustring) \<Rightarrow> bool" where
  "honest net c urls hs truth \<longleftrightarrow> (\<forall>h\<in>hs. \<forall>w. fst (chain_block_hash net c urls h w) = Inr (truth h))"

definition fork_point :: "(int \<Rightarrow> ustring) \<Rightarrow> canonical_block list \<Rightarrow> canonical_block option" where
  "fork_point truth bs = List.find (\<lambda>b. truth (cb_height b) = cb_hash b) bs"

lemma call_honest:
  "honest net c urls hs truth \<Longrightarrow> h \<in> hs \<Longrightarrow> call (chain_block_hash net c urls h) s
     = (Inr (truth h), s\<lparr>world := snd (chain_block_hash net c urls h (world s))\<rparr>)"
proof -
  assume "honest net c urls hs truth" "h \<in> hs"
  then have "fst (chain_block_hash net c urls h (world s)) = Inr (truth h)"
    by (simp add: honest_def)
  then show ?thesis
    by (simp add: call_def split_beta)
qed

lemma find_ancestor_honest:
  "honest net c urls hs truth \<Longrightarrow> cb_height ` set bs \<subseteq> hs
     \<Longrightarrow> \<exists>w. find_ancestor net c urls bs s = (Inr (map_option cb_height (fork_point truth bs)), s\<lparr>world := w\<rparr>)"
proof (induction bs arbitrary: s)
  case Nil
  show ?case by (intro exI [of _ "world s"]) (simp add: ret_def fork_point_def)
next
  case (Cons b bs)
  let ?s = "s\<lparr>world := snd (chain_block_hash net c urls (cb_height b) (world s))\<rparr>"
  have "\<exists>w. find_ancestor net c urls bs ?s = (Inr (map_option cb_height (fork_point truth bs)), ?s\<lparr>world := w\<rparr>)"
    by (rule Cons.IH) (use Cons.prems in simp_all)
  then obtain w where "find_ancestor net c urls bs ?s = (Inr (map_option cb_height (fork_point truth bs)), s\<lparr>world := w\<rparr>)"
    by auto
  with Cons.prems show ?case
    by (auto simp: bindA_def call_honest ret_def fork_point_def)
qed

lemma recent_blocks_sorted: "sorted (rev (map cb_height (recent_blocks c d)))"
proof -
  let ?xs = "sort_key cb_height (filter (\<lambda>b. cb_chain b = c) (canonical_blocks d))"
  have "rev (map cb_height (recent_blocks c d)) = drop (length ?xs - 129) (map cb_height ?xs)"
    by (simp add: recent_blocks_def take_rev rev_map [symmetric] drop_map del: rev_map)
  then show ?thesis by (simp add: sorted_wrt_drop)
qed

lemma fork_point_highest:
  assumes "sorted (rev (map cb_height bs))" and "fork_point truth bs = Some f" and "q \<in> set bs"
    and "truth (cb_height q) = cb_hash q"
  shows "cb_height q \<le> cb_height f"
  using assms
proof (induction bs)
  case (Cons b bs)
  have "\<forall>x\<in>set bs. cb_height x \<le> cb_height b" and "sorted (rev (map cb_height bs))"
    using Cons.prems(1) by (auto simp: sorted_append)
  with Cons show ?case by (auto simp: fork_point_def split: if_splits)
qed (simp add: fork_point_def)

lemma publish_canonical_hash:
  assumes pub: "publish_checkpoint c height hash tip now d = Inr d'"
    and "unique_by cb_key (canonical_blocks d)" and "in_i64 height"
  shows "canonical_hash d' c height = Some hash"
proof -
  let ?b = "\<lparr>cb_chain = c, cb_height = height, cb_hash = hash\<rparr>"
  have "\<not> height < sat_sub height 128"
    using assms(3) by (auto simp: i64_defs)
  then have mem: "?b \<in> set (canonical_blocks d')" and uniq: "unique_by cb_key (canonical_blocks d')"
    using pub assms(2) unfolding publish_checkpoint_Inr by (auto simp: set_upsert_row)
  show ?thesis
    using unique_by_find [OF uniq mem] by (simp add: canonical_hash_def cb_key_def)
qed

lemma publish_voting_tables:
  "publish_checkpoint c height hash tip now d = Inr d' \<Longrightarrow> proposals d' = proposals d \<and> snapshots d' = snapshots d
     \<and> votes d' = votes d"
  by (simp add: publish_checkpoint_Inr)

lemma rewind_to_ancestor_voting:
  "snapshots (rewind_to_ancestor c a d) = snapshots d" "votes (rewind_to_ancestor c a d) = votes d"
  "proposals (rewind_to_ancestor c a d) = update_where
     (\<lambda>p. case snapshot_height c p of Some h \<Rightarrow> h > a | None \<Rightarrow> False) (invalidate ''canonical source fork'') (proposals d)"
  by (simp_all add: rewind_to_ancestor_def Let_def)

text \<open>
  C27. When the tip's hash no longer matches, a canonicality check against providers
  that answer honestly for the stored heights rewinds to the highest stored block they still have: transfers and balances above it are
  gone, the checkpoint and its hash are the ancestor's, every proposal frozen above it is marked
  invalid and every other one is unchanged, frozen weights and votes are never rewritten, and the
  chain stays uncertified exactly when a registration baseline was orphaned.
\<close>

theorem canonicality_resolves_fork:
  assumes net: "honest net c urls (cb_height ` set (recent_blocks c (committed s))) truth"
    and last: "0 < last_h" and inv: "ledger_inv (committed s)"
    and recent: "recent_blocks c (committed s) = b # older"
    and top: "cb_height b = checkpoint_height (committed s) c" "0 < checkpoint_height (committed s) c"
    and diff: "truth (cb_height b) \<noteq> cb_hash b"
    and fork: "fork_point truth older = Some f" and i64: "in_i64 (cb_height f)"
  shows "let d = committed s; out = canonicality net c last_h urls s; d' = committed (snd out);
             affected = registrations_above c (cb_height f) d in
     fst out = (if affected then Inl (Provider ''registration_baseline_orphaned'') else Inr ())
   \<and> (\<forall>q\<in>set older. truth (cb_height q) = cb_hash q \<longrightarrow> cb_height q \<le> cb_height f)
   \<and> checkpoint_height d' c = cb_height f \<and> canonical_hash d' c (cb_height f) = Some (cb_hash f)
   \<and> transfers d' c = filter (\<lambda>t. tr_height t \<le> cb_height f) (transfers d c)
   \<and> balances d' c = filter (\<lambda>b. bl_height b \<le> cb_height f) (balances d c)
   \<and> proposals d' = map (\<lambda>p. if (\<exists>h. snapshot_height c p = Some h \<and> cb_height f < h)
                              then invalidate ''canonical source fork'' p else p) (proposals d)
   \<and> snapshots d' = snapshots d \<and> votes d' = votes d \<and> (certified d' c \<longleftrightarrow> \<not> affected)"
proof -
  let ?d = "committed s"
  let ?a = "cb_height f"
  let ?r = "rewind_to_ancestor c ?a ?d"
  let ?now = "clock net (world s)"
  have cp: "checkpoints ?d c \<noteq> None"
    using top(2) by (auto simp: checkpoint_height_def split: option.splits)
  have hash: "truth ?a = cb_hash f"
    using fork by (auto simp: fork_point_def find_Some_iff)
  have "\<exists>d2. publish_checkpoint c ?a (cb_hash f) ?a ?now ?r = Inr d2"
    by (auto simp: publish_checkpoint_Inr rewind_to_ancestor_tables)
  then obtain d2 where pub: "publish_checkpoint c ?a (cb_hash f) ?a ?now ?r = Inr d2"
    by blast
  have regs: "registrations_above c ?a ?r = registrations_above c ?a ?d"
    by (simp add: registrations_above_def rewind_to_ancestor_tables)
  have tip: "call (chain_block_hash net c urls (checkpoint_height ?d c)) t = (Inr (truth (checkpoint_height ?d c)),
      t\<lparr>world := snd (chain_block_hash net c urls (checkpoint_height ?d c) (world t))\<rparr>)" for t
    by (rule call_honest [OF net]) (simp add: recent top(1) [symmetric])
  have at_fork: "call (chain_block_hash net c urls ?a) t
      = (Inr (truth ?a), t\<lparr>world := snd (chain_block_hash net c urls ?a (world t))\<rparr>)" for t
    by (rule call_honest [OF net]) (use fork in \<open>auto simp: recent fork_point_def find_Some_iff\<close>)
  have "\<exists>w. find_ancestor net c urls older t = (Inr (Some ?a), t\<lparr>world := w\<rparr>)" for t
    using find_ancestor_honest [OF net, of older t] by (auto simp: recent fork)
  then obtain W where ancestor: "find_ancestor net c urls older t = (Inr (Some ?a), t\<lparr>world := W t\<rparr>)" for t
    by metis
  let ?d' = "if registrations_above c ?a ?d then force_degrade c ''registration_baseline_orphaned'' d2 else d2"
  have run: "fst (canonicality net c last_h urls s) = (if registrations_above c ?a ?d
         then Inl (Provider ''registration_baseline_orphaned'') else Inr ())"
    "committed (snd (canonicality net c last_h urls s)) = ?d'"
    using last top diff recent pub
    by (auto simp: canonicality_def resolve_fork_def publish_ancestor_def thenA_def bindA_def begin_tx_def read_tx_def
        in_tx_def commit_tx_def ret_def fail_def tip at_fork ancestor regs hash)
  have uniq: "unique_by cb_key (canonical_blocks ?r)"
    using inv by (simp add: rewind_to_ancestor_tables ledger_inv_def history_ok_def)
  have "canonical_hash d2 c ?a = Some (cb_hash f)"
    by (rule publish_canonical_hash [OF pub uniq i64])
  then have canonical: "canonical_hash ?d' c ?a = Some (cb_hash f)"
    by (simp add: canonical_hash_def force_degrade_def)
  have "certified d2 c"
    using pub by (auto simp: publish_checkpoint_Inr certified_def)
  then have cert: "certified ?d' c \<longleftrightarrow> \<not> registrations_above c ?a ?d"
    by (auto simp: certified_def force_degrade_def)
  have height: "checkpoint_height ?d' c = ?a"
    using publish_tables(5) [OF pub] by (auto simp: checkpoint_height_def force_degrade_def split: option.splits)
  have books: "transfers ?d' c = filter (\<lambda>t. tr_height t \<le> ?a) (transfers ?d c)"
    "balances ?d' c = filter (\<lambda>b. bl_height b \<le> ?a) (balances ?d c)"
    using publish_tables(2,3) [OF pub]
    by (simp_all add: force_degrade_def rewind_to_ancestor_tables cut_books_def linorder_not_less)
  have voting: "proposals ?d' = map (\<lambda>p. if (\<exists>h. snapshot_height c p = Some h \<and> ?a < h)
                              then invalidate ''canonical source fork'' p else p) (proposals ?d)"
    "snapshots ?d' = snapshots ?d" "votes ?d' = votes ?d"
    using publish_voting_tables [OF pub]
    by (auto simp: force_degrade_def rewind_to_ancestor_voting update_where_def split: option.split)
  have "sorted (rev (map cb_height older))"
    using recent_blocks_sorted [of c ?d] by (simp add: recent sorted_append)
  then have "\<forall>q\<in>set older. truth (cb_height q) = cb_hash q \<longrightarrow> cb_height q \<le> ?a"
    using fork_point_highest fork by blast
  with canonical cert height books voting show ?thesis
    by (simp only: Let_def run)
qed

text \<open>Three stored Terra blocks of which the quiet provider only has the lowest.\<close>

definition fork_db :: db where
  "fork_db = initial_db\<lparr>
     checkpoints := (\<lambda>_. None)(Terra := Some \<lparr>cp_height = 12, cp_hash = str ''x2'', cp_observed_at = Some 0,
       cp_epoch = 1, cp_complete = True, cp_canonical = True, cp_degraded = None, cp_network_tip = 12\<rparr>),
     canonical_blocks := [\<lparr>cb_chain = Terra, cb_height = 10, cb_hash = quiet_hash\<rparr>,
       \<lparr>cb_chain = Terra, cb_height = 11, cb_hash = str ''x1''\<rparr>,
       \<lparr>cb_chain = Terra, cb_height = 12, cb_hash = str ''x2''\<rparr>]\<rparr>"

lemma quiet_honest: "honest quiet_network c urls hs (\<lambda>_. quiet_hash)"
  by (cases c) (simp_all add: honest_def chain_block_hash_def quiet_network_def)

lemma fork_db_inv: "ledger_inv fork_db"
proof -
  have zero: "parse_i64 (str ''0'') = Some 0"
    by code_simp
  have "indexed_height fork_db c = Inr 0" for c
    by (cases c) (simp_all add: indexed_height_def get_state_def initial_db_def fork_db_def find_row_Cons cursor_key_def
        parse_cursor_def zero)
  moreover have "0 \<le> B \<Longrightarrow> books_ok fork_db c B" for c B
    by (simp add: books_ok_def fork_db_def initial_db_def unique_by_def)
  moreover have "0 \<le> checkpoint_height fork_db c" and "history_ok fork_db c" for c
    by (auto simp: checkpoint_height_def history_ok_def fork_db_def unique_by_def cb_key_def)
  ultimately show ?thesis
    by (auto simp: ledger_inv_def chain_ok_def)
qed

text \<open>
  When no stored block survives, the check fails closed: the books are kept for review, the
  chain is degraded for good, and every open proposal frozen in the current epoch (or without one)
  is marked invalid.
\<close>

theorem canonicality_beyond_horizon:
  assumes net: "honest net c urls (cb_height ` set (recent_blocks c (committed s))) truth" and last: "0 < last_h"
    and recent: "recent_blocks c (committed s) = b # older"
    and top: "checkpoints (committed s) c = Some cp" "cb_height b = cp_height cp" "0 < cp_height cp"
    and diff: "\<forall>q\<in>set (b # older). truth (cb_height q) \<noteq> cb_hash q"
  shows "let d = committed s; out = canonicality net c last_h urls s; d' = committed (snd out) in
     fst out = Inl (Provider ''fork_beyond_horizon'')
   \<and> degraded_reason d' c = Some (str ''fork_beyond_horizon'') \<and> \<not> certified d' c
   \<and> str ''fork_beyond_horizon'' \<in> set permanent_reasons
   \<and> transfers d' = transfers d \<and> balances d' = balances d \<and> snapshots d' = snapshots d
   \<and> (\<forall>p\<in>set (proposals d'). pr_status p = Open \<and> snapshot_epoch c p \<in> {None, Some (cp_epoch cp)}
        \<longrightarrow> pr_validity p = InvalidSnapshot)"
proof -
  have fork: "fork_point truth older = None"
    using diff by (auto simp: fork_point_def find_None_iff)
  have tip: "call (chain_block_hash net c urls (cb_height b)) t = (Inr (truth (cb_height b)),
      t\<lparr>world := snd (chain_block_hash net c urls (cb_height b) (world t))\<rparr>)" for t
    by (rule call_honest [OF net]) (simp add: recent)
  have "\<exists>w. find_ancestor net c urls older t = (Inr None, t\<lparr>world := w\<rparr>)" for t
    using find_ancestor_honest [OF net, of older t] by (auto simp: recent fork)
  then obtain W where ancestor: "find_ancestor net c urls older t = (Inr None, t\<lparr>world := W t\<rparr>)" for t
    by metis
  have "fst (canonicality net c last_h urls s) = Inl (Provider ''fork_beyond_horizon'')"
    "committed (snd (canonicality net c last_h urls s)) = beyond_horizon c (committed s)"
    using last top diff recent
    by (auto simp: canonicality_def resolve_fork_def thenA_def bindA_def begin_tx_def read_tx_def checkpoint_height_def
        in_tx_def commit_tx_def ret_def fail_def tip [unfolded top(2)] ancestor)
  note run = this
  have "degraded_reason (beyond_horizon c (committed s)) c = Some (str ''fork_beyond_horizon'')"
    "\<not> certified (beyond_horizon c (committed s)) c"
    using top(1) by (simp_all add: degraded_reason_def certified_def beyond_horizon_def force_degrade_def)
  moreover have "\<forall>p\<in>set (proposals (beyond_horizon c (committed s))).
      pr_status p = Open \<and> snapshot_epoch c p \<in> {None, Some (cp_epoch cp)} \<longrightarrow> pr_validity p = InvalidSnapshot"
    using top(1) by (auto simp: beyond_horizon_def force_degrade_def update_where_def invalidate_def snapshot_epoch_def
        split: chain.splits)
  ultimately show ?thesis
    by (simp add: Let_def run permanent_reasons_def) (simp add: beyond_horizon_def force_degrade_def)
qed

theorem canonicality_beyond_horizon_witness:
  "let d = fork_db\<lparr>canonical_blocks := [\<lparr>cb_chain = Terra, cb_height = 12, cb_hash = str ''x2''\<rparr>]\<rparr>;
       out = canonicality quiet_network Terra 12 [str ''u''] (fresh_pool d) in
   fst out = Inl (Provider ''fork_beyond_horizon'') \<and> \<not> certified (committed (snd out)) Terra"
proof -
  let ?d = "fork_db\<lparr>canonical_blocks := [\<lparr>cb_chain = Terra, cb_height = 12, cb_hash = str ''x2''\<rparr>]\<rparr>"
  let ?cp = "\<lparr>cp_height = 12, cp_hash = str ''x2'', cp_observed_at = Some 0,
       cp_epoch = 1, cp_complete = True, cp_canonical = True, cp_degraded = None, cp_network_tip = 12\<rparr>"
  have recent: "recent_blocks Terra (committed (fresh_pool ?d)) =
      \<lparr>cb_chain = Terra, cb_height = 12, cb_hash = str ''x2''\<rparr> # []"
    by (simp add: recent_blocks_def fresh_pool_def)
  have cp: "checkpoints (committed (fresh_pool ?d)) Terra = Some ?cp"
    by (simp add: fresh_pool_def fork_db_def)
  from canonicality_beyond_horizon [OF quiet_honest _ recent cp, of 12 "[str ''u'']"]
  show ?thesis
    by (simp add: Let_def quiet_hash_def)
qed

end
