(* ===== verification/Worker.thy ===== *)
theory Worker
  imports IngestProps
begin

text \<open>
  One poll of a chain (\<open>ledger/src/worker.rs\<close>): the refusals, the canonicality check, one ingest
  window or the renewal of a stationary tip, and whether the supervisor should go on at once. The
  theorem says what a poll can leave behind, whatever the providers answer.
\<close>

section \<open>The poll\<close>

text \<open>The cursor on the pool.\<close>

definition read_cursor :: "chain \<Rightarrow> ('w, int) act" where
  "read_cursor c = bindA (read_pool (\<lambda>d. indexed_height d c)) lift"

text \<open>The clients of a chain: \<open>None\<close> when no provider is configured.\<close>

definition chain_client :: "urls option \<Rightarrow> urls \<Rightarrow> chain \<Rightarrow> urls ledger_result" where
  "chain_client lcd bsc c =
     (case c of
        Terra \<Rightarrow> (case lcd of Some urls \<Rightarrow> Inr urls | None \<Rightarrow> Inl (Provider ''no_terra_provider''))
      | Bsc \<Rightarrow> (if bsc = [] then Inl (Provider ''no_bsc_provider'') else Inr bsc))"

text \<open>The tip a poll works towards, read once the cursor is canonical.\<close>

definition observed_tip :: "'w network \<Rightarrow> chain \<Rightarrow> urls \<Rightarrow> ('w, int) act" where
  "observed_tip net c urls =
     bindA (read_cursor c) (\<lambda>canonical_cursor.
     case c of
       Terra \<Rightarrow> call (lcd_latest_height_at_least net urls canonical_cursor)
     | Bsc \<Rightarrow>
         bindA (call (bsc_block_number_at_least net urls
                  (if canonical_cursor > 0 then sat_add canonical_cursor BSC_FINALITY_DEPTH else 0)))
           (\<lambda>head. ret (sat_sub head BSC_FINALITY_DEPTH)))"

definition publish_tip :: "'w network \<Rightarrow> chain \<Rightarrow> urls \<Rightarrow> int \<Rightarrow> ('w, unit) act" where
  "publish_tip net c urls tip =
     bindA (call (chain_block_hash net c urls tip)) (\<lambda>hash.
     thenA (begin_tx (clock net))
    (thenA (in_tx (publish_checkpoint c tip hash (if c = Bsc then tip + BSC_FINALITY_DEPTH else tip)))
           commit_tx))"

definition advance :: "'w network \<Rightarrow> ledger_config \<Rightarrow> chain \<Rightarrow> urls \<Rightarrow> int \<Rightarrow> int \<Rightarrow> ('w, unit) act" where
  "advance net cfg c urls after_rewind tip =
     (case ingest_window after_rewind tip INGEST_CHUNK INGEST_STALE_GAP of
        Some w \<Rightarrow>
          (case c of
             Terra \<Rightarrow> forA (\<lambda>h. thenA (ingest_terra_height net urls cfg h) (ret ())) [iw_start w..iw_end w]
           | Bsc \<Rightarrow> thenA (ingest_bsc_next_range net urls cfg (iw_start w)) (ret ()))
      | None \<Rightarrow>
          if after_rewind = tip \<and> tip > 0 then publish_tip net c urls tip
          else fail (Provider ''provider_head_regressed''))"

definition lag_budget :: "chain \<Rightarrow> int" where
  "lag_budget c = (if c = Bsc then 17 else 2)"

definition read_behind :: "chain \<Rightarrow> int \<Rightarrow> ('w, bool) act" where
  "read_behind c after_rewind =
     bindA (read_pool (\<lambda>d. checkpoints d c)) (\<lambda>row.
     case row of
       None \<Rightarrow> fail (Database SqlxRowNotFound)
     | Some cp \<Rightarrow> ret (cp_height cp > after_rewind \<and> cp_network_tip cp - cp_height cp > lag_budget c))"

definition poll_chain_progress ::
    "'w network \<Rightarrow> urls option \<Rightarrow> urls \<Rightarrow> ledger_config \<Rightarrow> chain \<Rightarrow> ('w, bool) act" where
  "poll_chain_progress net lcd bsc cfg c =
     bindA (read_cursor c) (\<lambda>cursor.
     bindA (read_pool (\<lambda>d. degraded_reason d c)) (\<lambda>reason.
     if (case reason of Some r \<Rightarrow> r \<in> set permanent_reasons | None \<Rightarrow> False)
     then fail (Provider ''continuity_requires_reconciliation'')
     else bindA (read_pool (\<lambda>d. cursor = 0 \<and> max_registered_height d c > 0)) (\<lambda>lost.
     if lost
     then thenA (on_pool (clock net) (\<lambda>_. degrade c (str ''lost_registered_history'')))
                (fail (Provider ''lost_registered_history''))
     else bindA (lift (chain_client lcd bsc c)) (\<lambda>urls.
     thenA (canonicality net c cursor urls)
    (bindA (observed_tip net c urls) (\<lambda>tip.
     bindA (read_cursor c) (\<lambda>after_rewind.
     thenA (advance net cfg c urls after_rewind tip)
           (read_behind c after_rewind))))))))"

definition poll_chain ::
    "'w network \<Rightarrow> urls option \<Rightarrow> urls \<Rightarrow> ledger_config \<Rightarrow> chain \<Rightarrow> ('w, unit) act" where
  "poll_chain net lcd bsc cfg c = thenA (poll_chain_progress net lcd bsc cfg c) (ret ())"

section \<open>What a poll keeps\<close>

abbreviation certified_pool :: "chain \<Rightarrow> 'w pool \<Rightarrow> bool" where
  "certified_pool c \<equiv> dbs (\<lambda>cm _. ledger_inv cm \<and> certified cm c)"

lemma read_cursor_same: "holds P (read_cursor c) (\<lambda>_. P) P"
  unfolding read_cursor_def by (rule holds_bindA [OF holds_read_pool holds_lift]) auto

lemma ingest_terra_certified:
  assumes "0 \<le> h" "h \<le> i64_max"
  shows "holds inv_pool (thenA (ingest_terra_height net urls cfg h) (ret ())) (\<lambda>_. certified_pool Terra) inv_pool"
proof -
  have "holds inv_pool (ingest_terra_height net urls cfg h) (\<lambda>_. certified_pool Terra) inv_pool"
  proof (rule holdsI)
    fix s :: "'a pool"
    assume pre: "inv_pool s"
    have pre': "dbs (\<lambda>cm _. cm = committed s) s"
      by (simp add: dbs_def)
    show "case ingest_terra_height net urls cfg h s of (Inr x, s') \<Rightarrow> certified_pool Terra s' | (Inl e, s') \<Rightarrow> inv_pool s'"
      using holdsD [OF ingest_terra_inv [OF assms] pre] holds_errorD [OF ingest_terra_inv [OF assms] pre]
        holdsD [OF ingest_terra_atomic pre']
      by (fastforce simp: dbs_def advanced_def split: prod.splits sum.splits)
  qed
  then show ?thesis
    by (rule holds_thenA) (simp add: holds_ret)
qed

lemma ingest_bsc_certified:
  assumes "ranges_bounded net" and "from \<le> to"
  shows "holds inv_pool (thenA (ingest_bsc_range_plan net urls cfg from to plan) (ret ())) (\<lambda>_. certified_pool Bsc) inv_pool"
proof -
  have "holds inv_pool (ingest_bsc_range_plan net urls cfg from to plan) (\<lambda>_. certified_pool Bsc) inv_pool"
  proof (rule holdsI)
    fix s :: "'a pool"
    assume pre: "inv_pool s"
    have pre': "dbs (\<lambda>cm _. cm = committed s) s"
      by (simp add: dbs_def)
    show "case ingest_bsc_range_plan net urls cfg from to plan s of
        (Inr x, s') \<Rightarrow> certified_pool Bsc s' | (Inl e, s') \<Rightarrow> inv_pool s'"
      using holdsD [OF ingest_bsc_inv [OF assms(1)] pre] holds_errorD [OF ingest_bsc_inv [OF assms(1)] pre]
        holdsD [OF ingest_bsc_atomic pre'] assms(2)
      by (fastforce simp: dbs_def advanced_def split: prod.splits sum.splits)
  qed
  then show ?thesis
    by (rule holds_thenA) (simp add: holds_ret)
qed

text \<open>A loop that runs at least once and establishes \<open>Q\<close> each time.\<close>

lemma holds_forA_some:
  assumes "xs \<noteq> []" and "\<And>x. x \<in> set xs \<Longrightarrow> holds P (f x) (\<lambda>_. Q) R" and "\<And>s. Q s \<Longrightarrow> P s"
  shows "holds P (forA f xs) (\<lambda>_. Q) R"
  using assms(1,2)
proof (induction xs)
  case (Cons x xs)
  have one: "holds P (f x) (\<lambda>_. Q) R"
    using Cons.prems by simp
  show ?case
  proof (cases "xs = []")
    case True
    with one show ?thesis by (auto intro: holds_thenA holds_ret)
  next
    case False
    with Cons have "holds P (forA f xs) (\<lambda>_. Q) R" by simp
    then have "holds Q (forA f xs) (\<lambda>_. Q) R"
      by (rule holds_weaken) (simp_all add: assms(3))
    with one show ?thesis by (simp add: holds_thenA)
  qed
qed simp

lemma publish_tip_certified:
  assumes "0 < tip"
  shows "holds inv_pool (publish_tip net c urls tip) (\<lambda>_. certified_pool c) inv_pool"
proof -
  have call: "holds inv_pool (call f) (\<lambda>_. inv_pool) inv_pool" for f :: "('a, ustring) net"
    by (rule dbs_call)
  have publish: "holds (during c tip) (in_tx (publish_checkpoint c tip hash t))
      (\<lambda>_. dbs (\<lambda>cm t. ledger_inv cm \<and> ledger_inv t \<and> certified t c)) inv_pool" for hash t
  proof (rule holds_in_tx)
    fix s d
    assume s: "during c tip s" and pub: "publish_checkpoint c tip hash t (tx_now s) (tx s) = Inr d"
    then have "certified d c"
      by (auto simp: publish_checkpoint_Inr certified_def)
    then show "dbs (\<lambda>cm t. ledger_inv cm \<and> ledger_inv t \<and> certified t c) (s\<lparr>tx := d\<rparr>)"
      using s pub assms by (auto simp: dbs_def intro: pre_publish_publish)
  qed (simp add: dbs_def)
  have commit: "holds (dbs (\<lambda>cm t. ledger_inv cm \<and> ledger_inv t \<and> certified t c)) commit_tx (\<lambda>_. certified_pool c) inv_pool"
    by (rule holds_commit) (simp add: dbs_def)
  show ?thesis
    unfolding publish_tip_def
    by (rule holds_bindA [OF call], rule holds_thenA [OF during_begin], rule holds_thenA [OF publish commit])
qed

lemma ingest_window_Some:
  "ingest_window last_h tip chunk gap = Some w \<Longrightarrow> tip \<le> i64_max \<Longrightarrow>
     0 < iw_start w \<and> iw_start w \<le> iw_end w \<and> iw_end w \<le> i64_max"
  by (auto simp: ingest_window_def Let_def sat_add_def sat_i64_def i64_max_def i64_min_def split: if_splits)

lemma advance_certified:
  assumes net: "ranges_bounded net" and tip: "tip \<le> i64_max"
  shows "holds inv_pool (advance net cfg c urls a tip) (\<lambda>_. certified_pool c) inv_pool"
proof (cases "ingest_window a tip INGEST_CHUNK INGEST_STALE_GAP")
  case None
  have "holds inv_pool (fail e) (\<lambda>_. certified_pool c) inv_pool" for e :: ledger_error
    by (rule holds_fail)
  moreover have "holds inv_pool (publish_tip net c urls tip) (\<lambda>_. certified_pool c) inv_pool" if "a = tip \<and> 0 < tip"
    using that by (simp add: publish_tip_certified)
  ultimately show ?thesis
    using None by (simp only: advance_def option.case) (rule holds_if)
next
  case (Some w)
  note w = ingest_window_Some [OF Some tip]
  show ?thesis
  proof (cases c)
    case Terra
    have "holds inv_pool (forA (\<lambda>h. thenA (ingest_terra_height net urls cfg h) (ret ())) [iw_start w..iw_end w])
        (\<lambda>_. certified_pool Terra) inv_pool"
      by (rule holds_forA_some) (use w in \<open>auto intro!: ingest_terra_certified simp: dbs_def\<close>)
    with Some Terra show ?thesis by (simp add: advance_def)
  next
    case Bsc
    have "iw_start w \<le> sat_add (iw_start w) (INGEST_CHUNK - 1)"
      using w by (auto simp: sat_add_def sat_i64_def INGEST_CHUNK_def i64_max_def i64_min_def)
    with Some Bsc show ?thesis
      by (simp add: advance_def ingest_bsc_next_range_def ingest_bsc_certified [OF net])
  qed
qed

section \<open>The poll as a whole\<close>

text \<open>Terra heads are \<open>i64\<close> values (BSC heads are saturated by the poll itself).\<close>

definition heads_i64 :: "'w network \<Rightarrow> bool" where
  "heads_i64 net \<longleftrightarrow>
     (\<forall>urls m w h w'. lcd_latest_height_at_least net urls m w = (Inr h, w') \<longrightarrow> h \<le> i64_max)"

lemma observed_tip_bounded:
  assumes "heads_i64 net"
  shows "holds inv_pool (observed_tip net c urls) (\<lambda>tip s. tip \<le> i64_max \<and> inv_pool s) inv_pool"
proof -
  have terra: "holds inv_pool (call (lcd_latest_height_at_least net urls m)) (\<lambda>tip s. tip \<le> i64_max \<and> inv_pool s) inv_pool" for m
  proof (rule holds_call_val)
    fix s :: "'a pool" and x w w'
    assume "inv_pool s" and "lcd_latest_height_at_least net urls m w = (Inr x, w')"
    moreover from this have "x \<le> i64_max"
      using assms unfolding heads_i64_def by blast
    ultimately show "x \<le> i64_max \<and> inv_pool (s\<lparr>world := w'\<rparr>)"
      by (simp add: dbs_def)
  qed (simp add: dbs_def)
  have bsc: "holds inv_pool (bindA (call (bsc_block_number_at_least net urls m)) (\<lambda>head. ret (sat_sub head k)))
      (\<lambda>tip s. tip \<le> i64_max \<and> inv_pool s) inv_pool" for m k
    by (rule holds_bindA [OF dbs_call holds_ret]) (simp add: sat_sub_def sat_i64_def i64_max_def i64_min_def)
  show ?thesis
    unfolding observed_tip_def by (rule holds_bindA [OF read_cursor_same]) (cases c; simp add: terra bsc)
qed

lemma bind_eval:
  "bindA (read_cursor c) f s = (case indexed_height (committed s) c of Inl e \<Rightarrow> (Inl e, s) | Inr h \<Rightarrow> f h s)"
  "bindA (read_pool q) g s = g (q (committed s)) s"
  "bindA (lift (Inr x)) g' s = g' x s"
  "m s = (Inl e, s') \<Longrightarrow> bindA m k s = (Inl e, s')"
  "m s = (Inr y, s') \<Longrightarrow> bindA m k s = k y s'"
  by (simp_all add: read_cursor_def read_pool_def lift_def bindA_def split: sum.split)

text \<open>The poll up to the rewound cursor, and the rest of it.\<close>

lemma poll_chain_cases:
  assumes run: "poll_chain_progress net lcd bsc cfg c s = (r, s')"
  obtains (refused) "\<exists>e. r = Inl e" "s' = s"
    | (lost) "indexed_height (committed s) c = Inr 0" "0 < max_registered_height (committed s) c"
        "r = Inl (Provider ''lost_registered_history'')"
        "committed s' = degrade c (str ''lost_registered_history'') (committed s)"
    | (checked) cursor urls r1 s1 where "indexed_height (committed s) c = Inr cursor"
        "\<forall>reason. degraded_reason (committed s) c = Some reason \<longrightarrow> reason \<notin> set permanent_reasons"
        "\<not> (cursor = 0 \<and> 0 < max_registered_height (committed s) c)" "chain_client lcd bsc c = Inr urls"
        "canonicality net c cursor urls s = (r1, s1)"
        "(r, s') = (case r1 of Inl e \<Rightarrow> (Inl e, s1) | Inr _ \<Rightarrow>
           bindA (observed_tip net c urls) (\<lambda>tip. bindA (read_cursor c) (\<lambda>after_rewind.
             thenA (advance net cfg c urls after_rewind tip) (read_behind c after_rewind))) s1)"
proof (cases "indexed_height (committed s) c")
  case (Inl e)
  with run show thesis
    by (intro refused) (auto simp: poll_chain_progress_def read_cursor_def bindA_def read_pool_def lift_def)
next
  case cursor: (Inr cursor)
  let ?d = "committed s"
  let ?perm = "case degraded_reason ?d c of Some r \<Rightarrow> r \<in> set permanent_reasons | None \<Rightarrow> False"
  note simps = poll_chain_progress_def read_cursor_def bindA_def read_pool_def lift_def thenA_def fail_def
  consider ?perm | "\<not> ?perm" "cursor = 0 \<and> 0 < max_registered_height ?d c"
    | "\<not> ?perm" "\<not> (cursor = 0 \<and> 0 < max_registered_height ?d c)" by blast
  then show thesis
  proof cases
    case 1
    with run cursor show thesis by (intro refused) (auto simp: simps)
  next
    case 2
    with run cursor show thesis by (intro lost) (auto simp: simps on_pool_def)
  next
    case 3
    show thesis
    proof (cases "chain_client lcd bsc c")
      case (Inl e)
      with run cursor 3 show thesis by (intro refused) (auto simp: simps)
    next
      case (Inr urls)
      obtain r1 s1 where can: "canonicality net c cursor urls s = (r1, s1)" by fastforce
      have "(r, s') = (case r1 of Inl e \<Rightarrow> (Inl e, s1) | Inr _ \<Rightarrow>
           bindA (observed_tip net c urls) (\<lambda>tip. bindA (read_cursor c) (\<lambda>after_rewind.
             thenA (advance net cfg c urls after_rewind tip) (read_behind c after_rewind))) s1)"
        using run cursor 3 Inr can by (auto simp: poll_chain_progress_def bind_eval thenA_def split: sum.split)
      moreover have "\<forall>reason. degraded_reason ?d c = Some reason \<longrightarrow> reason \<notin> set permanent_reasons"
        using 3(1) by (auto split: option.splits)
      ultimately show thesis
        using cursor 3(2) Inr can by (intro checked)
    qed
  qed
qed

lemma observed_tip_pool:
  assumes "observed_tip net c urls s = (r, s')"
  shows "committed s' = committed s"
proof -
  have "holds (dbs (\<lambda>cm _. cm = committed s)) (observed_tip net c urls) (\<lambda>_. dbs (\<lambda>cm _. cm = committed s))
      (dbs (\<lambda>cm _. cm = committed s))"
    unfolding observed_tip_def
    by (rule holds_bindA [OF read_cursor_same])
      (cases c, simp_all only: chain.case, rule dbs_call, rule holds_bindA [OF dbs_call], rule holds_ret)
  note same = holdsD [OF this, of s, unfolded dbs_def, OF refl] holds_errorD [OF this, of s, unfolded dbs_def, OF refl]
  show ?thesis
    using assms same by (cases r) blast+
qed

lemma poll_safe:
  assumes run: "poll_chain_progress net lcd bsc cfg c s = (r, s')"
    and inv: "ledger_inv (committed s)" and net: "ranges_bounded net" "heads_i64 net"
  shows "ledger_inv (committed s')
     \<and> (\<forall>behind. r = Inr behind \<longrightarrow>
          certified (committed s') c
        \<and> \<not> (\<exists>reason\<in>set permanent_reasons. degraded_reason (committed s) c = Some reason)
        \<and> (\<exists>cursor urls s1 after_rewind. indexed_height (committed s) c = Inr cursor
              \<and> \<not> (cursor = 0 \<and> 0 < max_registered_height (committed s) c)
              \<and> canonicality net c cursor urls s = (Inr (), s1) \<and> indexed_height (committed s1) c = Inr after_rewind
              \<and> (behind \<longrightarrow> after_rewind < checkpoint_height (committed s') c)))"
  using run
proof (cases rule: poll_chain_cases)
  case refused
  with inv show ?thesis by auto
next
  case lost
  with inv show ?thesis by simp
next
  case (checked cursor urls r1 s1)
  have inv1: "inv_pool s1"
    using holdsD [OF canonicality_inv, of s] holds_errorD [OF canonicality_inv, of s] checked(5) inv
    by (cases r1) (auto simp: dbs_def)
  show ?thesis
  proof (cases r1)
    case (Inl e)
    with checked(6) inv1 show ?thesis by (simp add: dbs_def)
  next
    case (Inr u)
    obtain r2 s2 where tip: "observed_tip net c urls s1 = (r2, s2)" by fastforce
    note same = observed_tip_pool [OF tip]
    show ?thesis
    proof (cases "\<exists>tip a. r2 = Inr tip \<and> indexed_height (committed s1) c = Inr a")
      case False
      then have "committed s' = committed s1 \<and> (\<exists>e. r = Inl e)"
        using checked(6) Inr tip same
        by (auto simp: bindA_def read_cursor_def read_pool_def lift_def split: sum.splits)
      with inv1 show ?thesis by (auto simp: dbs_def)
    next
      case True
      then obtain tip' a where ok: "r2 = Inr tip'" "indexed_height (committed s1) c = Inr a" by blast
      have "tip' \<le> i64_max" and inv2: "inv_pool s2"
        using holdsD [OF observed_tip_bounded [OF net(2)] inv1] tip ok(1) by blast+
      note adv = advance_certified [OF net(1) \<open>tip' \<le> i64_max\<close>, of cfg c urls a]
      obtain r3 s3 where three: "advance net cfg c urls a tip' s2 = (r3, s3)" by fastforce
      have rest: "(r, s') = (case r3 of Inl e \<Rightarrow> (Inl e, s3) | Inr _ \<Rightarrow> read_behind c a s3)"
        using checked(6) Inr tip same ok three
        by (auto simp: bindA_def thenA_def read_cursor_def read_pool_def lift_def split: sum.splits)
      show ?thesis
      proof (cases r3)
        case (Inl e)
        with rest three holds_errorD [OF adv inv2] show ?thesis by (auto simp: dbs_def)
      next
        case (Inr x)
        with three holdsD [OF adv inv2] have good: "certified_pool c s3" by blast
        then obtain cp where cp: "checkpoints (committed s3) c = Some cp"
          by (auto simp: dbs_def certified_def)
        have fin: "s' = s3" "r = Inr (a < cp_height cp \<and> lag_budget c < cp_network_tip cp - cp_height cp)"
          using rest Inr cp by (auto simp: read_behind_def bindA_def read_pool_def ret_def)
        then show ?thesis
          using good cp checked(1-3,5) \<open>r1 = Inr u\<close> ok(2) by (auto simp: dbs_def checkpoint_height_def)
      qed
    qed
  qed
qed

text \<open>
  C21. What a poll of a chain leaves behind, whatever the providers answer. The ledger invariant holds
  again, also after an error. A chain that is degraded for a permanent reason, or that lost the
  history its registrations rest on, is never advanced. A successful poll ends with the chain
  certified, and it asks to be continued at once only when the checkpoint moved above the cursor
  that was left once forks had been resolved.
\<close>

theorem poll_chain_progress_safe:
  assumes run: "poll_chain_progress net lcd bsc cfg c s = (r, s')"
    and inv: "ledger_inv (committed s)" and net: "ranges_bounded net" "heads_i64 net"
  shows "ledger_inv (committed s')
     \<and> (\<forall>behind. r = Inr behind \<longrightarrow>
          certified (committed s') c
        \<and> \<not> (\<exists>reason\<in>set permanent_reasons. degraded_reason (committed s) c = Some reason)
        \<and> (\<exists>cursor urls s1 after_rewind. indexed_height (committed s) c = Inr cursor
              \<and> \<not> (cursor = 0 \<and> 0 < max_registered_height (committed s) c)
              \<and> canonicality net c cursor urls s = (Inr (), s1) \<and> indexed_height (committed s1) c = Inr after_rewind
              \<and> (behind \<longrightarrow> after_rewind < checkpoint_height (committed s') c)))"
  by (rule poll_safe [OF assms])

text \<open>A fresh deployment behind the quiet network: the first poll boots at the tip.\<close>

lemma quiet_ranges: "ranges_bounded quiet_network"
  by (auto simp: ranges_bounded_def range_bounded_def quiet_network_def i64_max_def split: if_splits)

lemma quiet_heads: "heads_i64 quiet_network"
  by (auto simp: heads_i64_def quiet_network_def i64_max_def)

theorem poll_chain_progress_safe_witness:
  "\<exists>s'. poll_chain_progress quiet_network (Some [str ''u'']) [] sample_config Terra (fresh_pool initial_db) = (Inr False, s')
     \<and> ledger_inv (committed s') \<and> certified (committed s') Terra"
proof -
  let ?run = "poll_chain_progress quiet_network (Some [str ''u'']) [] sample_config Terra (fresh_pool initial_db)"
  have zero: "parse_i64 (str ''0'') = Some 0"
    by code_simp
  have cursor: "indexed_height initial_db Terra = Inr 0"
    by (simp add: indexed_height_def get_state_def initial_db_def find_row_Cons cursor_key_def parse_cursor_def zero)
  have window: "ingest_window 0 1000 INGEST_CHUNK INGEST_STALE_GAP = Some \<lparr>iw_start = 1000, iw_end = 1000, iw_jumped_to_tip = True\<rparr>"
    by (simp add: ingest_window_def INGEST_CHUNK_def INGEST_STALE_GAP_def sat_add_def sat_i64_def i64_max_def i64_min_def)
  have ingest: "\<exists>s'. ingest_terra_height quiet_network [str ''u''] sample_config 1000 (fresh_pool initial_db) = (Inr 0, s')
      \<and> checkpoints (committed s') Terra = Some \<lparr>cp_height = 1000, cp_hash = quiet_hash, cp_observed_at = Some 0, cp_epoch = 1,
           cp_complete = True, cp_canonical = True, cp_degraded = None, cp_network_tip = 1000\<rparr>"
    by (simp add: ingest_terra_height_def thenA_def bindA_def begin_tx_def read_tx_def lift_def call_def in_txv_def
        in_tx_def commit_tx_def ret_def quiet_network_def fresh_pool_def admit_contiguous_def initial_db_def
        verify_registration_baselines_def unverified_baselines_def publish_checkpoint_def Let_def set_state_def)
  have regs: "max_registered_height initial_db Terra = 0" "degraded_reason initial_db Terra = None"
    by (simp_all add: max_registered_height_def active_registrations_def initial_db_def degraded_reason_def)
  have fresh: "committed (fresh_pool d) = d" for d
    by (simp add: fresh_pool_def)
  have tip: "observed_tip quiet_network Terra [str ''u''] (fresh_pool initial_db) = (Inr 1000, fresh_pool initial_db)"
    by (simp add: observed_tip_def read_cursor_def bindA_def read_pool_def lift_def fresh cursor call_def)
       (simp add: quiet_network_def fresh_pool_def)
  have "fst ?run = Inr False"
    using ingest
    by (auto simp: poll_chain_progress_def bindA_def read_cursor_def read_pool_def lift_def fresh cursor regs
        chain_client_def thenA_def canonicality_def ret_def tip advance_def window lag_budget_def read_behind_def)
  then have run: "?run = (Inr False, snd ?run)"
    by (metis prod.collapse)
  have "ledger_inv (committed (fresh_pool initial_db))"
    by (simp add: fresh initial_ledger_inv)
  from poll_chain_progress_safe [OF run this quiet_ranges quiet_heads] run show ?thesis
    by blast
qed

end
