(* ===== verification/Register.thy ===== *)
theory Register
  imports IngestProps
begin

text \<open>
  Wallet registration and the intent queue (\<open>ledger/src/register.rs\<close>). A registration records
  the live balance of a wallet at a block it can be bound to; the intent worker claims at most
  sixteen due intents, four of them in flight at a time, and registers them, each under a deadline.
  A pass takes a schedule: which intent moves next, and whether its statement succeeds. A
  registration is one turn: its transaction is atomic in the database, and what it observed of the
  chain before is any answer of a provider.
\<close>

section \<open>Registering one wallet\<close>

record registration_outcome =
  ro_chain :: chain
  ro_wallet :: ustring
  ro_height :: int
  ro_initial :: ustring
  ro_inserted :: bool

definition outcome_of :: "chain \<Rightarrow> registration \<Rightarrow> bool \<Rightarrow> registration_outcome" where
  "outcome_of c r inserted = \<lparr>ro_chain = c, ro_wallet = vr_wallet r, ro_height = vr_registered_at r,
     ro_initial = int_str (vr_initial r), ro_inserted = inserted\<rparr>"

definition valid_block_hash :: "chain \<Rightarrow> ustring \<Rightarrow> bool" where
  "valid_block_hash c h = (case c of
       Terra \<Rightarrow> str_len h = 64 \<and> list_all is_hexdigit h
     | Bsc \<Rightarrow> str_len h = 66 \<and> (case strip_prefix (str ''0x'') h of
                                   Some x \<Rightarrow> list_all is_hexdigit x | None \<Rightarrow> False))"

text \<open>The transaction of a registration.\<close>

definition insert_live_registration ::
    "chain \<Rightarrow> ustring \<Rightarrow> live_balance \<Rightarrow> uuid option \<Rightarrow> db \<Rightarrow> (db \<times> bool) ledger_result" where
  "insert_live_registration c wallet observed signature_id d =
     (let height = lb_height observed; cursor = map_option parse_i64 (get_state d (cursor_key c)) in
      if (case cursor of Some v \<Rightarrow> (case v of None \<Rightarrow> True | Some h \<Rightarrow> h < 0) | None \<Rightarrow> False)
      then Inl (Provider ''malformed_registration_cursor'')
      else if (case cursor of Some (Some h) \<Rightarrow> h > height | _ \<Rightarrow> False)
      then Inl (Provider ''registration_snapshot_overtaken'')
      else if lb_amount observed < 0 then Inl (Amount ''negative live balance'')
      else (let known = canonical_hash d c height in
        if (case known of Some h \<Rightarrow> h \<noteq> lb_block_hash observed | None \<Rightarrow> False)
        then Inl (Provider ''registration_source_fork'')
        else if \<not> numeric78 (lb_amount observed) then Inl (Database numeric_out_of_range)
        else (case insert_nothing reg_key
                \<lparr>vr_chain = c, vr_wallet = wallet, vr_registered_at = height,
                 vr_initial = lb_amount observed, vr_status = str ''active'', vr_signature = signature_id,
                 vr_baseline_height = Some height, vr_baseline_hash = Some (lb_block_hash observed),
                 vr_baseline_epoch = (case checkpoints d c of Some cp \<Rightarrow> cp_epoch cp | None \<Rightarrow> 1),
                 vr_baseline_verified = (known \<noteq> None)\<rparr> (registrations d) of
              (rows, inserted) \<Rightarrow> Inr (d\<lparr>registrations := rows\<rparr>, inserted))))"

definition live_balance_of :: "'w network \<Rightarrow> chain \<Rightarrow> ustring \<Rightarrow> ('w, live_balance) net" where
  "live_balance_of net c wallet =
     (case c of Terra \<Rightarrow> terra_live_balance net wallet | Bsc \<Rightarrow> bsc_live_balance net wallet)"

definition register_wallet ::
    "'w network \<Rightarrow> chain \<Rightarrow> ustring \<Rightarrow> uuid option \<Rightarrow> ('w, registration_outcome) act" where
  "register_wallet net c raw signature_id =
     bindA (lift (normalize_wallet c raw)) (\<lambda>wallet.
     bindA (bindA (read_pool (\<lambda>d. get_registration d c wallet)) lift) (\<lambda>existing.
     case existing of
       Some r \<Rightarrow> ret (outcome_of c r False)
     | None \<Rightarrow>
         bindA (call (live_balance_of net c wallet)) (\<lambda>observed.
         if \<not> valid_block_hash c (lb_block_hash observed) then fail (Provider ''unbound_registration_hash'')
         else if lb_height observed \<le> 0
         then fail (Lcd ''live height/block must be positive; refusing to invent a snapshot'')
         else thenA (begin_tx (clock net))
             (bindA (in_txv (\<lambda>_. insert_live_registration c wallet observed signature_id)) (\<lambda>inserted.
              thenA commit_tx
             (bindA (bindA (read_pool (\<lambda>d. get_registration d c wallet)) lift) (\<lambda>stored.
              case stored of
                None \<Rightarrow> fail (NotFound ''registration vanished after insert'')
              | Some r \<Rightarrow> ret (outcome_of c r inserted)))))))) "

interpretation wallet: normalizer "normalize_wallet c" for c
proof
  fix raw a
  assume "normalize_wallet c raw = Inr a"
  then show "normalize_wallet c a = Inr a"
    by (cases c) (auto simp: normalize_wallet_def normalize_terra_addr_idem dest: normalize_evm_addr_idem)
qed

section \<open>Intents\<close>

definition claim_intent :: "uuid \<Rightarrow> int \<Rightarrow> db \<Rightarrow> db \<times> bool" where
  "claim_intent i_id now d =
     (let hit = (\<lambda>i. in_id i = i_id \<and> intent_due now i) in
      (d\<lparr>intents := update_where hit (\<lambda>i. i\<lparr>in_last_attempt_at := Some now,
           in_retry_after := Some (now + seconds 30), in_attempts := in_attempts i + 1\<rparr>) (intents d)\<rparr>,
       list_ex hit (intents d)))"

definition postpone_intent :: "uuid \<Rightarrow> string \<Rightarrow> int \<Rightarrow> db \<Rightarrow> db" where
  "postpone_intent i_id error_class now d =
     d\<lparr>intents := update_where (\<lambda>i. in_id i = i_id)
         (\<lambda>i. i\<lparr>in_last_error := Some (str error_class),
                in_retry_after := Some (now + seconds (min 300 (5 * in_attempts i)))\<rparr>) (intents d)\<rparr>"

text \<open>A registration under its ten-second deadline: \<open>None\<close> when the deadline cut it.\<close>

definition register_with_deadline ::
    "'w network \<Rightarrow> intent_row \<Rightarrow> 'w pool \<Rightarrow> (ledger_error + registration_outcome) option \<times> 'w pool" where
  "register_with_deadline net i s =
     (let run = (\<lambda>_ :: unit. register_wallet net (in_chain i) (in_wallet i) (Some (in_signature i)) s) in
      case register_deadline net (in_id i) (world s) of
        InTime \<Rightarrow> (case run () of (r, s') \<Rightarrow> (Some r, s'))
      | CutBefore \<Rightarrow> (None, s)
      | CutAfter \<Rightarrow> (None, snd (run ())))"

text \<open>
  Every statement the worker awaits may fail, and a lost connection may fail it after the database
  has executed it.
\<close>

datatype statement_fate = Executed | Refused sqlx_error | Unacknowledged sqlx_error

definition issue :: "statement_fate \<Rightarrow> ('w, 'a) act \<Rightarrow> ('w, 'a) act" where
  "issue fate m s =
     (case fate of
        Executed \<Rightarrow> m s
      | Refused e \<Rightarrow> (Inl (Database e), s)
      | Unacknowledged e \<Rightarrow> (Inl (Database e), snd (m s)))"

text \<open>
  The four intents of a batch are in flight at the same time. An intent is where it awaits: for its
  claim, for its registration, for the statement that records the outcome of the registration
  (\<open>None\<close>: the ten seconds ran out), or it has returned. A turn is one such statement.
\<close>

datatype intent_phase =
    Waiting
  | Claimed
  | Registered "(ledger_error + registration_outcome) option"
  | Finished "ledger_error + registration_outcome option"

definition intent_turn ::
    "'w network \<Rightarrow> intent_row \<Rightarrow> statement_fate \<Rightarrow> intent_phase \<Rightarrow> 'w pool \<Rightarrow> intent_phase \<times> 'w pool" where
  "intent_turn net i fate phase s =
     (case phase of
        Waiting \<Rightarrow>
          (case issue fate (on_poolv (clock net) (claim_intent (in_id i))) s of
             (Inl e, s') \<Rightarrow> (Finished (Inl e), s')
           | (Inr claimed, s') \<Rightarrow> (if claimed then Claimed else Finished (Inr None), s'))
      | Claimed \<Rightarrow>
          (case issue fate (\<lambda>s. apfst Inr (register_with_deadline net i s)) s of
             (Inl e, s') \<Rightarrow> (Registered (Some (Inl e)), s')
           | (Inr r, s') \<Rightarrow> (Registered r, s'))
      | Registered (Some (Inr outcome)) \<Rightarrow>
          (case issue fate (on_pool (clock net) (mark_intent_processed (in_id i))) s of
             (r, s') \<Rightarrow> (Finished (map_sum id (\<lambda>_. Some outcome) r), s'))
      | Registered failure \<Rightarrow>
          (let error_class = (if failure = None then ''deadline'' else ''live_balance_or_database'') in
           case issue fate (on_pool (clock net) (postpone_intent (in_id i) error_class)) s of
             (r, s') \<Rightarrow> (Finished (map_sum id (\<lambda>_. None) r), s'))
      | Finished r \<Rightarrow> (Finished r, s))"

text \<open>
  A schedule says which intent of the batch moves next and how its statement fares. A batch ends when
  all its intents have returned, whatever they returned; when the turns run out before, the deadline
  of the pass has cut it, wherever its intents are (\<open>None\<close>). What is left of the schedule is for the
  batches after it.
\<close>

type_synonym turns = "(nat \<times> statement_fate) list"

fun result_of :: "intent_phase \<Rightarrow> (ledger_error + registration_outcome option) option" where
  "result_of (Finished r) = Some r"
| "result_of _ = None"

definition joined :: "intent_phase list \<Rightarrow> (ledger_error + registration_outcome option) list option" where
  "joined ps = (if list_all (\<lambda>p. result_of p \<noteq> None) ps then Some (map (\<lambda>p. the (result_of p)) ps) else None)"

fun join_intents ::
    "'w network \<Rightarrow> intent_row list \<Rightarrow> intent_phase list \<Rightarrow> turns \<Rightarrow> 'w pool
       \<Rightarrow> (ledger_error + registration_outcome option) list option \<times> turns \<times> 'w pool" where
  "join_intents net batch ps [] s = (joined ps, [], s)"
| "join_intents net batch ps ((k, fate) # ts) s =
     (case joined ps of
        Some rs \<Rightarrow> (Some rs, (k, fate) # ts, s)
      | None \<Rightarrow>
          (if k < length ps
           then (case intent_turn net (batch ! k) fate (ps ! k) s of
                   (p, s') \<Rightarrow> join_intents net batch (ps[k := p]) ts s')
           else join_intents net batch ps ts s))"

function chunks4 :: "'a list \<Rightarrow> 'a list list" where
  "chunks4 [] = []"
| "chunks4 (x # xs) = take 4 (x # xs) # chunks4 (drop 4 (x # xs))"
  by pat_completeness auto
termination by (relation "measure length") auto

text \<open>The first error of a batch ends the pass, after all four intents of the batch have returned.\<close>

fun process_batches ::
    "'w network \<Rightarrow> intent_row list list \<Rightarrow> turns \<Rightarrow> 'w pool
       \<Rightarrow> (ledger_error + registration_outcome list) option \<times> 'w pool" where
  "process_batches net [] ts s = (Some (Inr []), s)"
| "process_batches net (b # bs) ts s =
     (case join_intents net b (map (\<lambda>_. Waiting) b) ts s of
        (None, _, s') \<Rightarrow> (None, s')
      | (Some rs, ts', s') \<Rightarrow>
          (case mapR id rs of
             Inl e \<Rightarrow> (Some (Inl e), s')
           | Inr os \<Rightarrow>
               (case process_batches net bs ts' s' of
                  (r, s'') \<Rightarrow> (map_option (map_sum id (\<lambda>rest. concat (map (case_option [] (\<lambda>x. [x])) os) @ rest)) r, s''))))"

definition process_pending_intents ::
    "'w network \<Rightarrow> statement_fate \<Rightarrow> turns \<Rightarrow> 'w pool
       \<Rightarrow> (ledger_error + registration_outcome list) option \<times> 'w pool" where
  "process_pending_intents net query ts s =
     (case issue query (\<lambda>s. (Inr (pending_intents (committed s) (clock net (world s))), s)) s of
        (Inl e, s') \<Rightarrow> (Some (Inl e), s')
      | (Inr pending, s') \<Rightarrow> process_batches net (chunks4 pending) ts s')"

text \<open>
  The pass under its own deadline, then the publication of its success under three seconds, which
  may run out before or after the statement was executed. A publication that fails is an error of
  the worker.
\<close>

record pass_fate =
  pf_query :: statement_fate
  pf_turns :: turns
  pf_publish :: deadline
  pf_write :: statement_fate

definition supervised_intent_pass :: "'w network \<Rightarrow> pass_fate \<Rightarrow> ('w, bool) act" where
  "supervised_intent_pass net fate s =
     (case process_pending_intents net (pf_query fate) (pf_turns fate) s of
        (r, s') \<Rightarrow>
          (let successful = (case r of Some (Inr _) \<Rightarrow> True | _ \<Rightarrow> False);
               publish = issue (pf_write fate) (on_pool (clock net) (set_state (str ''intents_ok'')
                 (if successful then str ''true'' else str ''false''))) in
           case pf_publish fate of
             InTime \<Rightarrow> thenA publish (ret successful) s'
           | CutBefore \<Rightarrow> (Inl (Provider ''intent_progress_publish_deadline''), s')
           | CutAfter \<Rightarrow> (Inl (Provider ''intent_progress_publish_deadline''), snd (publish s'))))"

section \<open>What a registration may change\<close>

text \<open>Heights are \<open>i64\<close> values.\<close>

definition live_heights_i64 :: "'w network \<Rightarrow> bool" where
  "live_heights_i64 net \<longleftrightarrow>
     (\<forall>c a w b w'. live_balance_of net c a w = (Inr b, w') \<longrightarrow> lb_height b \<le> i64_max)"

lemma case_not_Some: "(case m of Some h \<Rightarrow> P h | None \<Rightarrow> False) \<longleftrightarrow> (\<exists>h. m = Some h \<and> P h)"
  by (cases m) auto

definition live_row :: "chain \<Rightarrow> ustring \<Rightarrow> live_balance \<Rightarrow> uuid option \<Rightarrow> db \<Rightarrow> registration" where
  "live_row c wallet observed signature_id d =
     \<lparr>vr_chain = c, vr_wallet = wallet, vr_registered_at = lb_height observed,
      vr_initial = lb_amount observed, vr_status = str ''active'', vr_signature = signature_id,
      vr_baseline_height = Some (lb_height observed), vr_baseline_hash = Some (lb_block_hash observed),
      vr_baseline_epoch = (case checkpoints d c of Some cp \<Rightarrow> cp_epoch cp | None \<Rightarrow> 1),
      vr_baseline_verified = (canonical_hash d c (lb_height observed) \<noteq> None)\<rparr>"

lemma live_row_simps [simp]:
  "reg_key (live_row c wallet observed sig d) = (c, wallet)"
  "baseline_of (live_row c wallet observed sig d) = lb_height observed"
  "vr_registered_at (live_row c wallet observed sig d) = lb_height observed"
  "vr_initial (live_row c wallet observed sig d) = lb_amount observed"
  "vr_chain (live_row c wallet observed sig d) = c" "vr_wallet (live_row c wallet observed sig d) = wallet"
  by (simp_all add: reg_key_def live_row_def baseline_of_def)

lemma insert_live_registration_Inr:
  "insert_live_registration c wallet observed sig d = Inr (d', inserted) \<longleftrightarrow>
     (\<exists>h. indexed_height d c = Inr h \<and> (get_state d (cursor_key c) \<noteq> None \<longrightarrow> h \<le> lb_height observed))
   \<and> 0 \<le> lb_amount observed \<and> numeric78 (lb_amount observed)
   \<and> (\<forall>h. canonical_hash d c (lb_height observed) = Some h \<longrightarrow> h = lb_block_hash observed)
   \<and> inserted = ((c, wallet) \<notin> reg_key ` set (registrations d))
   \<and> d' = (if inserted then d\<lparr>registrations := registrations d @ [live_row c wallet observed sig d]\<rparr> else d)"
proof -
  have cursor: "(\<exists>h. indexed_height d c = Inr h \<and> (get_state d (cursor_key c) \<noteq> None \<longrightarrow> h \<le> H)) \<longleftrightarrow>
      \<not> (case map_option parse_i64 (get_state d (cursor_key c)) of
          Some v \<Rightarrow> (case v of None \<Rightarrow> True | Some h \<Rightarrow> h < 0) | None \<Rightarrow> False)
    \<and> \<not> (case map_option parse_i64 (get_state d (cursor_key c)) of Some (Some h) \<Rightarrow> h > H | _ \<Rightarrow> False)" for H
    by (auto simp: indexed_height_def parse_cursor_Inr split: option.splits)
  have same: "d\<lparr>registrations := registrations d\<rparr> = d"
    by simp
  show ?thesis
    unfolding cursor insert_live_registration_def Let_def live_row_def [symmetric] insert_nothing_def case_not_Some live_row_simps(1)
    by (auto simp: find_row_None same not_less)
qed

lemma insert_live_registration_inv:
  assumes ins: "insert_live_registration c wallet observed sig d = Inr (d', inserted)"
    and inv: "ledger_inv d" and h: "0 < lb_height observed" "lb_height observed \<le> i64_max"
  shows "ledger_inv d'"
proof (cases inserted)
  case False
  with ins inv show ?thesis by (simp add: insert_live_registration_Inr)
next
  case True
  let ?r = "live_row c wallet observed sig d"
  from ins True obtain k where k: "indexed_height d c = Inr k"
      "get_state d (cursor_key c) \<noteq> None \<longrightarrow> k \<le> lb_height observed"
    and new: "(c, wallet) \<notin> reg_key ` set (registrations d)"
    and d': "d' = d\<lparr>registrations := registrations d @ [?r]\<rparr>"
    unfolding insert_live_registration_Inr by auto
  have k_le: "k \<le> lb_height observed"
    using k h(1) by (cases "get_state d (cursor_key c)") (auto simp: indexed_height_def parse_cursor_def)
  have frame: "checkpoint_height d' c' = checkpoint_height d c'" "indexed_height d' c' = indexed_height d c'"
    "history_ok d' c' = history_ok d c'" for c'
    by (simp_all add: d' checkpoint_height_def indexed_height_def get_state_def history_ok_def)
  have add: "books_ok d' c' B" if "books_ok d c' B" "c' = c \<Longrightarrow> B \<le> lb_height observed" for c' B
    unfolding d' by (rule books_ok_register [OF that(1)]) (use that(2) new h(2) in auto)
  have own: "chain_ok d c" and other: "\<And>c'. chain_ok d c'"
    using inv by (simp_all add: ledger_inv_def)
  have k_books: "books_ok d' c k"
    using own k(1) k_le by (intro add) (auto simp: chain_ok_def)
  have "books_ok d' c (checkpoint_height d c)"
  proof (cases "checkpoint_height d c \<le> lb_height observed")
    case True
    with own show ?thesis by (intro add) (auto simp: chain_ok_def)
  next
    case False
    with k_books k_le show ?thesis by (auto elim: books_ok_mono)
  qed
  with k_books k(1) have "chain_ok d' c"
    by (auto simp: chain_ok_def frame)
  moreover have "chain_ok d' c'" if "c' \<noteq> c" for c'
    using other [of c'] add that by (auto simp: chain_ok_def frame)
  ultimately show ?thesis
    using inv by (metis frame(3) ledger_inv_def)
qed

lemma register_wallet_cases:
  assumes run: "register_wallet net c raw sig s = (r, s')"
  obtains (kept) "committed s' = committed s" "\<forall>x. r = Inr x \<longrightarrow> \<not> ro_inserted x \<and> (\<exists>w row.
        normalize_wallet c raw = Inr w \<and> find_row reg_key (c, w) (registrations (committed s)) = Some row
        \<and> x = outcome_of c row False)"
    | (registered) w observed d' inserted row w0 w1 where "normalize_wallet c raw = Inr w"
        "find_row reg_key (c, w) (registrations (committed s)) = None"
        "live_balance_of net c w w0 = (Inr observed, w1)" "0 < lb_height observed"
        "valid_block_hash c (lb_block_hash observed)"
        "insert_live_registration c w observed sig (committed s) = Inr (d', inserted)" "committed s' = d'"
        "find_row reg_key (c, w) (registrations d') = Some row" "r = Inr (outcome_of c row inserted)"
proof -
  let ?d = "committed s"
  show thesis
  proof (cases "normalize_wallet c raw")
    case (Inl e)
    with run show thesis by (intro kept) (auto simp: register_wallet_def bindA_def lift_def)
  next
    case w: (Inr w)
    have again: "normalize_wallet c w = Inr w"
      by (rule wallet.norm_idem [OF w])
    show thesis
    proof (cases "find_row reg_key (c, w) (registrations ?d)")
      case (Some row)
      with run w again show thesis
        by (intro kept) (auto simp: register_wallet_def bindA_def lift_def read_pool_def get_registration_def ret_def
            outcome_of_def)
    next
      case None
      obtain res w1 where live: "live_balance_of net c w (world s) = (res, w1)"
        by (cases "live_balance_of net c w (world s)")
      note simps = register_wallet_def bindA_def thenA_def lift_def read_pool_def get_registration_def ret_def fail_def
        call_def begin_tx_def in_txv_def commit_tx_def
      show thesis
      proof (cases "\<exists>observed d' inserted. res = Inr observed \<and> valid_block_hash c (lb_block_hash observed)
          \<and> 0 < lb_height observed \<and> insert_live_registration c w observed sig ?d = Inr (d', inserted)")
        case False
        then have "committed s' = ?d \<and> (\<exists>e. r = Inl e)"
          using run w again None live
          by (auto simp: simps not_less split: sum.splits if_splits prod.splits)
        then show thesis by (intro kept) auto
      next
        case True
        then obtain observed d' inserted where ok: "res = Inr observed"
            "valid_block_hash c (lb_block_hash observed)" "0 < lb_height observed"
            "insert_live_registration c w observed sig ?d = Inr (d', inserted)"
          by blast
        have "inserted" and d': "registrations d' = registrations ?d @ [live_row c w observed sig ?d]"
          using ok(4) None unfolding insert_live_registration_Inr by (auto simp: find_row_None)
        then have row: "find_row reg_key (c, w) (registrations d') = Some (live_row c w observed sig ?d)"
          using None by (simp add: find_row_append reg_key_def live_row_def)
        have "committed s' = d' \<and> r = Inr (outcome_of c (live_row c w observed sig ?d) inserted)"
          using run w again None live ok row by (auto simp: simps)
        with w None live ok row show thesis by (intro registered) auto
      qed
    qed
  qed
qed

lemma normalize_wallet_normal: "normalize_wallet c raw = Inr w \<Longrightarrow> lower (trim w) = w"
proof (cases c)
  case Terra
  then show "normalize_wallet c raw = Inr w \<Longrightarrow> lower (trim w) = w"
    by (auto simp: normalize_wallet_def normalize_terra_addr_def trim_lower)
next
  case Bsc
  assume "normalize_wallet c raw = Inr w"
  then obtain hex where hex: "w = str ''0x'' @ lower hex" "list_all is_hexdigit hex"
    using Bsc by (auto simp: normalize_wallet_def normalize_evm_addr_iff)
  have "\<forall>x\<in>set w. \<not> is_ws x"
    using hex hexdigit_not_ws by (auto simp: list_all_iff str_def is_ws_def lower_def) 
  moreover have "lower w = w"
    using hex by (simp add: str_def lower_def lower_char_def)
  ultimately show ?thesis
    by (simp add: trim_no_ws)
qed

lemma sql_balance_at_find:
  assumes "lower (trim w) = w" and "find_row reg_key (c, w) (registrations d) = Some row"
  shows "sql_balance_at d c w h = (if h < vr_registered_at row then 0 else stored_balance d c row h)"
proof -
  have "lower w = w" and "trim w = w"
    using assms(1) by (metis lower_idem, metis trim_idem trim_lower assms(1))
  then show ?thesis
    using assms(2) by (simp add: sql_balance_at_def sql_trim_trimmed)
qed

lemma register_again:
  assumes "normalize_wallet c raw = Inr w" and "find_row reg_key (c, w) (registrations (committed t)) = Some row"
  shows "register_wallet net c raw sig t = (Inr (outcome_of c row False), t)"
  using assms wallet.norm_idem [OF assms(1)]
  by (simp add: register_wallet_def bindA_def lift_def read_pool_def get_registration_def ret_def)

text \<open>
  C17. Registration never invents or rewrites a balance: whatever the providers answer it keeps
  the ledger invariant; an error leaves the database as it was. Success reports a registered wallet
  in its normal form. A fresh one has exactly the height and the amount a provider answered for that
  wallet, at a well-formed block hash and a height the ledger had not passed; it is stored with that
  hash, and it reads as zero below that height and as that amount from it on. Registering again,
  under any spelling of the wallet and with any providers, answers the same with \<open>inserted\<close> false and
  changes nothing.
\<close>

theorem register_wallet_safe:
  assumes run: "register_wallet net c raw sig s = (r, s')"
    and inv: "ledger_inv (committed s)" and net: "live_heights_i64 net"
  shows "ledger_inv (committed s')
     \<and> (case r of
          Inl e \<Rightarrow> committed s' = committed s
        | Inr x \<Rightarrow> normalize_wallet c raw = Inr (ro_wallet x)
            \<and> (c, ro_wallet x) \<in> reg_key ` set (registrations (committed s'))
            \<and> (if ro_inserted x
               then (\<exists>observed w0 w1. live_balance_of net c (ro_wallet x) w0 = (Inr observed, w1)
                      \<and> valid_block_hash c (lb_block_hash observed) \<and> 0 \<le> lb_amount observed
                      \<and> ro_height x = lb_height observed \<and> ro_initial x = int_str (lb_amount observed)
                      \<and> registrations (committed s') = registrations (committed s)
                          @ [live_row c (ro_wallet x) observed sig (committed s)]
                      \<and> (\<forall>h. sql_balance_at (committed s') c (ro_wallet x) h
                              = (if h < lb_height observed then 0 else lb_amount observed)))
                  \<and> (\<forall>k. get_state (committed s) (cursor_key c) \<noteq> None \<longrightarrow> indexed_height (committed s) c = Inr k
                        \<longrightarrow> k \<le> ro_height x)
               else committed s' = committed s)
            \<and> (\<forall>(net' :: 'v network) raw' sig' t. committed t = committed s' \<longrightarrow> normalize_wallet c raw' = Inr (ro_wallet x)
                 \<longrightarrow> register_wallet net' c raw' sig' t = (Inr (x\<lparr>ro_inserted := False\<rparr>), t)))"
  using run
proof (cases rule: register_wallet_cases)
  case kept
  have found: "(c, w) \<in> reg_key ` set (registrations (committed s))" "vr_wallet row = w"
    if "find_row reg_key (c, w) (registrations (committed s)) = Some row" for w row
    using find_row_SomeD [OF that] by (force simp: image_iff reg_key_def)+
  show ?thesis
  proof (cases r)
    case (Inl e)
    with kept(1) inv show ?thesis by simp
  next
    case (Inr x)
    with kept(2) obtain w row where x: "normalize_wallet c raw = Inr w"
        "find_row reg_key (c, w) (registrations (committed s)) = Some row" "x = outcome_of c row False"
      by auto
    have same: "ro_wallet x = w" "x\<lparr>ro_inserted := False\<rparr> = outcome_of c row False" "\<not> ro_inserted x"
      using found(2) [OF x(2)] by (simp_all add: x(3) outcome_of_def)
    have again: "register_wallet net' c raw' sig' t = (Inr (x\<lparr>ro_inserted := False\<rparr>), t)"
      if "committed t = committed s'" "normalize_wallet c raw' = Inr (ro_wallet x)" for net' :: "'v network" and raw' sig' t
      unfolding same(2) by (rule register_again [where w = w]) (use that same(1) x(2) kept(1) in simp_all)
    show ?thesis
      using inv kept(1) x(1) found(1) [OF x(2)] same(1,3) Inr again by simp
  qed
next
  case (registered w observed d' inserted row w0 w1)
  have h: "lb_height observed \<le> i64_max"
    using net registered(3) unfolding live_heights_i64_def by blast
  have ins: "inserted" and d': "d' = (committed s)\<lparr>registrations := registrations (committed s)
      @ [live_row c w observed sig (committed s)]\<rparr>" and amount: "0 \<le> lb_amount observed"
    using registered(2,6) unfolding insert_live_registration_Inr by (auto simp: find_row_None)
  have row: "row = live_row c w observed sig (committed s)"
    using registered(2,8) by (simp add: d' find_row_append)
  have "bl_wallet b \<noteq> w" if "b \<in> set (balances (committed s) c)" for b
    using inv that registered(2) by (auto simp: ledger_inv_def chain_ok_def books_ok_def find_row_None)
  then have "stored_balance d' c row h = lb_amount observed" for h
    using stored_balance_none [of d' c row h] by (auto simp: d' row)
  then have bal: "sql_balance_at d' c w h = (if h < lb_height observed then 0 else lb_amount observed)" for h
    using sql_balance_at_find [OF normalize_wallet_normal [OF registered(1)] registered(8), of h]
    by (simp add: row)
  have inv': "ledger_inv d'"
    by (rule insert_live_registration_inv [OF registered(6) inv registered(4) h])
  have cursor: "k \<le> lb_height observed"
    if "get_state (committed s) (cursor_key c) \<noteq> None" "indexed_height (committed s) c = Inr k" for k
    using registered(6) that unfolding insert_live_registration_Inr by auto
  have mem: "(c, w) \<in> reg_key ` set (registrations d')"
    by (simp add: d')
  let ?x = "outcome_of c row True"
  have x: "r = Inr ?x" "ro_wallet ?x = w" "ro_inserted ?x" "ro_height ?x = lb_height observed"
      "ro_initial ?x = int_str (lb_amount observed)" "?x\<lparr>ro_inserted := False\<rparr> = outcome_of c row False"
    using registered(9) ins by (simp_all add: outcome_of_def row)
  have again: "register_wallet net' c raw' sig' t = (Inr (?x\<lparr>ro_inserted := False\<rparr>), t)"
    if "committed t = committed s'" "normalize_wallet c raw' = Inr w" for net' :: "'v network" and raw' sig' t
    unfolding x(6) by (rule register_again [OF that(2)]) (use that(1) registered(7,8) in simp)
  have shown: "\<exists>observed w0 w1. live_balance_of net c w w0 = (Inr observed, w1)
      \<and> valid_block_hash c (lb_block_hash observed) \<and> 0 \<le> lb_amount observed
      \<and> ro_height ?x = lb_height observed \<and> ro_initial ?x = int_str (lb_amount observed)
      \<and> registrations d' = registrations (committed s) @ [live_row c w observed sig (committed s)]
      \<and> (\<forall>h. sql_balance_at d' c w h = (if h < lb_height observed then 0 else lb_amount observed))"
    using registered(3,5) amount x(4,5) bal by (intro exI [of _ observed] exI [of _ w0] exI [of _ w1]) (simp add: d')
  show ?thesis
    unfolding x(1) registered(7) sum.case x(2)
    using registered(1) inv' mem cursor shown x(3,4) again [unfolded registered(7)] by simp
qed

theorem register_wallet_safe_witness:
  "\<exists>x s'. register_wallet quiet_network Terra (str ''Terra1ALICE'') None (fresh_pool initial_db) = (Inr x, s')
     \<and> ro_inserted x \<and> ro_wallet x = str ''terra1alice'' \<and> ledger_inv (committed s')"
proof -
  have norm: "normalize_wallet Terra (str ''Terra1ALICE'') = Inr (str ''terra1alice'')"
      "normalize_wallet Terra (str ''terra1alice'') = Inr (str ''terra1alice'')"
    by code_simp+
  have zero: "get_state initial_db (cursor_key Terra) = Some (str ''0'')" "parse_i64 (str ''0'') = Some 0"
      "list_all is_hexdigit (replicate 64 98)" "str_len (replicate 64 98) = 64" "numeric78 5"
    by code_simp+
  have "\<exists>x s'. register_wallet quiet_network Terra (str ''Terra1ALICE'') None (fresh_pool initial_db) = (Inr x, s')
     \<and> ro_inserted x \<and> ro_wallet x = str ''terra1alice''"
    using norm zero
    by (simp add: register_wallet_def bindA_def thenA_def lift_def read_pool_def get_registration_def call_def
        live_balance_of_def quiet_network_def fresh_pool_def initial_db_def valid_block_hash_def begin_tx_def
        in_txv_def commit_tx_def insert_live_registration_def canonical_hash_def insert_nothing_def ret_def
        fail_def outcome_of_def reg_key_def Let_def)
  then obtain x s' where run: "register_wallet quiet_network Terra (str ''Terra1ALICE'') None (fresh_pool initial_db) = (Inr x, s')"
     "ro_inserted x" "ro_wallet x = str ''terra1alice''"
    by blast
  have "live_heights_i64 quiet_network"
    by (auto simp: live_heights_i64_def live_balance_of_def quiet_network_def i64_max_def split: chain.splits)
  from register_wallet_safe [OF run(1) _ this] run show ?thesis
    by (auto simp: fresh_pool_def initial_ledger_inv)
qed

end
