(* ===== verification/Intents.thy ===== *)
theory Intents
  imports Register
begin

text \<open>
  The intent queue (\<open>process_pending_intents\<close>, \<open>supervised_intent_pass\<close>): what one turn of an
  intent, a batch of interleaved intents and a supervised pass may do to the database. The locale
  \<open>queue_relation\<close> lifts a reflexive, transitive relation from the four statements of the queue to every
  pass, however it is scheduled and wherever it is cut; \<open>intent_step\<close> (the invariant, the registered
  wallets), the ageing of the rows and the frame of \<open>intents_ok\<close> are its instances here, the runs of the
  system another in \<open>SystemProps\<close>.
\<close>

section \<open>The relation of a step\<close>

definition intent_ids :: "db \<Rightarrow> (uuid \<times> chain \<times> ustring) list" where
  "intent_ids d = map (\<lambda>i. (in_id i, in_chain i, in_wallet i)) (intents d)"

definition registered_keys :: "db \<Rightarrow> (chain \<times> ustring) set" where
  "registered_keys d = reg_key ` set (registrations d)"

definition intent_settled :: "db \<Rightarrow> intent_row \<Rightarrow> bool" where
  "intent_settled d i \<longleftrightarrow> (\<exists>w. normalize_wallet (in_chain i) (in_wallet i) = Inr w \<and> (in_chain i, w) \<in> registered_keys d)"

definition intents_settled :: "db \<Rightarrow> bool" where
  "intents_settled d \<longleftrightarrow> list_all (\<lambda>i. in_processed_at i = None \<or> intent_settled d i) (intents d)"

definition intent_step :: "db \<Rightarrow> db \<Rightarrow> bool" where
  "intent_step d d' \<longleftrightarrow> intent_ids d' = intent_ids d \<and> registered_keys d \<subseteq> registered_keys d'
     \<and> (ledger_inv d \<longrightarrow> ledger_inv d') \<and> (intents_settled d \<longrightarrow> intents_settled d')"

lemma intent_step_refl [simp]: "intent_step d d"
  by (simp add: intent_step_def)

lemma intent_step_trans: "intent_step d d' \<Longrightarrow> intent_step d' d'' \<Longrightarrow> intent_step d d''"
  unfolding intent_step_def by auto

lemma find_row_update:
  "(\<And>r. key (f r) = key r) \<Longrightarrow>
     find_row key k (update_where p f t) = map_option (\<lambda>r. if p r then f r else r) (find_row key k t)"
  by (induction t) (auto simp: update_where_def find_row_Cons)

lemma ledger_inv_intents [simp]: "ledger_inv (d\<lparr>intents := x\<rparr>) = ledger_inv d"
  by (rule ledger_inv_frame) (simp_all add: checkpoint_height_def indexed_height_def get_state_def)

lemma registered_keys_intents [simp]: "registered_keys (d\<lparr>intents := x\<rparr>) = registered_keys d"
  by (simp add: registered_keys_def)

lemma intent_settled_intents [simp]: "intent_settled (d\<lparr>intents := x\<rparr>) = intent_settled d"
  by (simp add: intent_settled_def fun_eq_iff)

text \<open>Every statement of the queue updates rows in place, without touching what identifies them.\<close>

lemma intent_step_update:
  assumes ident: "\<And>i. (in_id (f i), in_chain (f i), in_wallet (f i)) = (in_id i, in_chain i, in_wallet i)"
    and settled: "\<And>i. i \<in> set (intents d) \<Longrightarrow> p i \<Longrightarrow> in_processed_at (f i) = in_processed_at i \<or> intent_settled d i"
  shows "intent_step d (d\<lparr>intents := update_where p f (intents d)\<rparr>)"
proof -
  have "map (\<lambda>i. (in_id i, in_chain i, in_wallet i)) (update_where p f (intents d)) = intent_ids d"
    using ident by (simp add: intent_ids_def update_where_def)
  moreover have "intent_settled d (f i) = intent_settled d i" for i
    using ident [of i] by (simp add: intent_settled_def)
  then have "intents_settled (d\<lparr>intents := update_where p f (intents d)\<rparr>)" if "intents_settled d"
    using that settled by (auto simp: intents_settled_def list_all_iff update_where_def) metis+
  ultimately show ?thesis
    by (simp add: intent_step_def intent_ids_def)
qed

lemma claim_step: "claim_intent k now d = (d', b) \<Longrightarrow> intent_step d d'"
  unfolding claim_intent_def Let_def by (drule sym) (auto intro!: intent_step_update)

lemma postpone_step: "intent_step d (postpone_intent k reason now d)"
  unfolding postpone_intent_def by (auto intro!: intent_step_update)

lemma processed_step:
  assumes "\<And>i. i \<in> set (intents d) \<Longrightarrow> in_id i = k \<Longrightarrow> intent_settled d i"
  shows "intent_step d (mark_intent_processed k now d)"
  unfolding mark_intent_processed_def using assms by (auto intro!: intent_step_update)

section \<open>Registration seen from the queue\<close>

lemma register_frame:
  assumes run: "register_wallet net c raw sig s = (r, s')" and net: "live_heights_i64 net"
  shows "intent_step (committed s) (committed s') \<and> intents (committed s') = intents (committed s)
     \<and> (\<forall>x. r = Inr x \<longrightarrow> normalize_wallet c raw = Inr (ro_wallet x) \<and> (c, ro_wallet x) \<in> registered_keys (committed s'))"
  using run
proof (cases rule: register_wallet_cases)
  case kept
  then show ?thesis
    by (auto 4 4 simp: outcome_of_def registered_keys_def reg_key_def image_iff dest!: find_row_SomeD)
next
  case (registered w observed d' inserted row w0 w1)
  have d': "d' = (if inserted then (committed s)\<lparr>registrations := registrations (committed s)
      @ [live_row c w observed sig (committed s)]\<rparr> else committed s)"
    using registered(6) unfolding insert_live_registration_Inr by blast
  have keys: "registered_keys (committed s) \<subseteq> registered_keys d'" and rows: "intents d' = intents (committed s)"
    by (auto simp: d' registered_keys_def)
  then have "intent_settled (committed s) i \<Longrightarrow> intent_settled d' i" for i
    by (auto simp: intent_settled_def)
  then have "intents_settled (committed s) \<Longrightarrow> intents_settled d'"
    using rows by (auto simp: intents_settled_def list_all_iff)
  moreover have "ledger_inv (committed s) \<Longrightarrow> ledger_inv d'"
    using insert_live_registration_inv [OF registered(6) _ registered(4)] net registered(3)
    unfolding live_heights_i64_def by blast
  moreover have "vr_wallet row = w \<and> (c, w) \<in> registered_keys d'"
    using find_row_SomeD [OF registered(8)] by (auto simp: registered_keys_def reg_key_def image_iff)
  ultimately show ?thesis
    using registered(1,7,9) keys rows by (auto simp: intent_step_def intent_ids_def outcome_of_def)
qed

lemma register_with_deadline_frame:
  assumes run: "register_with_deadline net i s = (r, s')" and net: "live_heights_i64 net"
  shows "intent_step (committed s) (committed s') \<and> intents (committed s') = intents (committed s)
     \<and> (\<forall>x. r = Some (Inr x) \<longrightarrow> normalize_wallet (in_chain i) (in_wallet i) = Inr (ro_wallet x)
           \<and> (in_chain i, ro_wallet x) \<in> registered_keys (committed s'))"
proof -
  obtain r0 s0 where reg: "register_wallet net (in_chain i) (in_wallet i) (Some (in_signature i)) s = (r0, s0)"
    by fastforce
  from register_frame [OF reg net] run reg show ?thesis
    by (auto simp: register_with_deadline_def split: deadline.splits)
qed

section \<open>One turn of an intent\<close>

text \<open>The queue has the wallet of \<open>i\<close> under its identifier.\<close>

definition names_wallet :: "db \<Rightarrow> intent_row \<Rightarrow> bool" where
  "names_wallet d i \<longleftrightarrow>
     (\<forall>q\<in>set (intents d). in_id q = in_id i \<longrightarrow> in_chain q = in_chain i \<and> in_wallet q = in_wallet i)"

lemma names_ids: "intent_ids d' = intent_ids d \<Longrightarrow> names_wallet d i \<Longrightarrow> names_wallet d' i"
proof -
  have "names_wallet d i \<longleftrightarrow> (\<forall>(k, c, w)\<in>set (intent_ids d). k = in_id i \<longrightarrow> c = in_chain i \<and> w = in_wallet i)" for d
    by (auto simp: names_wallet_def intent_ids_def)
  then show "intent_ids d' = intent_ids d \<Longrightarrow> names_wallet d i \<Longrightarrow> names_wallet d' i"
    by simp
qed

lemma named_rows: "unique_by in_id (intents d) \<Longrightarrow> i \<in> set (intents d) \<Longrightarrow> names_wallet d i"
  unfolding names_wallet_def by (metis unique_byD)

lemma mark_step: "names_wallet d i \<Longrightarrow> intent_settled d i \<Longrightarrow> intent_step d (mark_intent_processed (in_id i) now d)"
  by (rule processed_step) (simp add: names_wallet_def intent_settled_def)

lemma intent_ids_unique: "intent_ids d' = intent_ids d \<Longrightarrow> unique_by in_id (intents d') = unique_by in_id (intents d)"
proof -
  assume same: "intent_ids d' = intent_ids d"
  have "map in_id (intents x) = map fst (intent_ids x)" for x
    by (simp add: intent_ids_def)
  with same show ?thesis by (simp add: unique_by_def)
qed

text \<open>An intent waits to be marked as processed only once its wallet is registered.\<close>

definition phase_ok :: "db \<Rightarrow> intent_row \<Rightarrow> intent_phase \<Rightarrow> bool" where
  "phase_ok d i p \<longleftrightarrow> (\<forall>x. p = Registered (Some (Inr x)) \<longrightarrow> intent_settled d i)"

lemma phase_ok_step: "intent_step d d' \<Longrightarrow> phase_ok d i p \<Longrightarrow> phase_ok d' i p"
  unfolding phase_ok_def intent_step_def intent_settled_def by blast

lemma issue_cases:
  assumes "issue fate m s = (r, s')"
  obtains (refused) e where "s' = s" "r = Inl (Database e)" "fate = Refused e"
    | (ran) r2 where "m s = (r2, s')" "r = r2 \<or> (\<exists>e. r = Inl (Database e) \<and> fate = Unacknowledged e)"
proof (cases fate)
  case (Unacknowledged e)
  with assms show thesis by (intro ran [of "fst (m s)"]) (auto simp: issue_def)
qed (use assms in \<open>auto simp: issue_def intro: refused ran\<close>)

text \<open>What one turn does: the four kinds of statement of an intent.\<close>

lemma intent_turn_cases:
  assumes run: "intent_turn net i fate p s = (p', s')"
  obtains (idle) "committed s' = committed s" "\<forall>x. p' \<noteq> Registered (Some (Inr x))"
    | (claim) b where "p = Waiting" "claim_intent (in_id i) (clock net (world s)) (committed s) = (committed s', b)"
        "\<forall>x. p' \<noteq> Registered (Some (Inr x))"
    | (register) r where "p = Claimed" "register_with_deadline net i s = (r, s')" "p' = Registered r \<or> (\<exists>e. p' = Registered (Some (Inl e)))"
    | (mark) x where "p = Registered (Some (Inr x))"
        "committed s' = mark_intent_processed (in_id i) (clock net (world s)) (committed s)" "\<exists>r. p' = Finished r"
    | (postpone) reason where "committed s' = postpone_intent (in_id i) reason (clock net (world s)) (committed s)" "\<exists>r. p' = Finished r"
proof (cases p)
  case Waiting
  obtain r t where step: "issue fate (on_poolv (clock net) (claim_intent (in_id i))) s = (r, t)" by fastforce
  have t: "s' = t" "\<forall>x. p' \<noteq> Registered (Some (Inr x))"
    using run Waiting step by (auto simp: intent_turn_def split: sum.splits if_splits)
  show thesis
    by (rule issue_cases [OF step])
      (use t Waiting in \<open>auto simp: on_poolv_def split: prod.splits intro: idle claim\<close>)
next
  case Claimed
  obtain r t where step: "issue fate (\<lambda>s. apfst Inr (register_with_deadline net i s)) s = (r, t)" by fastforce
  have t: "s' = t" "p' = (case r of Inl e \<Rightarrow> Registered (Some (Inl e)) | Inr r \<Rightarrow> Registered r)"
    using run Claimed step by (auto simp: intent_turn_def split: sum.splits)
  show thesis
  proof (rule issue_cases [OF step])
    fix e assume "t = s" "r = Inl (Database e)"
    with t show thesis by (intro idle) auto
  next
    fix r2 assume r2: "apfst Inr (register_with_deadline net i s) = (r2, t)" and r: "r = r2 \<or> (\<exists>e. r = Inl (Database e) \<and> fate = Unacknowledged e)"
    obtain r3 where reg: "register_with_deadline net i s = (r3, t)" "r2 = Inr r3"
      using r2 by (cases "register_with_deadline net i s") auto
    show thesis
      by (rule register [OF Claimed]) (use reg r t in auto)
  qed
next
  case (Registered o2)
  show thesis
  proof (cases "\<exists>x. o2 = Some (Inr x)")
    case True
    then obtain x where x: "o2 = Some (Inr x)" ..
    obtain r t where step: "issue fate (on_pool (clock net) (mark_intent_processed (in_id i))) s = (r, t)" by fastforce
    have t: "s' = t" "\<exists>r. p' = Finished r"
      using run Registered step x by (auto simp: intent_turn_def)
    show thesis
      by (rule issue_cases [OF step]) (use t Registered x in \<open>auto simp: on_pool_def intro: idle mark\<close>)
  next
    case False
    define reason where "reason = (if o2 = None then ''deadline'' else ''live_balance_or_database'')"
    obtain r t where step: "issue fate (on_pool (clock net) (postpone_intent (in_id i) reason)) s = (r, t)" by fastforce
    have t: "s' = t" "\<exists>r. p' = Finished r"
      using run Registered step False
      by (auto simp: intent_turn_def Let_def reason_def split: option.splits sum.splits)
    show thesis
      by (rule issue_cases [OF step]) (use t in \<open>auto simp: on_pool_def intro: idle postpone\<close>)
  qed
next
  case (Finished r)
  with run show thesis by (intro idle) (auto simp: intent_turn_def)
qed

lemma turn_phase_ok:
  assumes run: "intent_turn net i fate p s = (p', s')" and net: "live_heights_i64 net"
  shows "phase_ok (committed s') i p'"
  using run
proof (cases rule: intent_turn_cases)
  case (register r)
  then show ?thesis
    using register_with_deadline_frame [OF register(2) net] by (auto simp: phase_ok_def intent_settled_def)
qed (auto simp: phase_ok_def)

lemma chunks4_set: "b \<in> set (chunks4 xs) \<Longrightarrow> set b \<subseteq> set xs"
  by (induction xs rule: chunks4.induct) (auto simp del: take.simps drop.simps dest: in_set_takeD in_set_dropD)

section \<open>Relations kept by a pass\<close>

text \<open>
  What the statements of the queue do to the database. A reflexive and transitive relation that holds
  of each of them holds of a pass, however its intents interleave and wherever it is cut.
\<close>

locale queue_relation =
  fixes net :: "'w network" and R :: "db \<Rightarrow> db \<Rightarrow> bool"
  assumes same: "R d d"
    and chained: "R d d' \<Longrightarrow> R d' d'' \<Longrightarrow> R d d''"
    and claimed: "claim_intent k now d = (d', b) \<Longrightarrow> R d d'"
    and registered: "live_heights_i64 net \<Longrightarrow> register_wallet net c raw sid s = (r, s') \<Longrightarrow> R (committed s) (committed s')"
    and processed: "names_wallet d i \<Longrightarrow> intent_settled d i \<Longrightarrow> R d (mark_intent_processed (in_id i) now d)"
    and postponed: "R d (postpone_intent k reason now d)"
begin

lemma deadline: "live_heights_i64 net \<Longrightarrow> register_with_deadline net i s = (r, s') \<Longrightarrow> R (committed s) (committed s')"
proof -
  assume net: "live_heights_i64 net" and run: "register_with_deadline net i s = (r, s')"
  obtain r0 s0 where reg: "register_wallet net (in_chain i) (in_wallet i) (Some (in_signature i)) s = (r0, s0)"
    by fastforce
  from registered [OF net reg] run reg same show ?thesis
    by (auto simp: register_with_deadline_def split: deadline.splits)
qed

lemma turn:
  assumes run: "intent_turn net i fate p s = (p', s')" and net: "live_heights_i64 net"
    and named: "names_wallet (committed s) i" and ok: "phase_ok (committed s) i p"
  shows "R (committed s) (committed s')"
  using run
proof (cases rule: intent_turn_cases)
  case (mark x)
  with ok have "intent_settled (committed s) i"
    by (auto simp: phase_ok_def)
  with named mark(2) show ?thesis by (simp add: processed)
qed (auto intro: same claimed deadline [OF net] simp: postponed)

end

text \<open>The first of them is the relation of a step, under which every turn may be followed by the next.\<close>

interpretation kept: queue_relation net "\<lambda>d d'. live_heights_i64 net \<longrightarrow> intent_step d d'" for net
proof unfold_locales
  fix c raw sid s r s'
  assume "live_heights_i64 net" "register_wallet net c raw sid s = (r, s')"
  then show "live_heights_i64 net \<longrightarrow> intent_step (committed s) (committed s')"
    using register_frame by blast
qed (auto intro: intent_step_trans claim_step mark_step postpone_step)

definition ready_batch :: "db \<Rightarrow> intent_row list \<Rightarrow> intent_phase list \<Rightarrow> bool" where
  "ready_batch d batch ps \<longleftrightarrow> length ps = length batch
     \<and> (\<forall>k<length ps. names_wallet d (batch ! k) \<and> phase_ok d (batch ! k) (ps ! k))"

lemma ready_batch_start: "(\<And>i. i \<in> set b \<Longrightarrow> names_wallet d i) \<Longrightarrow> ready_batch d b (map (\<lambda>_. Waiting) b)"
  by (simp add: ready_batch_def phase_ok_def)

lemma ready_batch_turn:
  assumes ready: "ready_batch (committed s) batch ps" and k: "k < length ps"
    and run: "intent_turn net (batch ! k) fate (ps ! k) s = (p, s')" and net: "live_heights_i64 net"
  shows "intent_step (committed s) (committed s') \<and> ready_batch (committed s') batch (ps[k := p])"
proof -
  have step: "intent_step (committed s) (committed s')"
    using kept.turn [OF run net] ready k net by (simp add: ready_batch_def)
  have "names_wallet (committed s') (batch ! j) \<and> phase_ok (committed s') (batch ! j) (ps[k := p] ! j)"
    if j: "j < length ps" for j
  proof -
    have here: "names_wallet (committed s) (batch ! j)" "phase_ok (committed s) (batch ! j) (ps ! j)"
      using ready j by (simp_all add: ready_batch_def)
    have "names_wallet (committed s') (batch ! j)"
      using names_ids [OF _ here(1)] step by (simp add: intent_step_def)
    moreover have "phase_ok (committed s') (batch ! j) (ps[k := p] ! j)"
      using turn_phase_ok [OF run net] phase_ok_step [OF step here(2)] k by (cases "j = k") simp_all
    ultimately show ?thesis by blast
  qed
  with step ready show ?thesis
    by (simp add: ready_batch_def)
qed

context queue_relation
begin

lemma join_above:
  assumes net: "live_heights_i64 net"
  shows "join_intents net batch ps ts s = (out, ts', s') \<Longrightarrow> ready_batch (committed s) batch ps
    \<Longrightarrow> R (committed s) (committed s') \<and> intent_step (committed s) (committed s')"
proof (induction ts arbitrary: ps s)
  case (Cons turn ts)
  obtain k fate where head: "turn = (k, fate)" by fastforce
  show ?case
  proof (cases "joined ps = None \<and> k < length ps")
    case True
    obtain p s1 where one: "intent_turn net (batch ! k) fate (ps ! k) s = (p, s1)" by fastforce
    note next_ready = ready_batch_turn [OF Cons.prems(2) _ one net]
    have "R (committed s) (committed s1)"
      using turn [OF one net] Cons.prems(2) True by (simp add: ready_batch_def)
    moreover have "join_intents net batch (ps[k := p]) ts s1 = (out, ts', s')"
      using Cons.prems(1) head True one by simp
    ultimately show ?thesis
      using Cons.IH [of "ps[k := p]" s1] next_ready True by (blast intro: chained intent_step_trans)
  next
    case False
    with Cons head same show ?thesis by (auto split: option.splits)
  qed
qed (simp add: same)

lemma batches_above:
  assumes net: "live_heights_i64 net"
  shows "process_batches net bs ts s = (r, s') \<Longrightarrow> (\<And>b i. b \<in> set bs \<Longrightarrow> i \<in> set b \<Longrightarrow> names_wallet (committed s) i)
    \<Longrightarrow> R (committed s) (committed s') \<and> intent_step (committed s) (committed s')"
proof (induction bs arbitrary: ts s r s')
  case (Cons b bs)
  obtain out ts1 s1 where one: "join_intents net b (map (\<lambda>_. Waiting) b) ts s = (out, ts1, s1)"
    by (cases "join_intents net b (map (\<lambda>_. Waiting) b) ts s") auto
  have "ready_batch (committed s) b (map (\<lambda>_. Waiting) b)"
    by (rule ready_batch_start) (use Cons.prems(2) in auto)
  note first = join_above [OF net one this]
  obtain r2 s2 where rest: "process_batches net bs ts1 s1 = (r2, s2)" by fastforce
  have "intent_ids (committed s1) = intent_ids (committed s)"
    using first by (simp add: intent_step_def)
  then have "R (committed s1) (committed s2) \<and> intent_step (committed s1) (committed s2)"
    using Cons.IH [OF rest] Cons.prems(2) names_ids by (metis list.set_intros(2))
  moreover have "s' = s1 \<or> s' = s2"
    using Cons.prems(1) one rest by (auto split: option.splits sum.splits)
  ultimately show ?case
    using first by (blast intro: chained intent_step_trans)
qed (simp add: same)

lemma pending_above:
  assumes run: "process_pending_intents net query ts s = (r, s')" and net: "live_heights_i64 net"
    and uniq: "unique_by in_id (intents (committed s))"
  shows "R (committed s) (committed s')"
proof -
  let ?rows = "pending_intents (committed s) (clock net (world s))"
  have rows: "set ?rows \<subseteq> set (intents (committed s))"
    by (auto simp: pending_intents_def dest!: in_set_takeD)
  have named: "names_wallet (committed s) i" if "b \<in> set (chunks4 ?rows)" "i \<in> set b" for b i
    using named_rows [OF uniq] chunks4_set [OF that(1)] that(2) rows by blast
  have "s' = s \<or> process_batches net (chunks4 ?rows) ts s = (r, s')"
    using run by (cases query) (auto simp: process_pending_intents_def issue_def)
  with batches_above [OF net, of "chunks4 ?rows" ts s r s'] named same show ?thesis
    by blast
qed

end

text \<open>The verdict of a pass, and what becomes of its publication.\<close>

abbreviation verdict :: "'a ledger_result option \<Rightarrow> bool" where
  "verdict r \<equiv> case r of Some (Inr _) \<Rightarrow> True | _ \<Rightarrow> False"

lemma pass_cases:
  assumes run: "supervised_intent_pass net fate s = (r, s')"
    and pass: "process_pending_intents net (pf_query fate) (pf_turns fate) s = (r1, s1)"
  obtains (published) "r = Inr (verdict r1)" "pf_publish fate = InTime" "pf_write fate = Executed"
        "committed s' = set_state (str ''intents_ok'') (if verdict r1 then str ''true'' else str ''false'')
           (clock net (world s1)) (committed s1)"
    | (failed) e where "r = Inl e"
        "e = Provider ''intent_progress_publish_deadline'' \<and> pf_publish fate \<noteq> InTime
           \<or> (\<exists>x. e = Database x \<and> pf_publish fate = InTime \<and> pf_write fate \<noteq> Executed)"
        "committed s' = committed s1 \<or> committed s' = set_state (str ''intents_ok'')
           (if verdict r1 then str ''true'' else str ''false'') (clock net (world s1)) (committed s1)"
proof -
  define publish where "publish = issue (pf_write fate) (on_pool (clock net) (set_state (str ''intents_ok'')
     (if verdict r1 then str ''true'' else str ''false'')))"
  obtain rp sp where wrote: "publish s1 = (rp, sp)" by fastforce
  have r: "(r, s') = (case pf_publish fate of InTime \<Rightarrow> (map_sum id (\<lambda>_. verdict r1) rp, sp)
      | CutBefore \<Rightarrow> (Inl (Provider ''intent_progress_publish_deadline''), s1)
      | CutAfter \<Rightarrow> (Inl (Provider ''intent_progress_publish_deadline''), sp))"
    using run pass wrote unfolding supervised_intent_pass_def publish_def
    by (auto simp: Let_def thenA_def bindA_def ret_def split: deadline.splits sum.splits)
  have rp: "rp = Inr () \<and> pf_write fate = Executed \<or> (\<exists>x. rp = Inl (Database x) \<and> pf_write fate \<noteq> Executed)"
    using wrote by (cases "pf_write fate") (auto simp: publish_def issue_def on_pool_def)
  have wr: "committed sp = committed s1 \<and> pf_write fate \<noteq> Executed \<or> committed sp = set_state (str ''intents_ok'')
      (if verdict r1 then str ''true'' else str ''false'') (clock net (world s1)) (committed s1)"
    using wrote by (cases "pf_write fate") (auto simp: publish_def issue_def on_pool_def)
  show thesis
    by (cases "pf_publish fate"; use r rp wr in \<open>force intro: published failed\<close>)
qed

locale pass_relation = queue_relation +
  assumes recorded: "R d (set_state (str ''intents_ok'') v now d)"
begin

lemma pass_above:
  assumes run: "supervised_intent_pass net fate s = (r, s')" and net: "live_heights_i64 net"
    and uniq: "unique_by in_id (intents (committed s))"
  shows "R (committed s) (committed s')"
proof -
  obtain r1 s1 where pass: "process_pending_intents net (pf_query fate) (pf_turns fate) s = (r1, s1)"
    by fastforce
  have "R (committed s1) (committed s')"
    using run pass by (cases rule: pass_cases) (auto simp: same recorded)
  with pending_above [OF pass net uniq] show ?thesis
    by (rule chained)
qed

end

lemma ledger_inv_set_state:
  assumes "\<And>c. key \<noteq> cursor_key c"
  shows "ledger_inv (set_state key v now d) = ledger_inv d"
  by (rule ledger_inv_frame)
    (simp_all add: indexed_height_def get_state_set_state assms [symmetric], simp_all add: set_state_def checkpoint_height_def)

lemma queue_set_state [simp]:
  "intent_ids (set_state k v now d) = intent_ids d" "registered_keys (set_state k v now d) = registered_keys d"
  "intents (set_state k v now d) = intents d" "intents_settled (set_state k v now d) = intents_settled d"
  by (simp_all add: set_state_def intent_ids_def registered_keys_def intents_settled_def intent_settled_def)

lemma intents_ok_key: "str ''intents_ok'' \<noteq> cursor_key c"
  by (cases c) (simp_all add: cursor_key_def str_def)

section \<open>What a pass keeps\<close>

interpretation kept: pass_relation net "\<lambda>d d'. live_heights_i64 net \<longrightarrow> intent_step d d'" for net
  by unfold_locales (simp add: intent_step_def ledger_inv_set_state [OF intents_ok_key])

text \<open>A row of the queue only ages: it keeps what it is, and no attempt and no completion is undone.\<close>

definition aged :: "intent_row \<Rightarrow> intent_row \<Rightarrow> bool" where
  "aged i j \<longleftrightarrow> in_id j = in_id i \<and> in_chain j = in_chain i \<and> in_wallet j = in_wallet i
     \<and> in_signature j = in_signature i \<and> in_attempts i \<le> in_attempts j
     \<and> (in_processed_at i \<noteq> None \<longrightarrow> in_processed_at j \<noteq> None)"

lemma aged_update: "(\<And>i. aged i (f i)) \<Longrightarrow> list_all2 aged rows (update_where p f rows)"
  by (simp add: update_where_def list_all2_conv_all_nth) (simp add: aged_def)

interpretation aging: pass_relation net "\<lambda>d d'. list_all2 aged (intents d) (intents d')" for net
proof unfold_locales
  fix d d' d''
  show "list_all2 aged (intents d) (intents d)"
    by (rule list.rel_refl) (simp add: aged_def)
  show "list_all2 aged (intents d) (intents d') \<Longrightarrow> list_all2 aged (intents d') (intents d'') \<Longrightarrow> list_all2 aged (intents d) (intents d'')"
    by (rule list_all2_trans [of aged aged aged]) (auto simp: aged_def)
next
  fix c raw sid s r s'
  assume "live_heights_i64 net" "register_wallet net c raw sid s = (r, s')"
  then have "intents (committed s') = intents (committed s)"
    using register_frame by blast
  then show "list_all2 aged (intents (committed s)) (intents (committed s'))"
    by (simp add: list_all2_conv_all_nth) (simp add: aged_def)
next
  fix d v now
  show "list_all2 aged (intents d) (intents (set_state (str ''intents_ok'') v now d))"
    by (simp add: list_all2_conv_all_nth) (simp add: aged_def)
qed (auto simp: claim_intent_def Let_def mark_intent_processed_def postpone_intent_def aged_def dest!: sym
    intro!: aged_update)

text \<open>Only the publication touches what readiness reads of the worker.\<close>

interpretation unpublished: queue_relation net
    "\<lambda>d d'. get_state d' (str ''intents_ok'') = get_state d (str ''intents_ok'')" for net
proof unfold_locales
  fix c raw sid s r s'
  assume "register_wallet net c raw sid s = (r, s')"
  then show "get_state (committed s') (str ''intents_ok'') = get_state (committed s) (str ''intents_ok'')"
  proof (cases rule: register_wallet_cases)
    case (registered w observed d' inserted row w0 w1)
    then show ?thesis unfolding insert_live_registration_Inr by (auto simp: get_state_def)
  qed simp
qed (auto simp: claim_intent_def Let_def mark_intent_processed_def postpone_intent_def get_state_def dest!: sym)

definition queue_ok :: "db \<Rightarrow> bool" where
  "queue_ok d \<longleftrightarrow> ledger_inv d \<and> intents_settled d \<and> unique_by in_id (intents d)"

section \<open>A pass that is given its turns\<close>

text \<open>An intent has at most three statements before it.\<close>

fun remaining :: "intent_phase \<Rightarrow> nat" where
  "remaining Waiting = 3"
| "remaining Claimed = 2"
| "remaining (Registered _) = 1"
| "remaining (Finished _) = 0"

definition faultless :: "intent_phase \<Rightarrow> bool" where
  "faultless p \<longleftrightarrow> (\<forall>e. p \<noteq> Finished (Inl e))"

lemma turn_remaining: "intent_turn net i fate p s = (p', s') \<Longrightarrow> remaining p' \<le> remaining p - 1"
  by (cases p) (auto simp: intent_turn_def Let_def split: prod.splits sum.splits option.splits if_splits)

lemma turn_faultless: "intent_turn net i Executed p s = (p', s') \<Longrightarrow> faultless p \<Longrightarrow> faultless p'"
  by (cases p) (auto simp: intent_turn_def faultless_def issue_def on_pool_def on_poolv_def Let_def
      split: prod.splits sum.splits option.splits if_splits)

lemma joined_remaining: "joined ps = None \<longleftrightarrow> (\<exists>k<length ps. 0 < remaining (ps ! k))"
proof -
  have "result_of p \<noteq> None \<longleftrightarrow> remaining p = 0" for p
    by (cases p) auto
  then show ?thesis
    by (auto simp: joined_def list_all_length)
qed

lemma joined_faultless: "joined ps = Some rs \<Longrightarrow> list_all faultless ps \<Longrightarrow> \<exists>os. mapR id rs = Inr os"
proof (induction ps arbitrary: rs)
  case (Cons p ps)
  then obtain r where p: "p = Finished (Inr r)"
    by (cases p; cases "joined (p # ps)") (auto simp: joined_def faultless_def split: if_splits, metis sum.exhaust)
  then obtain rs2 where "joined ps = Some rs2" "rs = Inr r # rs2"
    using Cons.prems(1) by (auto simp: joined_def split: if_splits)
  with Cons.IH [of rs2] Cons.prems(2) show ?case by auto
qed (simp add: joined_def)

text \<open>Enough turns end a batch; what is left of them goes on to the next.\<close>

lemma join_ends:
  assumes "\<forall>turn\<in>set seg. snd turn = Executed"
  shows "(\<And>k. k < length ps \<Longrightarrow> remaining (ps ! k) \<le> count_list (map fst seg) k) \<Longrightarrow> list_all faultless ps
    \<Longrightarrow> \<exists>rs os left s'. join_intents net batch ps (seg @ rest) s = (Some rs, left @ rest, s')
          \<and> mapR id rs = Inr os \<and> set left \<subseteq> set seg"
  using assms
proof (induction seg arbitrary: ps s)
  case Nil
  then have "\<not> (\<exists>k<length ps. 0 < remaining (ps ! k))" by auto
  then obtain rs where rs: "joined ps = Some rs"
    unfolding joined_remaining [symmetric] by blast
  obtain os where "mapR id rs = Inr os"
    using joined_faultless [OF rs Nil.prems(2)] by blast
  moreover have "join_intents net batch ps rest s = (Some rs, rest, s)"
    using rs by (cases "(net, batch, ps, rest, s)" rule: join_intents.cases) auto
  ultimately show ?case
    by (intro exI [of _ rs] exI [of _ os] exI [of _ "[]"] exI [of _ s]) (simp add: id_def)
next
  case (Cons turn seg)
  obtain k where head: "turn = (k, Executed)"
    using Cons.prems(3) by (cases turn) simp
  show ?case
  proof (cases "joined ps")
    case (Some rs)
    obtain os where "mapR id rs = Inr os"
      using joined_faultless [OF Some Cons.prems(2)] by blast
    with Some head show ?thesis
      by (intro exI [of _ rs] exI [of _ os] exI [of _ "turn # seg"] exI [of _ s]) (simp add: id_def)
  next
    case None
    show ?thesis
    proof (cases "k < length ps")
      case True
      obtain p s1 where one: "intent_turn net (batch ! k) Executed (ps ! k) s = (p, s1)" by fastforce
      have fewer: "remaining (ps[k := p] ! j) \<le> count_list (map fst seg) j" if "j < length (ps[k := p])" for j
        using turn_remaining [OF one] Cons.prems(1) [of j] that head by (cases "j = k") auto
      have "faultless p"
        using turn_faultless [OF one] Cons.prems(2) True by (simp add: list_all_length)
      then have "list_all faultless (ps[k := p])"
        using Cons.prems(2) set_update_subset_insert [of ps k p] by (auto simp: list_all_iff)
      from Cons.IH [OF fewer this, of s1] Cons.prems(3) obtain rs os left s2 where
          "join_intents net batch (ps[k := p]) (seg @ rest) s1 = (Some rs, left @ rest, s2)" "mapR id rs = Inr os"
          "set left \<subseteq> set seg"
        by (auto simp: head id_def)
      with None True head one show ?thesis by (intro exI [of _ rs] exI [of _ os] exI [of _ left] exI [of _ s2]) (auto simp: id_def)
    next
      case False
      have "remaining (ps ! j) \<le> count_list (map fst seg) j" if "j < length ps" for j
        using Cons.prems(1) [OF that] False that head by (auto split: if_splits)
      from Cons.IH [OF this Cons.prems(2), of s] Cons.prems(3) obtain rs os left s2 where
          "join_intents net batch ps (seg @ rest) s = (Some rs, left @ rest, s2)" "mapR id rs = Inr os"
          "set left \<subseteq> set seg"
        by (auto simp: head id_def)
      with None False head show ?thesis by (intro exI [of _ rs] exI [of _ os] exI [of _ left] exI [of _ s2]) (auto simp: id_def)
    qed
  qed
qed

definition three_turns :: "intent_row list \<Rightarrow> turns \<Rightarrow> bool" where
  "three_turns b seg \<longleftrightarrow> (\<forall>k<length b. 3 \<le> count_list (map fst seg) k)"

lemma batches_end:
  "list_all2 three_turns bs segs \<Longrightarrow> \<forall>turn\<in>set (extra @ concat segs). snd turn = Executed
    \<Longrightarrow> \<exists>out s'. process_batches net bs (extra @ concat segs) s = (Some (Inr out), s')"
proof (induction bs segs arbitrary: extra s rule: list_all2_induct)
  case (Cons b bs seg segs)
  have count: "remaining (map (\<lambda>_. Waiting) b ! k) \<le> count_list (map fst (extra @ seg)) k"
    if "k < length (map (\<lambda>_. Waiting) b)" for k
    using Cons.hyps(1) that by (force simp: three_turns_def)
  have clean: "list_all faultless (map (\<lambda>_. Waiting) b)"
    by (simp add: list_all_iff faultless_def)
  have executed: "\<forall>turn\<in>set (extra @ seg). snd turn = Executed"
    using Cons.prems by auto
  obtain rs os left s1 where one: "join_intents net b (map (\<lambda>_. Waiting) b) ((extra @ seg) @ concat segs) s
      = (Some rs, left @ concat segs, s1)" "mapR id rs = Inr os" "set left \<subseteq> set (extra @ seg)"
    using join_ends [where net = net and batch = b and rest = "concat segs" and s = s, OF executed count clean] by blast
  obtain out s2 where "process_batches net bs (left @ concat segs) s1 = (Some (Inr out), s2)"
    using Cons.IH [of left s1] Cons.prems one(3) by (fastforce simp: ball_Un)
  with one show ?case by simp
qed simp

definition undisturbed :: "pass_fate \<Rightarrow> intent_row list list \<Rightarrow> bool" where
  "undisturbed fate batches \<longleftrightarrow> pf_query fate = Executed \<and> pf_publish fate = InTime \<and> pf_write fate = Executed
     \<and> (\<forall>turn\<in>set (pf_turns fate). snd turn = Executed)
     \<and> (\<exists>segs. pf_turns fate = concat segs \<and> list_all2 three_turns batches segs)"

lemma undisturbed_completes:
  assumes "undisturbed fate (chunks4 (pending_intents (committed s) (clock net (world s))))"
    and run: "supervised_intent_pass net fate s = (r, s')"
  shows "r = Inr True"
proof -
  obtain segs where fate: "pf_query fate = Executed" "pf_publish fate = InTime" "pf_write fate = Executed"
    and turns: "pf_turns fate = concat segs" "\<forall>turn\<in>set ([] @ concat segs). snd turn = Executed"
    and enough: "list_all2 three_turns (chunks4 (pending_intents (committed s) (clock net (world s)))) segs"
    using assms(1) by (auto simp: undisturbed_def)
  from batches_end [where extra = "[]" and net = net and s = s, OF enough turns(2)]
  obtain out s1 where "process_pending_intents net (pf_query fate) (pf_turns fate) s = (Some (Inr out), s1)"
    by (auto simp: process_pending_intents_def issue_def fate(1) turns(1))
  from run this show ?thesis
    by (cases rule: pass_cases) (auto simp: fate)
qed

section \<open>The contract of a pass\<close>


section \<open>A pass over one intent\<close>

definition sample_intent :: intent_row where
  "sample_intent = \<lparr>in_id = 7, in_chain = Terra, in_wallet = str ''terra1alice'', in_signature = 3, in_created_at = 0,
     in_processed_at = None, in_last_attempt_at = None, in_retry_after = None, in_attempts = 0, in_last_error = None\<rparr>"

definition intent_db :: db where
  "intent_db = initial_db\<lparr>intents := [sample_intent]\<rparr>"

text \<open>Three turns for the first intent, or one only: claimed, and cut before its registration.\<close>

definition prompt_fate :: pass_fate where
  "prompt_fate = \<lparr>pf_query = Executed, pf_turns = [(0, Executed), (0, Executed), (0, Executed)],
     pf_publish = InTime, pf_write = Executed\<rparr>"

definition cut_fate :: pass_fate where
  "cut_fate = prompt_fate\<lparr>pf_turns := [(0, Executed)]\<rparr>"

lemma quiet_heights: "live_heights_i64 quiet_network"
  by (auto simp: live_heights_i64_def live_balance_of_def quiet_network_def i64_max_def split: chain.splits)

lemma intent_db_queue_ok: "queue_ok (committed (fresh_pool intent_db))"
  by (simp add: queue_ok_def fresh_pool_def intent_db_def initial_ledger_inv intents_settled_def sample_intent_def unique_by_def)

lemma sample_cut:
  "case supervised_intent_pass quiet_network cut_fate (fresh_pool intent_db) of
     (Inr ok, s') \<Rightarrow> \<not> ok \<and> map in_attempts (intents (committed s')) = [1] | _ \<Rightarrow> False"
  by code_simp

lemma sample_pending:
  "pending_intents (committed (fresh_pool intent_db)) (clock quiet_network (world (fresh_pool intent_db))) = [sample_intent]"
  by code_simp


end
