(* ===== verification/Health.thy ===== *)
theory Health
  imports Worker Intents
begin

text \<open>
  The readiness report (\<open>ledger/src/health.rs\<close>) and the worker loop of the ledger process
  (\<open>ledger/src/main.rs\<close>): what an iteration does after its poll, when it sleeps and for how long.
  The theorems connect the two: a report of readiness implies what the voting side relies on, and
  every failure takes readiness away until a later success.
\<close>

section \<open>Readiness\<close>

definition indexer_behind_registration :: "int \<Rightarrow> int \<Rightarrow> bool" where
  "indexer_behind_registration cursor max_registered_at \<longleftrightarrow> max_registered_at > 0 \<and> cursor < max_registered_at"

text \<open>\<open>EXTRACT(EPOCH FROM ...)::bigint\<close> of a span in microseconds: the nearest second, halves away from zero.\<close>

definition epoch_seconds :: "int \<Rightarrow> int" where
  "epoch_seconds us = (if us \<ge> 0 then (us + 500000) div 1000000 else - ((- us + 500000) div 1000000))"

record chain_health =
  ch_chain :: chain
  ch_height :: int
  ch_network_tip :: int
  ch_lag :: int
  ch_age_seconds :: "int option"
  ch_complete :: bool
  ch_canonical :: bool
  ch_degraded_reason :: "ustring option"

record readiness_report =
  rd_ok :: bool
  rd_database_ok :: bool
  rd_chains :: "chain_health list"
  rd_intent_backlog :: int
  rd_intent_oldest_seconds :: int
  rd_intents_ok :: bool
  rd_baselines_ok :: bool
  rd_intent_progress_age :: "int option"

definition chain_health_of :: "int \<Rightarrow> chain \<Rightarrow> checkpoint \<Rightarrow> chain_health" where
  "chain_health_of now c cp = \<lparr>ch_chain = c, ch_height = cp_height cp, ch_network_tip = cp_network_tip cp,
     ch_lag = cp_network_tip cp - cp_height cp,
     ch_age_seconds = map_option (\<lambda>t. epoch_seconds (now - t)) (cp_observed_at cp),
     ch_complete = cp_complete cp, ch_canonical = cp_canonical cp, ch_degraded_reason = cp_degraded cp\<rparr>"

text \<open>\<open>ORDER BY chain\<close> puts \<open>bsc\<close> before \<open>terra\<close>.\<close>

definition chain_healths :: "int \<Rightarrow> db \<Rightarrow> chain_health list" where
  "chain_healths now d =
     concat (map (\<lambda>c. case checkpoints d c of None \<Rightarrow> [] | Some cp \<Rightarrow> [chain_health_of now c cp]) [Bsc, Terra])"

definition chain_healthy :: "chain_health \<Rightarrow> bool" where
  "chain_healthy h \<longleftrightarrow> ch_height h > 0 \<and> ch_complete h \<and> ch_canonical h \<and> ch_degraded_reason h = None
     \<and> (case ch_age_seconds h of Some a \<Rightarrow> 0 \<le> a \<and> a \<le> 120 | None \<Rightarrow> False)
     \<and> ch_lag h \<ge> 0 \<and> ch_lag h \<le> (if ch_chain h = Bsc then 17 else 2)"

definition open_intents :: "db \<Rightarrow> intent_row list" where
  "open_intents d = filter (\<lambda>i. in_processed_at i = None) (intents d)"

definition intent_oldest :: "int \<Rightarrow> db \<Rightarrow> int" where
  "intent_oldest now d =
     (case open_intents d of [] \<Rightarrow> 0 | i # is \<Rightarrow> epoch_seconds (now - foldl min (in_created_at i) (map in_created_at is)))"

definition intents_progress :: "int \<Rightarrow> db \<Rightarrow> (ustring \<times> int) option" where
  "intents_progress now d =
     map_option (\<lambda>r. (st_value r, epoch_seconds (now - st_updated_at r)))
       (find_row st_key (str ''intents_ok'') (indexer_state d))"

definition baselines_ok :: "db \<Rightarrow> bool" where
  "baselines_ok d \<longleftrightarrow> \<not> list_ex (\<lambda>r. is_active r \<and> (case checkpoints d (vr_chain r) of None \<Rightarrow> False
       | Some cp \<Rightarrow> baseline_of r \<le> cp_height cp
           \<and> (\<not> vr_baseline_verified r \<or> (case vr_baseline_hash r of None \<Rightarrow> True | Some h \<Rightarrow> h = [])))) (registrations d)"

text \<open>\<open>late\<close>: the queries missed their two-second deadline (or failed).\<close>

definition readiness :: "bool \<Rightarrow> int \<Rightarrow> db \<Rightarrow> int \<times> readiness_report" where
  "readiness late now d =
     (if late then (503, \<lparr>rd_ok = False, rd_database_ok = False, rd_chains = [], rd_intent_backlog = 0,
        rd_intent_oldest_seconds = 0, rd_intents_ok = False, rd_baselines_ok = False, rd_intent_progress_age = None\<rparr>)
      else
        (let chains = chain_healths now d;
             progress = intents_progress now d;
             intents_ok = (case progress of Some (v, age) \<Rightarrow> v = str ''true'' \<and> 0 \<le> age \<and> age \<le> 120 | None \<Rightarrow> False);
             baselines = baselines_ok d;
             ok = (length chains = 2 \<and> list_all chain_healthy chains \<and> intents_ok \<and> baselines) in
         (if ok then 200 else 503,
          \<lparr>rd_ok = ok, rd_database_ok = True, rd_chains = chains,
           rd_intent_backlog = int (length (open_intents d)), rd_intent_oldest_seconds = intent_oldest now d,
           rd_intents_ok = intents_ok, rd_baselines_ok = baselines,
           rd_intent_progress_age = map_option snd progress\<rparr>)))"

text \<open>\<open>now_s\<close> is the source time in seconds; the difference saturates.\<close>

definition validate_head_time :: "int \<Rightarrow> int \<Rightarrow> unit ledger_result" where
  "validate_head_time now_s timestamp =
     (let age = sat_sub now_s timestamp in
      if age < -5 \<or> age > 120 then Inl (Provider ''stale_or_future_provider_head'') else Inr ())"

section \<open>The worker loop\<close>

definition provider_error_class :: "ledger_error \<Rightarrow> string option" where
  "provider_error_class e = (case e of Provider label \<Rightarrow> Some label | _ \<Rightarrow> None)"

definition failure_reason :: "ledger_error option \<Rightarrow> string" where
  "failure_reason failure =
     (case failure of
        None \<Rightarrow> ''worker_deadline''
      | Some (Conflict _) \<Rightarrow> ''accounting_corruption''
      | Some (Amount _) \<Rightarrow> ''accounting_invalid_amount''
      | Some _ \<Rightarrow> ''provider_or_accounting_failure'')"

definition u64_max :: int where "u64_max = 2 ^ 64 - 1"

definition retry_delay :: "ledger_config \<Rightarrow> chain \<Rightarrow> int \<Rightarrow> int" where
  "retry_delay cfg c failures =
     min (min u64_max (int (poll_interval_ms cfg) * 2 ^ nat (min failures 4))) 60000 + (if c = Bsc then 137 else 53)"

text \<open>
  One turn of the loop: the new failure count and, unless the worker goes on at once, how long it
  sleeps. \<open>late\<close> says that the one-minute deadline cut the poll; the state it leaves is that of a
  poll whose pending call failed, since a dropped future drops its transaction. \<open>fate\<close> is that of the
  statement that degrades the chain after a failure; when it fails the worker returns its error.
\<close>

definition worker_turn ::
    "'w network \<Rightarrow> urls option \<Rightarrow> urls \<Rightarrow> ledger_config \<Rightarrow> chain \<Rightarrow> bool \<Rightarrow> statement_fate \<Rightarrow> int
       \<Rightarrow> ('w, int \<times> int option) act" where
  "worker_turn net lcd bsc cfg c late fate failures s =
     (case poll_chain_progress net lcd bsc cfg c s of
        (r, s') \<Rightarrow>
          (case (if late then Inl None else map_sum Some id r) of
             Inr catch_up \<Rightarrow> (Inr (0, if catch_up then None else Some (retry_delay cfg c 0)), s')
           | Inl failure \<Rightarrow>
               thenA (issue fate (on_pool (clock net) (\<lambda>_. degrade c (str (failure_reason failure)))))
                 (let failures' = min u64_max (failures + 1) in
                  ret (failures', Some (retry_delay cfg c failures'))) s'))"

definition reconcile_requested :: "ustring option \<Rightarrow> bool ledger_result" where
  "reconcile_requested var =
     (case var of
        None \<Rightarrow> Inr False
      | Some v \<Rightarrow> if v = str ''true'' \<or> v = str ''1'' then Inr True
                  else if v = str ''false'' \<or> v = str ''0'' then Inr False
                  else Inl (InvalidConfig ''LEDGER_RECONCILE_LIVE_BASELINE must be true or false''))"

section \<open>What readiness certifies\<close>

definition serviceable :: "int \<Rightarrow> db \<Rightarrow> chain \<Rightarrow> bool" where
  "serviceable now d c \<longleftrightarrow> certified d c \<and> 0 < checkpoint_height d c
     \<and> (\<exists>cp t. checkpoints d c = Some cp \<and> cp_observed_at cp = Some t \<and> - 500000 < now - t \<and> now - t < 120500000
          \<and> 0 \<le> cp_network_tip cp - cp_height cp \<and> cp_network_tip cp - cp_height cp \<le> lag_budget c)"

lemma epoch_seconds_range: "0 \<le> epoch_seconds us \<and> epoch_seconds us \<le> 120 \<longleftrightarrow> - 500000 < us \<and> us < 120500000"
  by (auto simp: epoch_seconds_def)

lemma chain_healthy_serviceable:
  "checkpoints d c = Some cp \<Longrightarrow> chain_healthy (chain_health_of now c cp) \<longleftrightarrow> serviceable now d c"
  by (auto simp: chain_healthy_def chain_health_of_def serviceable_def certified_def checkpoint_height_def
      epoch_seconds_range lag_budget_def split: option.splits)

lemma serviceable_checkpoint: "serviceable now d c \<Longrightarrow> \<exists>cp. checkpoints d c = Some cp"
  by (auto simp: serviceable_def certified_def)

lemma chains_healthy:
  "length (chain_healths now d) = 2 \<and> list_all chain_healthy (chain_healths now d) \<longleftrightarrow>
     serviceable now d Bsc \<and> serviceable now d Terra"
proof (cases "checkpoints d Bsc")
  case None
  then show ?thesis
    using serviceable_checkpoint [of now d Bsc] by (auto simp: chain_healths_def split: option.splits)
next
  case bsc: (Some b)
  show ?thesis
  proof (cases "checkpoints d Terra")
    case None
    with bsc show ?thesis
      using serviceable_checkpoint [of now d Terra] by (auto simp: chain_healths_def)
  next
    case (Some t)
    with bsc show ?thesis
      by (simp add: chain_healths_def chain_healthy_serviceable [OF bsc] chain_healthy_serviceable [OF Some])
  qed
qed

lemma ready_iff:
  "fst (readiness late now d) = 200 \<longleftrightarrow> \<not> late \<and> serviceable now d Terra \<and> serviceable now d Bsc \<and> baselines_ok d
     \<and> (\<exists>age. intents_progress now d = Some (str ''true'', age) \<and> 0 \<le> age \<and> age \<le> 120)"
  using chains_healthy [of now d]
  by (auto simp: readiness_def Let_def split: option.splits)

lemma not_certified_not_ready: "\<not> certified d c \<Longrightarrow> fst (readiness late now d) = 503"
proof -
  assume "\<not> certified d c"
  then have "fst (readiness late now d) \<noteq> 200"
    by (cases c) (auto simp: ready_iff serviceable_def)
  then show ?thesis
    by (simp add: readiness_def Let_def split: if_splits)
qed

text \<open>
  C23. What a ready answer means, for a ledger whose invariant holds: the report is marked ready; both
  chains are certified at a positive height, observed in the last two minutes and close to the
  network's tip; the last pass over the intents was a success at most two minutes ago; and every
  active registration whose baseline the books have reached has a verified, bound baseline, so
  that its balance at every height from there to the checkpoint is its recorded opening balance
  plus the transfers since.
\<close>

theorem readiness_sound:
  assumes ready: "readiness late now d = (200, rep)" and inv: "ledger_inv d"
  shows "rd_ok rep \<and> rd_database_ok rep \<and> (\<forall>c. serviceable now d c)
     \<and> (\<exists>age. intents_progress now d = Some (str ''true'', age) \<and> 0 \<le> age \<and> age \<le> 120)
     \<and> (\<forall>c. \<forall>r\<in>set (active_registrations d c). baseline_of r \<le> checkpoint_height d c \<longrightarrow>
          vr_baseline_verified r \<and> (\<exists>h. vr_baseline_hash r = Some h \<and> h \<noteq> []) \<and> (tracked (vr_wallet r) \<longrightarrow> reconciled d c r))"
proof -
  have iff: "fst (readiness late now d) = 200"
    using ready by simp
  then have rep: "rd_ok rep" "rd_database_ok rep"
    using ready by (auto simp: readiness_def Let_def split: if_splits)
  have chains: "serviceable now d c" for c
    using iff by (cases c) (auto simp: ready_iff)
  have "vr_baseline_verified r \<and> (\<exists>h. vr_baseline_hash r = Some h \<and> h \<noteq> []) \<and> (tracked (vr_wallet r) \<longrightarrow> reconciled d c r)"
    if r: "r \<in> set (active_registrations d c)" "baseline_of r \<le> checkpoint_height d c" for c r
  proof -
    obtain cp where cp: "checkpoints d c = Some cp"
      using serviceable_checkpoint [OF chains] by blast
    have "baselines_ok d"
      using iff by (simp add: ready_iff)
    then have "\<not> (is_active r \<and> (case checkpoints d (vr_chain r) of None \<Rightarrow> False
       | Some cp \<Rightarrow> baseline_of r \<le> cp_height cp
           \<and> (\<not> vr_baseline_verified r \<or> (case vr_baseline_hash r of None \<Rightarrow> True | Some h \<Rightarrow> h = []))))"
      using r(1) unfolding baselines_ok_def list_ex_iff active_registrations_def by auto
    moreover have "is_active r" "vr_chain r = c"
      using r(1) by (auto simp: active_registrations_def)
    ultimately have "vr_baseline_verified r \<and> (\<exists>h. vr_baseline_hash r = Some h \<and> h \<noteq> [])"
      using r(2) cp by (auto simp: checkpoint_height_def split: option.splits)
    moreover have "tracked (vr_wallet r) \<longrightarrow> reconciled d c r"
      using inv r(1) by (auto simp: ledger_inv_def chain_ok_def books_ok_def active_registrations_def)
    ultimately show ?thesis by blast
  qed
  with rep chains iff show ?thesis
    by (auto simp: ready_iff)
qed

text \<open>A ledger at rest: both chains at block 1000, no wallets.\<close>

definition ready_db :: db where
  "ready_db = initial_db\<lparr>
     checkpoints := (\<lambda>c. Some \<lparr>cp_height = 1000, cp_hash = quiet_hash, cp_observed_at = Some 0, cp_epoch = 1,
       cp_complete = True, cp_canonical = True, cp_degraded = None, cp_network_tip = 1001\<rparr>),
     indexer_state := indexer_state initial_db
       @ [\<lparr>st_key = str ''intents_ok'', st_value = str ''true'', st_updated_at = 0\<rparr>]\<rparr>"

lemma ready_db_inv: "ledger_inv ready_db"
proof -
  have zero: "parse_i64 (str ''0'') = Some 0"
    by code_simp
  have "indexed_height ready_db c = Inr 0" for c
    by (cases c) (simp_all add: indexed_height_def get_state_def initial_db_def ready_db_def find_row_Cons
        cursor_key_def parse_cursor_def zero)
  moreover have "0 \<le> B \<Longrightarrow> books_ok ready_db c B" for c B
    by (simp add: books_ok_def ready_db_def initial_db_def unique_by_def)
  moreover have "0 \<le> checkpoint_height ready_db c" and "history_ok ready_db c" for c
    by (simp_all add: checkpoint_height_def history_ok_def ready_db_def initial_db_def unique_by_def)
  ultimately show ?thesis
    by (auto simp: ledger_inv_def chain_ok_def)
qed

theorem readiness_sound_witness:
  "\<exists>rep. readiness False (seconds 60) ready_db = (200, rep) \<and> rd_ok rep"
proof -
  have keys: "str ''last_indexed_height'' \<noteq> str ''intents_ok''" "str ''last_indexed_block_hash'' \<noteq> str ''intents_ok''"
      "str ''last_indexed_bsc_block'' \<noteq> str ''intents_ok''" "str ''indexer_version'' \<noteq> str ''intents_ok''"
    by (simp_all add: str_def)
  have row: "intents_progress (seconds 60) ready_db = Some (str ''true'', 60)"
    by (simp add: intents_progress_def ready_db_def initial_db_def find_row_Cons keys epoch_seconds_def seconds_def)
  have "serviceable (seconds 60) ready_db c" for c
    by (simp add: serviceable_def certified_def checkpoint_height_def ready_db_def seconds_def lag_budget_def)
  moreover have "baselines_ok ready_db"
    by (simp add: baselines_ok_def ready_db_def initial_db_def)
  ultimately have "fst (readiness False (seconds 60) ready_db) = 200"
    by (simp add: ready_iff row)
  then have "readiness False (seconds 60) ready_db = (200, snd (readiness False (seconds 60) ready_db))"
    by (metis prod.collapse)
  from readiness_sound [OF this ready_db_inv] this show ?thesis
    by blast
qed

section \<open>A turn of the worker\<close>

lemma degraded_not_certified: "\<not> certified (degrade c reason d) c"
  by (auto simp: certified_def degrade_def new_checkpoint_def split: option.splits)

lemma retry_delay_bounds: "0 \<le> failures \<Longrightarrow> 53 \<le> retry_delay cfg c failures \<and> retry_delay cfg c failures \<le> 60137"
  by (auto simp: retry_delay_def u64_max_def)

lemma retry_delay_mono: "0 \<le> m \<Longrightarrow> m \<le> n \<Longrightarrow> retry_delay cfg c m \<le> retry_delay cfg c n"
proof -
  assume le: "0 \<le> m" "m \<le> n"
  have "(2::int) ^ nat (min m 4) \<le> 2 ^ nat (min n 4)"
    using le by (intro power_increasing) auto
  then have "int (poll_interval_ms cfg) * 2 ^ nat (min m 4) \<le> int (poll_interval_ms cfg) * 2 ^ nat (min n 4)"
    by (intro mult_left_mono) auto
  then show ?thesis
    unfolding retry_delay_def by (intro add_right_mono min.mono) auto
qed

text \<open>
  A turn of the worker, whatever the poll, the deadline and the database did: the invariant holds
  afterwards, and only a database that fails to degrade the chain ends the worker. A failed turn takes the chain's readiness away at every later instant until something changes the
  database again, counts the failure and sleeps between 53 milliseconds and a minute; only a
  successful one leaves the chain certified and may go on at once.
\<close>

theorem worker_turn_fails_closed:
  assumes run: "worker_turn net lcd bsc cfg c late fate failures s = (r, s')"
    and inv: "ledger_inv (committed s)" and net: "ranges_bounded net" "heads_i64 net" and n: "0 \<le> failures"
  shows "ledger_inv (committed s') \<and> (case r of
       Inl e \<Rightarrow> \<exists>x. e = Database x \<and> fate \<in> {Refused x, Unacknowledged x}
     | Inr (failures', sleep) \<Rightarrow> (\<forall>ms. sleep = Some ms \<longrightarrow> 53 \<le> ms \<and> ms \<le> 60137)
         \<and> (if failures' = 0 then certified (committed s') c
            else sleep = Some (retry_delay cfg c failures') \<and> failures' = min u64_max (failures + 1)
               \<and> (\<forall>now late'. fst (readiness late' now (committed s')) = 503)))"
proof -
  obtain r1 s1 where poll: "poll_chain_progress net lcd bsc cfg c s = (r1, s1)" by fastforce
  note safe = poll_safe [OF poll inv net]
  have positive: "0 < min u64_max (failures + 1)"
    using n by (simp add: u64_max_def)
  show ?thesis
  proof (cases "if late then Inl None else map_sum Some id r1")
    case (Inr catch_up)
    then have "r1 = Inr catch_up"
      by (cases r1) (auto split: if_splits)
    with Inr run poll safe retry_delay_bounds [of 0 cfg c] show ?thesis
      by (auto simp: worker_turn_def)
  next
    case (Inl failure)
    let ?f = "min u64_max (failures + 1)"
    let ?d = "degrade c (str (failure_reason failure)) (committed s1)"
    have "fst (readiness late' now ?d) = 503" for late' now
      by (rule not_certified_not_ready [OF degraded_not_certified])
    with run poll Inl positive safe retry_delay_bounds [of ?f cfg c] show ?thesis
      by (cases fate) (auto simp: worker_turn_def issue_def thenA_def bindA_def on_pool_def ret_def Let_def)
  qed
qed

theorem worker_turn_fails_closed_witness:
  "\<exists>f sleep s'. worker_turn quiet_network None [] sample_config Terra False Executed 2 (fresh_pool initial_db) = (Inr (f, sleep), s')
     \<and> ledger_inv (committed s')"
proof -
  obtain r s' where run: "worker_turn quiet_network None [] sample_config Terra False Executed 2 (fresh_pool initial_db) = (r, s')"
    by fastforce
  have "ledger_inv (committed (fresh_pool initial_db))"
    by (simp add: fresh_pool_def initial_ledger_inv)
  from worker_turn_fails_closed [OF run this quiet_ranges quiet_heads] run show ?thesis
    by (auto split: sum.splits)
qed

section \<open>Permanent failures\<close>

text \<open>The turns a worker takes one after the other, each with its own providers, deadline and fate.\<close>

fun worker_turns ::
    "urls option \<Rightarrow> urls \<Rightarrow> ledger_config \<Rightarrow> chain \<Rightarrow> ('w network \<times> bool \<times> statement_fate) list \<Rightarrow> int \<Rightarrow> 'w pool \<Rightarrow> 'w pool" where
  "worker_turns lcd bsc cfg c [] failures s = s"
| "worker_turns lcd bsc cfg c ((net, late, fate) # ts) failures s =
     (case worker_turn net lcd bsc cfg c late fate failures s of
        (Inl _, s') \<Rightarrow> s'
      | (Inr (failures', _), s') \<Rightarrow> worker_turns lcd bsc cfg c ts failures' s')"

definition stopped :: "chain \<Rightarrow> db \<Rightarrow> db \<Rightarrow> bool" where
  "stopped c d0 d \<longleftrightarrow> (\<exists>reason\<in>set permanent_reasons. degraded_reason d c = Some reason)
     \<and> registrations d = registrations d0 \<and> transfers d = transfers d0 \<and> balances d = balances d0
     \<and> canonical_blocks d = canonical_blocks d0 \<and> indexer_state d = indexer_state d0
     \<and> checkpoint_height d c = checkpoint_height d0 c"

lemma degrade_tables [simp]:
  "registrations (degrade c reason d) = registrations d" "transfers (degrade c reason d) = transfers d"
  "balances (degrade c reason d) = balances d" "canonical_blocks (degrade c reason d) = canonical_blocks d"
  "indexer_state (degrade c reason d) = indexer_state d"
  by (simp_all add: degrade_def)

lemma stopped_degrade:
  assumes "stopped c d0 d \<or> reason \<in> set permanent_reasons \<and> d0 = d"
  shows "stopped c d0 (degrade c reason d)"
  using assms by (auto simp: stopped_def degraded_reason_degrade split: option.split)

lemma stopped_turn:
  assumes "stopped c d0 (committed s)" and run: "worker_turn net lcd bsc cfg c late fate failures s = (r, s')"
  shows "stopped c d0 (committed s')"
proof -
  obtain r1 s1 where poll: "poll_chain_progress net lcd bsc cfg c s = (r1, s1)" by fastforce
  then have refused: "\<exists>e. r1 = Inl e" "committed s1 = committed s \<or> (\<exists>reason. committed s1 = degrade c reason (committed s))"
    using assms(1) by (cases rule: poll_chain_cases; auto simp: stopped_def)+
  have "committed s' = committed s1 \<or> (\<exists>reason. committed s' = degrade c reason (committed s1))"
    using run poll refused(1)
    by (cases fate) (auto simp: worker_turn_def issue_def thenA_def bindA_def on_pool_def ret_def Let_def split: if_splits)
  with refused(2) assms(1) show ?thesis
    by (metis stopped_degrade)
qed

text \<open>
  C22. A failure that means the books themselves cannot be trusted stops the chain for good: after a
  turn whose poll ended with a conflict or an invalid amount, no sequence of later turns, against
  any providers, changes the books, the history or the checkpoint of the chain, and it never
  reports ready. Only when the database refuses to record the failure is the chain not stopped so:
  then the worker itself ends, with the database's error, and the process with it.
\<close>

theorem accounting_failure_stops_chain:
  assumes poll: "poll_chain_progress net lcd bsc cfg c s = (Inl e, s1)" and e: "(\<exists>x. e = Conflict x) \<or> (\<exists>x. e = Amount x)"
    and turn: "worker_turn net lcd bsc cfg c False fate failures s = (r, s')"
  shows "(\<exists>x. fate = Refused x \<and> r = Inl (Database x) \<and> committed s' = committed s1)
   \<or> (let later = committed (worker_turns lcd bsc cfg c ts n s') in
     registrations later = registrations (committed s1) \<and> transfers later = transfers (committed s1)
   \<and> balances later = balances (committed s1) \<and> canonical_blocks later = canonical_blocks (committed s1)
   \<and> indexer_state later = indexer_state (committed s1) \<and> checkpoint_height later c = checkpoint_height (committed s1) c
   \<and> (\<forall>late now. fst (readiness late now later) = 503))"
proof (cases "\<exists>x. fate = Refused x")
  case True
  with turn poll show ?thesis
    by (auto simp: worker_turn_def issue_def thenA_def bindA_def)
next
  case False
  have reasons: "str ''accounting_corruption'' \<in> set permanent_reasons" "str ''accounting_invalid_amount'' \<in> set permanent_reasons"
    by (simp_all add: permanent_reasons_def)
  have "committed s' = degrade c (str (failure_reason (Some e))) (committed s1)"
    using turn poll False
    by (cases fate) (auto simp: worker_turn_def issue_def thenA_def bindA_def on_pool_def ret_def Let_def)
  moreover have "str (failure_reason (Some e)) \<in> set permanent_reasons"
    using e reasons by (auto simp: failure_reason_def)
  ultimately have start: "stopped c (committed s1) (committed s')"
    by (simp add: stopped_degrade)
  have all: "stopped c d0 (committed t) \<Longrightarrow> stopped c d0 (committed (worker_turns lcd bsc cfg c ts n t))" for d0 t
  proof (induction ts arbitrary: n t)
    case (Cons a ts)
    then show ?case
      using stopped_turn [OF Cons.prems] by (cases a) (auto split: prod.splits sum.splits)
  qed simp
  have "\<not> certified d c" if "stopped c d0 d" for d d0
    using that by (auto simp: stopped_def certified_def degraded_reason_def)
  then have "fst (readiness late now (committed (worker_turns lcd bsc cfg c ts n s'))) = 503" for late now
    using all [OF start] not_certified_not_ready by blast
  then show ?thesis
    using all [OF start] by (simp add: stopped_def Let_def)
qed

definition corrupt_network :: "unit network" where
  "corrupt_network = quiet_network\<lparr>lcd_canonical_block := (\<lambda>urls h w. (Inr \<lparr>tb_hash = quiet_hash,
     tb_executions = [\<lparr>ex_tx_hash = str ''AA'', ex_wasm_events = Inl (Amount ''bad amount'')\<rparr>],
     tb_tip = 1000, tb_source = urls\<rparr>, w))\<rparr>"

theorem accounting_failure_stops_chain_witness:
  "\<exists>s1 r s'. poll_chain_progress corrupt_network (Some [str ''u'']) [] sample_config Terra (fresh_pool initial_db)
       = (Inl (Amount ''bad amount''), s1)
     \<and> worker_turn corrupt_network (Some [str ''u'']) [] sample_config Terra False Executed 0 (fresh_pool initial_db) = (r, s')
     \<and> fst (readiness False 0 (committed (worker_turns (Some [str ''u'']) [] sample_config Terra [(quiet_network, False, Executed)] 1 s'))) = 503"
proof -
  let ?run = "poll_chain_progress corrupt_network (Some [str ''u'']) [] sample_config Terra (fresh_pool initial_db)"
  have zero: "parse_i64 (str ''0'') = Some 0"
    by code_simp
  have cursor: "indexed_height initial_db Terra = Inr 0"
    by (simp add: indexed_height_def get_state_def initial_db_def find_row_Cons cursor_key_def parse_cursor_def zero)
  have window: "ingest_window 0 1000 INGEST_CHUNK INGEST_STALE_GAP = Some \<lparr>iw_start = 1000, iw_end = 1000, iw_jumped_to_tip = True\<rparr>"
    by (simp add: ingest_window_def INGEST_CHUNK_def INGEST_STALE_GAP_def sat_add_def sat_i64_def i64_max_def i64_min_def)
  have ingest: "\<exists>s'. ingest_terra_height corrupt_network [str ''u''] sample_config 1000 (fresh_pool initial_db)
      = (Inl (Amount ''bad amount''), s')"
    by (simp add: ingest_terra_height_def thenA_def bindA_def begin_tx_def read_tx_def lift_def call_def in_txv_def
        ret_def corrupt_network_def quiet_network_def fresh_pool_def admit_contiguous_def initial_db_def
        verify_registration_baselines_def unverified_baselines_def persist_execution_def)
  have regs: "max_registered_height initial_db Terra = 0" "degraded_reason initial_db Terra = None"
    by (simp_all add: max_registered_height_def active_registrations_def initial_db_def degraded_reason_def)
  have fresh: "committed (fresh_pool d) = d" for d
    by (simp add: fresh_pool_def)
  have tip: "observed_tip corrupt_network Terra [str ''u''] (fresh_pool initial_db) = (Inr 1000, fresh_pool initial_db)"
    by (simp add: observed_tip_def read_cursor_def bindA_def read_pool_def lift_def fresh cursor call_def)
       (simp add: corrupt_network_def quiet_network_def fresh_pool_def)
  have "fst ?run = Inl (Amount ''bad amount'')"
    using ingest
    by (auto simp: poll_chain_progress_def bindA_def read_cursor_def read_pool_def lift_def fresh cursor regs
        chain_client_def thenA_def canonicality_def ret_def tip advance_def window)
  then obtain s1 where run: "?run = (Inl (Amount ''bad amount''), s1)"
    by (metis prod.collapse)
  obtain r s' where turn: "worker_turn corrupt_network (Some [str ''u'']) [] sample_config Terra False Executed 0 (fresh_pool initial_db) = (r, s')"
    by fastforce
  from accounting_failure_stops_chain [OF run _ turn, of "[(quiet_network, False, Executed)]" 1] run turn show ?thesis
    by (auto simp: Let_def)
qed

end
