(* ===== verification/Freeze.thy ===== *)
theory Freeze
  imports VotingProps Health
begin

text \<open>
  Opening a vote against the ledger: what \<open>freeze_proposal\<close> writes, and that under the ledger's
  invariant the frozen weight of a wallet is its verified baseline plus the net flow of the recorded
  transfers up to the frozen block.
\<close>

definition frozen_at :: "db \<Rightarrow> uuid \<Rightarrow> proposal_row \<Rightarrow> bool" where
  "frozen_at d pid p \<longleftrightarrow> pr_id p = pid \<and> frozen p \<and> pr_validity p = ValidSnapshot
     \<and> pr_terra_height p = Some (height_at d Terra) \<and> pr_bsc_block p = Some (height_at d Bsc)
     \<and> pr_terra_hash p = map_option cp_hash (checkpoints d Terra) \<and> pr_bsc_hash p = map_option cp_hash (checkpoints d Bsc)"

lemma freeze_facts:
  assumes inv: "ledger_inv d" and run: "freeze_proposal lib jsonb pid sid moment d = Inr ((th, bb), d')"
  shows "th = height_at d Terra \<and> bb = height_at d Bsc \<and> 0 < th \<and> 0 < bb \<and> (\<forall>c. certified d c)
     \<and> (\<exists>p. find_row pr_id pid (proposals d) = Some p \<and> pr_status p = Draft
          \<and> (\<exists>s\<in>set (signatures d). sg_id s = sid \<and> sg_purpose s = str ''open_vote'' \<and> sg_proposal s = Some pid
               \<and> sg_revision s = Some (pr_revision p)))
     \<and> (\<exists>p\<in>set (proposals d'). frozen_at d pid p)
     \<and> snapshots d' = snapshots d @ snapshots_for pid d
     \<and> (\<forall>r\<in>set (registrations d). is_active r \<longrightarrow> tracked (vr_wallet r) \<longrightarrow> vr_registered_at r \<le> height_at d (vr_chain r)
          \<longrightarrow> baseline_of r \<le> height_at d (vr_chain r) \<longrightarrow>
          (\<exists>w\<in>set (snapshots d'). sn_key w = (pid, vr_chain r, vr_wallet r)
             \<and> sn_weight w = stored_balance d (vr_chain r) r (baseline_of r)
                  + flow (transfers d (vr_chain r)) r (height_at d (vr_chain r))))"
proof -
  obtain p s where p: "find_row pr_id pid (proposals d) = Some p" and s: "find_row sg_id sid (signatures d) = Some s"
    and signed: "signed_revision lib jsonb pid s p = Inr ()" and ready: "freezable moment d"
    and heights: "th = height_at d Terra" "bb = height_at d Bsc"
    and d': "d' = d\<lparr>proposals := update_where (draft_with pid) (open_with d moment) (proposals d),
              snapshots := snapshots d @ snapshots_for pid d\<rparr>"
    using run unfolding freeze_proposal_solved by blast
  obtain t b where cps: "checkpoints d Terra = Some t" "checkpoints d Bsc = Some b"
    and ok: "freeze_ready moment 2 t" "freeze_ready moment 17 b"
    using ready by (auto simp: freezable_def)
  have certified: "certified d c" for c
    using cps ok by (cases c) (simp_all add: certified_def freeze_ready_def)
  have positive: "0 < th" "0 < bb"
    using cps ok by (simp_all add: heights height_at_def freeze_ready_def)
  have draft: "pr_status p = Draft" "sg_purpose s = str ''open_vote''" "sg_proposal s = Some pid" "sg_revision s = Some (pr_revision p)"
    using signed by (auto simp: signed_revision_def result_iff)
  have "p \<in> set (proposals d)" "pr_id p = pid" "s \<in> set (signatures d)" "sg_id s = sid"
    using find_row_SomeD [OF p] find_row_SomeD [OF s] by simp_all
  note rows = this
  have "open_with d moment p \<in> set (proposals d')"
    using rows(1,2) draft(1) by (force simp: d' update_where_def)
  moreover have "frozen_at d pid (open_with d moment p)"
    using rows(2) by (simp add: frozen_at_def open_with_def cps opened_def frozen_def height_at_def)
  ultimately have opened: "\<exists>p\<in>set (proposals d'). frozen_at d pid p"
    by blast
  have weights: "\<exists>w\<in>set (snapshots d'). sn_key w = (pid, vr_chain r, vr_wallet r)
             \<and> sn_weight w = stored_balance d (vr_chain r) r (baseline_of r)
                  + flow (transfers d (vr_chain r)) r (height_at d (vr_chain r))"
    if r: "r \<in> set (registrations d)" "is_active r" "tracked (vr_wallet r)"
      "vr_registered_at r \<le> height_at d (vr_chain r)" "baseline_of r \<le> height_at d (vr_chain r)" for r
  proof -
    let ?w = "snapshot_of pid (height_at d) d r"
    have "books_ok d (vr_chain r) (checkpoint_height d (vr_chain r))"
      using inv by (simp add: ledger_inv_def chain_ok_def)
    then have uniq: "unique_by reg_key (registrations d)" and rec: "reconciled d (vr_chain r) r"
      using r(1-3) by (simp_all add: books_ok_def)
    have "sn_weight ?w = stored_balance d (vr_chain r) r (height_at d (vr_chain r))"
      using sql_balance_at_reg [OF uniq r(1) refl r(3)] r(4) by (simp add: snapshot_of_def)
    then have "sn_weight ?w = stored_balance d (vr_chain r) r (baseline_of r)
        + flow (transfers d (vr_chain r)) r (height_at d (vr_chain r))"
      by (rule trans) (rule rec [unfolded reconciled_def, rule_format, OF r(5)])
    moreover have "?w \<in> set (snapshots d')" "sn_key ?w = (pid, vr_chain r, vr_wallet r)"
      using r(1,2) by (simp_all add: d' snapshots_for_def snapshot_of_def sn_key_def)
    ultimately show ?thesis by blast
  qed
  have drafted: "\<exists>p. find_row pr_id pid (proposals d) = Some p \<and> pr_status p = Draft
          \<and> (\<exists>s\<in>set (signatures d). sg_id s = sid \<and> sg_purpose s = str ''open_vote'' \<and> sg_proposal s = Some pid
               \<and> sg_revision s = Some (pr_revision p))"
    using p draft rows(3,4) by blast
  have snaps: "snapshots d' = snapshots d @ snapshots_for pid d"
    by (simp add: d')
  show ?thesis
    by (intro conjI allI ballI impI heights positive certified drafted opened snaps weights)
qed

text \<open>
  C3. A vote that opens was a draft with a matching open-vote signature; it is frozen at the heights and
  hashes of two certified checkpoints, and each active tracked wallet gets as weight its verified
  baseline plus the net flow of the recorded transfers up to the frozen block of its chain.
\<close>

theorem freeze_proposal_reconciled:
  assumes "ledger_inv d" and "freeze_proposal lib jsonb pid sid moment d = Inr ((th, bb), d')"
  shows "th = height_at d Terra \<and> bb = height_at d Bsc \<and> 0 < th \<and> 0 < bb \<and> (\<forall>c. certified d c)
     \<and> (\<exists>p. find_row pr_id pid (proposals d) = Some p \<and> pr_status p = Draft
          \<and> (\<exists>s\<in>set (signatures d). sg_id s = sid \<and> sg_purpose s = str ''open_vote'' \<and> sg_proposal s = Some pid
               \<and> sg_revision s = Some (pr_revision p)))
     \<and> (\<exists>p\<in>set (proposals d'). frozen_at d pid p)
     \<and> snapshots d' = snapshots d @ snapshots_for pid d
     \<and> (\<forall>r\<in>set (registrations d). is_active r \<longrightarrow> tracked (vr_wallet r) \<longrightarrow> vr_registered_at r \<le> height_at d (vr_chain r)
          \<longrightarrow> baseline_of r \<le> height_at d (vr_chain r) \<longrightarrow>
          (\<exists>w\<in>set (snapshots d'). sn_key w = (pid, vr_chain r, vr_wallet r)
             \<and> sn_weight w = stored_balance d (vr_chain r) r (baseline_of r)
                  + flow (transfers d (vr_chain r)) r (height_at d (vr_chain r))))"
  by (rule freeze_facts [OF assms])

definition draft_row :: proposal_row where
  "draft_row = open_row\<lparr>pr_status := Draft, pr_terra_height := None, pr_bsc_block := None, pr_opened_at := None,
     pr_terra_hash := None, pr_bsc_hash := None, pr_terra_epoch := None, pr_bsc_epoch := None\<rparr>"

definition opening_signature :: signature_row where
  "opening_signature = \<lparr>sg_id = 1, sg_chain = Bsc, sg_wallet = str ''0xab'', sg_pubkey = None, sg_signature = [],
       sg_payload_hash = [], sg_purpose = str ''open_vote'', sg_created_at = 0, sg_signed_payload = Some (str ''open''), sg_scheme = None,
       sg_domain = None, sg_nonce = None, sg_proposal = Some 7, sg_revision = Some 1\<rparr>"

definition opening_payload :: "ustring \<Rightarrow> json option" where
  "opening_payload _ = Some (JObj [(str ''revision'', JNum 1), (str ''title'', JStr (str ''t'')), (str ''body_hash'', JStr [])])"

definition opening_db :: db where
  "opening_db = ready_db\<lparr>registrations := [sample_holder\<lparr>vr_baseline_hash := Some (str ''h'')\<rparr>],
     proposals := [draft_row], signatures := [opening_signature]\<rparr>"

theorem freeze_proposal_reconciled_witness:
  "\<exists>d'. freeze_proposal sample_texts opening_payload 7 1 0 opening_db = Inr ((1000, 1000), d')
     \<and> map sn_weight (snapshots d') = [5] \<and> (\<exists>p\<in>set (proposals d'). frozen_at opening_db 7 p)"
proof -
  have inv: "ledger_inv opening_db"
  proof -
    have "parse_i64 (str ''0'') = Some 0"
      by code_simp
    then have "indexed_height opening_db c = Inr 0" for c
      by (cases c) (simp_all add: indexed_height_def get_state_def initial_db_def ready_db_def opening_db_def find_row_Cons
          cursor_key_def parse_cursor_def)
    moreover have "0 \<le> B \<Longrightarrow> books_ok opening_db c B" for c B
      by (simp add: books_ok_def opening_db_def ready_db_def initial_db_def unique_by_def sample_holder_def reconciled_def
          stored_balance_def flow_def i64_max_def)
    moreover have "0 \<le> checkpoint_height opening_db c" and "history_ok opening_db c" for c
      by (simp_all add: checkpoint_height_def history_ok_def opening_db_def ready_db_def initial_db_def unique_by_def)
    ultimately show ?thesis
      by (auto simp: ledger_inv_def chain_ok_def)
  qed
  have "case freeze_proposal sample_texts opening_payload 7 1 0 opening_db of
      Inr (hs, d') \<Rightarrow> hs = (1000, 1000) \<and> map sn_weight (snapshots d') = [5] | Inl _ \<Rightarrow> False"
    by code_simp
  then obtain d' where run: "freeze_proposal sample_texts opening_payload 7 1 0 opening_db = Inr ((1000, 1000), d')"
    and "map sn_weight (snapshots d') = [5]"
    by (auto split: sum.splits)
  moreover from freeze_proposal_reconciled [OF inv run] have "\<exists>p\<in>set (proposals d'). frozen_at opening_db 7 p"
    by (elim conjE)
  ultimately show ?thesis
    by (intro exI [of _ d'] conjI)
qed

end
