(* ===== verification/Rpc.thy ===== *)
theory Rpc
  imports Health Json
begin

text \<open>
  The network side of the chain clients: actions that only see the outside world, provider
  failover, and JSON access as \<open>serde_json::Value\<close> has it. An HTTP exchange with its bounded
  decoding (\<open>transport.rs\<close>) is the parameter \<open>rpc_post\<close> or \<open>http_get\<close> of the
  environment: it may answer anything, at any time.
\<close>

named_theorems yields_rules \<open>rules for the values an action can yield\<close>

section \<open>Network actions\<close>

definition retN :: "'a \<Rightarrow> ('w, 'a) net" where "retN x w = (Inr x, w)"
definition failN :: "ledger_error \<Rightarrow> ('w, 'a) net" where "failN e w = (Inl e, w)"
definition liftN :: "'a ledger_result \<Rightarrow> ('w, 'a) net" where "liftN r w = (r, w)"

definition bindN :: "('w, 'a) net \<Rightarrow> ('a \<Rightarrow> ('w, 'b) net) \<Rightarrow> ('w, 'b) net" where
  "bindN m f w = (case m w of (Inl e, w') \<Rightarrow> (Inl e, w') | (Inr x, w') \<Rightarrow> f x w')"

definition thenN :: "('w, 'a) net \<Rightarrow> ('w, 'b) net \<Rightarrow> ('w, 'b) net" where
  "thenN m n = bindN m (\<lambda>_. n)"

text \<open>Run an action and keep its outcome as a value (the parts of a \<open>join!\<close>).\<close>

definition attemptN :: "('w, 'a) net \<Rightarrow> ('w, 'a ledger_result) net" where
  "attemptN m w = (case m w of (r, w') \<Rightarrow> (Inr r, w'))"

fun mapN :: "('x \<Rightarrow> ('w, 'a) net) \<Rightarrow> 'x list \<Rightarrow> ('w, 'a list) net" where
  "mapN f [] = retN []"
| "mapN f (x # xs) = bindN (f x) (\<lambda>y. bindN (mapN f xs) (\<lambda>ys. retN (y # ys)))"

text \<open>The providers in order; the last error if none succeeds.\<close>

fun first_of :: "('u \<Rightarrow> ('w, 'a) net) \<Rightarrow> ledger_error \<Rightarrow> 'u list \<Rightarrow> ('w, 'a) net" where
  "first_of f last_error [] = failN last_error"
| "first_of f last_error (u # us) =
     (\<lambda>w. case f u w of (Inr x, w') \<Rightarrow> (Inr x, w') | (Inl e, w') \<Rightarrow> first_of f e us w')"

text \<open>
  Batches of at most \<open>n\<close> requests: every request of a batch is made, then the first error of the
  batch, if any, ends the run before the next batch.
\<close>

fun chunks :: "nat \<Rightarrow> 'a list \<Rightarrow> 'a list list" where
  "chunks n [] = []"
| "chunks n (x # xs) = (x # take (n - 1) xs) # chunks n (drop (n - 1) xs)"

definition join_batch :: "('x \<Rightarrow> ('w, 'a) net) \<Rightarrow> 'x list \<Rightarrow> ('w, 'a list) net" where
  "join_batch f batch = bindN (mapN (\<lambda>x. attemptN (f x)) batch) (\<lambda>rs. liftN (mapR id rs))"

definition join_batches :: "nat \<Rightarrow> ('x \<Rightarrow> ('w, 'a) net) \<Rightarrow> 'x list \<Rightarrow> ('w, 'a list) net" where
  "join_batches n f xs = bindN (mapN (join_batch f) (chunks n xs)) (\<lambda>bs. retN (concat bs))"

definition yields :: "('w, 'a) net \<Rightarrow> ('a \<Rightarrow> bool) \<Rightarrow> bool" where
  "yields m Q \<longleftrightarrow> (\<forall>w x w'. m w = (Inr x, w') \<longrightarrow> Q x)"

lemma yieldsD: "yields m Q \<Longrightarrow> m w = (Inr x, w') \<Longrightarrow> Q x"
  unfolding yields_def by blast

lemma yieldsI: "(\<And>w x w'. m w = (Inr x, w') \<Longrightarrow> Q x) \<Longrightarrow> yields m Q"
  unfolding yields_def by blast

lemma yields_bind: "yields m P \<Longrightarrow> (\<And>x. P x \<Longrightarrow> yields (f x) Q) \<Longrightarrow> yields (bindN m f) Q"
proof (rule yieldsI)
  fix w x w'
  assume m: "yields m P" and f: "\<And>x. P x \<Longrightarrow> yields (f x) Q" and run: "bindN m f w = (Inr x, w')"
  then obtain y w1 where y: "m w = (Inr y, w1)" "f y w1 = (Inr x, w')"
    by (auto simp: bindN_def split: prod.splits sum.splits)
  show "Q x"
    by (rule yieldsD [OF f [OF yieldsD [OF m y(1)]] y(2)])
qed

lemma yields_any [yields_rules]: "yields m (\<lambda>_. True)"
  by (simp add: yields_def)

lemma yields_then: "yields n Q \<Longrightarrow> yields (thenN m n) Q"
  unfolding thenN_def by (rule yields_bind [OF yields_any])

lemma yields_bind_any: "(\<And>x. yields (f x) Q) \<Longrightarrow> yields (bindN m f) Q"
  by (rule yields_bind [OF yields_any])

lemma yields_ret: "Q x \<Longrightarrow> yields (retN x) Q"
  by (simp add: yields_def retN_def)

lemma yields_fail [yields_rules]: "yields (failN e) Q"
  by (simp add: yields_def failN_def)

lemma yields_lift: "(\<And>x. r = Inr x \<Longrightarrow> Q x) \<Longrightarrow> yields (liftN r) Q"
  by (simp add: yields_def liftN_def)

lemma yields_if: "(b \<Longrightarrow> yields m Q) \<Longrightarrow> (\<not> b \<Longrightarrow> yields n Q) \<Longrightarrow> yields (if b then m else n) Q"
  by simp

lemma yields_attempt: "yields m Q \<Longrightarrow> yields (attemptN m) (\<lambda>r. \<forall>x. r = Inr x \<longrightarrow> Q x)"
  by (auto simp: yields_def attemptN_def split: prod.splits)

lemma yields_weaken: "yields m P \<Longrightarrow> (\<And>x. P x \<Longrightarrow> Q x) \<Longrightarrow> yields m Q"
  unfolding yields_def by blast

lemma yields_map: "(\<And>x. x \<in> set xs \<Longrightarrow> yields (f x) (P x)) \<Longrightarrow> yields (mapN f xs) (list_all2 P xs)"
proof (induction xs)
  case (Cons x xs)
  have "yields (f x) (P x)" and "yields (mapN f xs) (list_all2 P xs)"
    using Cons by auto
  then show ?case
    by (auto intro!: yields_bind yields_ret)
qed (simp add: yields_ret)

lemma concat_chunks [simp]: "concat (chunks n xs) = xs"
  by (induction n xs rule: chunks.induct) simp_all

lemma chunks_set: "b \<in> set (chunks n xs) \<Longrightarrow> x \<in> set b \<Longrightarrow> x \<in> set xs"
  by (subst concat_chunks [symmetric, of _ n]) (auto simp del: concat_chunks)

lemma mapR_id_list_all2:
  "list_all2 (\<lambda>x r. \<forall>y. r = Inr y \<longrightarrow> P x y) xs rs \<Longrightarrow> mapR id rs = Inr ys \<Longrightarrow> list_all2 P xs ys"
  by (induction xs rs arbitrary: ys rule: list_all2_induct) (auto simp: result_iff)

lemma yields_join_batch:
  assumes "\<And>x. x \<in> set xs \<Longrightarrow> yields (f x) (P x)"
  shows "yields (join_batch f xs) (list_all2 P xs)"
  unfolding join_batch_def
proof (rule yields_bind)
  show "yields (mapN (\<lambda>x. attemptN (f x)) xs) (list_all2 (\<lambda>x r. \<forall>y. r = Inr y \<longrightarrow> P x y) xs)"
    by (rule yields_map, rule yields_attempt, rule assms)
qed (rule yields_lift, rule mapR_id_list_all2)

lemma list_all2_concat: "list_all2 (list_all2 P) xss yss \<Longrightarrow> list_all2 P (concat xss) (concat yss)"
  by (induction rule: list_all2_induct) (simp_all add: list_all2_appendI)

lemma yields_join_batches:
  assumes "\<And>x. x \<in> set xs \<Longrightarrow> yields (f x) (P x)"
  shows "yields (join_batches n f xs) (list_all2 P xs)"
proof -
  have batch: "yields (join_batch f b) (list_all2 P b)" if "b \<in> set (chunks n xs)" for b
    by (rule yields_join_batch, rule assms, rule chunks_set [OF that])
  have "yields (mapN (join_batch f) (chunks n xs)) (list_all2 (list_all2 P) (chunks n xs))"
    by (rule yields_map, rule batch)
  then show ?thesis
    unfolding join_batches_def
    by (rule yields_bind) (rule yields_ret, use list_all2_concat in fastforce)
qed

lemma yields_first: "(\<And>u. u \<in> set us \<Longrightarrow> yields (f u) Q) \<Longrightarrow> yields (first_of f e us) Q"
proof (induction us arbitrary: e)
  case (Cons u us)
  have one: "yields (f u) Q" and rest: "yields (first_of f e' us) Q" for e'
    using Cons by auto
  show ?case
  proof (rule yieldsI)
    fix w x w'
    assume "first_of f e (u # us) w = (Inr x, w')"
    then show "Q x"
      using yieldsD [OF one] yieldsD [OF rest] by (auto split: prod.splits sum.splits)
  qed
qed (simp add: yields_fail)

lemma net_eval [simp]:
  "bindN (retN x) f = f x" "bindN (failN e) f = failN e" "thenN (retN x) n = n" "thenN (failN e) n = failN e"
  "liftN (Inr x) = retN x" "liftN (Inl e) = failN e" "attemptN (retN x) = retN (Inr x)" "attemptN (failN e) = retN (Inl e)"
  by (auto simp: fun_eq_iff bindN_def thenN_def retN_def failN_def liftN_def attemptN_def)

section \<open>Hexadecimal quantities\<close>

fun hex_nat :: "nat \<Rightarrow> ustring" where
  "hex_nat n = (let d = (if n mod 16 < 10 then 48 + n mod 16 else 87 + n mod 16) in
     if n < 16 then [d] else hex_nat (n div 16) @ [d])"

declare hex_nat.simps [simp del]

text \<open>\<open>format!("0x{h:x}")\<close>: a negative \<open>i64\<close> prints its two's complement.\<close>

definition hex_i64 :: "int \<Rightarrow> ustring" where
  "hex_i64 h = str ''0x'' @ hex_nat (nat (h mod 2 ^ 64))"

definition quantity :: "json \<Rightarrow> string \<Rightarrow> int ledger_result" where
  "quantity v label =
     (case Option.bind (as_str v) (strip_prefix (str ''0x'')) of
        None \<Rightarrow> Inl (Provider label)
      | Some s \<Rightarrow>
          if s = [] \<or> \<not> list_all is_hexdigit s then Inl (Provider label)
          else (case checked_i64 (int (hex_digits_val s)) of
                  None \<Rightarrow> Inl (Provider label)
                | Some n \<Rightarrow> Inr n))"

definition hex_hash :: "json option \<Rightarrow> string \<Rightarrow> ustring ledger_result" where
  "hex_hash v label =
     (case Option.bind v as_str of
        None \<Rightarrow> Inl (Provider label)
      | Some s \<Rightarrow>
          (if str_len s = 66 \<and> (case strip_prefix (str ''0x'') s of None \<Rightarrow> False | Some x \<Rightarrow> list_all is_hexdigit x)
           then Inr (lower s) else Inl (Provider label)))"

lemma quantity_range: "quantity v label = Inr n \<Longrightarrow> 0 \<le> n \<and> n \<le> i64_max"
  by (auto simp: quantity_def checked_i64_def in_i64_def split: option.splits if_splits)

lemma hex_hash_form:
  "hex_hash v label = Inr h \<Longrightarrow> str_len h = 66 \<and> lower h = h
     \<and> (\<exists>x. h = str ''0x'' @ x \<and> list_all is_hexdigit x)"
proof -
  assume "hex_hash v label = Inr h"
  then obtain s x where s: "h = lower s" "str_len s = 66" "s = str ''0x'' @ x" "list_all is_hexdigit x"
    by (auto simp: hex_hash_def strip_prefix_Some split: option.splits if_splits)
  have "lower s = str ''0x'' @ lower x"
    by (simp add: s(3) str_def lower_char_def)
  moreover have "list_all is_hexdigit (lower x)"
    using s(4) by (simp add: list_all_iff lower_def)
  moreover have "str_len (lower s) = str_len s"
    by (induction s) (auto simp: utf8_len_def lower_char_def)
  moreover have "lower (lower s) = lower s"
    by simp
  ultimately show ?thesis
    using s(1,2) by metis
qed

lemma hex_nat_digits: "list_all is_hexdigit (hex_nat n) \<and> hex_nat n \<noteq> []"
proof (induction n rule: hex_nat.induct)
  case (1 n)
  then show ?case
    by (subst (1 2) hex_nat.simps) (cases "n mod 16 < 10"; auto simp: Let_def, auto simp: is_hexdigit_def is_digit_def)
qed

lemma hex_digits_val_hex_nat [simp]: "hex_digits_val (hex_nat n) = n"
proof (induction n rule: hex_nat.induct)
  case (1 n)
  then show ?case
    by (subst hex_nat.simps) (auto simp: Let_def hex_val_def hex_digits_val_def [of "[_]"])
qed

lemma quantity_hex:
  assumes "0 \<le> h" and "h \<le> i64_max"
  shows "quantity (JStr (hex_i64 h)) label = Inr h"
proof -
  have "h mod 2 ^ 64 = h"
    using assms by (intro mod_pos_pos_trivial) (auto simp: i64_max_def)
  then show ?thesis
    using assms hex_nat_digits [of "nat h"]
    by (simp add: quantity_def hex_i64_def checked_i64_def in_i64_def i64_min_def)
qed

text \<open>
  A block height sent to a provider as a quantity is read back as the same height, so the number
  a block carries can be compared with the height that was asked for.
\<close>

theorem quantity_hex_i64:
  assumes "0 \<le> h" and "h \<le> i64_max"
  shows "quantity (JStr (hex_i64 h)) label = Inr h"
  using assms by (rule quantity_hex)

theorem quantity_hex_i64_witness: "quantity (JStr (hex_i64 30162104)) ''x'' = Inr 30162104"
  by (rule quantity_hex_i64) (simp_all add: i64_max_def)

end
