(* ===== verification/BscClient.thy ===== *)
theory BscClient
  imports Rpc "HOL-Library.Product_Lexorder"
begin

text \<open>
  The BSC JSON-RPC client (\<open>ledger/src/bsc.rs\<close>) over one HTTP exchange \<open>rpc_post\<close>: the
  envelope, the validation of every answer, failover between providers, and the observation of a
  block range with its bisecting log query. The theorems show what a range that is handed to the
  ingest guarantees, and that bisection loses no log. Requests the program runs concurrently are
  issued one after the other.
\<close>

section \<open>One request\<close>

record 'w rpc_env =
  rpc_post :: "ustring \<Rightarrow> json \<Rightarrow> ('w, json) net"
  rpc_now :: "'w \<Rightarrow> int"

definition rpc_request :: "string \<Rightarrow> json \<Rightarrow> json" where
  "rpc_request meth params = JObj [(str ''jsonrpc'', JStr (str ''2.0'')), (str ''id'', JNum 1),
     (str ''method'', JStr (str meth)), (str ''params'', params)]"

definition rpc_error_class :: "json \<Rightarrow> string" where
  "rpc_error_class error =
     (case Option.bind (jget error ''code'') as_i64 of
        Some n \<Rightarrow> if n = -32005 then ''rpc_limit''
                  else if n = -32601 then ''rpc_method_unavailable''
                  else if n = -32602 then ''rpc_parameters_or_range''
                  else if n = -32603 then ''rpc_internal_error'' else ''rpc_error''
      | None \<Rightarrow> ''rpc_error'')"

definition rpc_result :: "json \<Rightarrow> json ledger_result" where
  "rpc_result envelope =
     (if jget_str envelope ''jsonrpc'' \<noteq> Some (str ''2.0'') \<or> jget envelope ''id'' \<noteq> Some (JNum 1)
      then Inl (Provider ''rpc_invalid_envelope'')
      else (case jget envelope ''error'' of
              Some error \<Rightarrow> Inl (Provider (rpc_error_class error))
            | None \<Rightarrow>
                (case jget envelope ''result'' of
                   Some v \<Rightarrow> if v = JNull then Inl (Provider ''rpc_missing_result'') else Inr v
                 | None \<Rightarrow> Inl (Provider ''rpc_missing_result''))))"

definition rpc_at :: "'w rpc_env \<Rightarrow> ustring \<Rightarrow> string \<Rightarrow> json \<Rightarrow> ('w, json) net" where
  "rpc_at env url meth params = bindN (rpc_post env url (rpc_request meth params)) (\<lambda>e. liftN (rpc_result e))"

text \<open>The parameters of a block request and of a log request.\<close>

definition block_params :: "int \<Rightarrow> json" where
  "block_params height = JArr [JStr (hex_i64 height), JBool False]"

definition log_params :: "ustring \<Rightarrow> int \<Rightarrow> int \<Rightarrow> json" where
  "log_params token lo hi = JArr [JObj [(str ''address'', JStr token), (str ''fromBlock'', JStr (hex_i64 lo)),
     (str ''toBlock'', JStr (hex_i64 hi)), (str ''topics'', JArr [JStr TRANSFER_TOPIC])]]"

section \<open>Validation of answers\<close>

definition field_quantity :: "json \<Rightarrow> string \<Rightarrow> string \<Rightarrow> string \<Rightarrow> int ledger_result" where
  "field_quantity v key missing label = bindR (ok_or (Provider missing) (jget v key)) (\<lambda>x. quantity x label)"

text \<open>The topics, once each is a hash.\<close>

definition log_topics :: "json \<Rightarrow> ustring list ledger_result" where
  "log_topics v =
     bindR (ok_or (Provider ''missing_topics'') (Option.bind (jget v ''topics'') as_array)) (\<lambda>ts.
     mapR (\<lambda>t. hex_hash (Some t) ''invalid_topic'') ts)"

definition parse_rpc_log :: "json \<Rightarrow> bep20_log ledger_result" where
  "parse_rpc_log v =
     (if Option.bind (jget v ''removed'') as_bool \<noteq> Some False
      then Inl (Provider ''removed_or_missing_log_status'')
      else bindR (log_topics v) (\<lambda>topics.
      if length topics \<noteq> 3 \<or> topics ! 0 \<noteq> TRANSFER_TOPIC then Inl (Provider ''invalid_transfer_topics'')
      else if list_ex (\<lambda>t. \<not> list_all (\<lambda>b. b = 48) (take 24 (drop 2 t))) (tl topics)
      then Inl (Provider ''invalid_address_topic'')
      else bindR (hex_hash (jget v ''data'') ''invalid_log_uint256'') (\<lambda>data.
      bindR (ok_or (Provider ''missing_emitter'') (jget_str v ''address'')) (\<lambda>address.
      bindR (field_quantity v ''blockNumber'' ''missing_log_block'' ''invalid_log_block'') (\<lambda>block_number.
      bindR (field_quantity v ''logIndex'' ''missing_log_index'' ''invalid_log_index'') (\<lambda>index.
      if block_number \<le> 0 \<or> index > 2147483647 then Inl (Provider ''invalid_log_identity'')
      else bindR (normalize_evm_addr address) (\<lambda>emitter.
      bindR (hex_hash (jget v ''transactionHash'') ''invalid_tx_hash'') (\<lambda>tx_hash.
      Inr \<lparr>lg_address = emitter, lg_topics = topics, lg_data = data, lg_block_number = block_number,
           lg_transaction_hash = tx_hash, lg_log_index = index\<rparr>))))))))"

text \<open>The check of one log against the filter it was asked with.\<close>

definition validate_log :: "json \<Rightarrow> json \<Rightarrow> unit ledger_result" where
  "validate_log params log =
     bindR (parse_rpc_log log) (\<lambda>parsed.
     bindR (hex_hash (jget log ''blockHash'') ''invalid_log_block_hash'') (\<lambda>_.
     bindR (ok_or (Provider ''missing_log_filter'')
              (case as_array params of Some (f # _) \<Rightarrow> Some f | _ \<Rightarrow> None)) (\<lambda>filt.
     bindR (ok_or (Provider ''missing_log_filter'') (jget_str filt ''address'')) (\<lambda>emitter.
     bindR (field_quantity filt ''fromBlock'' ''missing_log_filter'' ''invalid_log_filter'') (\<lambda>lo.
     bindR (field_quantity filt ''toBlock'' ''missing_log_filter'' ''invalid_log_filter'') (\<lambda>hi.
     bindR (normalize_evm_addr emitter) (\<lambda>token.
     if lg_address parsed \<noteq> token \<or> lg_block_number parsed < lo \<or> lg_block_number parsed > hi
     then Inl (Provider ''wrong_token_or_log_range'') else Inr ())))))))"

definition validate_rpc_result :: "string \<Rightarrow> json \<Rightarrow> json \<Rightarrow> unit ledger_result" where
  "validate_rpc_result meth v params =
     (if meth = ''eth_blockNumber''
      then bindR (quantity v ''invalid_block_number'') (\<lambda>n.
           if n \<le> 0 then Inl (Provider ''invalid_block_number'') else Inr ())
      else if meth = ''eth_getBlockByNumber''
      then bindR (hex_hash (jget v ''hash'') ''invalid_block_hash'') (\<lambda>_.
           bindR (field_quantity v ''number'' ''missing_block_number'' ''invalid_block_number'') (\<lambda>_. Inr ()))
      else if meth = ''eth_call'' then bindR (hex_hash (Some v) ''balance_uint256_width'') (\<lambda>_. Inr ())
      else if meth = ''eth_getLogs''
      then bindR (ok_or (Provider ''logs_schema'') (as_array v)) (\<lambda>logs.
           foldR (\<lambda>log _. validate_log params log) logs ())
      else Inr ())"

section \<open>Blocks and heads\<close>

definition check_network_at :: "'w rpc_env \<Rightarrow> ustring \<Rightarrow> ('w, unit) net" where
  "check_network_at env url =
     bindN (rpc_at env url ''eth_chainId'' (JArr [])) (\<lambda>v.
     if as_str v \<noteq> Some (str ''0x38'') then failN (Provider ''wrong_bsc_network'') else retN ())"

definition block_number_of :: "json \<Rightarrow> int ledger_result" where
  "block_number_of block = field_quantity block ''number'' ''missing_block_number'' ''invalid_block_number''"

definition head_at :: "'w rpc_env \<Rightarrow> ustring \<Rightarrow> int \<Rightarrow> ('w, int) net" where
  "head_at env url minimum =
     bindN (bindN (rpc_at env url ''eth_blockNumber'' (JArr [])) (\<lambda>v. liftN (quantity v ''invalid_block_number'')))
       (\<lambda>height.
     bindN (rpc_at env url ''eth_getBlockByNumber'' (block_params height)) (\<lambda>block.
     bindN (liftN (block_number_of block)) (\<lambda>number.
     if number \<noteq> height then failN (Provider ''wrong_head_block'')
     else thenN (liftN (hex_hash (jget block ''hash'') ''invalid_block_hash''))
    (bindN (liftN (field_quantity block ''timestamp'' ''missing_block_time'' ''invalid_block_time'')) (\<lambda>timestamp.
     thenN (\<lambda>w. liftN (validate_head_time (rpc_now env w) timestamp) w)
       (if height < minimum then failN (Provider ''provider_head_regressed'') else retN height))))))"

text \<open>The hash of the block of that number in an answer.\<close>

definition block_hash_of :: "int \<Rightarrow> json \<Rightarrow> ustring ledger_result" where
  "block_hash_of height block =
     bindR (block_number_of block) (\<lambda>number.
     if number \<noteq> height then Inl (Provider ''wrong_block_number'')
     else hex_hash (jget block ''hash'') ''invalid_block_hash'')"

definition block_hash_at :: "'w rpc_env \<Rightarrow> ustring \<Rightarrow> int \<Rightarrow> ('w, ustring) net" where
  "block_hash_at env url height =
     bindN (rpc_at env url ''eth_getBlockByNumber'' (block_params height)) (\<lambda>block. liftN (block_hash_of height block))"

fun log_hashes_loop :: "'w rpc_env \<Rightarrow> ustring \<Rightarrow> (int \<times> ustring) list \<Rightarrow> json list \<Rightarrow> ('w, unit) net" where
  "log_hashes_loop env url hashes [] = retN ()"
| "log_hashes_loop env url hashes (log # logs) =
     bindN (liftN (field_quantity log ''blockNumber'' ''missing_log_block'' ''invalid_log_block'')) (\<lambda>height.
     bindN (case map_of hashes height of Some h \<Rightarrow> retN h | None \<Rightarrow> block_hash_at env url height) (\<lambda>actual.
     bindN (liftN (hex_hash (jget log ''blockHash'') ''invalid_log_block_hash'')) (\<lambda>h.
     if actual \<noteq> h then failN (Provider ''noncanonical_log'')
     else log_hashes_loop env url ((height, actual) # hashes) logs)))"

definition validate_log_hashes_at :: "'w rpc_env \<Rightarrow> ustring \<Rightarrow> json \<Rightarrow> ('w, unit) net" where
  "validate_log_hashes_at env url logs =
     bindN (liftN (ok_or (Provider ''logs_schema'') (as_array logs))) (log_hashes_loop env url [])"

section \<open>Failover\<close>

definition rpc_call :: "'w rpc_env \<Rightarrow> urls \<Rightarrow> string \<Rightarrow> json \<Rightarrow> ('w, json) net" where
  "rpc_call env urls meth params =
     first_of (\<lambda>url.
       thenN (check_network_at env url)
      (bindN (rpc_at env url meth params) (\<lambda>v.
       thenN (liftN (validate_rpc_result meth v params))
      (thenN (if meth = ''eth_getLogs'' then validate_log_hashes_at env url v else retN ())
             (retN v))))) (Provider ''no_bsc_provider'') urls"

definition block_number_at_least :: "'w rpc_env \<Rightarrow> urls \<Rightarrow> int \<Rightarrow> ('w, int) net" where
  "block_number_at_least env urls minimum =
     first_of (\<lambda>url. thenN (check_network_at env url) (head_at env url minimum)) (Provider ''no_bsc_provider'') urls"

definition block_number :: "'w rpc_env \<Rightarrow> urls \<Rightarrow> ('w, int) net" where
  "block_number env urls = block_number_at_least env urls 0"

definition block_hash :: "'w rpc_env \<Rightarrow> urls \<Rightarrow> int \<Rightarrow> ('w, ustring) net" where
  "block_hash env urls height =
     bindN (rpc_call env urls ''eth_getBlockByNumber'' (block_params height)) (\<lambda>v. liftN (block_hash_of height v))"

definition finish_range :: "'w rpc_env \<Rightarrow> urls \<Rightarrow> int \<Rightarrow> ustring \<Rightarrow> ('w, int) net" where
  "finish_range env urls height expected_hash =
     (case urls of
        [url] \<Rightarrow>
          thenN (check_network_at env url)
         (bindN (head_at env url (sat_add height BSC_FINALITY_DEPTH)) (\<lambda>tip.
          bindN (block_hash_at env url height) (\<lambda>end_hash.
          if end_hash \<noteq> expected_hash then failN (Provider ''bsc_changed_during_ingest'') else retN tip)))
      | _ \<Rightarrow> failN (Provider ''unpinned_bsc_observation''))"

text \<open>\<open>block_hashes_at\<close>: eight requests at a time; the answers are sorted by height.\<close>

definition block_hashes_at :: "'w rpc_env \<Rightarrow> ustring \<Rightarrow> int list \<Rightarrow> ('w, (int \<times> ustring) list) net" where
  "block_hashes_at env url heights =
     bindN (join_batches 8 (\<lambda>h. bindN (block_hash_at env url h) (\<lambda>x. retN (h, x))) heights) (\<lambda>out. retN (sort_key fst out))"

section \<open>Balances\<close>

definition pad64 :: "ustring \<Rightarrow> ustring" where
  "pad64 s = replicate (64 - length s) 48 @ s"

definition balance_at_tag :: "'w rpc_env \<Rightarrow> urls \<Rightarrow> ustring \<Rightarrow> ustring \<Rightarrow> ustring \<Rightarrow> ('w, int) net" where
  "balance_at_tag env urls token wallet tag =
     bindN (liftN (normalize_evm_addr token)) (\<lambda>token.
     bindN (liftN (normalize_evm_addr wallet)) (\<lambda>wallet.
     bindN (rpc_call env urls ''eth_call''
              (JArr [JObj [(str ''to'', JStr token), (str ''data'', JStr (str ''0x70a08231'' @ pad64 (trim_0x wallet)))],
                     JStr tag])) (\<lambda>v.
     bindN (liftN (ok_or (Provider ''balance_schema'') (as_str v))) (\<lambda>raw.
     if str_len raw \<noteq> 66 then failN (Provider ''balance_uint256_width'')
     else liftN (parse_hex_uint256 raw)))))"

definition balance_of :: "'w rpc_env \<Rightarrow> urls \<Rightarrow> ustring \<Rightarrow> ustring \<Rightarrow> ('w, int) net" where
  "balance_of env urls token wallet = balance_at_tag env urls token wallet (str ''latest'')"

definition pinned_snapshot :: "'w rpc_env \<Rightarrow> ustring \<Rightarrow> ustring \<Rightarrow> ustring \<Rightarrow> ('w, live_balance) net" where
  "pinned_snapshot env token wallet url =
     bindN (block_number env [url]) (\<lambda>h.
     bindN (block_hash env [url] h) (\<lambda>before.
     bindN (balance_at_tag env [url] token wallet (hex_i64 h)) (\<lambda>amount.
     bindN (block_hash env [url] h) (\<lambda>after.
     if after \<noteq> before then failN (Provider ''moving_live_snapshot'')
     else retN \<lparr>lb_height = h, lb_amount = amount, lb_block_hash = before\<rparr>))))"

text \<open>Any error of the last provider is reported as one label.\<close>

definition or_label :: "string \<Rightarrow> ('w, 'a) net \<Rightarrow> ('w, 'a) net" where
  "or_label label m w = (case m w of (Inl _, w') \<Rightarrow> (Inl (Provider label), w') | (Inr x, w') \<Rightarrow> (Inr x, w'))"

definition live_snapshot :: "'w rpc_env \<Rightarrow> urls \<Rightarrow> ustring \<Rightarrow> ustring \<Rightarrow> ('w, live_balance) net" where
  "live_snapshot env urls token wallet =
     or_label ''incoherent_live_snapshot''
       (first_of (pinned_snapshot env token wallet) (Provider ''incoherent_live_snapshot'') urls)"

definition pinned_balances :: "'w rpc_env \<Rightarrow> ustring \<Rightarrow> ustring list \<Rightarrow> ustring \<Rightarrow> ('w, live_balances) net" where
  "pinned_balances env token wallets url =
     bindN (block_number env [url]) (\<lambda>height.
     bindN (block_hash env [url] height) (\<lambda>before.
     bindN (join_batches 8 (\<lambda>wallet. balance_at_tag env [url] token wallet (hex_i64 height)) wallets) (\<lambda>out.
     bindN (block_hash env [url] height) (\<lambda>after.
     if after \<noteq> before then failN (Provider ''recovery_source_fork'')
     else retN \<lparr>lbs_height = height, lbs_block_hash = before, lbs_balances = out\<rparr>))))"

definition bsc_live_balances :: "'w rpc_env \<Rightarrow> urls \<Rightarrow> ustring \<Rightarrow> ustring list \<Rightarrow> ('w, live_balances) net" where
  "bsc_live_balances env urls token wallets =
     or_label ''incoherent_bulk_live_snapshot''
       (first_of (pinned_balances env token wallets) (Provider ''incoherent_bulk_live_snapshot'') urls)"

end
