(* ===== verification/BscRange.thy ===== *)
theory BscRange
  imports BscClient "HOL-Library.Multiset"
begin

text \<open>
  The observation of a block range (\<open>transfer_logs_inner\<close>, \<open>canonical_range_plan\<close> of
  \<open>ledger/src/bsc.rs\<close>) and the network record whose BSC operations are the client's. The log
  query is a worklist of ranges that are halved when a provider refuses them; its 4096 requests are
  the fuel.
\<close>

section \<open>Transfer logs\<close>

type_synonym found_log = "bep20_log \<times> ustring"

definition log_key :: "found_log \<Rightarrow> int \<times> int" where
  "log_key l = (lg_block_number (fst l), lg_log_index (fst l))"

definition read_log :: "ustring \<Rightarrow> int \<Rightarrow> int \<Rightarrow> json \<Rightarrow> found_log ledger_result" where
  "read_log token lo hi item =
     bindR (parse_rpc_log item) (\<lambda>log.
     bindR (normalize_evm_addr (lg_address log)) (\<lambda>emitter.
     if emitter \<noteq> token \<or> lg_block_number log < lo \<or> lg_block_number log > hi
     then Inl (Provider ''wrong_token_or_log_range'')
     else bindR (hex_hash (jget item ''blockHash'') ''invalid_log_block_hash'') (\<lambda>h. Inr (log, h))))"

definition read_logs :: "ustring \<Rightarrow> int \<Rightarrow> int \<Rightarrow> json \<Rightarrow> found_log list ledger_result" where
  "read_logs token lo hi v =
     bindR (ok_or (Provider ''logs_schema'') (as_array v)) (mapR (read_log token lo hi))"

definition request_logs ::
    "'w rpc_env \<Rightarrow> urls \<Rightarrow> ustring option \<Rightarrow> ustring \<Rightarrow> int \<Rightarrow> int \<Rightarrow> ('w, json) net" where
  "request_logs env urls pinned_url token lo hi =
     (let params = log_params token lo hi in
      case pinned_url of
        Some url \<Rightarrow> bindN (rpc_at env url ''eth_getLogs'' params) (\<lambda>v.
                    thenN (liftN (validate_rpc_result ''eth_getLogs'' v params)) (retN v))
      | None \<Rightarrow> rpc_call env urls ''eth_getLogs'' params)"

fun log_work ::
    "(int \<Rightarrow> int \<Rightarrow> ('w, json) net) \<Rightarrow> ustring \<Rightarrow> nat \<Rightarrow> (int \<times> int) list \<Rightarrow> found_log list
      \<Rightarrow> ('w, found_log list) net" where
  "log_work request token n [] out = retN out"
| "log_work request token n ((lo, hi) # ranges) out =
     (if n = 0 \<or> length out > 100000 then failN (Provider ''log_work_limit'')
      else bindN (attemptN (request lo hi)) (\<lambda>response.
      case response of
        Inl e \<Rightarrow>
          if lo < hi
          then (let mid = lo + (hi - lo) div 2 in
                log_work request token (n - 1) ((lo, mid) # (mid + 1, hi) # ranges) out)
          else failN e
      | Inr v \<Rightarrow>
          bindN (liftN (read_logs token lo hi v)) (\<lambda>logs. log_work request token (n - 1) ranges (out @ logs))))"

definition transfer_logs_inner ::
    "'w rpc_env \<Rightarrow> urls \<Rightarrow> ustring \<Rightarrow> int \<Rightarrow> int \<Rightarrow> ustring option \<Rightarrow> ('w, found_log list) net" where
  "transfer_logs_inner env urls raw_token from to pinned_url =
     bindN (liftN (normalize_evm_addr raw_token)) (\<lambda>token.
     bindN (log_work (request_logs env urls pinned_url token) token 4096 [(from, to)] []) (\<lambda>out.
     let sorted_out = sort_key log_key out in
     if distinct (map log_key sorted_out) then retN sorted_out
     else failN (Provider ''duplicate_log_identity'')))"

definition transfer_logs :: "'w rpc_env \<Rightarrow> urls \<Rightarrow> ustring \<Rightarrow> int \<Rightarrow> int \<Rightarrow> ('w, bep20_log list) net" where
  "transfer_logs env urls token from to =
     bindN (transfer_logs_inner env urls token from to None) (\<lambda>out. retN (map fst out))"

section \<open>A range from one provider\<close>

fun check_baselines :: "'w rpc_env \<Rightarrow> ustring \<Rightarrow> (int \<times> ustring option) list \<Rightarrow> ('w, unit) net" where
  "check_baselines env url [] = retN ()"
| "check_baselines env url ((height, expected) # bs) =
     bindN (block_hash_at env url height) (\<lambda>actual.
     if expected \<noteq> Some actual then failN (Provider ''registration_baseline_orphaned'')
     else check_baselines env url bs)"

text \<open>The hash map of the observed heights is an association list, latest entry first.\<close>

fun check_log_hashes ::
    "'w rpc_env \<Rightarrow> ustring \<Rightarrow> (int \<times> ustring) list \<Rightarrow> found_log list \<Rightarrow> ('w, (int \<times> ustring) list) net" where
  "check_log_hashes env url by_height [] = retN by_height"
| "check_log_hashes env url by_height ((log, expected) # logs) =
     bindN (if map_of by_height (lg_block_number log) \<noteq> None then retN by_height
            else bindN (block_hash_at env url (lg_block_number log)) (\<lambda>h. retN ((lg_block_number log, h) # by_height)))
       (\<lambda>by_height.
     if map_of by_height (lg_block_number log) \<noteq> Some expected then failN (Provider ''wrong_log_block_hash'')
     else check_log_hashes env url by_height logs)"

text \<open>Everything after the end of the range has been fixed and the baselines have been checked.\<close>

definition observe_fixed ::
    "'w rpc_env \<Rightarrow> ustring \<Rightarrow> int \<Rightarrow> int \<Rightarrow> int \<Rightarrow> ustring \<Rightarrow> ('w, bsc_range) net" where
  "observe_fixed env token from to tip url =
     bindN (attemptN (block_hash_at env url to)) (\<lambda>end_hash.
     bindN (attemptN (transfer_logs_inner env [url] token from to (Some url))) (\<lambda>raw_logs.
     bindN (attemptN (block_hashes_at env url [max from (sat_sub to 128)..to])) (\<lambda>hashes.
     bindN (liftN end_hash) (\<lambda>end_hash. bindN (liftN raw_logs) (\<lambda>raw_logs. bindN (liftN hashes) (\<lambda>hashes.
     bindN (check_log_hashes env url (rev hashes) raw_logs) (\<lambda>by_height.
     if map_of by_height to \<noteq> Some end_hash then failN (Provider ''bsc_changed_during_ingest'')
     else thenN (check_network_at env url)
    (bindN (block_hash_at env url to) (\<lambda>again.
     if again \<noteq> end_hash then failN (Provider ''bsc_changed_during_ingest'')
     else retN \<lparr>br_to = to, br_tip = tip, br_end_hash = end_hash, br_logs = map fst raw_logs,
                br_hashes = hashes, br_source = [url]\<rparr>)))))))))"

definition observe_range ::
    "'w rpc_env \<Rightarrow> ustring \<Rightarrow> int \<Rightarrow> int \<Rightarrow> (int \<times> ustring option) list \<Rightarrow> bool \<Rightarrow> ustring \<Rightarrow> ('w, bsc_range) net" where
  "observe_range env token from maximum_to baselines plan url =
     thenN (check_network_at env url)
    (bindN (head_at env url (sat_add from BSC_FINALITY_DEPTH)) (\<lambda>tip.
     let final = sat_sub tip BSC_FINALITY_DEPTH;
         to = (if plan then min maximum_to final else maximum_to) in
     if to > final \<or> from > to then failN (Provider ''unfinalized_bsc_range'')
     else thenN (check_baselines env url (filter (\<lambda>b. fst b \<le> to) baselines))
            (observe_fixed env token from to tip url)))"

text \<open>The loop over the providers; a baseline mismatch anywhere is remembered.\<close>

fun range_from_providers ::
    "(ustring \<Rightarrow> ('w, bsc_range) net) \<Rightarrow> bool \<Rightarrow> ledger_error \<Rightarrow> urls \<Rightarrow> ('w, bsc_range) net" where
  "range_from_providers observe orphan last_error [] =
     failN (if orphan then Provider ''registration_baseline_orphaned'' else last_error)"
| "range_from_providers observe orphan last_error (u # us) =
     (\<lambda>w. case observe u w of
        (Inr r, w') \<Rightarrow> (Inr r, w')
      | (Inl e, w') \<Rightarrow>
          range_from_providers observe (orphan \<or> e = Provider ''registration_baseline_orphaned'') e us w')"

definition canonical_range_plan ::
    "'w rpc_env \<Rightarrow> urls \<Rightarrow> bool \<Rightarrow> ustring \<Rightarrow> int \<Rightarrow> int \<Rightarrow> (int \<times> ustring option) list \<Rightarrow> ('w, bsc_range) net" where
  "canonical_range_plan env urls plan token from maximum_to baselines =
     range_from_providers (observe_range env token from maximum_to baselines plan) False
       (Provider ''no_bsc_provider'') urls"

definition canonical_range ::
    "'w rpc_env \<Rightarrow> urls \<Rightarrow> ustring \<Rightarrow> int \<Rightarrow> int \<Rightarrow> (int \<times> ustring option) list \<Rightarrow> ('w, bsc_range) net" where
  "canonical_range env urls token from to baselines = canonical_range_plan env urls False token from to baselines"

definition canonical_next_range ::
    "'w rpc_env \<Rightarrow> urls \<Rightarrow> ustring \<Rightarrow> int \<Rightarrow> int \<Rightarrow> (int \<times> ustring option) list \<Rightarrow> ('w, bsc_range) net" where
  "canonical_next_range env urls token from maximum_to baselines = canonical_range_plan env urls True token from maximum_to baselines"

text \<open>A network whose BSC operations are the client's; \<open>token\<close> is the pinned contract.\<close>

definition with_bsc_client :: "'w rpc_env \<Rightarrow> urls \<Rightarrow> ustring \<Rightarrow> 'w network \<Rightarrow> 'w network" where
  "with_bsc_client env bsc token net = net\<lparr>
     bsc_canonical_range := canonical_range_plan env,
     bsc_finish_range := finish_range env,
     bsc_block_hash := block_hash env,
     bsc_block_number_at_least := block_number_at_least env,
     bsc_block_number := block_number env,
     bsc_live_balance := (\<lambda>wallet. if bsc = [] then failN (Provider ''no_bsc_provider'')
                                  else live_snapshot env bsc token wallet),
     bulk_live_balances := (\<lambda>c wallets. case c of
          Terra \<Rightarrow> bulk_live_balances net Terra wallets
        | Bsc \<Rightarrow> if bsc = [] then failN (Provider ''no_bsc_provider'')
                 else bsc_live_balances env bsc token wallets)\<rparr>"

section \<open>Bisection loses nothing\<close>

text \<open>
  A provider is \<open>truthful\<close> about a token between two heights when every answer it gives to a
  log request inside them holds exactly the logs of the chain in the requested range (it may
  refuse any request).
\<close>

definition in_range :: "int \<Rightarrow> int \<Rightarrow> found_log \<Rightarrow> bool" where
  "in_range lo hi l \<longleftrightarrow> lo \<le> lg_block_number (fst l) \<and> lg_block_number (fst l) \<le> hi"

definition truthful :: "(int \<Rightarrow> int \<Rightarrow> ('w, json) net) \<Rightarrow> ustring \<Rightarrow> int \<Rightarrow> int \<Rightarrow> found_log list \<Rightarrow> bool" where
  "truthful request token from to truth \<longleftrightarrow> (\<forall>lo hi w v w'. from \<le> lo \<longrightarrow> lo \<le> hi \<longrightarrow> hi \<le> to \<longrightarrow> request lo hi w = (Inr v, w') \<longrightarrow>
     read_logs token lo hi v = Inr (filter (in_range lo hi) truth))"

lemma filter_split_range:
  assumes "lo \<le> mid" "mid < hi"
  shows "filter_mset (in_range lo hi) M = filter_mset (in_range lo mid) M + filter_mset (in_range (mid + 1) hi) M"
  using assms by (auto simp: multiset_eq_iff in_range_def)

lemma log_work_complete:
  "truthful request token from to truth \<Longrightarrow> (\<And>lo hi. (lo, hi) \<in> set ranges \<Longrightarrow> from \<le> lo \<and> lo \<le> hi \<and> hi \<le> to) \<Longrightarrow>
     log_work request token n ranges out w = (Inr res, w') \<Longrightarrow>
     mset res = mset out + (\<Sum>(lo, hi)\<leftarrow>ranges. mset (filter (in_range lo hi) truth))"
proof (induction request token n ranges out arbitrary: w rule: log_work.induct)
  case (2 request token n lo hi ranges out)
  note run = 2(5) and truth = 2(3) and inside = 2(4)
  have small: "\<not> (n = 0 \<or> 100000 < length out)"
    using run by (force simp: failN_def)
  obtain r w1 where req: "request lo hi w = (r, w1)"
    by fastforce
  show ?case
  proof (cases r)
    case (Inl e)
    with run req small have less: "lo < hi" and rest: "log_work request token (n - 1)
        ((lo, lo + (hi - lo) div 2) # (lo + (hi - lo) div 2 + 1, hi) # ranges) out w1 = (Inr res, w')"
      by (auto simp: bindN_def attemptN_def Let_def failN_def split: if_splits)
    let ?mid = "lo + (hi - lo) div 2"
    have mid: "lo \<le> ?mid" "?mid < hi"
      using less by auto
    have "from \<le> l \<and> l \<le> h \<and> h \<le> to" if "(l, h) \<in> set ((lo, ?mid) # (?mid + 1, hi) # ranges)" for l h
      using that inside [of lo hi] inside [of l h] mid by auto
    from 2(1) [OF small less refl truth this rest] show ?thesis
      using filter_split_range [OF mid, of "mset truth"] by simp
  next
    case (Inr v)
    have "read_logs token lo hi v = Inr (filter (in_range lo hi) truth)"
    proof -
      have "request lo hi w = (Inr v, w1)"
        using req Inr by simp
      then show ?thesis
        using truth inside [of lo hi] unfolding truthful_def by (simp del: split_paired_All) blast
    qed
    with run req small Inr have rest: "log_work request token (n - 1) ranges (out @ filter (in_range lo hi) truth) w1 = (Inr res, w')"
      by (simp add: bindN_def attemptN_def liftN_def)
    have "from \<le> l \<and> l \<le> h \<and> h \<le> to" if "(l, h) \<in> set ranges" for l h
      using that inside [of l h] by simp
    from 2(2) [OF small truth this rest] show ?thesis
      by simp
  qed
qed (simp_all add: retN_def failN_def)

section \<open>What the client's operations yield\<close>

lemma block_hash_at_yields: "yields (block_hash_at env url height) (\<lambda>h. 0 \<le> height \<and> height \<le> i64_max)"
proof -
  have "yields (liftN (block_hash_of height block)) (\<lambda>h. 0 \<le> height \<and> height \<le> i64_max)" for block
    by (rule yields_lift)
      (auto simp: block_hash_of_def block_number_of_def field_quantity_def result_iff dest: quantity_range)
  then show ?thesis
    unfolding block_hash_at_def by (rule yields_bind_any)
qed

lemma head_at_yields: "yields (head_at env url m) (\<lambda>h. m \<le> h \<and> 0 \<le> h \<and> h \<le> i64_max)"
proof -
  have height: "yields (bindN (rpc_at env url ''eth_blockNumber'' (JArr [])) (\<lambda>v. liftN (quantity v ''invalid_block_number'')))
      (\<lambda>h. 0 \<le> h \<and> h \<le> i64_max)"
    by (rule yields_bind_any, rule yields_lift) (rule quantity_range)
  show ?thesis
    unfolding head_at_def
    by (rule yields_bind [OF height], rule yields_bind_any, rule yields_bind_any, rule yields_if, rule yields_fail,
        rule yields_then, rule yields_bind_any, rule yields_then, rule yields_if, rule yields_fail, rule yields_ret) simp
qed

definition log_in :: "int \<Rightarrow> int \<Rightarrow> ustring \<Rightarrow> found_log \<Rightarrow> bool" where
  "log_in lo hi token l \<longleftrightarrow> in_range lo hi l \<and> normalize_evm_addr (lg_address (fst l)) = Inr token"

lemma read_logs_in: "read_logs token lo hi v = Inr logs \<Longrightarrow> l \<in> set logs \<Longrightarrow> log_in lo hi token l"
  by (auto simp: read_logs_def read_log_def result_iff log_in_def in_range_def dest!: mapR_set)

lemma log_work_in:
  "log_work request token n ranges out w = (Inr res, w') \<Longrightarrow> (\<And>lo hi. (lo, hi) \<in> set ranges \<Longrightarrow> from \<le> lo \<and> hi \<le> to) \<Longrightarrow>
     list_all (log_in from to token) out \<Longrightarrow> list_all (log_in from to token) res"
proof (induction request token n ranges out arbitrary: w rule: log_work.induct)
  case (2 request token n lo hi ranges out)
  note run = 2(3) and inside = 2(4)
  have small: "\<not> (n = 0 \<or> 100000 < length out)"
    using run by (force simp: failN_def)
  obtain r w1 where req: "request lo hi w = (r, w1)"
    by fastforce
  show ?case
  proof (cases r)
    case (Inl e)
    let ?mid = "lo + (hi - lo) div 2"
    from Inl run req small have less: "lo < hi" and rest: "log_work request token (n - 1) ((lo, ?mid) # (?mid + 1, hi) # ranges) out w1 = (Inr res, w')"
      by (auto simp: bindN_def attemptN_def Let_def failN_def split: if_splits)
    have "from \<le> l \<and> h \<le> to" if "(l, h) \<in> set ((lo, ?mid) # (?mid + 1, hi) # ranges)" for l h
      using that inside [of lo hi] inside [of l h] less by auto
    from 2(1) [OF small less refl rest this 2(5)] show ?thesis .
  next
    case (Inr v)
    with run req small obtain logs where logs: "read_logs token lo hi v = Inr logs"
      and rest: "log_work request token (n - 1) ranges (out @ logs) w1 = (Inr res, w')"
      by (auto simp: bindN_def attemptN_def liftN_def split: sum.splits)
    have "log_in from to token l" if "l \<in> set logs" for l
      using read_logs_in [OF logs that] inside [of lo hi] by (auto simp: log_in_def in_range_def)
    with 2(5) have "list_all (log_in from to token) (out @ logs)"
      by (auto simp: list_all_iff)
    moreover have "from \<le> l \<and> h \<le> to" if "(l, h) \<in> set ranges" for l h
      using that inside [of l h] by simp
    ultimately show ?thesis
      using 2(2) [OF small rest] by blast
  qed
qed (simp_all add: retN_def failN_def)

definition log_batch_ok :: "ustring \<Rightarrow> int \<Rightarrow> int \<Rightarrow> found_log list \<Rightarrow> bool" where
  "log_batch_ok raw_token from to logs \<longleftrightarrow> (\<exists>token. normalize_evm_addr raw_token = Inr token \<and> list_all (log_in from to token) logs)
     \<and> sorted (map log_key logs) \<and> distinct (map log_key logs)"

lemma transfer_logs_yields: "yields (transfer_logs_inner env urls token from to pinned) (log_batch_ok token from to)"
proof -
  have work: "yields (log_work req t n [(from, to)] []) (list_all (log_in from to t))" for req t n
    by (rule yieldsI, erule log_work_in) auto
  have final: "yields (let sorted_out = sort_key log_key out in
     if distinct (map log_key sorted_out) then retN sorted_out else failN (Provider ''duplicate_log_identity''))
     (log_batch_ok token from to)" if "normalize_evm_addr token = Inr t" "list_all (log_in from to t) out" for t out
    unfolding Let_def using that
    by (intro yields_if yields_ret yields_fail) (auto simp: log_batch_ok_def list_all_iff)
  have norm: "yields (liftN (normalize_evm_addr token)) (\<lambda>t. normalize_evm_addr token = Inr t)"
    by (rule yields_lift)
  show ?thesis
    unfolding transfer_logs_inner_def
    by (rule yields_bind [OF norm], rule yields_bind [OF work], rule final)
qed

lemma block_hashes_yields:
  assumes "sorted heights"
  shows "yields (block_hashes_at env url heights) (\<lambda>out. map fst out = heights)"
proof -
  have each: "yields (join_batches 8 (\<lambda>h. bindN (block_hash_at env url h) (\<lambda>x. retN (h, x))) heights) (list_all2 (\<lambda>h x. fst x = h) heights)"
    by (rule yields_join_batches, rule yields_bind_any, rule yields_ret) simp
  have fst: "map fst out = heights" if "list_all2 (\<lambda>h x. fst x = h) heights out" for out
    using that by (induction rule: list_all2_induct) auto
  have "yields (retN (sort_key fst out)) (\<lambda>out. map fst out = heights)" if "list_all2 (\<lambda>h x. fst x = h) heights out" for out
    using fst [OF that] assms by (intro yields_ret) (simp add: sort_key_id_if_sorted)
  then show ?thesis
    unfolding block_hashes_at_def by (rule yields_bind [OF each])
qed

lemma check_log_hashes_extends:
  "check_log_hashes env url m logs w = (Inr m', w') \<Longrightarrow> map_of m k = Some h \<Longrightarrow> map_of m' k = Some h"
proof (induction logs arbitrary: m w)
  case (Cons l logs)
  obtain log expected where l: "l = (log, expected)" by fastforce
  obtain m1 w1 where "check_log_hashes env url m1 logs w1 = (Inr m', w')" "map_of m1 k = Some h"
  proof (cases "map_of m (lg_block_number log)")
    case None
    with Cons.prems obtain x w1 where "check_log_hashes env url ((lg_block_number log, x) # m) logs w1 = (Inr m', w')"
      by (auto simp: l bindN_def retN_def failN_def split: prod.splits sum.splits if_splits)
    moreover from None Cons.prems(2) have "map_of ((lg_block_number log, x) # m) k = Some h"
      by auto
    ultimately show thesis by (rule that)
  next
    case (Some y)
    with Cons.prems have "check_log_hashes env url m logs w = (Inr m', w')"
      by (auto simp: l bindN_def retN_def failN_def split: if_splits)
    then show thesis using Cons.prems(2) by (rule that)
  qed
  then show ?case by (rule Cons.IH)
qed (simp add: retN_def)

text \<open>The facts an accepted range carries.\<close>

definition range_ok :: "ustring \<Rightarrow> int \<Rightarrow> int \<Rightarrow> bsc_range \<Rightarrow> bool" where
  "range_ok token from maximum_to r \<longleftrightarrow>
     from \<le> br_to r \<and> br_to r \<le> maximum_to \<and> 0 \<le> br_to r \<and> br_to r \<le> br_tip r - BSC_FINALITY_DEPTH
   \<and> (\<exists>logs. br_logs r = map fst logs \<and> log_batch_ok token from (br_to r) logs)
   \<and> map fst (br_hashes r) = [max from (sat_sub (br_to r) 128)..br_to r]
   \<and> map_of (br_hashes r) (br_to r) = Some (br_end_hash r)"

lemma sat_sub_final: "0 \<le> tip \<Longrightarrow> tip \<le> i64_max \<Longrightarrow> sat_sub tip BSC_FINALITY_DEPTH = tip - BSC_FINALITY_DEPTH"
  by (simp add: sat_sub_def sat_i64_def i64_max_def i64_min_def BSC_FINALITY_DEPTH_def)

lemma map_of_rev_distinct: "distinct (map fst xs) \<Longrightarrow> map_of (rev xs) = map_of xs"
  by (subst map_of_inject_set) (simp_all add: rev_map [symmetric])

lemma end_hash_from_hashes:
  assumes run: "check_log_hashes env url (rev hashes) logs w = (Inr m, w')" and "map_of m to = Some e"
    and hs: "map fst hashes = [lo..to]" and "lo \<le> to"
  shows "map_of hashes to = Some e"
proof -
  have "distinct (map fst hashes)"
    by (simp add: hs)
  then have rev: "map_of (rev hashes) = map_of hashes"
    by (rule map_of_rev_distinct)
  have "to \<in> fst ` set hashes"
    using assms(4) by (metis atLeastAtMost_iff hs list.set_map order_refl set_upto)
  then obtain x where "map_of hashes to = Some x"
    by (metis map_of_eq_None_iff not_Some_eq)
  with check_log_hashes_extends [OF run, of to x] assms(2) show ?thesis
    by (simp add: rev)
qed

lemma check_log_hashes_yields:
  assumes "map fst hashes = [lo..to]" "lo \<le> to"
  shows "yields (check_log_hashes env url (rev hashes) logs) (\<lambda>m. \<forall>e. map_of m to = Some e \<longrightarrow> map_of hashes to = Some e)"
proof (rule yieldsI, intro allI impI)
  fix w m w' e
  assume "check_log_hashes env url (rev hashes) logs w = (Inr m, w')" "map_of m to = Some e"
  then show "map_of hashes to = Some e"
    by (rule end_hash_from_hashes [OF _ _ assms])
qed

lemma yields_bind_lift: "(\<And>y. x = Inr y \<Longrightarrow> yields (f y) Q) \<Longrightarrow> yields (bindN (liftN x) f) Q"
  by (rule yields_bind [OF yields_lift])

lemma observe_fixed_yields:
  assumes to: "from \<le> to" "to \<le> maximum_to" "to \<le> tip - BSC_FINALITY_DEPTH"
  shows "yields (observe_fixed env token from to tip url) (\<lambda>r. range_ok token from maximum_to r \<and> br_source r = [url])"
proof (cases "0 \<le> to")
  case True
  let ?Q = "\<lambda>r. range_ok token from maximum_to r \<and> br_source r = [url]"
  have below: "max from (sat_sub to 128) \<le> to"
    using to(1) True by (auto simp: sat_sub_def sat_i64_def i64_max_def i64_min_def)
  have rest: "yields (if map_of by_height to \<noteq> Some end_hash then failN e1
     else thenN (check_network_at env url)
    (bindN (block_hash_at env url to) (\<lambda>again.
     if again \<noteq> end_hash then failN e2
     else retN \<lparr>br_to = to, br_tip = tip, br_end_hash = end_hash, br_logs = map fst logs,
                br_hashes = hashes, br_source = [url]\<rparr>))) ?Q"
    if logs: "log_batch_ok token from to logs" and hashes: "map fst hashes = [max from (sat_sub to 128)..to]"
      and by_height: "\<forall>e. map_of by_height to = Some e \<longrightarrow> map_of hashes to = Some e"
    for logs hashes by_height end_hash e1 e2
    by (rule yields_if, rule yields_fail, rule yields_then, rule yields_bind_any, rule yields_if, rule yields_fail,
        rule yields_ret) (use to True logs hashes by_height in \<open>auto simp: range_ok_def\<close>)
  show ?thesis
    unfolding observe_fixed_def
  proof (rule yields_bind_any, rule yields_bind [OF yields_attempt [OF transfer_logs_yields]],
      rule yields_bind [OF yields_attempt [OF block_hashes_yields]])
    fix end_hash and raw_logs :: "found_log list ledger_result" and hashes :: "(int \<times> ustring) list ledger_result"
    assume logs: "\<forall>x. raw_logs = Inr x \<longrightarrow> log_batch_ok token from to x"
      and hashes: "\<forall>x. hashes = Inr x \<longrightarrow> map fst x = [max from (sat_sub to 128)..to]"
    show "yields (bindN (liftN end_hash) (\<lambda>end_hash. bindN (liftN raw_logs) (\<lambda>raw_logs. bindN (liftN hashes) (\<lambda>hashes.
     bindN (check_log_hashes env url (rev hashes) raw_logs) (\<lambda>by_height.
     if map_of by_height to \<noteq> Some end_hash then failN (Provider ''bsc_changed_during_ingest'')
     else thenN (check_network_at env url)
    (bindN (block_hash_at env url to) (\<lambda>again.
     if again \<noteq> end_hash then failN (Provider ''bsc_changed_during_ingest'')
     else retN \<lparr>br_to = to, br_tip = tip, br_end_hash = end_hash, br_logs = map fst raw_logs,
                br_hashes = hashes, br_source = [url]\<rparr>))))))) ?Q"
    proof (rule yields_bind_lift, rule yields_bind_lift, rule yields_bind_lift)
      fix ls hs and end_hash :: ustring
      assume eqs: "raw_logs = Inr ls" "hashes = Inr hs"
      have hs: "map fst hs = [max from (sat_sub to 128)..to]" and ls: "log_batch_ok token from to ls"
        using eqs logs hashes by simp_all
      show "yields (bindN (check_log_hashes env url (rev hs) ls) (\<lambda>by_height.
         if map_of by_height to \<noteq> Some end_hash then failN (Provider ''bsc_changed_during_ingest'')
         else thenN (check_network_at env url)
        (bindN (block_hash_at env url to) (\<lambda>again.
         if again \<noteq> end_hash then failN (Provider ''bsc_changed_during_ingest'')
         else retN \<lparr>br_to = to, br_tip = tip, br_end_hash = end_hash, br_logs = map fst ls,
                    br_hashes = hs, br_source = [url]\<rparr>)))) ?Q"
        by (rule yields_bind [OF check_log_hashes_yields [OF hs below]]) (rule rest [OF ls hs])
    qed
  qed simp
next
  case False
  have "yields (block_hash_at env url to) (\<lambda>_. False)"
    by (rule yields_weaken [OF block_hash_at_yields]) (use False in simp)
  then have none: "yields (attemptN (block_hash_at env url to)) (\<lambda>r. \<forall>x. r = Inr x \<longrightarrow> False)"
    by (rule yields_attempt)
  show ?thesis
    unfolding observe_fixed_def
    by (rule yields_bind [OF none], rule yields_bind_any, rule yields_bind_any, rule yields_bind_lift) blast
qed

lemma observe_range_yields:
  "yields (observe_range env token from maximum_to baselines plan url) (\<lambda>r. range_ok token from maximum_to r \<and> br_source r = [url])"
  unfolding observe_range_def
proof (rule yields_then, rule yields_bind [OF head_at_yields])
  fix tip
  assume "sat_add from BSC_FINALITY_DEPTH \<le> tip \<and> 0 \<le> tip \<and> tip \<le> i64_max"
  then have final: "sat_sub tip BSC_FINALITY_DEPTH = tip - BSC_FINALITY_DEPTH"
    by (simp add: sat_sub_final)
  show "yields (let final = sat_sub tip BSC_FINALITY_DEPTH; to = (if plan then min maximum_to final else maximum_to) in
     if to > final \<or> from > to then failN (Provider ''unfinalized_bsc_range'')
     else thenN (check_baselines env url (filter (\<lambda>b. fst b \<le> to) baselines)) (observe_fixed env token from to tip url))
     (\<lambda>r. range_ok token from maximum_to r \<and> br_source r = [url])"
    unfolding Let_def final
    by (rule yields_if, rule yields_fail, rule yields_then, rule observe_fixed_yields) (auto split: if_splits)
qed

lemma range_from_providers_yields:
  "(\<And>u. u \<in> set us \<Longrightarrow> yields (observe u) Q) \<Longrightarrow> yields (range_from_providers observe b e us) Q"
proof (induction us arbitrary: b e)
  case (Cons u us)
  have one: "yields (observe u) Q" and rest: "yields (range_from_providers observe b' e' us) Q" for b' e'
    using Cons by auto
  show ?case
  proof (rule yieldsI)
    fix w x w'
    assume "range_from_providers observe b e (u # us) w = (Inr x, w')"
    then show "Q x"
      using yieldsD [OF one] yieldsD [OF rest] by (auto split: prod.splits sum.splits)
  qed
qed (simp add: yields_fail)

lemma canonical_range_yields:
  "yields (canonical_range_plan env urls plan token from maximum_to baselines)
     (\<lambda>r. range_ok token from maximum_to r \<and> (\<exists>url\<in>set urls. br_source r = [url]))"
  unfolding canonical_range_plan_def
  by (rule range_from_providers_yields, rule yields_weaken [OF observe_range_yields]) blast

lemma observe_range_i64: "yields (observe_range env token from maximum_to baselines plan url) (\<lambda>r. br_to r \<le> i64_max)"
  unfolding observe_range_def
proof (rule yields_then, rule yields_bind [OF head_at_yields])
  fix tip
  assume tip: "sat_add from BSC_FINALITY_DEPTH \<le> tip \<and> 0 \<le> tip \<and> tip \<le> i64_max"
  have fixed: "yields (observe_fixed env token from to t url) (\<lambda>r. br_to r = to)" for to t
    unfolding observe_fixed_def by (intro yields_bind_any yields_if yields_fail yields_then yields_ret) simp
  show "yields (let final = sat_sub tip BSC_FINALITY_DEPTH; to = (if plan then min maximum_to final else maximum_to) in
     if to > final \<or> from > to then failN (Provider ''unfinalized_bsc_range'')
     else thenN (check_baselines env url (filter (\<lambda>b. fst b \<le> to) baselines)) (observe_fixed env token from to tip url))
     (\<lambda>r. br_to r \<le> i64_max)"
    unfolding Let_def
    by (rule yields_if, rule yields_fail, rule yields_then, rule yields_weaken [OF fixed])
       (use tip sat_sub_final [of tip] in \<open>auto simp: BSC_FINALITY_DEPTH_def split: if_splits\<close>)
qed

section \<open>The contract of an accepted range\<close>

lemma canonical_range_facts:
  assumes "canonical_range_plan env urls plan token from maximum_to baselines w = (Inr r, w')"
  shows "(\<exists>url\<in>set urls. br_source r = [url]) \<and> range_bounded r
     \<and> from \<le> br_to r \<and> br_to r \<le> maximum_to \<and> br_to r + BSC_FINALITY_DEPTH \<le> br_tip r
     \<and> (\<exists>logs. br_logs r = map fst logs \<and> log_batch_ok token from (br_to r) logs)
     \<and> map fst (br_hashes r) = [max from (sat_sub (br_to r) 128)..br_to r]
     \<and> map_of (br_hashes r) (br_to r) = Some (br_end_hash r)"
proof -
  have ok: "range_ok token from maximum_to r" "\<exists>url\<in>set urls. br_source r = [url]"
    using yieldsD [OF canonical_range_yields assms] by blast+
  have "br_to r \<le> i64_max"
  proof -
    have "yields (canonical_range_plan env urls plan token from maximum_to baselines) (\<lambda>r. br_to r \<le> i64_max)"
      unfolding canonical_range_plan_def by (rule range_from_providers_yields, rule observe_range_i64)
    then show ?thesis using assms by (rule yieldsD)
  qed
  moreover have "lg_block_number l \<le> br_to r" if "l \<in> set (br_logs r)" for l
    using ok(1) that by (auto simp: range_ok_def log_batch_ok_def list_all_iff log_in_def in_range_def)
  moreover have "fst hh \<le> br_to r" if "hh \<in> set (br_hashes r)" for hh
  proof -
    have "fst hh \<in> set (map fst (br_hashes r))"
      using that by simp
    moreover have "map fst (br_hashes r) = [max from (sat_sub (br_to r) 128)..br_to r]"
      using ok(1) by (simp add: range_ok_def)
    ultimately show ?thesis
      by simp
  qed
  ultimately show ?thesis
    using ok by (auto simp: range_ok_def range_bounded_def)
qed

text \<open>
  C19. What a range that the client hands to the ingest guarantees, whatever the providers answered: it
  comes whole from one configured provider; it starts where it was asked to, ends at or before the
  requested height and at least fifteen blocks below that provider's head; its logs belong to the
  pinned token, lie inside the range and are strictly ordered by block and log index; and its hashes
  are exactly those of the last blocks of the range, the end block included.
\<close>

theorem canonical_range_contract:
  assumes "canonical_range_plan env urls plan token from maximum_to baselines w = (Inr r, w')"
  shows "(\<exists>url\<in>set urls. br_source r = [url]) \<and> range_bounded r
     \<and> from \<le> br_to r \<and> br_to r \<le> maximum_to \<and> br_to r + BSC_FINALITY_DEPTH \<le> br_tip r
     \<and> (\<exists>logs. br_logs r = map fst logs \<and> log_batch_ok token from (br_to r) logs)
     \<and> map fst (br_hashes r) = [max from (sat_sub (br_to r) 128)..br_to r]
     \<and> map_of (br_hashes r) (br_to r) = Some (br_end_hash r)"
  by (rule canonical_range_facts [OF assms])

lemma client_ranges_bounded: "ranges_bounded (with_bsc_client env bsc token net)"
  unfolding ranges_bounded_def with_bsc_client_def by (auto dest: canonical_range_facts)

text \<open>A small chain: the head is at 40, every block has the same hash, and there are no logs.\<close>

definition hex64 :: "nat \<Rightarrow> ustring" where
  "hex64 c = str ''0x'' @ replicate 64 c"

definition method_of :: "json \<Rightarrow> ustring option" where
  "method_of request = jget_str request ''method''"

definition first_param :: "json \<Rightarrow> json option" where
  "first_param request = Option.bind (Option.bind (jget request ''params'') as_array)
     (\<lambda>ps. case ps of [] \<Rightarrow> None | p # _ \<Rightarrow> Some p)"

definition rpc_answer :: "json \<Rightarrow> json" where
  "rpc_answer v = JObj [(str ''jsonrpc'', JStr (str ''2.0'')), (str ''id'', JNum 1), (str ''result'', v)]"

definition rpc_refusal :: json where
  "rpc_refusal = JObj [(str ''jsonrpc'', JStr (str ''2.0'')), (str ''id'', JNum 1),
     (str ''error'', JObj [(str ''code'', JNum (-32005))])]"

definition node_answer :: "(json \<Rightarrow> json) \<Rightarrow> json \<Rightarrow> json" where
  "node_answer logs request =
     (if method_of request = Some (str ''eth_chainId'') then rpc_answer (JStr (str ''0x38''))
      else if method_of request = Some (str ''eth_blockNumber'') then rpc_answer (JStr (hex_i64 40))
      else if method_of request = Some (str ''eth_getBlockByNumber'')
      then rpc_answer (JObj [(str ''number'', the (first_param request)), (str ''hash'', JStr (hex64 97)),
             (str ''timestamp'', JStr (str ''0x64''))])
      else logs (the (first_param request)))"

definition quiet_node :: "unit rpc_env" where
  "quiet_node = \<lparr>rpc_post = (\<lambda>url request w. (Inr (node_answer (\<lambda>_. rpc_answer (JArr [])) request), w)), rpc_now = (\<lambda>_. 100)\<rparr>"

definition sample_token :: ustring where
  "sample_token = str ''0x'' @ replicate 40 98"

lemma node_facts:
  "rpc_at quiet_node u ''eth_chainId'' (JArr []) = retN (JStr (str ''0x38''))"
  "rpc_at quiet_node u ''eth_blockNumber'' (JArr []) = retN (JStr (hex_i64 40))"
  "rpc_at quiet_node u ''eth_getBlockByNumber'' (block_params h) = retN (JObj [(str ''number'', JStr (hex_i64 h)),
     (str ''hash'', JStr (hex64 97)), (str ''timestamp'', JStr (str ''0x64''))])"
  "rpc_at quiet_node u ''eth_getLogs'' (log_params t lo hi) = retN (JArr [])"
  by (simp_all add: fun_eq_iff rpc_at_def bindN_def quiet_node_def node_answer_def method_of_def first_param_def
      rpc_request_def jget_str_def rpc_answer_def rpc_result_def retN_def block_params_def log_params_def)

lemma node_values: "hex_hash (Some (JStr (hex64 97))) label = Inr (hex64 97)" "quantity (JStr (str ''0x64'')) label = Inr 100"
  by code_simp+

lemma node_ops:
  "check_network_at quiet_node u = retN ()"
  "0 \<le> h \<Longrightarrow> h \<le> i64_max \<Longrightarrow> block_hash_at quiet_node u h = retN (hex64 97)"
  "m \<le> 40 \<Longrightarrow> head_at quiet_node u m = retN 40"
proof -
  show "check_network_at quiet_node u = retN ()"
    by (simp add: check_network_at_def node_facts)
  show "block_hash_at quiet_node u h = retN (hex64 97)" if "0 \<le> h" "h \<le> i64_max"
    using that by (simp add: block_hash_at_def node_facts block_hash_of_def block_number_of_def field_quantity_def
        quantity_hex node_values)
  have "(\<lambda>w. liftN (validate_head_time (rpc_now quiet_node w) 100) w) = retN ()"
    by (simp add: fun_eq_iff quiet_node_def validate_head_time_def Let_def sat_sub_def sat_i64_def i64_max_def i64_min_def)
  then show "head_at quiet_node u m = retN 40" if "m \<le> 40"
    using that by (simp add: head_at_def node_facts block_number_of_def field_quantity_def quantity_hex node_values i64_max_def)
qed

theorem canonical_range_contract_witness:
  "\<exists>r. canonical_range_plan quiet_node [str ''u''] True sample_token 24 60 [] () = (Inr r, ()) \<and> range_bounded r
     \<and> br_to r = 25 \<and> br_tip r = 40"
proof -
  have token: "normalize_evm_addr sample_token = Inr sample_token"
    by code_simp
  have logs: "transfer_logs_inner quiet_node [u] sample_token 24 25 (Some u) = retN []" for u
    by (simp add: transfer_logs_inner_def token request_logs_def Let_def node_facts validate_rpc_result_def read_logs_def)
  have hashes: "block_hashes_at quiet_node u [24, 25] = retN [(24, hex64 97), (25, hex64 97)]" for u
    by (simp add: block_hashes_at_def join_batches_def join_batch_def node_ops i64_max_def)
  have sat: "sat_add 24 BSC_FINALITY_DEPTH = 39" "sat_sub 40 BSC_FINALITY_DEPTH = 25" "sat_sub 25 128 = -103"
    by (simp_all add: i64_defs BSC_FINALITY_DEPTH_def)
  have "[24..25] = [24, 25::int]"
    by (simp add: upto_rec1)
  then have fixed: "observe_fixed quiet_node sample_token 24 25 40 u = retN \<lparr>br_to = 25, br_tip = 40, br_end_hash = hex64 97,
      br_logs = [], br_hashes = [(24, hex64 97), (25, hex64 97)], br_source = [u]\<rparr>" for u
    by (simp add: observe_fixed_def node_ops logs hashes sat i64_max_def)
  have "observe_range quiet_node sample_token 24 60 [] True u = retN \<lparr>br_to = 25, br_tip = 40, br_end_hash = hex64 97,
      br_logs = [], br_hashes = [(24, hex64 97), (25, hex64 97)], br_source = [u]\<rparr>" for u
    by (simp add: observe_range_def node_ops sat fixed Let_def)
  then have "canonical_range_plan quiet_node [str ''u''] True sample_token 24 60 [] () =
      (Inr \<lparr>br_to = 25, br_tip = 40, br_end_hash = hex64 97, br_logs = [],
        br_hashes = [(24, hex64 97), (25, hex64 97)], br_source = [str ''u'']\<rparr>, ())"
    by (simp add: canonical_range_plan_def retN_def)
  with canonical_range_contract [OF this] show ?thesis
    by auto
qed

text \<open>
  C20. Bisection is complete: when the provider answers log requests truthfully, the logs returned
  for a range are exactly the chain's transfer logs of the token in it, each once, in block and
  log order, however the provider's refusals made the client split the range.
\<close>

theorem transfer_logs_complete:
  assumes "normalize_evm_addr raw_token = Inr token" and "from \<le> to"
    and "truthful (request_logs env urls pinned_url token) token from to truth"
    and "transfer_logs_inner env urls raw_token from to pinned_url w = (Inr out, w')"
  shows "mset out = mset (filter (in_range from to) truth) \<and> sorted (map log_key out) \<and> distinct (map log_key out)"
proof -
  from assms(1,4) obtain res w1 where work: "log_work (request_logs env urls pinned_url token) token 4096 [(from, to)] [] w = (Inr res, w1)"
    and out: "out = sort_key log_key res" "distinct (map log_key out)"
    by (auto simp: transfer_logs_inner_def bindN_def liftN_def retN_def failN_def Let_def split: prod.splits sum.splits if_splits simp del: log_work.simps)
  have "mset res = mset (filter (in_range from to) truth)"
    using log_work_complete [OF assms(3) _ work] assms(2) by auto
  then show ?thesis
    using out by simp
qed

text \<open>A node that refuses every request of more than one block, with one transfer in block 11.\<close>

definition sample_log :: json where
  "sample_log = JObj [(str ''removed'', JBool False), (str ''address'', JStr sample_token),
     (str ''topics'', JArr [JStr TRANSFER_TOPIC, JStr (str ''0x'' @ replicate 24 48 @ replicate 40 97),
        JStr (str ''0x'' @ replicate 24 48 @ replicate 40 99)]),
     (str ''data'', JStr (hex64 48)), (str ''blockNumber'', JStr (str ''0xb'')), (str ''logIndex'', JStr (str ''0x2'')),
     (str ''blockHash'', JStr (hex64 97)), (str ''transactionHash'', JStr (hex64 100))]"

definition stingy_node :: "unit rpc_env" where
  "stingy_node = \<lparr>rpc_post = (\<lambda>url request w. (Inr (node_answer (\<lambda>filt.
      if jget filt ''fromBlock'' \<noteq> jget filt ''toBlock'' then rpc_refusal
      else rpc_answer (JArr (if jget filt ''fromBlock'' = Some (JStr (str ''0xb'')) then [sample_log] else []))) request), w)),
    rpc_now = (\<lambda>_. 100)\<rparr>"

definition sample_found :: found_log where
  "sample_found = (\<lparr>lg_address = sample_token, lg_topics = [TRANSFER_TOPIC, str ''0x'' @ replicate 24 48 @ replicate 40 97,
        str ''0x'' @ replicate 24 48 @ replicate 40 99], lg_data = hex64 48, lg_block_number = 11,
      lg_transaction_hash = hex64 100, lg_log_index = 2\<rparr>, hex64 97)"

lemma stingy_values:
  "hex_i64 10 = str ''0xa''" "hex_i64 11 = str ''0xb''" "hex_i64 12 = str ''0xc''"
  "parse_rpc_log sample_log = Inr (fst sample_found)" "hex_hash (jget sample_log ''blockHash'') label = Inr (hex64 97)"
  "normalize_evm_addr sample_token = Inr sample_token"
  by code_simp+

lemma stingy_request:
  "rpc_at stingy_node u ''eth_getLogs'' (log_params t lo hi) =
     (if hex_i64 lo \<noteq> hex_i64 hi then failN (Provider ''rpc_limit'')
      else retN (JArr (if hex_i64 lo = str ''0xb'' then [sample_log] else [])))"
  by (simp add: fun_eq_iff rpc_at_def bindN_def stingy_node_def node_answer_def method_of_def first_param_def
      rpc_request_def jget_str_def rpc_answer_def rpc_refusal_def rpc_result_def rpc_error_class_def retN_def failN_def
      liftN_def log_params_def checked_i64_def in_i64_def i64_max_def i64_min_def)

lemma stingy_answers:
  "request_logs stingy_node us (Some u) sample_token 10 12 = failN (Provider ''rpc_limit'')"
  "request_logs stingy_node us (Some u) sample_token 10 11 = failN (Provider ''rpc_limit'')"
  "request_logs stingy_node us (Some u) sample_token 11 12 = failN (Provider ''rpc_limit'')"
  "request_logs stingy_node us (Some u) sample_token 10 10 = retN (JArr [])"
  "request_logs stingy_node us (Some u) sample_token 11 11 = retN (JArr [sample_log])"
  "request_logs stingy_node us (Some u) sample_token 12 12 = retN (JArr [])"
proof -
  have "lg_address (fst sample_found) = sample_token" "lg_block_number (fst sample_found) = 11"
    by (simp_all add: sample_found_def)
  then have "validate_log (log_params sample_token 11 11) sample_log = Inr ()"
    by (simp add: validate_log_def stingy_values log_params_def jget_str_def field_quantity_def)
       (simp add: quantity_hex [of 11, simplified stingy_values] i64_max_def)
  then show "request_logs stingy_node us (Some u) sample_token 11 11 = retN (JArr [sample_log])"
    by (simp add: request_logs_def Let_def stingy_request stingy_values validate_rpc_result_def)
qed (simp_all add: request_logs_def Let_def stingy_request stingy_values validate_rpc_result_def)

lemma stingy_read:
  "read_logs sample_token 11 11 (JArr [sample_log]) = Inr [sample_found]"
  "read_logs sample_token lo hi (JArr []) = Inr []"
  by (simp_all add: read_logs_def read_log_def stingy_values)
     (simp_all add: sample_found_def stingy_values)

lemma stingy_truthful: "truthful (request_logs stingy_node us (Some u) sample_token) sample_token 10 12 [sample_found]"
  unfolding truthful_def
proof (intro allI impI)
  fix lo hi :: int and w v w'
  assume range: "10 \<le> lo" "lo \<le> hi" "hi \<le> 12" and run: "request_logs stingy_node us (Some u) sample_token lo hi w = (Inr v, w')"
  have block: "in_range a b sample_found \<longleftrightarrow> a \<le> 11 \<and> 11 \<le> b" for a b
    by (simp add: in_range_def sample_found_def)
  consider "lo = 10" "hi = 10" | "lo = 10" "hi = 11" | "lo = 10" "hi = 12" | "lo = 11" "hi = 11" | "lo = 11" "hi = 12"
    | "lo = 12" "hi = 12"
    using range by linarith
  then show "read_logs sample_token lo hi v = Inr (filter (in_range lo hi) [sample_found])"
    using run by cases (auto simp: stingy_answers retN_def failN_def stingy_read block)
qed

theorem transfer_logs_complete_witness:
  "\<exists>out w. transfer_logs_inner stingy_node [str ''u''] sample_token 10 12 (Some (str ''u'')) () = (Inr out, w)
     \<and> mset out = {#sample_found#}"
proof -
  have run: "transfer_logs_inner stingy_node [str ''u''] sample_token 10 12 (Some (str ''u'')) () = (Inr [sample_found], ())"
    by (simp add: transfer_logs_inner_def stingy_values stingy_answers stingy_read Let_def) (simp add: retN_def)
  have "filter (in_range 10 12) [sample_found] = [sample_found]"
    by (simp add: in_range_def sample_found_def)
  with transfer_logs_complete [OF stingy_values(6) _ stingy_truthful run] run show ?thesis
    by auto
qed

end
