(* ===== verification/RateLimit.thy ===== *)
theory RateLimit
  imports Complex_Main VotingConfig
begin

text \<open>
  The mutation quotas of the voting API (\<open>operator-voting/src/rate_limit.rs\<close>): token buckets in
  memory and the choice of the identity a request is counted under. A token count is an \<open>f64\<close>:
  every floating-point operation is the exact operation on rationals followed by the rounding
  \<open>rnd\<close>, of which the theorems assume what IEEE 754 documents. Instants are nanoseconds, and
  \<open>duration_since\<close> saturates at zero. Addresses, networks and their parsers are the parameters
  \<open>'ip\<close> and \<open>'n\<close>.
\<close>

section \<open>Token buckets\<close>

definition MAX_BUCKETS :: nat where
  "MAX_BUCKETS = 10000"

definition IDLE_TTL :: nat where
  "IDLE_TTL = 600 * 10 ^ 9"

record bucket =
  bu_key :: ustring
  bu_tokens :: rat
  bu_at :: nat

record 'n rate_limit_state =
  rl_buckets :: "bucket list"
  rl_per_minute :: nat
  rl_burst :: nat
  rl_trusted_peers :: "'n list"
  rl_observed_ingress :: bool

definition new_state :: "nat \<Rightarrow> nat \<Rightarrow> 'n rate_limit_state" where
  "new_state per_minute burst = \<lparr>rl_buckets = [], rl_per_minute = per_minute, rl_burst = max burst 1,
     rl_trusted_peers = [], rl_observed_ingress = False\<rparr>"

definition from_config :: "'n voting_config \<Rightarrow> 'n rate_limit_state" where
  "from_config cfg =
     (let state = new_state (vc_post_per_minute cfg) (vc_post_burst cfg) in
      if vc_trust_forwarded cfg then state\<lparr>rl_trusted_peers := vc_trusted_proxy_cidrs cfg\<rparr> else state)"

text \<open>\<open>Duration::as_secs_f64\<close>.\<close>

definition as_secs_f64 :: "(rat \<Rightarrow> rat) \<Rightarrow> nat \<Rightarrow> rat" where
  "as_secs_f64 rnd ns = rnd (rnd (of_nat (ns div 10 ^ 9)) + rnd (of_nat (ns mod 10 ^ 9) / 10 ^ 9))"

definition refill :: "(rat \<Rightarrow> rat) \<Rightarrow> nat \<Rightarrow> nat \<Rightarrow> rat \<Rightarrow> nat \<Rightarrow> rat" where
  "refill rnd per_minute burst tokens elapsed =
     min (rnd (tokens + rnd (rnd (as_secs_f64 rnd elapsed * of_nat per_minute) / 60))) (of_nat burst)"

definition retry_wait :: "(rat \<Rightarrow> rat) \<Rightarrow> nat \<Rightarrow> rat \<Rightarrow> nat" where
  "retry_wait rnd per_minute tokens =
     nat (max \<lceil>rnd (rnd (rnd (1 - tokens) * 60) / of_nat per_minute)\<rceil> 1)"

definition live_buckets :: "nat \<Rightarrow> bucket list \<Rightarrow> bucket list" where
  "live_buckets now_ns bs = filter (\<lambda>b. now_ns - bu_at b < IDLE_TTL) bs"

definition bucket_key :: "bucket list \<Rightarrow> ustring \<Rightarrow> ustring" where
  "bucket_key bs key = (if find_row bu_key key bs \<noteq> None \<or> length bs < MAX_BUCKETS then key else str ''overflow'')"

definition check_bucket :: "(rat \<Rightarrow> rat) \<Rightarrow> 'n rate_limit_state \<Rightarrow> ustring \<Rightarrow> nat \<Rightarrow> (nat + unit) \<times> 'n rate_limit_state" where
  "check_bucket rnd state key now_ns =
     (if rl_per_minute state = 0 then (Inr (), state)
      else
        let buckets = live_buckets now_ns (rl_buckets state);
            key = bucket_key buckets key;
            b = (case find_row bu_key key buckets of
                   Some b \<Rightarrow> b
                 | None \<Rightarrow> \<lparr>bu_key = key, bu_tokens = of_nat (rl_burst state), bu_at = now_ns\<rparr>);
            tokens = refill rnd (rl_per_minute state) (rl_burst state) (bu_tokens b) (now_ns - bu_at b);
            put = (\<lambda>t. state\<lparr>rl_buckets := upsert_row bu_key \<lparr>bu_key = key, bu_tokens = t, bu_at = now_ns\<rparr> buckets\<rparr>) in
        if 1 \<le> tokens then (Inr (), put (rnd (tokens - 1)))
        else (Inl (retry_wait rnd (rl_per_minute state) tokens), put tokens))"

section \<open>The identity of a request\<close>

record ('ip, 'n) ip_lib =
  parse_ip :: "ustring \<Rightarrow> 'ip option"
  show_ip :: "'ip \<Rightarrow> ustring"
  in_net :: "'n \<Rightarrow> 'ip \<Rightarrow> bool"
  private_ingress :: "'ip \<Rightarrow> bool"
  localhost_ip :: 'ip

definition is_trusted :: "('ip, 'n) ip_lib \<Rightarrow> 'n list \<Rightarrow> 'ip \<Rightarrow> bool" where
  "is_trusted lib peers ip \<longleftrightarrow> list_ex (\<lambda>cidr. in_net lib cidr ip) peers"

text \<open>
  The \<open>x-forwarded-for\<close> headers of a request: each is its text, or nothing when it is not text.
\<close>

definition client_ip :: "('ip, 'n) ip_lib \<Rightarrow> ustring option list \<Rightarrow> 'ip option \<Rightarrow> 'n list \<Rightarrow> 'ip" where
  "client_ip lib forwarded connect peers =
     (case connect of
        None \<Rightarrow> localhost_ip lib
      | Some peer \<Rightarrow>
          if \<not> is_trusted lib peers peer then peer
          else (case forwarded of
             Some raw # rest \<Rightarrow>
               if str_len raw > 2048 \<or> rest \<noteq> [] then peer
               else (case those (map (\<lambda>s. parse_ip lib (trim s)) (split_on 44 raw)) of
                  None \<Rightarrow> peer
                | Some hops \<Rightarrow>
                    if length hops > 16 then peer
                    else (case List.find (\<lambda>ip. \<not> is_trusted lib peers ip) (rev hops) of
                       None \<Rightarrow> peer
                     | Some ip \<Rightarrow> ip))
           | _ \<Rightarrow> peer))"

section \<open>The middleware\<close>

definition is_mutation :: "ustring \<Rightarrow> bool" where
  "is_mutation method \<longleftrightarrow> method \<in> {str ''POST'', str ''PUT'', str ''PATCH'', str ''DELETE''}"

text \<open>\<open>limited\<close>: the 429 answer with its \<open>Retry-After\<close>.\<close>

definition limited :: "nat \<Rightarrow> http_response" where
  "limited wait = \<lparr>rs_status = 429, rs_code = ''rate_limited'', rs_error = ''rate limited'', rs_retry_after = Some wait\<rparr>"

definition enforce_post_rate_limit ::
    "(rat \<Rightarrow> rat) \<Rightarrow> ('ip, 'n) ip_lib \<Rightarrow> 'n rate_limit_state \<Rightarrow> ustring \<Rightarrow> ustring option list \<Rightarrow> 'ip option \<Rightarrow> nat
       \<Rightarrow> (http_response + unit) \<times> 'n rate_limit_state" where
  "enforce_post_rate_limit rnd lib state method forwarded connect now_ns =
     (if \<not> is_mutation method then (Inr (), state)
      else
        let state = (case connect of
                       Some peer \<Rightarrow> if private_ingress lib peer then state\<lparr>rl_observed_ingress := True\<rparr> else state
                     | None \<Rightarrow> state);
            ip = client_ip lib forwarded connect (rl_trusted_peers state) in
        (case check_bucket rnd state (str ''ip:'' @ show_ip lib ip) now_ns of
           (Inl wait, state) \<Rightarrow> (Inl (limited wait), state)
         | (Inr _, state) \<Rightarrow> (Inr (), state)))"

section \<open>Bounds\<close>

text \<open>
  What IEEE 754 rounding documents and the limiter relies on: it is monotone and keeps the
  integers a \<open>u32\<close> can hold.
\<close>

definition f64_rounding :: "(rat \<Rightarrow> rat) \<Rightarrow> bool" where
  "f64_rounding rnd \<longleftrightarrow> mono rnd \<and> (\<forall>n < 2 ^ 32. rnd (of_nat n) = of_nat n)"

definition limiter_ok :: "'n rate_limit_state \<Rightarrow> bool" where
  "limiter_ok state \<longleftrightarrow>
     unique_by bu_key (rl_buckets state)
     \<and> length (filter (\<lambda>b. bu_key b \<noteq> str ''overflow'') (rl_buckets state)) \<le> MAX_BUCKETS
     \<and> (\<forall>b\<in>set (rl_buckets state). 0 \<le> bu_tokens b \<and> bu_tokens b \<le> of_nat (rl_burst state))
     \<and> 1 \<le> rl_burst state \<and> rl_burst state < 2 ^ 32"

lemma roundingD:
  assumes "f64_rounding rnd"
  shows "x \<le> y \<Longrightarrow> rnd x \<le> rnd y" and "n < 2 ^ 32 \<Longrightarrow> rnd (of_nat n) = of_nat n"
  using assms unfolding f64_rounding_def by (blast dest: monoD)+

lemma rounding_nonneg:
  assumes "f64_rounding rnd" and "0 \<le> x"
  shows "0 \<le> rnd x"
proof -
  have "rnd (of_nat 0) = of_nat 0"
    by (rule roundingD(2) [OF assms(1)]) simp
  with roundingD(1) [OF assms] show ?thesis
    by simp
qed

lemma rounding_below:
  assumes "f64_rounding rnd" and "x \<le> of_nat n" and "n < 2 ^ 32"
  shows "rnd x \<le> of_nat n"
  using roundingD(1) [OF assms(1,2)] roundingD(2) [OF assms(1,3)] by simp

lemma refill_bounds:
  assumes "f64_rounding rnd" and "0 \<le> t"
  shows "0 \<le> refill rnd pm burst t elapsed \<and> refill rnd pm burst t elapsed \<le> of_nat burst"
proof -
  note nonneg = rounding_nonneg [OF assms(1)]
  have "0 \<le> as_secs_f64 rnd elapsed"
    unfolding as_secs_f64_def by (intro nonneg add_nonneg_nonneg divide_nonneg_nonneg) simp_all
  then have "0 \<le> rnd (t + rnd (rnd (as_secs_f64 rnd elapsed * of_nat pm) / 60))"
    using assms(2) by (intro nonneg add_nonneg_nonneg divide_nonneg_nonneg mult_nonneg_nonneg) simp_all
  then show ?thesis
    by (simp add: refill_def)
qed

lemma length_live: "length (filter p (live_buckets now_ns bs)) \<le> length (filter p bs)"
  unfolding live_buckets_def filter_filter by (induction bs) auto

lemma length_upsert_other:
  "length (filter (\<lambda>q. key q \<noteq> c) (upsert_row key r bs)) \<le>
     (if key r \<noteq> c \<and> key r \<notin> key ` set bs then Suc (length (filter (\<lambda>q. key q \<noteq> c) bs))
      else length (filter (\<lambda>q. key q \<noteq> c) bs))"
proof (cases "key r \<in> key ` set bs")
  case True
  have "length (filter (\<lambda>q. key q \<noteq> c) (map (\<lambda>q. if key q = key r then r else q) bs)) = length (filter (\<lambda>q. key q \<noteq> c) bs)"
    by (induction bs) auto
  with True show ?thesis
    by (simp add: upsert_row_def find_row_None)
qed (auto simp: upsert_row_def find_row_None)

text \<open>The bucket a check reads, and the state it leaves.\<close>

definition bucket_for :: "'n rate_limit_state \<Rightarrow> ustring \<Rightarrow> nat \<Rightarrow> bucket" where
  "bucket_for state key now_ns =
     (let bs = live_buckets now_ns (rl_buckets state); k = bucket_key bs key in
      case find_row bu_key k bs of
        Some b \<Rightarrow> b
      | None \<Rightarrow> \<lparr>bu_key = k, bu_tokens = of_nat (rl_burst state), bu_at = now_ns\<rparr>)"

definition put_bucket :: "'n rate_limit_state \<Rightarrow> ustring \<Rightarrow> rat \<Rightarrow> nat \<Rightarrow> 'n rate_limit_state" where
  "put_bucket state k t now_ns = state\<lparr>rl_buckets :=
     upsert_row bu_key \<lparr>bu_key = k, bu_tokens = t, bu_at = now_ns\<rparr> (live_buckets now_ns (rl_buckets state))\<rparr>"

lemma check_bucket_eq:
  assumes "0 < rl_per_minute state"
  shows "check_bucket rnd state key now_ns =
     (let k = bucket_key (live_buckets now_ns (rl_buckets state)) key; b = bucket_for state key now_ns;
          t = refill rnd (rl_per_minute state) (rl_burst state) (bu_tokens b) (now_ns - bu_at b) in
      if 1 \<le> t then (Inr (), put_bucket state k (rnd (t - 1)) now_ns)
      else (Inl (retry_wait rnd (rl_per_minute state) t), put_bucket state k t now_ns))"
  using assms unfolding check_bucket_def bucket_for_def put_bucket_def Let_def by simp

lemma bucket_for_tokens:
  assumes "limiter_ok state"
  shows "0 \<le> bu_tokens (bucket_for state key now_ns)"
proof -
  have "0 \<le> bu_tokens b" if "find_row bu_key k (live_buckets now_ns (rl_buckets state)) = Some b" for k b
    using find_row_SomeD [OF that] assms by (simp add: limiter_ok_def live_buckets_def)
  then show ?thesis
    by (simp add: bucket_for_def Let_def split: option.split)
qed

lemma put_bucket_ok:
  assumes "limiter_ok state" and "0 \<le> t" and "t \<le> of_nat (rl_burst state)"
  shows "limiter_ok (put_bucket state (bucket_key (live_buckets now_ns (rl_buckets state)) key) t now_ns)"
proof -
  define bs where "bs = live_buckets now_ns (rl_buckets state)"
  define k where "k = bucket_key bs key"
  define r where "r = \<lparr>bu_key = k, bu_tokens = t, bu_at = now_ns\<rparr>"
  have live: "set bs \<subseteq> set (rl_buckets state)" "unique_by bu_key bs"
    using assms(1) by (auto simp: bs_def live_buckets_def limiter_ok_def)
  have few: "length (filter (\<lambda>b. bu_key b \<noteq> str ''overflow'') bs) \<le> MAX_BUCKETS"
    using length_live [of "\<lambda>b. bu_key b \<noteq> str ''overflow''" now_ns "rl_buckets state"] assms(1)
    by (simp add: bs_def limiter_ok_def)
  have "length (filter (\<lambda>b. bu_key b \<noteq> str ''overflow'') bs) < MAX_BUCKETS"
    if "k \<noteq> str ''overflow''" "k \<notin> bu_key ` set bs"
    using that le_less_trans [OF length_filter_le]
    by (auto simp: k_def bucket_key_def find_row_None split: if_splits)
  then have "length (filter (\<lambda>b. bu_key b \<noteq> str ''overflow'') (upsert_row bu_key r bs)) \<le> MAX_BUCKETS"
    using length_upsert_other [of bu_key "str ''overflow''" r bs] few by (auto simp: r_def split: if_splits)
  then show ?thesis
    using assms live by (auto simp: limiter_ok_def put_bucket_def set_upsert_row r_def bs_def k_def)
qed

lemma check_bucket_ok:
  assumes "f64_rounding rnd" and "limiter_ok state"
  shows "limiter_ok (snd (check_bucket rnd state key now_ns))"
proof (cases "rl_per_minute state = 0")
  case True
  with assms show ?thesis
    by (simp add: check_bucket_def)
next
  case False
  define b where "b = bucket_for state key now_ns"
  define t where "t = refill rnd (rl_per_minute state) (rl_burst state) (bu_tokens b) (now_ns - bu_at b)"
  have t: "0 \<le> t" "t \<le> of_nat (rl_burst state)"
    using refill_bounds [OF assms(1) bucket_for_tokens [OF assms(2)]] unfolding t_def b_def by blast+
  have "0 \<le> rnd (t - 1) \<and> rnd (t - 1) \<le> of_nat (rl_burst state)" if "1 \<le> t"
    using that t assms(2) rounding_nonneg [OF assms(1), of "t - 1"] rounding_below [OF assms(1), of "t - 1" "rl_burst state"]
    by (simp add: limiter_ok_def)
  with t put_bucket_ok [OF assms(2)] False show ?thesis
    by (simp add: check_bucket_eq Let_def b_def [symmetric] t_def [symmetric])
qed

section \<open>The rate\<close>

text \<open>The tokens earned in a time, exactly.\<close>

definition earned :: "nat \<Rightarrow> nat \<Rightarrow> rat" where
  "earned per_minute ns = of_nat ns / 10 ^ 9 * of_nat per_minute / 60"

text \<open>\<open>slack\<close> bounds what rounding can add in one operation on a bucket.\<close>

definition f64_slack :: "(rat \<Rightarrow> rat) \<Rightarrow> nat \<Rightarrow> nat \<Rightarrow> rat \<Rightarrow> bool" where
  "f64_slack rnd pm burst slack \<longleftrightarrow> 0 \<le> slack \<and>
     (\<forall>t elapsed. 0 \<le> t \<and> t \<le> of_nat burst \<and> elapsed < IDLE_TTL \<longrightarrow>
        refill rnd pm burst t elapsed \<le> t + earned pm elapsed + slack \<and> rnd (t - 1) \<le> t - 1 + slack)"

text \<open>The tokens a bucket is good for at an instant.\<close>

definition available :: "'n rate_limit_state \<Rightarrow> ustring \<Rightarrow> nat \<Rightarrow> rat" where
  "available state k now_ns =
     (case find_row bu_key k (rl_buckets state) of
        None \<Rightarrow> of_nat (rl_burst state)
      | Some b \<Rightarrow> min (of_nat (rl_burst state))
                    (bu_tokens b + earned (rl_per_minute state) (now_ns - bu_at b)))"

definition counted_under :: "'n rate_limit_state \<Rightarrow> ustring \<Rightarrow> nat \<Rightarrow> ustring" where
  "counted_under state key now_ns = bucket_key (live_buckets now_ns (rl_buckets state)) key"

text \<open>How many requests of a sequence bucket \<open>k\<close> lets pass.\<close>

fun granted :: "(rat \<Rightarrow> rat) \<Rightarrow> ustring \<Rightarrow> 'n rate_limit_state \<Rightarrow> (ustring \<times> nat) list \<Rightarrow> nat" where
  "granted rnd k state [] = 0"
| "granted rnd k state ((key, now_ns) # requests) =
     (case check_bucket rnd state key now_ns of
        (r, state') \<Rightarrow> (if r = Inr () \<and> counted_under state key now_ns = k then 1 else 0) + granted rnd k state' requests)"

lemma earned_mono: "a \<le> b \<Longrightarrow> earned pm a \<le> earned pm b"
  by (simp add: earned_def divide_right_mono mult_right_mono)

lemma earned_nonneg: "0 \<le> earned pm a"
  by (simp add: earned_def)

lemma earned_0 [simp]: "earned pm 0 = 0"
  by (simp add: earned_def)

lemma earned_add: "earned pm (a + b) = earned pm a + earned pm b"
  by (simp add: earned_def add_divide_distrib distrib_right)

lemma available_later:
  assumes "t \<le> t'"
  shows "available state k t' \<le> available state k t + earned (rl_per_minute state) (t' - t)"
proof (cases "find_row bu_key k (rl_buckets state)")
  case None
  then show ?thesis
    using earned_nonneg by (simp add: available_def)
next
  case (Some b)
  have "earned (rl_per_minute state) (t' - bu_at b) \<le> earned (rl_per_minute state) (t - bu_at b + (t' - t))"
    by (rule earned_mono) (use assms in simp)
  then show ?thesis
    using Some earned_nonneg [of "rl_per_minute state" "t' - t"] by (simp add: available_def earned_add min_def)
qed

lemma available_nonneg:
  assumes "limiter_ok state"
  shows "0 \<le> available state k now_ns"
  using assms find_row_SomeD [of bu_key k "rl_buckets state"] earned_nonneg
  by (auto simp: available_def limiter_ok_def split: option.split)

lemma find_live: "unique_by bu_key bs \<Longrightarrow> find_row bu_key k (live_buckets now_ns bs) =
    (case find_row bu_key k bs of Some b \<Rightarrow> if now_ns - bu_at b < IDLE_TTL then Some b else None | None \<Rightarrow> None)"
  unfolding live_buckets_def
  by (induction bs) (auto simp: find_row_Cons unique_by_def split: option.splits dest!: find_row_SomeD)

text \<open>A bucket that is dropped comes back full; it was full when ten minutes earn a burst.\<close>

lemma dropped_full:
  assumes "rl_burst state \<le> 10 * rl_per_minute state" and "0 \<le> bu_tokens b" and "IDLE_TTL \<le> now_ns - bu_at b"
  shows "of_nat (rl_burst state) \<le> bu_tokens b + earned (rl_per_minute state) (now_ns - bu_at b)"
proof -
  have "of_nat (rl_burst state) \<le> (of_nat (10 * rl_per_minute state) :: rat)"
    using assms(1) of_nat_le_iff by blast
  also have "\<dots> = earned (rl_per_minute state) IDLE_TTL"
    by (simp add: earned_def IDLE_TTL_def)
  also have "\<dots> \<le> earned (rl_per_minute state) (now_ns - bu_at b)"
    using assms(3) by (rule earned_mono)
  finally show ?thesis
    using assms(2) by simp
qed

lemma available_live:
  assumes "limiter_ok state" and "rl_burst state \<le> 10 * rl_per_minute state"
  shows "available (state\<lparr>rl_buckets := live_buckets now_ns (rl_buckets state)\<rparr>) k now_ns = available state k now_ns"
proof (cases "find_row bu_key k (rl_buckets state)")
  case (Some b)
  then have "0 \<le> bu_tokens b"
    using find_row_SomeD [OF Some] assms(1) by (simp add: limiter_ok_def)
  from dropped_full [OF assms(2) this, of now_ns] show ?thesis
    using Some assms(1) by (simp add: available_def find_live limiter_ok_def min_absorb1)
qed (use assms(1) in \<open>simp add: available_def find_live limiter_ok_def\<close>)

lemma put_bucket_available:
  "available (put_bucket state k' t now_ns) k now_ns =
     (if k = k' then min (of_nat (rl_burst state)) t
      else available (state\<lparr>rl_buckets := live_buckets now_ns (rl_buckets state)\<rparr>) k now_ns)"
  by (auto simp: available_def put_bucket_def find_row_upsert split: option.split)

lemma bucket_for_available:
  assumes ok: "limiter_ok state" and "f64_slack rnd (rl_per_minute state) (rl_burst state) slack"
  shows "refill rnd (rl_per_minute state) (rl_burst state) (bu_tokens (bucket_for state key now_ns))
       (now_ns - bu_at (bucket_for state key now_ns))
     \<le> available (state\<lparr>rl_buckets := live_buckets now_ns (rl_buckets state)\<rparr>) (counted_under state key now_ns) now_ns + slack"
proof -
  have full: "refill rnd (rl_per_minute state) (rl_burst state) t e \<le> of_nat (rl_burst state)" for t e
    by (simp add: refill_def)
  have slack: "0 \<le> slack"
    using assms(2) by (simp add: f64_slack_def)
  show ?thesis
  proof (cases "find_row bu_key (counted_under state key now_ns) (live_buckets now_ns (rl_buckets state))")
    case None
    then show ?thesis
      using full [of "of_nat (rl_burst state)" 0] slack by (simp add: bucket_for_def available_def counted_under_def Let_def)
  next
    case (Some b)
    then have b: "b \<in> set (rl_buckets state)" "now_ns - bu_at b < IDLE_TTL"
      using find_row_SomeD [OF Some] by (simp_all add: live_buckets_def)
    then have "refill rnd (rl_per_minute state) (rl_burst state) (bu_tokens b) (now_ns - bu_at b)
        \<le> bu_tokens b + earned (rl_per_minute state) (now_ns - bu_at b) + slack"
      using assms by (simp add: f64_slack_def limiter_ok_def)
    then show ?thesis
      using Some full [of "bu_tokens b" "now_ns - bu_at b"] slack
      by (simp add: bucket_for_def available_def counted_under_def Let_def min_def)
  qed
qed

lemma check_bucket_spends:
  assumes rnd: "f64_rounding rnd" "f64_slack rnd (rl_per_minute state) (rl_burst state) slack"
    and ok: "limiter_ok state" and pm: "0 < rl_per_minute state" "rl_burst state \<le> 10 * rl_per_minute state"
    and run: "check_bucket rnd state key now_ns = (r, state')"
  shows "available state' k now_ns + (if r = Inr () \<and> counted_under state key now_ns = k then 1 else 0)
     \<le> available state k now_ns + 2 * slack"
proof -
  define k' where "k' = counted_under state key now_ns"
  define b where "b = bucket_for state key now_ns"
  define t where "t = refill rnd (rl_per_minute state) (rl_burst state) (bu_tokens b) (now_ns - bu_at b)"
  define live where "live = state\<lparr>rl_buckets := live_buckets now_ns (rl_buckets state)\<rparr>"
  have slack: "0 \<le> slack"
    using rnd(2) by (simp add: f64_slack_def)
  have same: "available live k now_ns = available state k now_ns" for k
    unfolding live_def by (rule available_live [OF ok pm(2)])
  have result: "(r, state') = (if 1 \<le> t then (Inr (), put_bucket state k' (rnd (t - 1)) now_ns)
      else (Inl (retry_wait rnd (rl_per_minute state) t), put_bucket state k' t now_ns))"
    using run unfolding check_bucket_eq [OF pm(1)] Let_def k'_def counted_under_def b_def t_def by simp
  have t: "t \<le> available live k' now_ns + slack \<and> (1 \<le> t \<longrightarrow> rnd (t - 1) \<le> t - 1 + slack)"
  proof
    show "t \<le> available live k' now_ns + slack"
      unfolding t_def b_def live_def k'_def by (rule bucket_for_available [OF ok rnd(2)])
    have "0 \<le> t \<and> t \<le> of_nat (rl_burst state)"
      unfolding t_def b_def by (rule refill_bounds [OF rnd(1) bucket_for_tokens [OF ok]])
    then show "1 \<le> t \<longrightarrow> rnd (t - 1) \<le> t - 1 + slack"
      using rnd(2) unfolding f64_slack_def by (auto simp: IDLE_TTL_def dest!: spec [of _ "0 :: nat"])
  qed
  show ?thesis
  proof (cases "k = k'")
    case True
    with result t same [of k'] slack show ?thesis
      by (auto simp: put_bucket_available k'_def [symmetric] split: if_splits)
  next
    case False
    with result same [of k] slack show ?thesis
      by (auto simp: put_bucket_available k'_def [symmetric] live_def [symmetric] split: if_splits)
  qed
qed

lemma check_bucket_limits:
  "rl_per_minute (snd (check_bucket rnd state key now_ns)) = rl_per_minute state"
  "rl_burst (snd (check_bucket rnd state key now_ns)) = rl_burst state"
  by (simp_all add: check_bucket_def Let_def)

lemma granted_bound:
  assumes rnd: "f64_rounding rnd" "f64_slack rnd (rl_per_minute state) (rl_burst state) slack"
    and ok: "limiter_ok state" and pm: "0 < rl_per_minute state" "rl_burst state \<le> 10 * rl_per_minute state"
    and times: "sorted (t # map snd requests)" "\<forall>u\<in>snd ` set requests. u \<le> T" "t \<le> T"
  shows "of_nat (granted rnd k state requests)
     \<le> available state k t + earned (rl_per_minute state) (T - t) + 2 * slack * of_nat (length requests)"
  using rnd(2) ok pm times
proof (induction requests arbitrary: state t)
  case Nil
  then show ?case
    using available_nonneg [of state k t] earned_nonneg [of "rl_per_minute state" "T - t"] by simp
next
  case (Cons request requests)
  obtain key u where request: "request = (key, u)"
    by (cases request)
  obtain r state' where run: "check_bucket rnd state key u = (r, state')"
    by (cases "check_bucket rnd state key u")
  have u: "t \<le> u" "u \<le> T"
    using Cons.prems(5,6) request by auto
  have state': "limiter_ok state'" "rl_per_minute state' = rl_per_minute state" "rl_burst state' = rl_burst state"
    using check_bucket_ok [OF rnd(1) Cons.prems(2), of key u] check_bucket_limits [of rnd state key u] run by simp_all
  have "of_nat (granted rnd k state' requests)
      \<le> available state' k u + earned (rl_per_minute state') (T - u) + 2 * slack * of_nat (length requests)"
    by (rule Cons.IH) (use Cons.prems state' u request in auto)
  moreover have "available state' k u + (if r = Inr () \<and> counted_under state key u = k then 1 else 0)
      \<le> available state k u + 2 * slack"
    by (rule check_bucket_spends [OF rnd(1) Cons.prems(1-4) run])
  moreover have "available state k u \<le> available state k t + earned (rl_per_minute state) (u - t)"
    using u(1) by (rule available_later)
  moreover have "earned (rl_per_minute state) (T - t) = earned (rl_per_minute state) (u - t) + earned (rl_per_minute state) (T - u)"
    using u by (simp add: earned_add [symmetric])
  ultimately show ?case
    using request run state'(2)
    by (cases "r = Inr () \<and> counted_under state key u = k") (auto simp: algebra_simps)
qed

lemma available_burst: "available state k t \<le> of_nat (rl_burst state)"
  by (simp add: available_def split: option.split)

lemma new_state_ok: "burst < 2 ^ 32 \<Longrightarrow> limiter_ok (new_state per_minute burst)"
  by (simp add: limiter_ok_def new_state_def)

lemma length_unique_key: "unique_by key bs \<Longrightarrow> length (filter (\<lambda>b. key b = c) bs) \<le> 1"
  by (induction bs) (auto simp: unique_by_def filter_empty_conv image_iff)

lemma buckets_length:
  assumes "limiter_ok state"
  shows "length (rl_buckets state) \<le> MAX_BUCKETS + 1"
  using assms length_unique_key [of bu_key "rl_buckets state" "str ''overflow''"]
    sum_length_filter_compl [of "\<lambda>b. bu_key b = str ''overflow''" "rl_buckets state"]
  by (simp add: limiter_ok_def)

lemma retry_wait_range:
  assumes "f64_rounding rnd" and "0 \<le> t" and "0 < pm"
  shows "1 \<le> retry_wait rnd pm t \<and> retry_wait rnd pm t \<le> 60"
proof -
  note below = rounding_below [OF assms(1)]
  have "rnd (1 - t) \<le> of_nat 1"
    by (rule below) (use assms(2) in simp_all)
  then have "rnd (rnd (1 - t) * 60) \<le> of_nat 60"
    by (intro below) simp_all
  then have "rnd (rnd (1 - t) * 60) / of_nat pm \<le> of_nat 60"
    using assms(3) by (simp add: divide_le_eq)
  then have "rnd (rnd (rnd (1 - t) * 60) / of_nat pm) \<le> of_nat 60"
    by (rule below) simp
  then have "\<lceil>rnd (rnd (rnd (1 - t) * 60) / of_nat pm)\<rceil> \<le> 60"
    by (simp add: ceiling_le_iff)
  then show ?thesis
    by (simp add: retry_wait_def nat_le_iff le_nat_iff)
qed

section \<open>Properties\<close>

text \<open>
  The limiter's memory is bounded and its answers are in range: a check keeps at most
  \<open>MAX_BUCKETS\<close> buckets and the shared one, every bucket between nothing and a burst, whoever
  calls and in whatever rhythm, and a refused caller is told to wait between one and sixty seconds.
\<close>

theorem check_bucket_bounded:
  assumes "f64_rounding rnd" and "limiter_ok state"
  shows "limiter_ok (snd (check_bucket rnd state key now_ns))
     \<and> length (rl_buckets (snd (check_bucket rnd state key now_ns))) \<le> MAX_BUCKETS + 1
     \<and> (case fst (check_bucket rnd state key now_ns) of Inl wait \<Rightarrow> 1 \<le> wait \<and> wait \<le> 60 | Inr _ \<Rightarrow> True)"
proof (intro conjI)
  show ok: "limiter_ok (snd (check_bucket rnd state key now_ns))"
    by (rule check_bucket_ok [OF assms])
  show "length (rl_buckets (snd (check_bucket rnd state key now_ns))) \<le> MAX_BUCKETS + 1"
    using ok by (rule buckets_length)
  show "case fst (check_bucket rnd state key now_ns) of Inl wait \<Rightarrow> 1 \<le> wait \<and> wait \<le> 60 | Inr _ \<Rightarrow> True"
  proof (cases "rl_per_minute state = 0")
    case False
    have "0 \<le> refill rnd (rl_per_minute state) (rl_burst state) (bu_tokens (bucket_for state key now_ns)) e" for e
      using refill_bounds [OF assms(1) bucket_for_tokens [OF assms(2)]] by blast
    with False retry_wait_range [OF assms(1)] show ?thesis
      by (simp add: check_bucket_eq Let_def)
  qed (simp add: check_bucket_def)
qed

definition sample_limiter :: "unit rate_limit_state" where
  "sample_limiter = new_state 60 1"

lemma exact_rounding: "f64_rounding (\<lambda>x. x)" "f64_slack (\<lambda>x. x) pm burst 0"
proof -
  show "f64_rounding (\<lambda>x. x)"
    by (simp add: f64_rounding_def mono_def)
  have secs: "as_secs_f64 (\<lambda>x. x) elapsed = of_nat elapsed / 10 ^ 9" for elapsed
  proof -
    have "(of_nat elapsed :: rat) = of_nat (10 ^ 9 * (elapsed div 10 ^ 9) + elapsed mod 10 ^ 9)"
      by simp
    then show ?thesis
      unfolding of_nat_add of_nat_mult by (simp add: as_secs_f64_def add_divide_distrib)
  qed
  show "f64_slack (\<lambda>x. x) pm burst 0"
    unfolding f64_slack_def refill_def earned_def secs by simp
qed

lemma split_on_append: "split_on d (a @ d # b) = split_on d a @ split_on d b"
proof (induction a)
  case (Cons c a)
  obtain w ws where "split_on d a = w # ws"
    by (cases "split_on d a") auto
  with Cons show ?case
    by simp
qed (simp split: list.split)

lemma find_append: "List.find P (xs @ ys) = (case List.find P xs of Some x \<Rightarrow> Some x | None \<Rightarrow> List.find P ys)"
  by (induction xs) auto

theorem check_bucket_bounded_witness:
  "case fst (check_bucket (\<lambda>x. x) (snd (check_bucket (\<lambda>x. x) sample_limiter (str ''ip:a'') 0)) (str ''ip:a'') 0) of
     Inl wait \<Rightarrow> 1 \<le> wait \<and> wait \<le> 60 | Inr _ \<Rightarrow> True"
  by (rule check_bucket_bounded [OF exact_rounding(1) check_bucket_ok [OF exact_rounding(1)], THEN conjunct2, THEN conjunct2])
     (simp add: sample_limiter_def new_state_ok)

text \<open>
  C39. No bucket lets more requests pass than its quota: in any sequence of requests, of this and of
  any other identity, those that pass on one bucket between two instants are at most a burst and
  what the time between them earns, up to what rounding adds to each operation. The hypothesis on
  the configuration is needed: a bucket that is idle for ten minutes is dropped and comes back full.
\<close>

theorem granted_within_quota:
  assumes "f64_rounding rnd" and "f64_slack rnd (rl_per_minute state) (rl_burst state) slack"
    and "limiter_ok state" and "0 < rl_per_minute state" and "rl_burst state \<le> 10 * rl_per_minute state"
    and "sorted (t # map snd requests)" and "\<forall>u\<in>snd ` set requests. u \<le> T" and "t \<le> T"
  shows "of_nat (granted rnd k state requests)
     \<le> of_nat (rl_burst state) + earned (rl_per_minute state) (T - t) + 2 * slack * of_nat (length requests)"
  using granted_bound [OF assms, of k] available_burst [of state k t] by simp

theorem granted_within_quota_witness:
  "of_nat (granted (\<lambda>x. x) (str ''ip:a'') sample_limiter [(str ''ip:a'', 0), (str ''ip:a'', 0), (str ''ip:a'', 10 ^ 9)]) \<le> (2 :: rat)"
proof -
  have "of_nat (granted (\<lambda>x. x) (str ''ip:a'') sample_limiter [(str ''ip:a'', 0), (str ''ip:a'', 0), (str ''ip:a'', 10 ^ 9)])
      \<le> (of_nat (rl_burst sample_limiter) :: rat) + earned (rl_per_minute sample_limiter) (10 ^ 9 - 0)
        + 2 * 0 * of_nat (length [(str ''ip:a'', 0 :: nat), (str ''ip:a'', 0), (str ''ip:a'', 10 ^ 9)])"
    by (rule granted_within_quota [OF exact_rounding])
       (simp_all add: sample_limiter_def new_state_ok, simp_all add: new_state_def)
  then show ?thesis
    by (simp add: sample_limiter_def new_state_def earned_def)
qed

text \<open>
  Without that hypothesis the quota can be exceeded: a bucket that was emptied and then idle for the
  ten minutes after which it is dropped comes back with the whole burst, when it has earned ten
  times the rate.
\<close>

lemma idle_bucket_restored:
  assumes "rl_buckets state = [\<lparr>bu_key = k, bu_tokens = 0, bu_at = 0\<rparr>]"
  shows "bu_tokens (bucket_for state k IDLE_TTL) = of_nat (rl_burst state)
     \<and> bu_tokens (hd (rl_buckets state)) + earned (rl_per_minute state) IDLE_TTL = 10 * of_nat (rl_per_minute state)"
  using assms by (simp add: bucket_for_def live_buckets_def Let_def IDLE_TTL_def earned_def)

abbreviation hops_of :: "('ip, 'n) ip_lib \<Rightarrow> ustring \<Rightarrow> 'ip list option" where
  "hops_of lib raw \<equiv> those (map (\<lambda>s. parse_ip lib (trim s)) (split_on 44 raw))"

lemma hops_of_append:
  "hops_of lib (a @ [44] @ b) = (case hops_of lib a of None \<Rightarrow> None | Some x \<Rightarrow> map_option ((@) x) (hops_of lib b))"
proof -
  have "those (xs @ ys) = (case those xs of None \<Rightarrow> None | Some x \<Rightarrow> map_option ((@) x) (those ys))" for xs ys :: "'c option list"
    by (induction xs) (cases "those ys"; auto split: option.split)+
  then show ?thesis by (simp add: split_on_append)
qed

lemma nearest_untrusted:
  assumes "hops = before @ ip # proxies" and "\<not> is_trusted lib peers ip" and "list_all (is_trusted lib peers) proxies"
  shows "List.find (\<lambda>ip. \<not> is_trusted lib peers ip) (rev (lies @ hops)) = Some ip"
proof -
  have "List.find (\<lambda>ip. \<not> is_trusted lib peers ip) (rev proxies) = None"
    using assms(3) by (simp add: find_None_iff list_all_iff)
  with assms(1,2) show ?thesis
    by (simp add: find_append)
qed

text \<open>
  C40. A forwarded address cannot be chosen by the client. Without a connection the identity is the
  local host, and that of a peer that is no configured proxy is the peer, whatever is forwarded.
  Behind a proxy, let \<open>raw\<close> be what the proxies wrote and \<open>ip\<close> the hop of it behind which every hop is a
  proxy. Whatever text a client puts in front of it, the request is counted under \<open>ip\<close> exactly when
  the whole header parses and stays within 2048 bytes and sixteen hops, and under the proxy itself
  otherwise, as it is when there is more than one header: an address a client has written is never
  the identity.
\<close>

theorem client_ip_unspoofable:
  assumes "hops_of lib raw = Some hops" and "hops = before @ ip # proxies" and "\<not> is_trusted lib peers ip"
    and "list_all (is_trusted lib peers) proxies"
  shows "client_ip lib headers None peers = localhost_ip lib
     \<and> (\<not> is_trusted lib peers peer \<longrightarrow> client_ip lib headers (Some peer) peers = peer)
     \<and> (is_trusted lib peers peer \<longrightarrow>
          (length headers \<noteq> 1 \<longrightarrow> client_ip lib headers (Some peer) peers = peer)
        \<and> client_ip lib [Some raw] (Some peer) peers = (if str_len raw \<le> 2048 \<and> length hops \<le> 16 then ip else peer)
        \<and> client_ip lib [Some (forged @ [44] @ raw)] (Some peer) peers =
            (if str_len (forged @ [44] @ raw) \<le> 2048
                \<and> (\<exists>lies. hops_of lib forged = Some lies \<and> length lies + length hops \<le> 16) then ip else peer))"
proof -
  note nearest = nearest_untrusted [OF assms(2-4)]
  have one: "client_ip lib headers (Some peer) peers = peer" if "length headers \<noteq> 1"
    using that by (cases headers) (auto simp: client_ip_def split: option.splits)
  have raw: "client_ip lib [Some raw] (Some peer) peers = (if str_len raw \<le> 2048 \<and> length hops \<le> 16 then ip else peer)"
    if "is_trusted lib peers peer"
    using that assms(1) nearest [of "[]"] by (simp add: client_ip_def)
  have forged: "client_ip lib [Some (forged @ [44] @ raw)] (Some peer) peers =
            (if str_len (forged @ [44] @ raw) \<le> 2048
                \<and> (\<exists>lies. hops_of lib forged = Some lies \<and> length lies + length hops \<le> 16) then ip else peer)"
    if "is_trusted lib peers peer"
  proof (cases "hops_of lib forged")
    case None
    then have "hops_of lib (forged @ [44] @ raw) = None"
      unfolding hops_of_append by simp
    with that None show ?thesis
      by (simp add: client_ip_def del: append.simps)
  next
    case (Some lies)
    then have "hops_of lib (forged @ [44] @ raw) = Some (lies @ hops)"
      unfolding hops_of_append by (simp add: assms(1))
    with that Some nearest [of lies] show ?thesis
      by (simp add: client_ip_def del: append.simps rev_append)
  qed
  show ?thesis
    using one raw forged by (auto simp: client_ip_def)
qed

definition sample_ips :: "(nat, nat) ip_lib" where
  "sample_ips = \<lparr>parse_ip = (\<lambda>s. if s = str ''garbage'' then None else Some (length s)), show_ip = nat_digits,
     in_net = (=), private_ingress = (\<lambda>_. False), localhost_ip = 0\<rparr>"

theorem client_ip_unspoofable_witness:
  "client_ip sample_ips [Some (str ''9.9.9.9'' @ [44] @ str ''1.2.3,x'')] (Some 1) [1] = 5
   \<and> client_ip sample_ips [Some (str ''garbage'' @ [44] @ str ''1.2.3,x'')] (Some 1) [1] = 1"
proof -
  have raw: "hops_of sample_ips (str ''1.2.3,x'') = Some [5, 1]" "\<not> is_trusted sample_ips [1] 5"
      "list_all (is_trusted sample_ips [1]) [1]" "is_trusted sample_ips [1] 1"
      "hops_of sample_ips (str ''9.9.9.9'') = Some [7]" "hops_of sample_ips (str ''garbage'') = None"
      "str_len (str ''9.9.9.9'' @ [44] @ str ''1.2.3,x'') \<le> 2048"
    by code_simp+
  show ?thesis
    using client_ip_unspoofable [OF raw(1) _ raw(2,3), of "[]" "[]" 1 "str ''9.9.9.9''"]
      client_ip_unspoofable [OF raw(1) _ raw(2,3), of "[]" "[]" 1 "str ''garbage''"] raw(4-7)
    by simp
qed

end
