(* ===== verification/Routes.thy ===== *)
theory Routes
  imports VotingProps RateLimit "HOL-Library.Word"
begin

text \<open>
  The router of the voting API (\<open>api.rs\<close> and \<open>contracts.rs\<close>): which path and method reach
  which handler, how the typed envelope of a request is read from JSON, and the answers of the
  routes that only read. What \<open>axum\<close> does with the bytes of a request, the extraction of a JSON
  body, of a path and of a query, and its own rejections, are the fields of \<open>http_lib\<close>.
\<close>

section \<open>Requests and replies\<close>

type_synonym bytes = "8 word list"

text \<open>
  A header is absent, present but not text, or its text. The path is the list of its segments.
\<close>

record 'ip http_request =
  rq_method :: ustring
  rq_path :: "ustring list"
  rq_origin :: "ustring option option"
  rq_cors_method :: "ustring option option"
  rq_cors_headers :: "ustring option option"
  rq_forwarded :: "ustring option list"
  rq_peer :: "'ip option"
  rq_query :: ustring
  rq_body :: bytes

record reply =
  ry_status :: nat
  ry_headers :: "(string \<times> ustring) list"
  ry_body :: bytes

record 'ip http_lib =
  bytes_json :: "bytes \<Rightarrow> json option"
  json_bytes :: "json \<Rightarrow> bytes"
  extract_json :: "'ip http_request \<Rightarrow> reply + json"
  extract_uuid :: "ustring \<Rightarrow> reply + uuid"
  query_text :: "ustring \<Rightarrow> string \<Rightarrow> reply + ustring option"
  query_i64 :: "ustring \<Rightarrow> string \<Rightarrow> reply + int option"
  wrong_shape :: reply
  no_route :: reply
  wrong_method :: reply
  cors_answer :: "ustring list \<Rightarrow> 'ip http_request \<Rightarrow> reply option"
  cors_headers :: "ustring list \<Rightarrow> 'ip http_request \<Rightarrow> reply \<Rightarrow> (string \<times> ustring) list"
  too_large :: "nat \<Rightarrow> 'ip http_request \<Rightarrow> reply option"
  openapi_document :: json

definition put_header :: "string \<Rightarrow> ustring \<Rightarrow> (string \<times> ustring) list \<Rightarrow> (string \<times> ustring) list" where
  "put_header name value headers = filter (\<lambda>h. fst h \<noteq> name) headers @ [(name, value)]"

definition json_reply :: "'ip http_lib \<Rightarrow> nat \<Rightarrow> json \<Rightarrow> reply" where
  "json_reply lib status v =
     \<lparr>ry_status = status, ry_headers = [(''content-type'', str ''application/json'')], ry_body = json_bytes lib v\<rparr>"

text \<open>\<open>ErrorBody\<close> without a request id, and its \<open>Retry-After\<close>.\<close>

definition error_reply :: "'ip http_lib \<Rightarrow> http_response \<Rightarrow> reply" where
  "error_reply lib r =
     (let reply = json_reply lib (rs_status r)
            (JObj [(str ''error'', JStr (str (rs_error r))), (str ''code'', JStr (str (rs_code r)))]) in
      case rs_retry_after r of
        None \<Rightarrow> reply
      | Some wait \<Rightarrow> reply\<lparr>ry_headers := put_header ''retry-after'' (nat_digits wait) (ry_headers reply)\<rparr>)"

section \<open>Typed envelopes\<close>

text \<open>
  What \<open>serde\<close> derives for a structure: a field is found under its name or its alias, a
  repeated field is an error, unknown members are ignored; with a flattened part only an object is
  accepted, otherwise an array of all fields in order is accepted too.
\<close>

definition members :: "(ustring \<times> json) list \<Rightarrow> string list \<Rightarrow> json list" where
  "members kvs names = map snd (filter (\<lambda>kv. fst kv \<in> str ` set names) kvs)"

definition need :: "(json \<Rightarrow> 'a option) \<Rightarrow> string list \<Rightarrow> (ustring \<times> json) list \<Rightarrow> 'a option" where
  "need f names kvs = (case members kvs names of [v] \<Rightarrow> f v | _ \<Rightarrow> None)"

definition may :: "(json \<Rightarrow> 'a option) \<Rightarrow> string list \<Rightarrow> (ustring \<times> json) list \<Rightarrow> 'a option option" where
  "may f names kvs = (case members kvs names of [] \<Rightarrow> Some None | [v] \<Rightarrow> de_opt f v | _ \<Rightarrow> None)"

definition signed_of_members :: "(ustring \<times> json) list \<Rightarrow> signed_request option" where
  "signed_of_members kvs =
     Option.bind (need as_str [''chain''] kvs) (\<lambda>chain.
     Option.bind (need as_str [''address''] kvs) (\<lambda>address.
     Option.bind (need as_str [''payload''] kvs) (\<lambda>payload.
     Option.bind (need as_str [''signature''] kvs) (\<lambda>signature.
     Option.bind (may as_str [''pubkey''] kvs) (\<lambda>pubkey.
     Some \<lparr>sq_chain = chain, sq_address = address, sq_payload = payload, sq_signature = signature, sq_pubkey = pubkey\<rparr>)))))"

definition signed_fields :: "string list" where
  "signed_fields = [''chain'', ''address'', ''payload'', ''signature'', ''pubkey'']"

definition signed_of_json :: "json \<Rightarrow> signed_request option" where
  "signed_of_json v =
     (case v of
        JObj kvs \<Rightarrow> signed_of_members kvs
      | JArr xs \<Rightarrow> if length xs = length signed_fields then signed_of_members (zip (map str signed_fields) xs) else None
      | _ \<Rightarrow> None)"

definition draft_of_json :: "json \<Rightarrow> create_draft_request option" where
  "draft_of_json v =
     Option.bind (as_object v) (\<lambda>kvs.
     Option.bind (signed_of_members kvs) (\<lambda>signed.
     Option.bind (need as_str [''title''] kvs) (\<lambda>title.
     Option.bind (may Some [''body_sections'', ''sections''] kvs) (\<lambda>sections.
     Option.bind (may as_str [''body_html''] kvs) (\<lambda>html.
     Some \<lparr>dq_signed = signed, dq_title = title, dq_sections = sections, dq_body_html = html\<rparr>)))))"

definition amend_of_json :: "json \<Rightarrow> amend_request option" where
  "amend_of_json v =
     Option.bind (as_object v) (\<lambda>kvs.
     Option.bind (signed_of_members kvs) (\<lambda>signed.
     Option.bind (need as_str [''title''] kvs) (\<lambda>title.
     Option.bind (need Some [''body_sections'', ''sections''] kvs) (\<lambda>sections.
     Some \<lparr>mq_signed = signed, mq_title = title, mq_sections = sections\<rparr>))))"

definition comment_of_json :: "json \<Rightarrow> comment_request option" where
  "comment_of_json v =
     Option.bind (as_object v) (\<lambda>kvs.
     Option.bind (signed_of_members kvs) (\<lambda>signed.
     Option.bind (need as_str [''body_html''] kvs) (\<lambda>html.
     Some \<lparr>cq_signed = signed, cq_body_html = html\<rparr>)))"

text \<open>\<open>AnalysisSections\<close>: every field defaults to the empty text, in an array from the end.\<close>

definition analysis_fields :: "string list" where
  "analysis_fields = [''what'', ''benefits'', ''risks'', ''short_term'', ''long_term'']"

definition default_text :: "string list \<Rightarrow> (ustring \<times> json) list \<Rightarrow> ustring option" where
  "default_text names kvs = (case members kvs names of [] \<Rightarrow> Some [] | [v] \<Rightarrow> as_str v | _ \<Rightarrow> None)"

definition analysis_of_members :: "(ustring \<times> json) list \<Rightarrow> analysis_sections option" where
  "analysis_of_members kvs =
     map_option (\<lambda>texts. fold (\<lambda>(key, text). analysis_set key text) (zip analysis_fields texts) empty_analysis)
       (those (map (\<lambda>key. default_text [key] kvs) analysis_fields))"

definition analysis_of_json :: "json \<Rightarrow> analysis_sections option" where
  "analysis_of_json v =
     (case v of
        JObj kvs \<Rightarrow> analysis_of_members kvs
      | JArr xs \<Rightarrow> if length xs \<le> length analysis_fields then analysis_of_members (zip (map str analysis_fields) xs) else None
      | _ \<Rightarrow> None)"

definition attach_of_json :: "json \<Rightarrow> analysis_request option" where
  "attach_of_json v =
     Option.bind (as_object v) (\<lambda>kvs.
     Option.bind (signed_of_members kvs) (\<lambda>signed.
     Option.bind (need analysis_of_json [''sections''] kvs) (\<lambda>sections.
     Some \<lparr>aq_signed = signed, aq_sections = sections\<rparr>)))"

definition open_of_json :: "json \<Rightarrow> open_request option" where
  "open_of_json v =
     Option.bind (as_object v) (\<lambda>kvs.
     Option.bind (signed_of_members kvs) (\<lambda>signed.
     Option.bind (may de_i64 [''terra_height''] kvs) (\<lambda>terra.
     Option.bind (may de_i64 [''bsc_block''] kvs) (\<lambda>bsc.
     Some \<lparr>oq_signed = signed, oq_terra_height = terra, oq_bsc_block = bsc\<rparr>))))"

definition cast_of_json :: "json \<Rightarrow> cast_vote_request option" where
  "cast_of_json v =
     Option.bind (as_object v) (\<lambda>kvs.
     Option.bind (signed_of_members kvs) (\<lambda>signed.
     Option.bind (need as_str [''choice''] kvs) (\<lambda>choice.
     Some \<lparr>vq_signed = signed, vq_choice = choice\<rparr>)))"

text \<open>\<open>CanonicalRequest\<close> is tagged by its member \<open>kind\<close>.\<close>

definition canonical_of_json :: "json \<Rightarrow> canonical_request option" where
  "canonical_of_json v =
     (let read = (\<lambda>kind kvs.
        if kind = str ''proposal'' then map_option CanonProposal (need Some [''sections''] kvs)
        else if kind = str ''analysis'' then map_option CanonAnalysis (need analysis_of_json [''sections''] kvs)
        else if kind = str ''comment'' then map_option CanonComment (need as_str [''body_html''] kvs)
        else None) in
      case v of
        JObj kvs \<Rightarrow> Option.bind (need as_str [''kind''] kvs) (\<lambda>kind. read kind kvs)
      | JArr [tag, x] \<Rightarrow> Option.bind (as_str tag) (\<lambda>kind. read kind [(str ''sections'', x), (str ''body_html'', x)])
      | _ \<Rightarrow> None)"

section \<open>The routes that read\<close>

datatype api_read =
    GetHealth
  | GetReady
  | GetOpenApi
  | GetMetadata
  | GetReceipt uuid
  | GetRegistration ustring
  | GetProposals "ustring option"
  | GetProposal uuid
  | GetComments uuid
  | GetAnalysis uuid
  | GetVote uuid ustring "ustring option"
  | GetWeight uuid ustring "ustring option"
  | GetBalance ustring "ustring option" "int option"

text \<open>The rows of a receipt as \<open>to_jsonb\<close> shows them.\<close>

definition signature_json :: "(uuid \<Rightarrow> ustring) \<Rightarrow> (int \<Rightarrow> ustring) \<Rightarrow> signature_row \<Rightarrow> json" where
  "signature_json uuid stamp s = JObj [(str ''id'', JStr (uuid (sg_id s))), (str ''chain'', JStr (chain_str (sg_chain s))),
     (str ''wallet_address'', JStr (sg_wallet s)), (str ''pubkey'', opt_json JStr (sg_pubkey s)),
     (str ''signature'', JStr (sg_signature s)), (str ''payload_hash'', JStr (sg_payload_hash s)),
     (str ''purpose'', JStr (sg_purpose s)), (str ''created_at'', JStr (stamp (sg_created_at s))),
     (str ''signed_payload'', opt_json JStr (sg_signed_payload s)), (str ''scheme'', opt_json JStr (sg_scheme s)),
     (str ''domain'', opt_json JStr (sg_domain s)), (str ''nonce'', opt_json JStr (sg_nonce s)),
     (str ''proposal_id'', opt_json (\<lambda>u. JStr (uuid u)) (sg_proposal s)), (str ''revision'', opt_json JNum (sg_revision s))]"

definition receipt_row_json :: "(uuid \<Rightarrow> ustring) \<Rightarrow> (int \<Rightarrow> ustring) \<Rightarrow> receipt_row \<Rightarrow> json" where
  "receipt_row_json uuid stamp r = JObj [(str ''signature_id'', JStr (uuid (rc_signature r))),
     (str ''proposal_id'', opt_json (\<lambda>u. JStr (uuid u)) (rc_proposal r)), (str ''revision'', opt_json JNum (rc_revision r)),
     (str ''response'', rc_response r), (str ''content'', opt_json (\<lambda>v. v) (rc_content r)),
     (str ''accepted_at'', JStr (stamp (rc_accepted_at r)))]"

definition revision_json :: "(uuid \<Rightarrow> ustring) \<Rightarrow> (int \<Rightarrow> ustring) \<Rightarrow> revision_row \<Rightarrow> json" where
  "revision_json uuid stamp r = JObj [(str ''proposal_id'', JStr (uuid (rv_proposal r))), (str ''revision'', JNum (rv_revision r)),
     (str ''title'', JStr (rv_title r)), (str ''body_canonical'', JStr (rv_body_canonical r)),
     (str ''body_sections'', opt_json (\<lambda>v. v) (rv_body_sections r)),
     (str ''signature_id'', opt_json (\<lambda>u. JStr (uuid u)) (rv_signature r)), (str ''recorded_at'', JStr (stamp (rv_recorded_at r)))]"

definition snapshot_json :: "(uuid \<Rightarrow> ustring) \<Rightarrow> snapshot_row \<Rightarrow> json" where
  "snapshot_json uuid x = JObj [(str ''proposal_id'', JStr (uuid (sn_proposal x))), (str ''chain'', JStr (chain_str (sn_chain x))),
     (str ''wallet_address'', JStr (sn_wallet x)), (str ''weight'', JStr (int_str (sn_weight x)))]"

definition freeze_json :: "(int \<Rightarrow> ustring) \<Rightarrow> proposal_row \<Rightarrow> json" where
  "freeze_json stamp q = JObj [(str ''terra_height'', opt_json JNum (pr_terra_height q)), (str ''bsc_block'', opt_json JNum (pr_bsc_block q)),
     (str ''terra_block_hash'', opt_json JStr (pr_terra_hash q)), (str ''bsc_block_hash'', opt_json JStr (pr_bsc_hash q)),
     (str ''terra_epoch'', opt_json JNum (pr_terra_epoch q)), (str ''bsc_epoch'', opt_json JNum (pr_bsc_epoch q)),
     (str ''opened_at'', opt_json (\<lambda>t. JStr (stamp t)) (pr_opened_at q))]"

text \<open>The snapshot and the freeze are exported with the action that opened the vote; an aggregate of no row is null.\<close>

definition receipt :: "(uuid \<Rightarrow> ustring) \<Rightarrow> (int \<Rightarrow> ustring) \<Rightarrow> uuid \<Rightarrow> db \<Rightarrow> json option" where
  "receipt uuid stamp sid d =
     Option.bind (find_row sg_id sid (signatures d)) (\<lambda>s.
     Option.bind (find_row rc_signature sid (receipts d)) (\<lambda>r.
     let opened = sg_purpose s = str ''open_vote'';
         weights = filter (\<lambda>x. Some (sn_proposal x) = rc_proposal r) (snapshots d) in
     Some (JObj [(str ''signature'', signature_json uuid stamp s), (str ''receipt'', receipt_row_json uuid stamp r),
       (str ''revision'', opt_json (revision_json uuid stamp)
          (List.find (\<lambda>p. Some (rv_proposal p) = rc_proposal r \<and> Some (rv_revision p) = rc_revision r) (revisions d))),
       (str ''snapshot'', if opened \<and> weights \<noteq> [] then JArr (map (snapshot_json uuid) weights) else JNull),
       (str ''freeze'', if opened then opt_json (freeze_json stamp) (Option.bind (rc_proposal r) (\<lambda>pid. find_row pr_id pid (proposals d)))
                      else JNull)])))"

definition get_receipt :: "('k, 's, 'w) voting_env \<Rightarrow> (int \<Rightarrow> ustring) \<Rightarrow> uuid \<Rightarrow> db \<Rightarrow> json voting_result" where
  "get_receipt env stamp sid d = ok_or (VNotFound ''receipt'') (receipt (uuid_text env) stamp sid d)"

definition health :: json where
  "health = JObj [(str ''ok'', JBool True), (str ''service'', JStr (str ''operator-voting''))]"

definition metadata :: "'n voting_config \<Rightarrow> json" where
  "metadata cfg = JObj [(str ''protocol_version'', JNum 2), (str ''min_proposal_raw'', JStr (int_str (vc_min_proposal_raw cfg))),
     (str ''decimals'', JNum 18),
     (str ''capabilities'', JArr (map (\<lambda>c. JStr (str c)) [''drafts'', ''revision_signatures'', ''canonicalize'', ''terra'', ''bsc'']))]"

text \<open>
  A read is a function of the committed database; \<open>clock\<close> is the database's clock, and \<open>late\<close>
  whether the readiness query missed its deadline.
\<close>

definition answer_read ::
    "'ip http_lib \<Rightarrow> ('k, 's, 'w) voting_env \<Rightarrow> 'n voting_config \<Rightarrow> (int \<Rightarrow> ustring) \<Rightarrow> int \<Rightarrow> bool \<Rightarrow> api_read \<Rightarrow> db
       \<Rightarrow> (nat \<times> json) voting_result" where
  "answer_read lib env cfg stamp clock late read d =
     (let ok = (\<lambda>r. bindR r (\<lambda>v. Inr (200, v))) in
      case read of
        GetHealth \<Rightarrow> Inr (200, health)
      | GetReady \<Rightarrow> Inr (map_prod nat (\<lambda>v. v) (voting_readiness (if late then None else Some (ledger_ready clock d))))
      | GetOpenApi \<Rightarrow> Inr (200, openapi_document lib)
      | GetMetadata \<Rightarrow> Inr (200, metadata cfg)
      | GetReceipt sid \<Rightarrow> ok (get_receipt env stamp sid d)
      | GetRegistration addr \<Rightarrow> ok (registration_lookup addr d)
      | GetProposals status \<Rightarrow> ok (list_proposals env stamp status d)
      | GetProposal pid \<Rightarrow> ok (get_proposal env stamp pid d)
      | GetComments pid \<Rightarrow> ok (list_comments env stamp pid d)
      | GetAnalysis pid \<Rightarrow> ok (list_analysis env stamp pid d)
      | GetVote pid addr c \<Rightarrow> ok (get_vote_route pid addr c d)
      | GetWeight pid addr c \<Rightarrow> ok (get_frozen_weight env pid addr c d)
      | GetBalance addr c height \<Rightarrow> ok (get_balance addr c height clock d))"

definition canonical_response_json :: "canonical_response \<Rightarrow> json" where
  "canonical_response_json r = JObj [(str ''protocol_version'', JNum (cr_version r)), (str ''body_hash'', JStr (cr_body_hash r)),
     (str ''canonical_json'', opt_json JStr (cr_canonical_json r)), (str ''sections'', opt_json (\<lambda>v. v) (cr_sections r)),
     (str ''body_html'', JStr (cr_body_html r))]"

section \<open>The routing table\<close>

datatype resource =
    AtHealth | AtReady | AtOpenApi | AtMetadata | AtCanonicalize | AtRegister | AtProposals
  | AtReceipt ustring | AtRegistration ustring | AtBalance ustring | AtProposal ustring
  | AtSections ustring | AtComments ustring | AtAnalysis ustring | AtOpen ustring | AtVotes ustring
  | AtVote ustring ustring | AtWeight ustring ustring

fun under_proposal :: "ustring \<Rightarrow> ustring list \<Rightarrow> resource option" where
  "under_proposal i [] = Some (AtProposal i)"
| "under_proposal i [a] =
     (if a = str ''sections'' then Some (AtSections i)
      else if a = str ''comments'' then Some (AtComments i)
      else if a = str ''analysis'' then Some (AtAnalysis i)
      else if a = str ''open'' then Some (AtOpen i)
      else if a = str ''votes'' then Some (AtVotes i)
      else None)"
| "under_proposal i [a, w] =
     (if w = [] then None
      else if a = str ''votes'' then Some (AtVote i w)
      else if a = str ''weights'' then Some (AtWeight i w)
      else None)"
| "under_proposal i _ = None"

fun under_v1 :: "ustring list \<Rightarrow> resource option" where
  "under_v1 [a] =
     (if a = str ''register'' then Some AtRegister
      else if a = str ''proposals'' then Some AtProposals
      else if a = str ''metadata'' then Some AtMetadata
      else if a = str ''canonicalize'' then Some AtCanonicalize
      else None)"
| "under_v1 (a # i # rest) =
     (if i = [] then None
      else if a = str ''proposals'' then under_proposal i rest
      else if rest \<noteq> [] then None
      else if a = str ''receipts'' then Some (AtReceipt i)
      else if a = str ''registration'' then Some (AtRegistration i)
      else if a = str ''balances'' then Some (AtBalance i)
      else None)"
| "under_v1 [] = None"

fun resource_of :: "ustring list \<Rightarrow> resource option" where
  "resource_of [a] =
     (if a = str ''health'' then Some AtHealth
      else if a = str ''ready'' then Some AtReady
      else if a = str ''openapi.json'' then Some AtOpenApi
      else None)"
| "resource_of (v # a # rest) = (if v = str ''v1'' then under_v1 (a # rest) else None)"
| "resource_of [] = None"

text \<open>A resource with a \<open>get\<close> handler answers \<open>HEAD\<close> with it too.\<close>

definition gets :: "resource \<Rightarrow> bool" where
  "gets r = (case r of
       AtCanonicalize \<Rightarrow> False | AtRegister \<Rightarrow> False | AtSections _ \<Rightarrow> False | AtOpen _ \<Rightarrow> False | AtVotes _ \<Rightarrow> False | _ \<Rightarrow> True)"

definition writes_with :: "resource \<Rightarrow> ustring option" where
  "writes_with r = (case r of
       AtCanonicalize \<Rightarrow> Some (str ''POST'') | AtRegister \<Rightarrow> Some (str ''POST'') | AtProposals \<Rightarrow> Some (str ''POST'')
     | AtSections _ \<Rightarrow> Some (str ''PUT'') | AtComments _ \<Rightarrow> Some (str ''POST'') | AtAnalysis _ \<Rightarrow> Some (str ''POST'')
     | AtOpen _ \<Rightarrow> Some (str ''POST'') | AtVotes _ \<Rightarrow> Some (str ''POST'') | _ \<Rightarrow> None)"

datatype routed = Reads api_read | Writes api_post | Canonicalizes canonical_request

definition with_body :: "'ip http_lib \<Rightarrow> 'ip http_request \<Rightarrow> (json \<Rightarrow> 'a option) \<Rightarrow> ('a \<Rightarrow> routed) \<Rightarrow> reply + routed" where
  "with_body lib req decode f =
     bindR (extract_json lib req) (\<lambda>v. bindR (ok_or (wrong_shape lib) (decode v)) (\<lambda>x. Inr (f x)))"

definition with_uuid :: "'ip http_lib \<Rightarrow> ustring \<Rightarrow> (uuid \<Rightarrow> reply + 'a) \<Rightarrow> reply + 'a" where
  "with_uuid lib i f = bindR (extract_uuid lib i) f"

definition chain_query :: "'ip http_lib \<Rightarrow> ustring \<Rightarrow> (ustring option \<Rightarrow> int option \<Rightarrow> 'a) \<Rightarrow> reply + 'a" where
  "chain_query lib query f =
     bindR (query_text lib query ''chain'') (\<lambda>c. bindR (query_i64 lib query ''height'') (\<lambda>h. Inr (f c h)))"

definition read_at :: "'ip http_lib \<Rightarrow> ustring \<Rightarrow> resource \<Rightarrow> reply + api_read" where
  "read_at lib query r = (case r of
       AtHealth \<Rightarrow> Inr GetHealth
     | AtReady \<Rightarrow> Inr GetReady
     | AtOpenApi \<Rightarrow> Inr GetOpenApi
     | AtMetadata \<Rightarrow> Inr GetMetadata
     | AtReceipt i \<Rightarrow> with_uuid lib i (\<lambda>u. Inr (GetReceipt u))
     | AtRegistration w \<Rightarrow> Inr (GetRegistration w)
     | AtBalance w \<Rightarrow> chain_query lib query (GetBalance w)
     | AtProposals \<Rightarrow> bindR (query_text lib query ''status'') (\<lambda>status. Inr (GetProposals status))
     | AtProposal i \<Rightarrow> with_uuid lib i (\<lambda>u. Inr (GetProposal u))
     | AtComments i \<Rightarrow> with_uuid lib i (\<lambda>u. Inr (GetComments u))
     | AtAnalysis i \<Rightarrow> with_uuid lib i (\<lambda>u. Inr (GetAnalysis u))
     | AtVote i w \<Rightarrow> with_uuid lib i (\<lambda>u. chain_query lib query (\<lambda>c _. GetVote u w c))
     | AtWeight i w \<Rightarrow> with_uuid lib i (\<lambda>u. chain_query lib query (\<lambda>c _. GetWeight u w c))
     | _ \<Rightarrow> Inl (wrong_method lib))"

definition write_at :: "'ip http_lib \<Rightarrow> 'ip http_request \<Rightarrow> resource \<Rightarrow> reply + routed" where
  "write_at lib req r = (case r of
       AtCanonicalize \<Rightarrow> with_body lib req canonical_of_json Canonicalizes
     | AtRegister \<Rightarrow> with_body lib req signed_of_json (\<lambda>x. Writes (PostRegister x))
     | AtProposals \<Rightarrow> with_body lib req draft_of_json (\<lambda>x. Writes (PostDraft x))
     | AtSections i \<Rightarrow> with_uuid lib i (\<lambda>pid. with_body lib req amend_of_json (\<lambda>x. Writes (PutSections pid x)))
     | AtComments i \<Rightarrow> with_uuid lib i (\<lambda>pid. with_body lib req comment_of_json (\<lambda>x. Writes (PostComment pid x)))
     | AtAnalysis i \<Rightarrow> with_uuid lib i (\<lambda>pid. with_body lib req attach_of_json (\<lambda>x. Writes (PostAnalysis pid x)))
     | AtOpen i \<Rightarrow> with_uuid lib i (\<lambda>pid. with_body lib req open_of_json (\<lambda>x. Writes (PostOpen pid x)))
     | AtVotes i \<Rightarrow> with_uuid lib i (\<lambda>pid. with_body lib req cast_of_json (\<lambda>x. Writes (PostVote pid x)))
     | _ \<Rightarrow> Inl (wrong_method lib))"

text \<open>A routed request, or the rejection of the router or of an extractor.\<close>

definition route :: "'ip http_lib \<Rightarrow> 'ip http_request \<Rightarrow> reply + routed" where
  "route lib req =
     (case resource_of (rq_path req) of
        None \<Rightarrow> Inl (no_route lib)
      | Some r \<Rightarrow>
          if gets r \<and> rq_method req \<in> {str ''GET'', str ''HEAD''}
          then bindR (read_at lib (rq_query req) r) (\<lambda>read. Inr (Reads read))
          else if writes_with r = Some (rq_method req) then write_at lib req r
          else Inl (wrong_method lib))"

text \<open>Only a method that the limiter counts reaches a handler that writes.\<close>

lemma route_mutation: "route lib req = Inr (Writes post) \<Longrightarrow> is_mutation (rq_method req)"
  by (auto simp: route_def bindR_Inr writes_with_def is_mutation_def split: option.splits if_splits resource.splits)

end
