(* ===== verification/Privileges.thy ===== *)
theory Privileges
  imports VotingDb
begin

text \<open>
  The production check of the API's database role (\<open>validate_production_privileges\<close> in
  \<open>operator-voting/src/db.rs\<close>). PostgreSQL's catalogue is the record \<open>role_grants\<close>, read through the
  functions the check calls (\<open>has_table_privilege\<close> and its relatives); a name the database does not
  know is a database error. \<open>permitted\<close> is PostgreSQL's rule for the statements a role may issue, so
  the theorems say which writes an accepted role can and cannot make.
\<close>

section \<open>The catalogue\<close>

datatype privilege = Select | Insert | Update | Delete | Truncate

datatype db_table =
    PublicVotingRegistrations
  | PublicCl8yBalances
  | PublicCl8yBscBalances
  | PublicCl8yCw20Transfers
  | PublicCl8yBep20Transfers
  | PublicIndexerState
  | PublicLedgerCheckpoints
  | PublicLedgerCanonicalBlocks
  | VotingSignatures
  | VotingVotes
  | VotingProposalSnapshots
  | VotingActionReceipts
  | VotingProposalRevisions
  | VotingProposalComments
  | VotingProposalAnalysis
  | VotingRegistrationIntents
  | VotingProposals

fun table_name :: "db_table \<Rightarrow> string" where
  "table_name PublicVotingRegistrations = ''public.voting_registrations''"
| "table_name PublicCl8yBalances = ''public.cl8y_balances''"
| "table_name PublicCl8yBscBalances = ''public.cl8y_bsc_balances''"
| "table_name PublicCl8yCw20Transfers = ''public.cl8y_cw20_transfers''"
| "table_name PublicCl8yBep20Transfers = ''public.cl8y_bep20_transfers''"
| "table_name PublicIndexerState = ''public.indexer_state''"
| "table_name PublicLedgerCheckpoints = ''public.ledger_checkpoints''"
| "table_name PublicLedgerCanonicalBlocks = ''public.ledger_canonical_blocks''"
| "table_name VotingSignatures = ''voting.signatures''"
| "table_name VotingVotes = ''voting.votes''"
| "table_name VotingProposalSnapshots = ''voting.proposal_snapshots''"
| "table_name VotingActionReceipts = ''voting.action_receipts''"
| "table_name VotingProposalRevisions = ''voting.proposal_revisions''"
| "table_name VotingProposalComments = ''voting.proposal_comments''"
| "table_name VotingProposalAnalysis = ''voting.proposal_analysis''"
| "table_name VotingRegistrationIntents = ''voting.registration_intents''"
| "table_name VotingProposals = ''voting.proposals''"

record role_grants =
  rg_same_session :: bool
  rg_attributes :: "bool list"
  rg_parents :: bool
  rg_columns :: "db_table \<Rightarrow> string list option"
  rg_table :: "db_table \<Rightarrow> privilege \<Rightarrow> bool"
  rg_column :: "db_table \<Rightarrow> string \<Rightarrow> privilege \<Rightarrow> bool"
  rg_owner :: "string \<Rightarrow> bool option"
  rg_execute :: "string \<Rightarrow> bool"
  rg_creates :: "bool list"

definition has_table_privilege :: "role_grants \<Rightarrow> db_table \<Rightarrow> privilege list \<Rightarrow> bool voting_result" where
  "has_table_privilege g t privs =
     (case rg_columns g t of None \<Rightarrow> Inl (sql_error ''42P01'') | Some _ \<Rightarrow> Inr (list_ex (rg_table g t) privs))"

definition has_any_column_privilege :: "role_grants \<Rightarrow> db_table \<Rightarrow> privilege \<Rightarrow> bool voting_result" where
  "has_any_column_privilege g t priv =
     (case rg_columns g t of None \<Rightarrow> Inl (sql_error ''42P01'')
      | Some cs \<Rightarrow> Inr (rg_table g t priv \<or> list_ex (\<lambda>c. rg_column g t c priv) cs))"

definition has_column_privilege :: "role_grants \<Rightarrow> db_table \<Rightarrow> string \<Rightarrow> privilege list \<Rightarrow> bool voting_result" where
  "has_column_privilege g t c privs =
     (case rg_columns g t of None \<Rightarrow> Inl (sql_error ''42P01'')
      | Some cs \<Rightarrow> if c \<notin> set cs then Inl (sql_error ''42703'')
                   else Inr (list_ex (\<lambda>p. rg_table g t p \<or> rg_column g t c p) privs))"

section \<open>The check\<close>

text \<open>A loop of checks stops at the first that fails.\<close>

definition each_ok :: "('a \<Rightarrow> unit voting_result) \<Rightarrow> 'a list \<Rightarrow> unit voting_result" where
  "each_ok check xs = foldR (\<lambda>x _. check x) xs ()"

definition deny :: "string \<Rightarrow> bool \<Rightarrow> unit voting_result" where
  "deny message unsafe = (if unsafe then Inl (VInvalidConfig message) else Inr ())"

definition immutable_tables :: "db_table list" where
  "immutable_tables = [PublicVotingRegistrations, PublicCl8yBalances, PublicCl8yBscBalances,
     PublicCl8yCw20Transfers, PublicCl8yBep20Transfers, PublicIndexerState, PublicLedgerCheckpoints,
     PublicLedgerCanonicalBlocks, VotingSignatures, VotingVotes, VotingProposalSnapshots,
     VotingActionReceipts, VotingProposalRevisions, VotingProposalComments, VotingProposalAnalysis,
     VotingRegistrationIntents]"

definition readable_tables :: "db_table list" where
  "readable_tables = [PublicVotingRegistrations, PublicIndexerState, PublicLedgerCheckpoints,
     PublicLedgerCanonicalBlocks, VotingSignatures, VotingRegistrationIntents, VotingProposals,
     VotingProposalSnapshots, VotingVotes, VotingProposalComments, VotingProposalAnalysis,
     VotingActionReceipts, VotingProposalRevisions]"

definition callable_functions :: "string list" where
  "callable_functions = [''public.voting_cl8y_balance_at(text,bigint)'', ''public.voting_bsc_cl8y_balance_at(text,bigint)'',
     ''voting.freeze_proposal(uuid,uuid)'']"

definition writable_tables :: "db_table list" where
  "writable_tables = [VotingSignatures, VotingVotes, VotingProposalComments, VotingProposalAnalysis,
     VotingActionReceipts, VotingProposalRevisions]"

definition draft_columns :: "string list" where
  "draft_columns = [''id'', ''chain'', ''proposer'', ''title'', ''body_html'', ''body_canonical'', ''body_sections'']"

definition protected_columns :: "string list" where
  "protected_columns = [''status'', ''terra_height'', ''bsc_block'', ''opened_at'', ''terra_block_hash'', ''bsc_block_hash'',
     ''terra_epoch'', ''bsc_epoch'', ''snapshot_validity'', ''snapshot_incident'', ''created_at'']"

definition identity_columns :: "string list" where
  "identity_columns = [''id'', ''chain'', ''proposer'']"

definition amendable_columns :: "string list" where
  "amendable_columns = [''title'', ''body_html'', ''body_canonical'', ''body_sections'', ''revision'']"

definition intent_columns :: "string list" where
  "intent_columns = [''chain'', ''wallet_address'', ''signature_id'']"

definition intent_metadata :: "string list" where
  "intent_metadata = [''processed_at'', ''last_attempt_at'', ''retry_after'', ''attempts'', ''last_error_class'']"

definition check_immutable :: "role_grants \<Rightarrow> db_table \<Rightarrow> unit voting_result" where
  "check_immutable g t =
     bindR (has_table_privilege g t [Update, Delete, Truncate]) (\<lambda>a.
     bindR (has_any_column_privilege g t Update) (\<lambda>b.
     bindR (deny ''API database role can mutate immutable/ledger table'' (a \<or> b)) (\<lambda>_.
     if take 7 (table_name t) = ''public.'' \<or> t = VotingProposalSnapshots
     then bindR (has_table_privilege g t [Insert]) (\<lambda>a.
          bindR (has_any_column_privilege g t Insert) (\<lambda>b.
          deny ''API database role can insert into'' (a \<or> b)))
     else Inr ())))"

definition check_readable :: "role_grants \<Rightarrow> db_table \<Rightarrow> unit voting_result" where
  "check_readable g t = bindR (has_table_privilege g t [Select]) (\<lambda>r. deny ''API role lacks SELECT on'' (\<not> r))"

definition check_function :: "role_grants \<Rightarrow> string \<Rightarrow> unit voting_result" where
  "check_function g f =
     (case rg_owner g f of
        None \<Rightarrow> Inl (sql_error ''42883'')
      | Some owned \<Rightarrow>
          bindR (deny ''API role must not own protected balance/freeze functions'' owned) (\<lambda>_.
          deny ''API role lacks EXECUTE on'' (\<not> rg_execute g f)))"

definition check_writable :: "role_grants \<Rightarrow> db_table \<Rightarrow> unit voting_result" where
  "check_writable g t = bindR (has_table_privilege g t [Insert]) (\<lambda>w. deny ''API role lacks INSERT on'' (\<not> w))"

definition require_column :: "role_grants \<Rightarrow> string \<Rightarrow> db_table \<Rightarrow> privilege list \<Rightarrow> string \<Rightarrow> unit voting_result" where
  "require_column g message t privs c = bindR (has_column_privilege g t c privs) (\<lambda>w. deny message (\<not> w))"

definition forbid_column :: "role_grants \<Rightarrow> string \<Rightarrow> db_table \<Rightarrow> privilege list \<Rightarrow> string \<Rightarrow> unit voting_result" where
  "forbid_column g message t privs c = bindR (has_column_privilege g t c privs) (deny message)"

definition validate_production_privileges :: "role_grants \<Rightarrow> unit voting_result" where
  "validate_production_privileges g =
     bindR (deny ''API connection must authenticate directly as its restricted role'' (\<not> rg_same_session g)) (\<lambda>_.
     bindR (deny ''API database role has administrative privileges'' (list_ex (\<lambda>a. a) (rg_attributes g))) (\<lambda>_.
     bindR (deny ''API role must have no parent role memberships'' (rg_parents g)) (\<lambda>_.
     bindR (each_ok (check_immutable g) immutable_tables) (\<lambda>_.
     bindR (each_ok (check_readable g) readable_tables) (\<lambda>_.
     bindR (each_ok (check_function g) callable_functions) (\<lambda>_.
     bindR (each_ok (check_writable g) writable_tables) (\<lambda>_.
     bindR (each_ok (require_column g ''API role lacks draft INSERT on'' VotingProposals [Insert]) draft_columns) (\<lambda>_.
     bindR (each_ok (forbid_column g ''API role can forge protected proposal column'' VotingProposals [Insert, Update])
              protected_columns) (\<lambda>_.
     bindR (each_ok (forbid_column g ''API role can rewrite proposal identity'' VotingProposals [Update]) identity_columns) (\<lambda>_.
     bindR (each_ok (require_column g ''API role lacks draft UPDATE on'' VotingProposals [Update]) amendable_columns) (\<lambda>_.
     bindR (each_ok (require_column g ''API role lacks registration intent INSERT'' VotingRegistrationIntents [Insert])
              intent_columns) (\<lambda>_.
     bindR (each_ok (forbid_column g ''API role can forge ledger-owned intent metadata'' VotingRegistrationIntents
              [Insert, Update]) intent_metadata) (\<lambda>_.
     deny ''API role can create/shadow database objects'' (list_ex (\<lambda>a. a) (rg_creates g)))))))))))))))"

section \<open>What a role may write\<close>

datatype sql_write =
    SqlInsert db_table "string list"
  | SqlUpdate db_table "string list"
  | SqlDelete db_table
  | SqlTruncate db_table

fun permitted :: "role_grants \<Rightarrow> sql_write \<Rightarrow> bool" where
  "permitted g (SqlInsert t cs) \<longleftrightarrow> (case rg_columns g t of None \<Rightarrow> False
     | Some known \<Rightarrow> cs \<noteq> [] \<and> list_all (\<lambda>c. c \<in> set known \<and> (rg_table g t Insert \<or> rg_column g t c Insert)) cs)"
| "permitted g (SqlUpdate t cs) \<longleftrightarrow> (case rg_columns g t of None \<Rightarrow> False
     | Some known \<Rightarrow> cs \<noteq> [] \<and> list_all (\<lambda>c. c \<in> set known \<and> (rg_table g t Update \<or> rg_column g t c Update)) cs)"
| "permitted g (SqlDelete t) \<longleftrightarrow> rg_columns g t \<noteq> None \<and> rg_table g t Delete"
| "permitted g (SqlTruncate t) \<longleftrightarrow> rg_columns g t \<noteq> None \<and> rg_table g t Truncate"

text \<open>The statements of the API on the tables whose columns the check names one by one.\<close>

definition api_writes :: "sql_write list" where
  "api_writes =
     [SqlInsert VotingRegistrationIntents intent_columns,
      SqlInsert VotingProposals draft_columns,
      SqlUpdate VotingProposals amendable_columns]"

text \<open>The writes that would break what the ledger and the recorded actions promise.\<close>

fun harmful :: "sql_write \<Rightarrow> bool" where
  "harmful (SqlInsert t cs) \<longleftrightarrow> take 7 (table_name t) = ''public.'' \<or> t = VotingProposalSnapshots
     \<or> t = VotingProposals \<and> list_ex (\<lambda>c. c \<in> set protected_columns) cs
     \<or> t = VotingRegistrationIntents \<and> list_ex (\<lambda>c. c \<in> set intent_metadata) cs"
| "harmful (SqlUpdate t cs) \<longleftrightarrow> t \<noteq> VotingProposals
     \<or> t = VotingProposals \<and> list_ex (\<lambda>c. c \<in> set (protected_columns @ identity_columns)) cs"
| "harmful (SqlDelete t) \<longleftrightarrow> t \<noteq> VotingProposals"
| "harmful (SqlTruncate t) \<longleftrightarrow> t \<noteq> VotingProposals"

lemma immutable_iff: "t \<in> set immutable_tables \<longleftrightarrow> t \<noteq> VotingProposals"
  by (cases t) (simp_all add: immutable_tables_def)

lemma each_ok_iff: "each_ok check xs = Inr u \<longleftrightarrow> (\<forall>x\<in>set xs. check x = Inr ())"
  unfolding each_ok_def by (induction xs) (auto simp: result_iff)

lemma deny_Inr [simp]: "deny message unsafe = Inr x \<longleftrightarrow> \<not> unsafe"
  by (simp add: deny_def)

lemma privilege_queries [simp]:
  "has_table_privilege g t privs = Inr b \<longleftrightarrow> rg_columns g t \<noteq> None \<and> b = list_ex (rg_table g t) privs"
  "has_any_column_privilege g t priv = Inr b \<longleftrightarrow>
     (\<exists>cs. rg_columns g t = Some cs \<and> b = (rg_table g t priv \<or> list_ex (\<lambda>c. rg_column g t c priv) cs))"
  "has_column_privilege g t c privs = Inr b \<longleftrightarrow>
     (\<exists>cs. rg_columns g t = Some cs \<and> c \<in> set cs \<and> b = list_ex (\<lambda>p. rg_table g t p \<or> rg_column g t c p) privs)"
  by (auto simp: has_table_privilege_def has_any_column_privilege_def has_column_privilege_def split: option.split)

section \<open>What the check guarantees\<close>

lemma check_immutable_iff:
  "check_immutable g t = Inr () \<longleftrightarrow> (\<exists>cs. rg_columns g t = Some cs
     \<and> \<not> rg_table g t Update \<and> \<not> rg_table g t Delete \<and> \<not> rg_table g t Truncate \<and> (\<forall>c\<in>set cs. \<not> rg_column g t c Update)
     \<and> (take 7 (table_name t) = ''public.'' \<or> t = VotingProposalSnapshots \<longrightarrow>
          \<not> rg_table g t Insert \<and> (\<forall>c\<in>set cs. \<not> rg_column g t c Insert)))"
  by (auto simp: check_immutable_def result_iff list_ex_iff)

lemma require_column_iff:
  "require_column g message t [priv] c = Inr () \<longleftrightarrow> (\<exists>cs. rg_columns g t = Some cs \<and> c \<in> set cs \<and> (rg_table g t priv \<or> rg_column g t c priv))"
  by (auto simp: require_column_def result_iff)

lemma forbid_column_iff:
  "forbid_column g message t privs c = Inr () \<longleftrightarrow>
     (\<exists>cs. rg_columns g t = Some cs \<and> c \<in> set cs \<and> (\<forall>p\<in>set privs. \<not> rg_table g t p \<and> \<not> rg_column g t c p))"
  by (auto simp: forbid_column_def result_iff list_ex_iff)

lemma validate_iff:
  "validate_production_privileges g = Inr () \<longleftrightarrow>
     rg_same_session g \<and> \<not> list_ex (\<lambda>a. a) (rg_attributes g) \<and> \<not> rg_parents g
   \<and> (\<forall>t\<in>set immutable_tables. check_immutable g t = Inr ())
   \<and> (\<forall>t\<in>set readable_tables. rg_columns g t \<noteq> None \<and> rg_table g t Select)
   \<and> (\<forall>f\<in>set callable_functions. rg_owner g f = Some False \<and> rg_execute g f)
   \<and> (\<forall>t\<in>set writable_tables. rg_columns g t \<noteq> None \<and> rg_table g t Insert)
   \<and> (\<forall>c\<in>set draft_columns. require_column g ''API role lacks draft INSERT on'' VotingProposals [Insert] c = Inr ())
   \<and> (\<forall>c\<in>set protected_columns. forbid_column g ''API role can forge protected proposal column'' VotingProposals [Insert, Update] c = Inr ())
   \<and> (\<forall>c\<in>set identity_columns. forbid_column g ''API role can rewrite proposal identity'' VotingProposals [Update] c = Inr ())
   \<and> (\<forall>c\<in>set amendable_columns. require_column g ''API role lacks draft UPDATE on'' VotingProposals [Update] c = Inr ())
   \<and> (\<forall>c\<in>set intent_columns. require_column g ''API role lacks registration intent INSERT'' VotingRegistrationIntents [Insert] c = Inr ())
   \<and> (\<forall>c\<in>set intent_metadata. forbid_column g ''API role can forge ledger-owned intent metadata'' VotingRegistrationIntents
        [Insert, Update] c = Inr ())
   \<and> \<not> list_ex (\<lambda>a. a) (rg_creates g)"
proof -
  have "check_function g f = Inr () \<longleftrightarrow> rg_owner g f = Some False \<and> rg_execute g f" for f
    by (auto simp: check_function_def result_iff split: option.splits)
  moreover have "check_readable g t = Inr () \<longleftrightarrow> rg_columns g t \<noteq> None \<and> rg_table g t Select"
      "check_writable g t = Inr () \<longleftrightarrow> rg_columns g t \<noteq> None \<and> rg_table g t Insert" for t
    by (auto simp: check_readable_def check_writable_def result_iff)
  ultimately show ?thesis
    unfolding validate_production_privileges_def
    by (simp only: result_iff deny_Inr each_ok_iff ex_simps simp_thms not_not list_ex_iff bex_simps)
qed

lemma acceptedD:
  assumes "validate_production_privileges g = Inr ()"
  shows "t \<in> set immutable_tables \<Longrightarrow> check_immutable g t = Inr ()"
    and "c \<in> set protected_columns \<Longrightarrow>
      forbid_column g ''API role can forge protected proposal column'' VotingProposals [Insert, Update] c = Inr ()"
    and "c \<in> set identity_columns \<Longrightarrow> forbid_column g ''API role can rewrite proposal identity'' VotingProposals [Update] c = Inr ()"
    and "c \<in> set intent_metadata \<Longrightarrow>
      forbid_column g ''API role can forge ledger-owned intent metadata'' VotingRegistrationIntents [Insert, Update] c = Inr ()"
  using assms unfolding validate_iff by - (elim conjE, rule bspec, assumption, assumption)+

lemma accepted_no_harm:
  assumes ok: "validate_production_privileges g = Inr ()" and may: "permitted g w"
  shows "\<not> harmful w"
proof
  assume harm: "harmful w"
  have fixed: "\<exists>cs. rg_columns g t = Some cs \<and> \<not> rg_table g t Update \<and> \<not> rg_table g t Delete \<and> \<not> rg_table g t Truncate
      \<and> (\<forall>c\<in>set cs. \<not> rg_column g t c Update)
      \<and> (take 7 (table_name t) = ''public.'' \<or> t = VotingProposalSnapshots \<longrightarrow> \<not> rg_table g t Insert \<and> (\<forall>c\<in>set cs. \<not> rg_column g t c Insert))"
    if "t \<in> set immutable_tables" for t
    using acceptedD(1) [OF ok that] unfolding check_immutable_iff .
  have columns:
    "c \<in> set protected_columns \<Longrightarrow> \<not> rg_table g VotingProposals Insert \<and> \<not> rg_column g VotingProposals c Insert
       \<and> \<not> rg_table g VotingProposals Update \<and> \<not> rg_column g VotingProposals c Update"
    "c \<in> set identity_columns \<Longrightarrow> \<not> rg_table g VotingProposals Update \<and> \<not> rg_column g VotingProposals c Update"
    "c \<in> set intent_metadata \<Longrightarrow> \<not> rg_table g VotingRegistrationIntents Insert \<and> \<not> rg_column g VotingRegistrationIntents c Insert"
    for c
    by (auto simp: forbid_column_iff dest!: acceptedD(2-4) [OF ok])
  show False
  proof (cases w)
    case (SqlInsert t cs)
    have ins: "\<exists>known. rg_columns g t = Some known \<and> cs \<noteq> [] \<and> (\<forall>c\<in>set cs. c \<in> set known \<and> (rg_table g t Insert \<or> rg_column g t c Insert))"
      using may SqlInsert by (auto simp: list_all_iff split: option.splits)
    consider "t \<in> set immutable_tables" "take 7 (table_name t) = ''public.'' \<or> t = VotingProposalSnapshots"
      | c where "t = VotingProposals" "c \<in> set cs" "c \<in> set protected_columns"
      | c where "t = VotingRegistrationIntents" "c \<in> set cs" "c \<in> set intent_metadata"
      using harm SqlInsert by (cases "t = VotingProposals") (auto simp: list_ex_iff immutable_iff)
    then show False
    proof cases
      case 1
      with ins fixed [of t] show False by (cases cs) auto
    next
      case 2
      with ins columns(1) [of c] show False by auto
    next
      case 3
      with ins columns(3) [of c] show False by auto
    qed
  next
    case (SqlUpdate t cs)
    have upd: "\<exists>known. rg_columns g t = Some known \<and> cs \<noteq> [] \<and> (\<forall>c\<in>set cs. c \<in> set known \<and> (rg_table g t Update \<or> rg_column g t c Update))"
      using may SqlUpdate by (auto simp: list_all_iff split: option.splits)
    consider "t \<in> set immutable_tables" | c where "t = VotingProposals" "c \<in> set cs" "c \<in> set protected_columns \<or> c \<in> set identity_columns"
      using harm SqlUpdate by (auto simp: list_ex_iff immutable_iff)
    then show False
    proof cases
      case 1
      with upd fixed [of t] show False by (cases cs) auto
    next
      case 2
      with upd columns(1,2) [of c] show False by auto
    qed
  qed (use may harm fixed immutable_iff in auto)
qed

lemma accepted_writes:
  assumes "validate_production_privileges g = Inr ()"
  shows "\<forall>w\<in>set api_writes. permitted g w"
proof -
  have need: "rg_columns g t \<noteq> None \<and> (\<forall>c\<in>set cols. \<exists>cs. rg_columns g t = Some cs \<and> c \<in> set cs \<and> (rg_table g t p \<or> rg_column g t c p))"
    if "(t, p, cols) \<in> {(VotingProposals, Insert, draft_columns), (VotingProposals, Update, amendable_columns),
          (VotingRegistrationIntents, Insert, intent_columns)}" for t p cols
    using that assms unfolding validate_iff require_column_iff by (auto simp: readable_tables_def)
  show ?thesis
    using need [of "VotingProposals" "Insert" draft_columns] need [of "VotingProposals" "Update" amendable_columns]
      need [of "VotingRegistrationIntents" "Insert" intent_columns]
    by (auto simp: api_writes_def list_all_iff) (auto simp: draft_columns_def amendable_columns_def intent_columns_def)
qed

text \<open>
  C33. A database role the API accepts in production can do exactly what the API needs. No statement it
  may issue changes, removes or forges a ledger row, a recorded action, a frozen weight or a column
  of a proposal that only the freeze may set, whatever grants the role holds directly, through
  columns or through PUBLIC; and the statements of the API itself are all permitted.
\<close>

theorem accepted_role_restricted:
  assumes "validate_production_privileges g = Inr ()"
  shows "(\<forall>w. permitted g w \<longrightarrow> \<not> harmful w) \<and> (\<forall>w\<in>set api_writes. permitted g w)
     \<and> (\<forall>t\<in>set writable_tables. rg_table g t Insert) \<and> (\<forall>f\<in>set callable_functions. rg_execute g f)"
  using accepted_no_harm [OF assms] accepted_writes [OF assms] assms unfolding validate_iff by blast

text \<open>The grants of \<open>deploy/grants.sql\<close> on the tables of the migrations.\<close>

definition reviewed_columns :: "(db_table \<times> string list) list" where
  "reviewed_columns =
     [(PublicVotingRegistrations, [''chain'', ''wallet_address'', ''registered_at_height'', ''registered_at_time'',
         ''initial_balance'', ''status'', ''signature_id'', ''baseline_height'', ''baseline_block_hash'', ''baseline_epoch'', ''baseline_verified'']),
      (PublicCl8yBalances, [''wallet_address'', ''height'', ''balance'']),
      (PublicCl8yBscBalances, [''wallet_address'', ''bsc_block'', ''balance'']),
      (PublicCl8yCw20Transfers, [''id'', ''height'', ''tx_hash'', ''msg_index'', ''from_address'', ''to_address'', ''amount'', ''action'']),
      (PublicCl8yBep20Transfers, [''id'', ''bsc_block'', ''tx_hash'', ''log_index'', ''from_address'', ''to_address'', ''amount'']),
      (PublicIndexerState, [''key'', ''value'', ''updated_at'']),
      (PublicLedgerCheckpoints, [''chain'', ''height'', ''block_hash'', ''observed_at'', ''epoch'', ''complete'', ''canonical'',
         ''degraded_reason'', ''network_tip'']),
      (PublicLedgerCanonicalBlocks, [''chain'', ''height'', ''block_hash'']),
      (VotingSignatures, [''id'', ''chain'', ''wallet_address'', ''pubkey'', ''signature'', ''payload_hash'', ''purpose'', ''created_at'',
         ''signed_payload'', ''scheme'', ''domain'', ''nonce'', ''proposal_id'', ''revision'']),
      (VotingVotes, [''proposal_id'', ''wallet_address'', ''chain'', ''choice'', ''weight'', ''signature_id'', ''created_at'']),
      (VotingProposalSnapshots, [''proposal_id'', ''chain'', ''wallet_address'', ''weight'']),
      (VotingActionReceipts, [''signature_id'', ''proposal_id'', ''revision'', ''response'', ''content'', ''accepted_at'']),
      (VotingProposalRevisions, [''proposal_id'', ''revision'', ''title'', ''body_canonical'', ''body_sections'', ''signature_id'', ''recorded_at'']),
      (VotingProposalComments, [''id'', ''proposal_id'', ''chain'', ''wallet_address'', ''body_html'', ''signature_id'', ''created_at'']),
      (VotingProposalAnalysis, [''id'', ''proposal_id'', ''chain'', ''wallet_address'', ''sections'', ''body_html'', ''source'',
         ''signature_id'', ''created_at'', ''revision'']),
      (VotingRegistrationIntents, [''id'', ''chain'', ''wallet_address'', ''signature_id'', ''created_at'', ''processed_at'',
         ''last_attempt_at'', ''retry_after'', ''attempts'', ''last_error_class'']),
      (VotingProposals, [''id'', ''chain'', ''proposer'', ''title'', ''body_html'', ''body_canonical'', ''terra_height'', ''bsc_block'',
         ''created_at'', ''status'', ''body_sections'', ''opened_at'', ''revision'', ''snapshot_validity'', ''snapshot_incident'',
         ''terra_block_hash'', ''bsc_block_hash'', ''terra_epoch'', ''bsc_epoch''])]"

definition reviewed_role :: role_grants where
  "reviewed_role = \<lparr>rg_same_session = True, rg_attributes = [False, False, False, False, False], rg_parents = False,
     rg_columns = map_of reviewed_columns,
     rg_table = (\<lambda>t p. p = Select \<and> t \<in> set readable_tables \<or> p = Insert \<and> t \<in> set writable_tables),
     rg_column = (\<lambda>t c p. t = VotingRegistrationIntents \<and> p = Insert \<and> c \<in> set intent_columns
        \<or> t = VotingProposals \<and> (p = Insert \<and> c \<in> set draft_columns \<or> p = Update \<and> c \<in> set amendable_columns)),
     rg_owner = (\<lambda>f. if f \<in> set callable_functions then Some False else None), rg_execute = (\<lambda>f. f \<in> set callable_functions),
     rg_creates = [False, False, False]\<rparr>"

definition deleting_role :: role_grants where
  "deleting_role = reviewed_role\<lparr>rg_table := (\<lambda>t p. rg_table reviewed_role t p
     \<or> t = VotingProposals \<and> (p = Delete \<or> p = Truncate))\<rparr>"

lemmas role_defs = reviewed_columns_def immutable_tables_def readable_tables_def callable_functions_def writable_tables_def
  draft_columns_def protected_columns_def identity_columns_def amendable_columns_def intent_columns_def intent_metadata_def

lemma accepted_roles: "validate_production_privileges reviewed_role = Inr ()" "validate_production_privileges deleting_role = Inr ()"
  by code_simp+

theorem accepted_role_restricted_witness:
  "validate_production_privileges reviewed_role = Inr () \<and> \<not> permitted reviewed_role (SqlTruncate VotingVotes)
     \<and> permitted reviewed_role (SqlUpdate VotingProposals amendable_columns)"
proof -
  have ok: "validate_production_privileges reviewed_role = Inr ()"
    by (rule accepted_roles)
  have "harmful (SqlTruncate VotingVotes)" "SqlUpdate VotingProposals amendable_columns \<in> set api_writes"
    by (simp_all add: immutable_tables_def api_writes_def)
  with accepted_role_restricted [OF ok] ok show ?thesis by blast
qed

text \<open>
  C34. The table of the proposals itself is not among those the check protects against removal: a role
  that is accepted may hold \<open>DELETE\<close> and \<open>TRUNCATE\<close> on \<open>voting.proposals\<close>.
\<close>

theorem accepted_role_deletes_proposals:
  "validate_production_privileges deleting_role = Inr () \<and> permitted deleting_role (SqlDelete VotingProposals)
     \<and> permitted deleting_role (SqlTruncate VotingProposals)"
  using accepted_roles(2) by (simp add: deleting_role_def reviewed_role_def reviewed_columns_def)

end
