(* ===== verification/Reconcile.thy ===== *)
theory Reconcile
  imports IngestProps "HOL-Library.List_Lexorder"
begin

text \<open>
  Recovery from a live baseline (\<open>ledger/src/reconcile.rs\<close>). One transaction reads the live
  balances of all registered wallets at one block, records them there and makes that block their
  baseline, in a new epoch. The theorem shows that this re-establishes the ledger invariant and
  leaves every balance below the block as it was. Wallets are ordered by code point.
\<close>

section \<open>The transaction\<close>

definition is_healthy :: "checkpoint \<Rightarrow> bool" where
  "is_healthy cp \<longleftrightarrow> cp_complete cp \<and> cp_canonical cp \<and> cp_degraded cp = None"

definition active_wallets :: "chain \<Rightarrow> db \<Rightarrow> ustring list" where
  "active_wallets c d = sort (map vr_wallet (active_registrations d c))"

fun await_finality :: "'w network \<Rightarrow> urls \<Rightarrow> int \<Rightarrow> nat \<Rightarrow> ('w, unit) act" where
  "await_finality net bsc height 0 = fail (Provider ''reconciliation_finality_deadline'')"
| "await_finality net bsc height (Suc polls) =
     bindA (call (bsc_block_number net bsc)) (\<lambda>head.
     if head \<ge> height + BSC_FINALITY_DEPTH then ret () else await_finality net bsc height polls)"

definition insert_baseline_row :: "chain \<Rightarrow> int \<Rightarrow> ustring \<times> int \<Rightarrow> db \<Rightarrow> db ledger_result" where
  "insert_baseline_row c height wb d =
     (if \<not> numeric78 (snd wb) then Inl (Database numeric_out_of_range)
      else if find_row bal_key (fst wb, height) (balances d c) \<noteq> None then Inl (Database unique_violation)
      else Inr (d\<lparr>balances := (balances d)(c := balances d c
              @ [\<lparr>bl_wallet = fst wb, bl_height = height, bl_balance = snd wb\<rparr>])\<rparr>))"

definition rebased_registration :: "checkpoint option \<Rightarrow> int \<Rightarrow> ustring \<Rightarrow> registration \<Rightarrow> registration" where
  "rebased_registration cp height hash r = r\<lparr>vr_baseline_height := Some height, vr_baseline_hash := Some hash,
     vr_baseline_verified := True, vr_baseline_epoch := (case cp of Some cp \<Rightarrow> cp_epoch cp + 1 | None \<Rightarrow> 1)\<rparr>"

definition rebase_registration :: "chain \<Rightarrow> int \<Rightarrow> ustring \<Rightarrow> ustring \<Rightarrow> db \<Rightarrow> db" where
  "rebase_registration c height hash wallet d =
     d\<lparr>registrations := update_where (\<lambda>r. vr_chain r = c \<and> vr_wallet r = wallet)
         (rebased_registration (checkpoints d c) height hash) (registrations d)\<rparr>"

definition rebase :: "chain \<Rightarrow> int \<Rightarrow> ustring \<Rightarrow> ustring \<times> int \<Rightarrow> db \<Rightarrow> db ledger_result" where
  "rebase c height hash wb d =
     bindR (insert_baseline_row c height wb d) (\<lambda>d'. Inr (rebase_registration c height hash (fst wb) d'))"

definition bump_epoch :: "chain \<Rightarrow> db \<Rightarrow> db" where
  "bump_epoch c d =
     d\<lparr>checkpoints := (checkpoints d)(c := map_option (\<lambda>cp. cp\<lparr>cp_epoch := cp_epoch cp + 1\<rparr>) (checkpoints d c))\<rparr>"

definition reconcile_baseline ::
    "'w network \<Rightarrow> urls \<Rightarrow> urls \<Rightarrow> chain \<Rightarrow> bool \<Rightarrow> ('w, bool) act" where
  "reconcile_baseline net lcd bsc c only_if_required =
    (let client = (case c of Terra \<Rightarrow> lcd | Bsc \<Rightarrow> bsc) in
     thenA (begin_tx (clock net))
    (bindA (read_tx (\<lambda>d. map_option is_healthy (checkpoints d c))) (\<lambda>healthy.
     if only_if_required \<and> healthy = Some True then ret False
     else bindA (read_tx (active_wallets c)) (\<lambda>wallets.
     bindA (call (bulk_live_balances net c wallets)) (\<lambda>snapshot.
     let height = lbs_height snapshot; hash = lbs_block_hash snapshot; bals = lbs_balances snapshot in
     if height \<le> 0 \<or> length bals \<noteq> length wallets \<or> list_ex (\<lambda>b. b < 0) bals
     then fail (Provider ''invalid_bulk_baseline'')
     else bindA (call (chain_block_hash net c client height)) (\<lambda>actual.
     if actual \<noteq> hash then fail (Provider ''divergent_recovery_provider'')
     else thenA (if c = Bsc
                 then thenA (\<lambda>s. await_finality net bsc height (finality_polls net (world s)) s)
                     (bindA (call (bsc_block_hash net bsc height)) (\<lambda>final.
                      if final \<noteq> hash then fail (Provider ''reconciliation_source_fork'') else ret ()))
                 else ret ())
    (thenA (in_tx (\<lambda>_. foldR (rebase c height hash) (zip wallets bals)))
    (thenA (in_tx (\<lambda>_ d. Inr (bump_epoch c d)))
    (bindA (call (case c of Terra \<Rightarrow> lcd_latest_height net lcd | Bsc \<Rightarrow> bsc_block_number net bsc)) (\<lambda>tip.
     thenA (in_tx (publish_checkpoint c height hash tip))
    (thenA commit_tx (ret True))))))))))))"

definition reconcile_live_baseline :: "'w network \<Rightarrow> urls \<Rightarrow> urls \<Rightarrow> chain \<Rightarrow> ('w, unit) act" where
  "reconcile_live_baseline net lcd bsc c = thenA (reconcile_baseline net lcd bsc c False) (ret ())"

text \<open>The deploy-time recovery of both chains; a healthy chain and an unused one are skipped.\<close>

definition request_recovery :: "chain \<Rightarrow> db \<Rightarrow> db" where
  "request_recovery c d =
     (if checkpoints d c = None
      then d\<lparr>checkpoints := (checkpoints d)(c := Some (new_checkpoint (str ''baseline_recovery_requested'')))\<rparr>
      else d)"

definition recover_chain :: "'w network \<Rightarrow> urls \<Rightarrow> urls \<Rightarrow> chain \<Rightarrow> nat \<Rightarrow> ('w, nat) act" where
  "recover_chain net lcd bsc c repaired =
     bindA (read_pool (\<lambda>d. length (active_registrations d c))) (\<lambda>holders.
     bindA (read_pool (\<lambda>d. map_option (\<lambda>cp. \<not> is_healthy cp) (checkpoints d c))) (\<lambda>needs.
     if needs = Some False then ret repaired
     else bindA (bindA (read_pool (\<lambda>d. indexed_height d c)) lift) (\<lambda>cursor.
     if holders = 0 \<and> cursor = 0 \<and> needs = None then ret repaired
     else thenA (on_pool (clock net) (\<lambda>_. request_recovery c))
         (bindA (reconcile_baseline net lcd bsc c True) (\<lambda>did.
          ret (if did then Suc repaired else repaired))))))"

definition reconcile_if_required :: "'w network \<Rightarrow> urls \<Rightarrow> urls \<Rightarrow> ('w, nat) act" where
  "reconcile_if_required net lcd bsc =
     bindA (recover_chain net lcd bsc Terra 0) (\<lambda>n. recover_chain net lcd bsc Bsc n)"

section \<open>The new tables\<close>

definition baseline_rows :: "int \<Rightarrow> (ustring \<times> int) list \<Rightarrow> balance_row list" where
  "baseline_rows height wbs = map (\<lambda>wb. \<lparr>bl_wallet = fst wb, bl_height = height, bl_balance = snd wb\<rparr>) wbs"

definition rebase_all :: "chain \<Rightarrow> int \<Rightarrow> ustring \<Rightarrow> (ustring \<times> int) list \<Rightarrow> db \<Rightarrow> db" where
  "rebase_all c height hash wbs d =
     d\<lparr>balances := (balances d)(c := balances d c @ baseline_rows height wbs),
       registrations := update_where (\<lambda>r. vr_chain r = c \<and> vr_wallet r \<in> fst ` set wbs)
         (rebased_registration (checkpoints d c) height hash) (registrations d)\<rparr>"

lemma rebased_registration_simps [simp]:
  "reg_key (rebased_registration cp height hash r) = reg_key r"
  "vr_chain (rebased_registration cp height hash r) = vr_chain r"
  "vr_wallet (rebased_registration cp height hash r) = vr_wallet r"
  "vr_registered_at (rebased_registration cp height hash r) = vr_registered_at r"
  "vr_initial (rebased_registration cp height hash r) = vr_initial r"
  "is_active (rebased_registration cp height hash r) = is_active r"
  "baseline_of (rebased_registration cp height hash r) = height"
  "vr_baseline_verified (rebased_registration cp height hash r)"
  "rebased_registration cp height hash (rebased_registration cp height hash r) = rebased_registration cp height hash r"
  by (simp_all add: rebased_registration_def reg_key_def is_active_def baseline_of_def)

lemma rebase_all_step:
  "rebase_all c height hash wbs (rebase_registration c height hash w
      (d\<lparr>balances := (balances d)(c := balances d c @ [\<lparr>bl_wallet = w, bl_height = height, bl_balance = b\<rparr>])\<rparr>))
     = rebase_all c height hash ((w, b) # wbs) d"
proof -
  have "update_where (\<lambda>r. vr_chain r = c \<and> vr_wallet r \<in> fst ` set wbs) (rebased_registration cp height hash)
      (update_where (\<lambda>r. vr_chain r = c \<and> vr_wallet r = w) (rebased_registration cp height hash) rs)
    = update_where (\<lambda>r. vr_chain r = c \<and> vr_wallet r \<in> fst ` set ((w, b) # wbs)) (rebased_registration cp height hash) rs" for cp rs
    by (auto simp: update_where_def)
  then show ?thesis
    by (simp add: rebase_all_def rebase_registration_def baseline_rows_def)
qed

lemma rebase_Inr: "rebase c height hash (w, b) d = Inr d1 \<longleftrightarrow>
     numeric78 b \<and> find_row bal_key (w, height) (balances d c) = None
   \<and> d1 = rebase_registration c height hash w
       (d\<lparr>balances := (balances d)(c := balances d c @ [\<lparr>bl_wallet = w, bl_height = height, bl_balance = b\<rparr>])\<rparr>)"
  by (auto simp: rebase_def insert_baseline_row_def)

lemma rebase_fold:
  "foldR (rebase c height hash) wbs d = Inr d' \<Longrightarrow> d' = rebase_all c height hash wbs d
     \<and> (unique_by bal_key (balances d c) \<longrightarrow> unique_by bal_key (balances d' c))"
proof (induction wbs arbitrary: d)
  case Nil
  then show ?case
    by (simp add: rebase_all_def baseline_rows_def update_where_def)
next
  case (Cons wb wbs)
  obtain w b where wb: "wb = (w, b)" by fastforce
  let ?row = "\<lparr>bl_wallet = w, bl_height = height, bl_balance = b\<rparr>"
  let ?d1 = "rebase_registration c height hash w (d\<lparr>balances := (balances d)(c := balances d c @ [?row])\<rparr>)"
  from Cons.prems have step: "foldR (rebase c height hash) wbs ?d1 = Inr d'" "find_row bal_key (w, height) (balances d c) = None"
    unfolding wb foldR.simps result_iff rebase_Inr by blast+
  have "balances ?d1 c = balances d c @ [?row]"
    by (simp add: rebase_registration_def)
  moreover have "unique_by bal_key (balances d c @ [?row])" if "unique_by bal_key (balances d c)"
    using that step(2) by (auto simp: find_row_None bal_key_def)
  moreover note Cons.IH [OF step(1), unfolded rebase_all_step]
  ultimately show ?case
    unfolding wb by simp blast
qed

lemma update_where_member: "r' \<in> set (update_where p f rs) \<longleftrightarrow> (\<exists>r\<in>set rs. r' = (if p r then f r else r))"
  by (auto simp: update_where_def)

section \<open>The books after a recovery\<close>

lemma rebase_all_tables [simp]:
  "transfers (rebase_all c height hash wbs d) = transfers d"
  "balances (rebase_all c height hash wbs d) c = balances d c @ baseline_rows height wbs"
  "c' \<noteq> c \<Longrightarrow> balances (rebase_all c height hash wbs d) c' = balances d c'"
  "checkpoints (rebase_all c height hash wbs d) = checkpoints d"
  "canonical_blocks (rebase_all c height hash wbs d) = canonical_blocks d"
  "indexer_state (rebase_all c height hash wbs d) = indexer_state d"
  by (simp_all add: rebase_all_def)

lemma rebase_all_registrations: "registrations (rebase_all c height hash wbs d) =
    update_where (\<lambda>r. vr_chain r = c \<and> vr_wallet r \<in> fst ` set wbs) (rebased_registration (checkpoints d c) height hash) (registrations d)"
  by (simp add: rebase_all_def)

lemma rebase_all_keys:
  "unique_by reg_key (registrations (rebase_all c height hash wbs d)) = unique_by reg_key (registrations d)"
  "reg_key ` set (registrations (rebase_all c height hash wbs d)) = reg_key ` set (registrations d)"
  by (simp add: rebase_all_registrations)
     (simp add: rebase_all_registrations update_where_def image_image if_distrib [of reg_key] del: if_image_distrib cong: if_cong)

lemma rebase_all_regs_below:
  "(\<forall>r\<in>set (registrations (rebase_all c height hash wbs d)). vr_registered_at r \<le> B) \<longleftrightarrow>
   (\<forall>r\<in>set (registrations d). vr_registered_at r \<le> B)"
  by (simp add: rebase_all_registrations update_where_def if_distrib [of vr_registered_at] del: if_image_distrib cong: if_cong)

lemma rebase_all_other:
  assumes "c' \<noteq> c"
  shows "books_ok (rebase_all c height hash wbs d) c' B = books_ok d c' B"
proof -
  have same: "reconciled (rebase_all c height hash wbs d) c' r = reconciled d c' r" for r
    using assms by (simp add: reconciled_def stored_balance_def)
  have regs: "(\<forall>r\<in>set (registrations (rebase_all c height hash wbs d)). vr_chain r = c' \<longrightarrow> P r)
      \<longleftrightarrow> (\<forall>r\<in>set (registrations d). vr_chain r = c' \<longrightarrow> P r)" for P
    using assms by (auto simp: rebase_all_registrations update_where_def)
  show ?thesis
    using assms unfolding books_ok_def
    by (simp add: rebase_all_keys rebase_all_regs_below same regs)
qed

lemma rebase_all_books:
  assumes old: "books_ok d c B" and le: "B \<le> height"
    and uniq: "unique_by bal_key (balances (rebase_all c height hash wbs d) c)"
    and wbs: "fst ` set wbs = vr_wallet ` set (active_registrations d c)"
  shows "books_ok (rebase_all c height hash wbs d) c height"
proof -
  let ?d = "rebase_all c height hash wbs d"
  have rows: "bl_height b \<le> height \<and> (c, bl_wallet b) \<in> reg_key ` set (registrations ?d)" if "b \<in> set (balances ?d c)" for b
  proof -
    have "(c, w) \<in> reg_key ` set (registrations d)" if "w \<in> fst ` set wbs" for w
      using that by (auto simp: wbs active_registrations_def reg_key_def image_iff)
    then show ?thesis
      using that old le by (force simp: rebase_all_keys baseline_rows_def books_ok_def)
  qed
  have recon: "reconciled ?d c r" if r: "r \<in> set (registrations ?d)" "vr_chain r = c" "is_active r" for r
  proof -
    have base: "baseline_of r = height"
    proof -
      obtain q where q: "q \<in> set (registrations d)" "r = (if vr_chain q = c \<and> vr_wallet q \<in> fst ` set wbs
          then rebased_registration (checkpoints d c) height hash q else q)"
        using r(1) unfolding rebase_all_registrations update_where_member by blast
      then have "vr_chain q = c" "is_active q"
        using r(2,3) unfolding q(2) by (simp_all split: if_splits)
      then have "vr_wallet q \<in> fst ` set wbs"
        using q(1) by (auto simp: wbs active_registrations_def)
      with q(2) \<open>vr_chain q = c\<close> show ?thesis by simp
    qed
    have same: "stored_balance ?d c r h = stored_balance ?d c r height" if "height \<le> h" for h
      by (rule stored_balance_above) (use rows that in auto)
    have none: "flow (transfers ?d c) r h = 0" for h
    proof -
      have "filter (in_flow r h) (transfers d c) = []"
        using old le by (fastforce simp: filter_empty_conv in_flow_def books_ok_def base)
      then show ?thesis by (simp add: flow_def)
    qed
    show ?thesis
      unfolding reconciled_def base none add_0_right using same by blast
  qed
  show ?thesis
    using old le rows recon uniq unfolding books_ok_def
    by (auto simp: rebase_all_keys rebase_all_regs_below)
qed

section \<open>What a recovery does\<close>

definition recovered :: "chain \<Rightarrow> db \<Rightarrow> int \<Rightarrow> ustring \<Rightarrow> int list \<Rightarrow> db \<Rightarrow> bool" where
  "recovered c d height hash bals d' \<longleftrightarrow> (let wbs = zip (active_wallets c d) bals in
     0 < height \<and> length bals = length (active_wallets c d) \<and> (\<forall>b\<in>set bals. 0 \<le> b)
   \<and> foldR (rebase c height hash) wbs d = Inr (rebase_all c height hash wbs d)
   \<and> (\<exists>tip now. publish_checkpoint c height hash tip now (bump_epoch c (rebase_all c height hash wbs d)) = Inr d'))"

lemma await_same: "holds P (await_finality net bsc height n) (\<lambda>_. P) P"
  if "\<And>f :: ('w, int) net. holds P (call f) (\<lambda>_. P) P"
  by (induction n) (auto intro!: holds_bindA that holds_if holds_ret holds_fail)

lemma reconcile_baseline_outcome:
  "holds (dbs (\<lambda>cm _. cm = d)) (reconcile_baseline net lcd bsc c only)
     (\<lambda>did. dbs (\<lambda>cm _. if did then \<exists>height hash bals. recovered c d height hash bals cm else cm = d))
     (dbs (\<lambda>cm _. cm = d))"
proof -
  let ?S = "dbs (\<lambda>cm t. cm = d \<and> t = d)" and ?E = "dbs (\<lambda>cm _. cm = d)"
  let ?Q = "\<lambda>did. dbs (\<lambda>cm _. if did then \<exists>height hash bals. recovered c d height hash bals cm else cm = d)"
  have start: "holds ?E (begin_tx k) (\<lambda>_. ?S) ?E" for k :: "'a \<Rightarrow> int"
    by (rule holds_begin) (simp add: dbs_def)
  have call: "holds ?S (call f) (\<lambda>_. ?S) ?E" for f :: "('a, 'b) net"
    by (rule holds_call) (simp_all add: dbs_def)
  have skip: "holds ?S (ret False) ?Q ?E"
    by (rule holds_ret) (simp add: dbs_def)
  have bad: "holds ?S (fail e) P ?E" for e and P :: "'b \<Rightarrow> 'a pool \<Rightarrow> bool"
    by (rule holds_fail) (simp add: dbs_def)
  have read: "holds ?S (read_tx q) (\<lambda>x s. x = q d \<and> ?S s) ?E" for q :: "db \<Rightarrow> 'b"
    by (rule holds_read_tx) (simp add: dbs_def)
  have await: "holds ?S (\<lambda>s. await_finality net bsc h (finality_polls net (world s)) s) (\<lambda>_. ?S) ?E" for h
  proof -
    have "holds ?S (await_finality net bsc h n) (\<lambda>_. ?S) ?S" for n
      by (rule await_same) (rule dbs_call)
    then have each: "?S s \<Longrightarrow> case await_finality net bsc h n s of (Inr x, s') \<Rightarrow> ?S s' | (Inl e, s') \<Rightarrow> ?S s'" for n s
      unfolding holds_def by (simp only:)
    show ?thesis
    proof (rule holdsI)
      fix s :: "'a pool"
      assume "?S s"
      from each [OF this, of "finality_polls net (world s)"]
      show "case await_finality net bsc h (finality_polls net (world s)) s of (Inr x, s') \<Rightarrow> ?S s' | (Inl e, s') \<Rightarrow> ?E s'"
        by (auto simp: dbs_def split: prod.splits sum.splits)
    qed
  qed
  have final: "holds ?S (if c = Bsc
                 then thenA (\<lambda>s. await_finality net bsc h (finality_polls net (world s)) s)
                     (bindA (call f) (\<lambda>final. if final \<noteq> hash then fail e else ret ()))
                 else ret ()) (\<lambda>_. ?S) ?E" for h e hash and f :: "('a, ustring) net"
    by (rule holds_if, rule holds_thenA [OF await], rule holds_bindA [OF call], rule holds_if, rule bad)
       (auto intro: holds_ret)
  have apply_all: "holds ?S (thenA (in_tx (\<lambda>_. foldR (rebase c height hash) wbs)) (thenA (in_tx (\<lambda>_ d. Inr (bump_epoch c d)))
      (bindA (call f) (\<lambda>tip. thenA (in_tx (publish_checkpoint c height hash tip)) (thenA commit_tx (ret True)))))) ?Q ?E"
    if w: "wbs = zip (active_wallets c d) bals" "0 < height" "length bals = length (active_wallets c d)" "\<forall>b\<in>set bals. 0 \<le> b"
    for height hash bals wbs and f :: "('a, int) net"
  proof -
    let ?d1 = "rebase_all c height hash wbs d"
    let ?S1 = "dbs (\<lambda>cm t. cm = d \<and> foldR (rebase c height hash) wbs d = Inr ?d1 \<and> t = ?d1)"
    let ?S2 = "dbs (\<lambda>cm t. cm = d \<and> foldR (rebase c height hash) wbs d = Inr ?d1 \<and> t = bump_epoch c ?d1)"
    let ?S3 = "dbs (\<lambda>cm t. recovered c d height hash bals t)"
    have w1: "holds ?S (in_tx (\<lambda>_. foldR (rebase c height hash) wbs)) (\<lambda>_. ?S1) ?E"
      by (rule holds_in_tx) (auto simp: dbs_def dest: rebase_fold)
    have w2: "holds ?S1 (in_tx (\<lambda>_ d. Inr (bump_epoch c d))) (\<lambda>_. ?S2) ?E"
      by (rule holds_in_tx) (auto simp: dbs_def)
    have w3: "holds ?S2 (call f) (\<lambda>_. ?S2) ?E"
      by (rule holds_call) (simp_all add: dbs_def)
    have w4: "holds ?S2 (in_tx (publish_checkpoint c height hash tip)) (\<lambda>_. ?S3) ?E" for tip
      by (rule holds_in_tx) (use w in \<open>auto simp: dbs_def recovered_def Let_def\<close>)
    have w5: "holds ?S3 (thenA commit_tx (ret True)) ?Q ?E"
    proof (rule holds_thenA [where Q = "?Q True"])
      show "holds ?S3 commit_tx (\<lambda>_. ?Q True) ?E"
        by (rule holds_commit) (simp add: dbs_def, blast)
    qed (rule holds_ret)
    show ?thesis
      by (rule holds_thenA [OF w1], rule holds_thenA [OF w2], rule holds_bindA [OF w3], rule holds_thenA [OF w4 w5])
  qed
  have body: "holds ?S (let height = lbs_height snapshot; hash = lbs_block_hash snapshot; bals = lbs_balances snapshot in
     if height \<le> 0 \<or> length bals \<noteq> length wallets \<or> list_ex (\<lambda>b. b < 0) bals
     then fail (Provider ''invalid_bulk_baseline'')
     else bindA (call (chain_block_hash net c client height)) (\<lambda>actual.
     if actual \<noteq> hash then fail (Provider ''divergent_recovery_provider'')
     else thenA (if c = Bsc
                 then thenA (\<lambda>s. await_finality net bsc height (finality_polls net (world s)) s)
                     (bindA (call (bsc_block_hash net bsc height)) (\<lambda>final.
                      if final \<noteq> hash then fail (Provider ''reconciliation_source_fork'') else ret ()))
                 else ret ())
    (thenA (in_tx (\<lambda>_. foldR (rebase c height hash) (zip wallets bals)))
    (thenA (in_tx (\<lambda>_ d. Inr (bump_epoch c d)))
    (bindA (call (case c of Terra \<Rightarrow> lcd_latest_height net lcd | Bsc \<Rightarrow> bsc_block_number net bsc)) (\<lambda>tip.
     thenA (in_tx (publish_checkpoint c height hash tip))
    (thenA commit_tx (ret True)))))))) ?Q ?E" if "wallets = active_wallets c d" for wallets snapshot client
    unfolding Let_def
    by (rule holds_if, rule bad, rule holds_bindA [OF call], rule holds_if, rule bad, rule holds_thenA [OF final], rule apply_all)
       (use that in \<open>auto simp: list_ex_iff not_less\<close>)
  show ?thesis
    unfolding reconcile_baseline_def Let_def [of "case c of Terra \<Rightarrow> lcd | Bsc \<Rightarrow> bsc"]
    by (rule holds_thenA [OF start], rule holds_bindA [OF read], rule holds_pure, rule holds_if, rule skip,
        rule holds_bindA [OF read], rule holds_pure, rule holds_bindA [OF call], rule body)
qed

lemma checkpoint_height_bump: "checkpoint_height (bump_epoch c d) c' = checkpoint_height d c'"
  by (simp add: bump_epoch_def checkpoint_height_def split: option.split)

lemma books_ok_bump [simp]: "books_ok (bump_epoch c d) c' B = books_ok d c' B"
  by (rule books_ok_frame) (simp_all add: bump_epoch_def)

lemma indexed_height_frame: "indexer_state d' = indexer_state d \<Longrightarrow> indexed_height d' c = indexed_height d c"
  by (simp add: indexed_height_def get_state_def)

lemma zip_fst_set: "length ws = length bs \<Longrightarrow> fst ` set (zip ws bs) = set ws"
  by (metis map_fst_zip set_map)

lemma recovered_inv:
  assumes rec: "recovered c d height hash bals d'" and inv: "ledger_inv d"
  shows "ledger_inv d'"
proof -
  let ?wbs = "zip (active_wallets c d) bals"
  let ?d1 = "rebase_all c height hash ?wbs d" and ?d2 = "bump_epoch c (rebase_all c height hash ?wbs d)"
  from rec obtain tip now where h: "0 < height" "length bals = length (active_wallets c d)"
    and fold: "foldR (rebase c height hash) ?wbs d = Inr ?d1"
    and pub: "publish_checkpoint c height hash tip now ?d2 = Inr d'"
    by (auto simp: recovered_def Let_def)
  have ch: "checkpoint_height ?d2 c' = checkpoint_height d c'" for c'
    unfolding checkpoint_height_bump by (simp add: checkpoint_height_def)
  have le: "checkpoint_height d c \<le> height"
    using publish_tables(4) [OF pub] h(1) ch [of c] by (auto simp: checkpoint_height_def split: option.splits)
  have wbs: "fst ` set ?wbs = vr_wallet ` set (active_registrations d c)"
    using h(2) by (simp add: zip_fst_set active_wallets_def)
  have chains: "chain_ok d c'" "history_ok d c'" for c'
    using inv by (simp_all add: ledger_inv_def)
  have uniq: "unique_by bal_key (balances ?d1 c)"
    using rebase_fold [OF fold] chains(1) by (simp add: chain_ok_def books_ok_def)
  have own: "books_ok ?d2 c height"
    using rebase_all_books [OF _ le uniq wbs] chains(1) by (simp add: chain_ok_def)
  have other: "chain_ok ?d2 c' \<and> history_ok ?d2 c'" if "c' \<noteq> c" for c'
  proof -
    have "indexed_height ?d2 c' = indexed_height d c'"
      by (rule indexed_height_frame) (simp add: bump_epoch_def)
    moreover have "checkpoints ?d2 c' = checkpoints d c'" "canonical_blocks ?d2 = canonical_blocks d"
      using that by (simp_all add: bump_epoch_def)
    ultimately show ?thesis
      using chains [of c'] ch [of c'] by (simp add: chain_ok_def history_ok_def rebase_all_other [OF that])
  qed
  have "canonical_blocks ?d2 = canonical_blocks d"
    by (simp add: bump_epoch_def)
  then have "pre_publish c height ?d2"
    using own other le chains(2) [of c] ch [of c] by (auto simp: pre_publish_def blocks_below_def history_ok_def max_absorb2)
  from pre_publish_publish [OF this pub] h(1) show ?thesis by simp
qed

lemma find_row_update_key:
  "(\<And>r. key (f r) = key r) \<Longrightarrow>
     find_row key k (update_where p f t) = map_option (\<lambda>r. if p r then f r else r) (find_row key k t)"
  by (induction t) (auto simp: update_where_def find_row_Cons)

lemma recovered_past:
  assumes rec: "recovered c d height hash bals d'" and "h < height"
  shows "sql_balance_at d' c w h = sql_balance_at d c w h"
proof -
  let ?wbs = "zip (active_wallets c d) bals"
  let ?d1 = "rebase_all c height hash ?wbs d" and ?d2 = "bump_epoch c (rebase_all c height hash ?wbs d)"
  from rec obtain tip now where pub: "publish_checkpoint c height hash tip now ?d2 = Inr d'"
    by (auto simp: recovered_def Let_def)
  have "sql_balance_at d' c w h = sql_balance_at ?d1 c w h"
    by (rule sql_balance_at_frame) (simp_all add: publish_tables [OF pub], simp_all add: bump_epoch_def)
  also have "\<dots> = sql_balance_at d c w h"
  proof -
    have "filter (\<lambda>b. bl_wallet b = x \<and> bl_height b \<le> h) (baseline_rows height ?wbs) = []" for x
      using assms(2) by (auto simp: baseline_rows_def filter_empty_conv)
    then have "stored_balance ?d1 c (rebased_registration cp height hash r) h = stored_balance d c r h"
        "stored_balance ?d1 c r h = stored_balance d c r h" for cp r
      by (simp_all add: stored_balance_def split: option.split)
    then show ?thesis
      by (simp add: sql_balance_at_def rebase_all_registrations find_row_update_key split: option.split)
  qed
  finally show ?thesis .
qed

lemma recovered_present:
  assumes rec: "recovered c d height hash bals d'" and inv: "ledger_inv d"
    and r: "r \<in> set (active_registrations d c)" "tracked (vr_wallet r)" and h: "height \<le> h" "vr_registered_at r \<le> h"
  shows "\<exists>i < length bals. active_wallets c d ! i = vr_wallet r \<and> sql_balance_at d' c (vr_wallet r) h = bals ! i"
proof -
  let ?ws = "active_wallets c d" and ?wbs = "zip (active_wallets c d) bals"
  let ?d1 = "rebase_all c height hash ?wbs d" and ?d2 = "bump_epoch c (rebase_all c height hash ?wbs d)"
  from rec obtain tip now where len: "0 < height" "length bals = length ?ws"
    and fold: "foldR (rebase c height hash) ?wbs d = Inr ?d1"
    and pub: "publish_checkpoint c height hash tip now ?d2 = Inr d'"
    by (auto simp: recovered_def Let_def)
  have "vr_wallet r \<in> set ?ws"
    using r(1) by (simp add: active_wallets_def)
  then obtain i where i: "i < length ?ws" "?ws ! i = vr_wallet r"
    by (auto simp: in_set_conv_nth)
  let ?row = "\<lparr>bl_wallet = vr_wallet r, bl_height = height, bl_balance = bals ! i\<rparr>"
  let ?r' = "rebased_registration (checkpoints d c) height hash r"
  have mem: "r \<in> set (registrations d)" "vr_chain r = c" "is_active r"
    using r(1) by (simp_all add: active_registrations_def)
  have "(vr_wallet r, bals ! i) \<in> set ?wbs"
    unfolding set_zip using i len(2) by (auto intro!: exI [of _ i])
  then have row: "?row \<in> set (balances ?d1 c)" and hit: "vr_wallet r \<in> fst ` set ?wbs"
    by (force simp: baseline_rows_def)+
  have books: "books_ok d c (checkpoint_height d c)"
    using inv by (simp add: ledger_inv_def chain_ok_def)
  have "checkpoint_height ?d2 c = checkpoint_height d c"
    unfolding checkpoint_height_bump by (simp add: checkpoint_height_def)
  then have le: "checkpoint_height d c \<le> height"
    using publish_tables(4) [OF pub] len(1) by (auto simp: checkpoint_height_def split: option.splits)
  have uniq: "unique_by bal_key (balances ?d1 c)"
    using rebase_fold [OF fold] books by (simp add: books_ok_def)
  have below: "bl_height q \<le> height" if "q \<in> set (balances ?d1 c)" for q
    using that books le by (force simp: baseline_rows_def books_ok_def)
  have stored: "stored_balance ?d1 c ?r' h = bals ! i"
    using stored_balance_row [OF uniq row, of ?r' h] below h(1) by simp
  have "find_row reg_key (c, vr_wallet r) (registrations d) = Some r"
    using unique_by_find [of reg_key, OF _ mem(1)] books mem(2) by (simp add: books_ok_def) (simp add: reg_key_def)
  then have find: "find_row reg_key (c, vr_wallet r) (registrations ?d1) = Some ?r'"
    using hit mem(2) by (simp add: rebase_all_registrations find_row_update_key)
  have w: "lower (trim (vr_wallet r)) = vr_wallet r"
    using r(2) by (simp add: tracked_def)
  then have "lower (sql_trim (vr_wallet r)) = vr_wallet r"
    by (metis lower_idem sql_trim_trimmed trim_idem trim_lower)
  then have "sql_balance_at ?d1 c (vr_wallet r) h = bals ! i"
    using find h(2) stored by (simp add: sql_balance_at_def)
  moreover have "sql_balance_at d' c (vr_wallet r) h = sql_balance_at ?d1 c (vr_wallet r) h"
    by (rule sql_balance_at_frame) (simp_all add: publish_tables [OF pub], simp_all add: bump_epoch_def)
  ultimately show ?thesis
    using i len(2) by auto
qed

text \<open>
  C18. A recovery either changes nothing that is committed, or it re-establishes the whole ledger at
  one block of the chain: the invariant holds, the chain is certified at that block in a new epoch,
  every balance below the block is what it was, so frozen weights keep their basis, and every
  active wallet's balance from the block on is what the provider reported for it there, never
  negative.
\<close>

theorem reconcile_baseline_safe:
  assumes run: "reconcile_baseline net lcd bsc c only s = (r, s')" and inv: "ledger_inv (committed s)"
  shows "if r = Inr True
     then ledger_inv (committed s') \<and> certified (committed s') c
        \<and> (let height = checkpoint_height (committed s') c in 0 < height \<and> checkpoint_height (committed s) c \<le> height
           \<and> (\<forall>w h. h < height \<longrightarrow> sql_balance_at (committed s') c w h = sql_balance_at (committed s) c w h)
           \<and> (\<exists>bals. length bals = length (active_wallets c (committed s)) \<and> (\<forall>b\<in>set bals. 0 \<le> b)
              \<and> (\<forall>q\<in>set (active_registrations (committed s) c). tracked (vr_wallet q) \<longrightarrow>
                  (\<forall>h\<ge>max height (vr_registered_at q). \<exists>i < length bals. active_wallets c (committed s) ! i = vr_wallet q
                     \<and> sql_balance_at (committed s') c (vr_wallet q) h = bals ! i))))
     else committed s' = committed s"
proof -
  note outcome = reconcile_baseline_outcome [of "committed s" net lcd bsc c only]
  show ?thesis
  proof (cases "r = Inr True")
    case False
    show ?thesis
    proof (cases r)
      case (Inl e)
      with run holds_errorD [OF outcome, of s] False show ?thesis by (simp add: dbs_def)
    next
      case (Inr b)
      with False have "b = False" by simp
      with Inr run holdsD [OF outcome, of s] False show ?thesis by (simp add: dbs_def)
    qed
  next
    case True
    with run holdsD [OF outcome, of s True s'] obtain height hash bals where
      rec: "recovered c (committed s) height hash bals (committed s')"
      by (auto simp: dbs_def)
    from rec obtain tip now where pub: "publish_checkpoint c height hash tip now
        (bump_epoch c (rebase_all c height hash (zip (active_wallets c (committed s)) bals) (committed s))) = Inr (committed s')"
      and pos: "0 < height" "length bals = length (active_wallets c (committed s))" "\<forall>b\<in>set bals. 0 \<le> b"
      by (auto simp: recovered_def Let_def)
    have height: "checkpoint_height (committed s') c = height" "certified (committed s') c"
      using publish_tables(5) [OF pub] pub by (auto simp: publish_checkpoint_Inr certified_def)
    have "checkpoint_height (committed s) c \<le> height"
      using publish_tables(4) [OF pub] pos(1) by (auto simp: checkpoint_height_def bump_epoch_def split: option.splits)
    then show ?thesis
      using True recovered_inv [OF rec inv] height pos recovered_past [OF rec] recovered_present [OF rec inv]
      by (auto simp: Let_def intro!: exI [of _ bals])
  qed
qed

theorem reconcile_baseline_safe_witness:
  "\<exists>s'. reconcile_baseline quiet_network [str ''u''] [] Terra False (fresh_pool fork_db) = (Inr True, s')
     \<and> ledger_inv (committed s') \<and> checkpoint_height (committed s') Terra = 1000"
proof -
  let ?run = "reconcile_baseline quiet_network [str ''u''] [] Terra False (fresh_pool fork_db)"
  have none: "active_wallets Terra (d\<lparr>checkpoints := x, canonical_blocks := y\<rparr>) = active_wallets Terra d"
      "active_wallets Terra initial_db = []" for d x y
    by (simp_all add: active_wallets_def active_registrations_def initial_db_def)
  have *: "fst ?run = Inr True \<and> checkpoint_height (committed (snd ?run)) Terra = 1000"
    by (simp add: reconcile_baseline_def Let_def thenA_def bindA_def begin_tx_def read_tx_def call_def in_tx_def commit_tx_def
        ret_def fresh_pool_def none quiet_network_def chain_block_hash_def publish_checkpoint_def bump_epoch_def
        set_state_def checkpoint_height_def fork_db_def)
  then have run: "?run = (Inr True, snd ?run)"
    by (metis prod.collapse)
  from reconcile_baseline_safe [OF this] run * show ?thesis
    by (auto simp: fresh_pool_def fork_db_inv)
qed

end
