(* ===== verification/LedgerOrder.thy ===== *)
theory LedgerOrder
  imports Reconcile Health
begin

text \<open>
  What the ledger process can do to a database, whatever the order of its steps. \<open>db_order\<close> is the
  interface of a preorder on databases: an action upholds it when every database it leaves behind,
  in its transaction or committed, is above the one it started from. \<open>ledger_order\<close> adds what the
  order must allow, the single statements of the ledger; inside it every transaction of the ingest,
  the fork handling, the registration and the recovery is shown to uphold the order once and for
  all. \<open>ledger_transactions\<close> has the transactions as its interface and composes the turns of the
  worker out of them.
\<close>

section \<open>Actions that respect an order\<close>

definition upholds :: "(db \<Rightarrow> db \<Rightarrow> bool) \<Rightarrow> ('w, 'e, 'a) eff \<Rightarrow> bool" where
  "upholds rel m \<longleftrightarrow> (\<forall>d0. holds (dbs (\<lambda>cm t. rel d0 cm \<and> rel d0 t)) m
     (\<lambda>_. dbs (\<lambda>cm t. rel d0 cm \<and> rel d0 t)) (dbs (\<lambda>cm t. rel d0 cm \<and> rel d0 t)))"

text \<open>The same without an open transaction.\<close>

definition pool_upholds :: "(db \<Rightarrow> db \<Rightarrow> bool) \<Rightarrow> ('w, 'e, 'a) eff \<Rightarrow> bool" where
  "pool_upholds rel m \<longleftrightarrow> (\<forall>d0. holds (dbs (\<lambda>cm _. rel d0 cm)) m (\<lambda>_. dbs (\<lambda>cm _. rel d0 cm)) (dbs (\<lambda>cm _. rel d0 cm)))"

lemma upholds_bind: "upholds rel m \<Longrightarrow> (\<And>x. upholds rel (f x)) \<Longrightarrow> upholds rel (bindA m f)"
  unfolding upholds_def by (blast intro: holds_bindA)

lemma upholds_then: "upholds rel m \<Longrightarrow> upholds rel n \<Longrightarrow> upholds rel (thenA m n)"
  unfolding upholds_def by (blast intro: holds_thenA)

lemma upholds_try: "upholds rel m \<Longrightarrow> (\<And>e. upholds rel (h e)) \<Longrightarrow> upholds rel (tryA m h)"
  unfolding upholds_def by (blast intro: holds_tryA)

lemma upholds_if: "(b \<Longrightarrow> upholds rel m) \<Longrightarrow> (\<not> b \<Longrightarrow> upholds rel n) \<Longrightarrow> upholds rel (if b then m else n)"
  by simp

lemma upholds_ret: "upholds rel (ret x)"
  and upholds_fail: "upholds rel (fail e)"
  and upholds_lift: "upholds rel (lift r)"
  and upholds_read_tx: "upholds rel (read_tx q)"
  and upholds_read_pool: "upholds rel (read_pool q)"
  and upholds_commit: "upholds rel commit_tx"
  and upholds_call: "upholds rel (call g)"
  unfolding upholds_def
  by (intro allI holds_basic; simp add: dbs_def)+

lemma upholds_forA: "(\<And>x. x \<in> set xs \<Longrightarrow> upholds rel (f x)) \<Longrightarrow> upholds rel (forA f xs)"
  unfolding upholds_def by (blast intro: holds_forA)

lemma pool_bind: "pool_upholds rel m \<Longrightarrow> (\<And>x. pool_upholds rel (f x)) \<Longrightarrow> pool_upholds rel (bindA m f)"
  unfolding pool_upholds_def by (blast intro: holds_bindA)

lemma pool_then: "pool_upholds rel m \<Longrightarrow> pool_upholds rel n \<Longrightarrow> pool_upholds rel (thenA m n)"
  unfolding pool_upholds_def by (blast intro: holds_thenA)

lemma pool_if: "(b \<Longrightarrow> pool_upholds rel m) \<Longrightarrow> (\<not> b \<Longrightarrow> pool_upholds rel n) \<Longrightarrow> pool_upholds rel (if b then m else n)"
  by simp

lemma pool_ret: "pool_upholds rel (ret x)"
  and pool_fail: "pool_upholds rel (fail e)"
  and pool_lift: "pool_upholds rel (lift r)"
  and pool_read: "pool_upholds rel (read_pool q)"
  and pool_call: "pool_upholds rel (call g)"
  unfolding pool_upholds_def
  by (intro allI holds_basic; simp add: dbs_def)+

lemma pool_forA: "(\<And>x. x \<in> set xs \<Longrightarrow> pool_upholds rel (f x)) \<Longrightarrow> pool_upholds rel (forA f xs)"
  unfolding pool_upholds_def by (blast intro: holds_forA)

lemma pool_tx:
  assumes "upholds rel m"
  shows "pool_upholds rel (thenA (begin_tx k) m)"
  unfolding pool_upholds_def
proof
  fix d0
  have "holds (dbs (\<lambda>cm _. rel d0 cm)) (begin_tx k) (\<lambda>_. dbs (\<lambda>cm t. rel d0 cm \<and> rel d0 t)) (dbs (\<lambda>cm _. rel d0 cm))"
    by (rule holds_begin) (simp add: dbs_def)
  moreover have "holds (dbs (\<lambda>cm t. rel d0 cm \<and> rel d0 t)) m (\<lambda>_. dbs (\<lambda>cm _. rel d0 cm)) (dbs (\<lambda>cm _. rel d0 cm))"
    by (rule holds_weaken [of "dbs (\<lambda>cm t. rel d0 cm \<and> rel d0 t)" m "\<lambda>_. dbs (\<lambda>cm t. rel d0 cm \<and> rel d0 t)"
          "dbs (\<lambda>cm t. rel d0 cm \<and> rel d0 t)"])
      (use assms in \<open>auto simp: upholds_def dbs_def\<close>)
  ultimately show "holds (dbs (\<lambda>cm _. rel d0 cm)) (thenA (begin_tx k) m) (\<lambda>_. dbs (\<lambda>cm _. rel d0 cm)) (dbs (\<lambda>cm _. rel d0 cm))"
    by (rule holds_thenA)
qed

text \<open>An action is run in the state that earlier ones left.\<close>

lemma pool_run: "pool_upholds rel m \<Longrightarrow> rel d0 (committed s) \<Longrightarrow> m s = (r, s') \<Longrightarrow> rel d0 (committed s')"
  unfolding pool_upholds_def holds_def dbs_def by (auto split: prod.splits sum.splits)

lemma pool_I: "(\<And>d0 s r s'. rel d0 (committed s) \<Longrightarrow> m s = (r, s') \<Longrightarrow> rel d0 (committed s')) \<Longrightarrow> pool_upholds rel m"
  unfolding pool_upholds_def holds_def dbs_def by (fastforce split: prod.splits sum.splits)

locale db_order =
  fixes rel :: "db \<Rightarrow> db \<Rightarrow> bool"
  assumes refl: "rel d d"
    and trans: "rel d d' \<Longrightarrow> rel d' d'' \<Longrightarrow> rel d d''"
begin

lemma upholds_in_tx: "(\<And>now d d'. f now d = Inr d' \<Longrightarrow> rel d d') \<Longrightarrow> upholds rel (in_tx f)"
  unfolding upholds_def by (intro allI holds_in_tx) (auto simp: dbs_def intro: trans)

lemma upholds_in_txv: "(\<And>now d d' x. f now d = Inr (d', x) \<Longrightarrow> rel d d') \<Longrightarrow> upholds rel (in_txv f)"
  unfolding upholds_def by (intro allI holds_in_txv) (auto simp: dbs_def intro: trans)

lemma upholds_on_pool: "(\<And>now d. rel d (f now d)) \<Longrightarrow> upholds rel (on_pool k f)"
  unfolding upholds_def by (intro allI holds_on_pool) (auto simp: dbs_def intro: trans)

lemma pool_on_pool: "(\<And>now d. rel d (f now d)) \<Longrightarrow> pool_upholds rel (on_pool k f)"
  unfolding pool_upholds_def by (intro allI holds_on_pool) (auto simp: dbs_def intro: trans)

lemma pool_on_poolv: "(\<And>now d d' x. f now d = (d', x) \<Longrightarrow> rel d d') \<Longrightarrow> pool_upholds rel (on_poolv k f)"
  unfolding pool_upholds_def by (intro allI holds_on_poolv) (auto simp: dbs_def intro: trans)

lemma foldR_rel: "foldR f xs d = Inr d' \<Longrightarrow> (\<And>x d d'. f x d = Inr d' \<Longrightarrow> rel d d') \<Longrightarrow> rel d d'"
  by (erule foldR_invariant [where P = "rel d"]) (auto intro: refl trans)

lemma fold_rel: "(\<And>x d. rel d (f x d)) \<Longrightarrow> rel d (fold f xs d)"
  by (induction xs arbitrary: d) (auto intro: refl trans)

lemma foldR_counted:
  assumes "foldR f xs (d, n) = Inr (d', n')" and "\<And>x dn dn'. f x dn = Inr dn' \<Longrightarrow> rel (fst dn) (fst dn')"
  shows "rel d d'"
proof -
  have "rel d (fst (d', n'))"
    by (rule foldR_invariant [OF assms(1), where P = "\<lambda>dn. rel d (fst dn)"]) (auto intro: refl trans assms(2))
  then show ?thesis by simp
qed

text \<open>What a run leaves is above what it found.\<close>

lemma above: "pool_upholds rel m \<Longrightarrow> m s = (r, s') \<Longrightarrow> rel (committed s) (committed s')"
  by (rule pool_run [OF _ refl])

lemmas tx_rules = upholds_bind upholds_then upholds_try upholds_if upholds_ret upholds_fail upholds_lift
  upholds_read_tx upholds_read_pool upholds_commit upholds_call upholds_forA

lemmas pool_rules = pool_tx pool_bind pool_then pool_if pool_ret pool_fail pool_lift pool_read pool_call pool_forA

end

section \<open>The ledger\<close>

locale ledger_order = db_order +
  assumes degraded: "rel d (degrade c reason d)"
    and verified: "rel d (mark_verified c w d)"
    and terra_event: "persist_terra_leg t height hash i d = Inr d' \<Longrightarrow> rel d d'"
    and bsc_event: "persist_bsc_leg b d = Inr d' \<Longrightarrow> rel d d'"
    and block_recorded: "rel d (insert_canonical_block c hh d)"
    and published: "publish_checkpoint c height hash tip now d = Inr d' \<Longrightarrow> rel d d'"
    and rewound: "rel d (rewind_to_ancestor c height d)"
    and lost_fork: "rel d (beyond_horizon c d)"
    and forced: "rel d (force_degrade c reason_str d)"
    and rebased: "rebase c height hash wb d = Inr d' \<Longrightarrow> rel d d'"
    and epoch_bumped: "rel d (bump_epoch c d)"
    and recovery_requested: "rel d (request_recovery c d)"
    and registered: "insert_live_registration c w observed sid d = Inr (d', b') \<Longrightarrow> rel d d'"
begin

lemma execution_rel:
  assumes "persist_execution token regs height ex dn = Inr dn'"
  shows "rel (fst dn) (fst dn')"
proof -
  obtain d n d' n' where dn: "dn = (d, n)" "dn' = (d', n')"
    by (cases dn, cases dn')
  have legs: "rel (fst a) (fst b)" if
    "foldR (\<lambda>t (d, n). bindR (persist_terra_leg t height h i d) (\<lambda>d'. Inr (d', Suc n))) ts a = Inr b" for ts h i a b
    by (rule foldR_invariant [OF that, where P = "\<lambda>e. rel (fst a) (fst e)"])
      (auto simp: result_iff refl intro: trans [OF _ terra_event])
  obtain events where "foldR (\<lambda>(index, event) dn.
       bindR (parse_cw20_wasm_events [event] token regs) (\<lambda>ts.
       foldR (\<lambda>t (d, n). bindR (persist_terra_leg t height (ex_tx_hash ex) (int index) d)
                            (\<lambda>d'. Inr (d', Suc n))) ts dn)) (List.enumerate 0 events) (d, n) = Inr (d', n')"
    using assms unfolding persist_execution_def result_iff dn by blast
  then have "rel d d'"
    by (rule foldR_counted) (auto simp: result_iff, drule legs, simp)
  then show ?thesis by (simp add: dn)
qed

lemma log_rel:
  assumes "persist_log token regs l dn = Inr dn'"
  shows "rel (fst dn) (fst dn')"
  using assms unfolding persist_log_def by (auto simp: result_iff refl split: option.splits) (rule bsc_event)

lemmas ledger_statements = degraded verified block_recorded published rewound lost_fork forced rebased epoch_bumped
  recovery_requested registered refl

lemma verify_baselines_upholds: "upholds rel (verify_baselines_loop net c urls hashes rs)"
proof (induction rs arbitrary: hashes)
  case (Cons r rs)
  show ?case
    by (simp split: option.split, intro conjI allI impI tx_rules upholds_on_pool upholds_in_tx Cons.IH)
      (auto intro: ledger_statements)
qed (simp add: upholds_ret)

lemma ingest_terra_upholds: "pool_upholds rel (ingest_terra_height net lcd cfg height)"
  unfolding ingest_terra_height_def verify_registration_baselines_def
  by (intro pool_tx tx_rules verify_baselines_upholds upholds_in_tx upholds_in_txv)
    (auto intro: ledger_statements foldR_counted execution_rel)

lemma store_bsc_range_upholds: "upholds rel (store_bsc_range net cfg baselines rng)"
  unfolding store_bsc_range_def
  by (intro tx_rules upholds_in_tx upholds_in_txv) (auto intro: ledger_statements fold_rel foldR_counted log_rel)

lemma ingest_bsc_upholds: "pool_upholds rel (ingest_bsc_range_plan net bsc cfg from to plan)"
  unfolding ingest_bsc_range_plan_def
  by (intro pool_if pool_ret pool_tx tx_rules upholds_on_pool store_bsc_range_upholds) (auto intro: ledger_statements)

lemma find_ancestor_upholds: "upholds rel (find_ancestor net c urls bs)"
  by (induction bs) (auto intro: tx_rules)

lemma publish_ancestor_upholds: "upholds rel (publish_ancestor net c urls a)"
  unfolding publish_ancestor_def
  by (intro tx_rules upholds_in_tx) (auto intro: ledger_statements)

lemma resolve_fork_upholds: "upholds rel (resolve_fork net c urls older)"
  unfolding resolve_fork_def
proof (rule upholds_bind [OF find_ancestor_upholds])
  fix a
  show "upholds rel (case a of
      None \<Rightarrow> thenA (in_tx (\<lambda>_ d. Inr (beyond_horizon c d))) (thenA commit_tx (fail (Provider ''fork_beyond_horizon'')))
    | Some a \<Rightarrow> publish_ancestor net c urls a)"
  proof (cases a)
    case None
    show ?thesis
      unfolding None option.case by (intro tx_rules upholds_in_tx) (auto intro: ledger_statements)
  next
    case (Some h)
    then show ?thesis by (simp add: publish_ancestor_upholds)
  qed
qed

lemma canonicality_upholds: "pool_upholds rel (canonicality net c last_h urls)"
  unfolding canonicality_def
  by (intro pool_if pool_ret pool_tx tx_rules upholds_on_pool resolve_fork_upholds) (auto intro: ledger_statements)

lemma publish_tip_upholds: "pool_upholds rel (publish_tip net c urls tip)"
  unfolding publish_tip_def
  by (intro pool_bind pool_call pool_tx tx_rules upholds_in_tx) (auto intro: ledger_statements)

lemma await_finality_upholds: "upholds rel (await_finality net bsc height n)"
  by (induction n) (auto intro!: tx_rules)

lemma await_finality_run: "upholds rel (\<lambda>s. await_finality net bsc height (n s) s)"
  using await_finality_upholds [of net bsc height] unfolding upholds_def holds_def by simp

lemma reconcile_upholds: "pool_upholds rel (reconcile_baseline net lcd bsc c only)"
  unfolding reconcile_baseline_def Let_def
  by (intro pool_tx tx_rules upholds_in_tx await_finality_run) (auto intro: ledger_statements foldR_rel)

lemma register_wallet_upholds: "pool_upholds rel (register_wallet net c raw sid)"
proof -
  have stored: "upholds rel (case r of None \<Rightarrow> fail (NotFound m) | Some r \<Rightarrow> ret (outcome_of c r b))" for m r b
    by (cases r) (simp_all add: upholds_fail upholds_ret)
  have known: "pool_upholds rel (case r of Some r \<Rightarrow> ret (outcome_of c r False) | None \<Rightarrow> m)" if "pool_upholds rel m" for r m
    using that by (cases r) (simp_all add: pool_ret)
  show ?thesis
    unfolding register_wallet_def
    by (intro pool_bind pool_if pool_lift pool_read pool_call pool_fail pool_tx known tx_rules upholds_in_txv stored)
      (rule registered)
qed

end

section \<open>Transactions\<close>

text \<open>
  The turns of the ledger process are sequences of transactions. What the transactions uphold, the
  turns uphold; the heights a turn ingests are those of an ingest window.
\<close>

lemma pool_bind_val:
  assumes "pool_upholds rel m" and "\<And>x s s'. m s = (Inr x, s') \<Longrightarrow> pool_upholds rel (f x)"
  shows "pool_upholds rel (bindA m f)"
proof (rule pool_I)
  fix d0 s r s'
  assume start: "rel d0 (committed s)" and run: "bindA m f s = (r, s')"
  obtain r1 s1 where one: "m s = (r1, s1)" by fastforce
  have mid: "rel d0 (committed s1)"
    by (rule pool_run [OF assms(1) start one])
  show "rel d0 (committed s')"
  proof (cases r1)
    case (Inl e)
    with mid run one show ?thesis by (auto simp: bindA_def)
  next
    case (Inr x)
    then have "f x s1 = (r, s')"
      using run one by (simp add: bindA_def)
    from pool_run [OF assms(2) mid this] one Inr show ?thesis by simp
  qed
qed

lemma call_result: "call f s = (Inr x, s') \<longleftrightarrow> (\<exists>w. f (world s) = (Inr x, w) \<and> s' = s\<lparr>world := w\<rparr>)"
  by (auto simp: call_def split: prod.split)

locale ledger_transactions = db_order +
  fixes net :: "'w network" and cfg :: ledger_config
  assumes canonical: "pool_upholds rel (canonicality net c last_h urls)"
    and terra_block: "0 \<le> height \<Longrightarrow> height \<le> i64_max \<Longrightarrow> pool_upholds rel (ingest_terra_height net urls cfg height)"
    and bsc_range: "pool_upholds rel (ingest_bsc_range_plan net urls cfg from to plan)"
    and tip: "0 < height \<Longrightarrow> pool_upholds rel (publish_tip net c urls height)"
    and degraded: "rel d (degrade c reason d)"
    and recovery_requested: "rel d (request_recovery c d)"
    and reconciliation: "pool_upholds rel (reconcile_baseline net lcd bsc c only)"
    and heads: "heads_i64 net"
begin

lemma advance_upholds:
  assumes "last_tip \<le> i64_max"
  shows "pool_upholds rel (advance net cfg c urls a last_tip)"
proof (cases "ingest_window a last_tip INGEST_CHUNK INGEST_STALE_GAP")
  case None
  then show ?thesis
    unfolding advance_def by (auto intro!: pool_if pool_fail tip)
next
  case (Some w)
  note w = ingest_window_Some [OF Some assms]
  show ?thesis
    using w Some unfolding advance_def ingest_bsc_next_range_def
    by (cases c) (auto intro!: pool_forA pool_then pool_ret terra_block bsc_range)
qed

lemma observed_tip_upholds: "pool_upholds rel (observed_tip net c urls)"
  unfolding observed_tip_def read_cursor_def by (cases c) (auto intro!: pool_rules)

lemma terra_head: "lcd_latest_height_at_least net urls m w = (Inr h, w') \<Longrightarrow> h \<le> i64_max"
  using heads unfolding heads_i64_def by blast

lemma observed_tip_i64: "observed_tip net c urls s = (Inr h, s') \<Longrightarrow> h \<le> i64_max"
  unfolding observed_tip_def
  by (cases c, auto simp: run_iff call_result sat_sub_def sat_i64_def i64_min_def intro!: min.coboundedI1 dest: terra_head)
    (simp add: i64_max_def)

lemma poll_chain_upholds: "pool_upholds rel (poll_chain_progress net lcd bsc cfg c)"
proof -
  have behind: "pool_upholds rel (read_behind c a)" for a
    unfolding read_behind_def by (intro pool_rules) (auto intro!: pool_rules split: option.split)
  show ?thesis
    unfolding poll_chain_progress_def read_cursor_def
    by (intro pool_bind pool_then pool_if pool_read pool_lift pool_fail pool_on_pool canonical behind
        pool_bind_val [OF observed_tip_upholds] advance_upholds degraded) (auto dest: observed_tip_i64)
qed

lemma worker_turn_upholds: "pool_upholds rel (worker_turn net lcd bsc cfg c late fate failures)"
proof (rule pool_I)
  fix d0 s r s'
  assume start: "rel d0 (committed s)" and run: "worker_turn net lcd bsc cfg c late fate failures s = (r, s')"
  obtain r1 s1 where poll: "poll_chain_progress net lcd bsc cfg c s = (r1, s1)"
    by fastforce
  have mid: "rel d0 (committed s1)"
    by (rule pool_run [OF poll_chain_upholds start poll])
  have "committed s' = committed s1 \<or> (\<exists>reason. committed s' = degrade c reason (committed s1))"
    using run by (cases fate) (auto simp: worker_turn_def issue_def poll thenA_def bindA_def on_pool_def ret_def Let_def split: sum.splits)
  with mid show "rel d0 (committed s')"
    using trans [OF mid degraded] by auto
qed

lemma recover_chain_upholds: "pool_upholds rel (recover_chain net lcd bsc c n)"
  unfolding recover_chain_def
  by (intro pool_bind pool_then pool_if pool_ret pool_read pool_lift pool_on_pool reconciliation) (rule recovery_requested)

lemma reconcile_if_required_upholds: "pool_upholds rel (reconcile_if_required net lcd bsc)"
  unfolding reconcile_if_required_def by (intro pool_bind recover_chain_upholds)

end

end
