(* ===== verification/System.thy ===== *)
theory System
  imports LedgerOrder VotingProps
begin

text \<open>
  The two processes on their one database. \<open>system_step\<close> is the transition relation of the deployed
  system: one committed transaction (or pool statement) of the ledger process, in any order and with
  any arguments its loops may use, or one request of the voting API, each from any state of the
  outside world. What every step keeps holds of every database the system can reach, however the
  transactions of the processes interleave; the turns of the worker, the passes over the intents and
  the recoveries are shown to be runs of this relation.
\<close>

section \<open>The transition relation\<close>

inductive system_step ::
    "'w network \<Rightarrow> ledger_config \<Rightarrow> ('k, 's, 'v) voting_env \<Rightarrow> 'n voting_config \<Rightarrow> db \<Rightarrow> db \<Rightarrow> bool"
  for net :: "'w network" and lcfg :: ledger_config and env :: "('k, 's, 'v) voting_env" and vcfg :: "'n voting_config" where
  canonicality_checked: "canonicality net c last_h urls s = (r, s') \<Longrightarrow>
      system_step net lcfg env vcfg (committed s) (committed s')"
| terra_block_ingested: "0 \<le> height \<Longrightarrow> height \<le> i64_max \<Longrightarrow> ingest_terra_height net urls lcfg height s = (r, s') \<Longrightarrow>
      system_step net lcfg env vcfg (committed s) (committed s')"
| bsc_range_ingested: "ingest_bsc_range_plan net urls lcfg from to plan s = (r, s') \<Longrightarrow>
      system_step net lcfg env vcfg (committed s) (committed s')"
| tip_published: "0 < height \<Longrightarrow> publish_tip net c urls height s = (r, s') \<Longrightarrow>
      system_step net lcfg env vcfg (committed s) (committed s')"
| chain_degraded: "system_step net lcfg env vcfg d (degrade c reason d)"
| recovery_asked: "system_step net lcfg env vcfg d (request_recovery c d)"
| baseline_reconciled: "reconcile_baseline net lcd bsc c only s = (r, s') \<Longrightarrow>
      system_step net lcfg env vcfg (committed s) (committed s')"
| wallet_registered: "register_wallet net c raw sid s = (r, s') \<Longrightarrow>
      system_step net lcfg env vcfg (committed s) (committed s')"
| intent_claimed: "claim_intent k now d = (d', b) \<Longrightarrow> system_step net lcfg env vcfg d d'"
| intent_postponed: "system_step net lcfg env vcfg d (postpone_intent k reason now d)"
| intent_processed: "names_wallet d i \<Longrightarrow> intent_settled d i \<Longrightarrow>
      system_step net lcfg env vcfg d (mark_intent_processed (in_id i) now d)"
| pass_recorded: "system_step net lcfg env vcfg d (set_state (str ''intents_ok'') v now d)"
| action_handled: "handle env vcfg request t = (answer, t') \<Longrightarrow>
      system_step net lcfg env vcfg (committed t) (committed t')"

inductive_cases system_stepE [consumes 1, case_names canonicality_checked terra_block_ingested bsc_range_ingested
    tip_published chain_degraded recovery_asked baseline_reconciled wallet_registered intent_claimed intent_postponed
    intent_processed pass_recorded action_handled]: "system_step net lcfg env vcfg d d'"

section \<open>What the ledger may do to the voting tables\<close>

text \<open>The ledger marks proposals as invalid and does nothing else to them.\<close>

definition judged :: "proposal_row \<Rightarrow> proposal_row \<Rightarrow> bool" where
  "judged p q \<longleftrightarrow> q = p\<lparr>pr_validity := pr_validity q, pr_incident := pr_incident q\<rparr>
     \<and> (pr_validity p = InvalidSnapshot \<longrightarrow> pr_validity q = InvalidSnapshot)"

definition voting_kept :: "db \<Rightarrow> db \<Rightarrow> bool" where
  "voting_kept d d' \<longleftrightarrow> signatures d' = signatures d \<and> snapshots d' = snapshots d \<and> votes d' = votes d
     \<and> comments d' = comments d \<and> analyses d' = analyses d \<and> receipts d' = receipts d \<and> revisions d' = revisions d
     \<and> list_all2 judged (proposals d) (proposals d')"

definition queue_kept :: "db \<Rightarrow> db \<Rightarrow> bool" where
  "queue_kept d d' \<longleftrightarrow> intents d' = intents d \<and> registered_keys d \<subseteq> registered_keys d'"

lemma judged_refl [simp]: "judged p p"
  by (simp add: judged_def)

lemma judged_trans: "judged p q \<Longrightarrow> judged q r \<Longrightarrow> judged p r"
  unfolding judged_def by (cases p; cases q; cases r) simp

lemma judged_invalidate [simp]: "judged p (invalidate incident p)"
  by (simp add: judged_def invalidate_def)

lemma judged_columns:
  "judged p q \<Longrightarrow> pr_id q = pr_id p \<and> pr_status q = pr_status p \<and> pr_revision q = pr_revision p \<and> identity_of q = identity_of p
     \<and> frozen q = frozen p \<and> revision_ok q = revision_ok p"
  unfolding judged_def by (elim conjE ssubst) (simp add: identity_of_def frozen_def revision_ok_def fun_eq_iff)

lemma judged_all [simp]: "list_all2 judged ps ps"
  by (simp add: list_all2_refl)

lemma judged_update: "list_all2 judged ps (update_where P (invalidate incident) ps)"
  by (simp add: update_where_def list_all2_conv_all_nth)

text \<open>A recorded event changes the transfers and the balances only.\<close>

lemma credit_frame: "credit_wallets c height from to amount d = Inr d' \<Longrightarrow> \<exists>bs. d' = d\<lparr>balances := bs\<rparr>"
proof -
  have one: "\<exists>bs. e' = d\<lparr>balances := bs\<rparr>" if "credit_wallet c height from to amount w e = Inr e'" "\<exists>bs. e = d\<lparr>balances := bs\<rparr>"
    for w e e'
    using that by (auto simp: credit_wallet_def upsert_checkpoint_def result_iff split: if_splits)
  have same: "\<exists>bs. d = d\<lparr>balances := bs\<rparr>"
    by (rule exI [of _ "balances d"]) simp
  assume "credit_wallets c height from to amount d = Inr d'"
  then show ?thesis
    unfolding credit_wallets_def by (rule foldR_invariant) (use one same in blast)+
qed

lemma event_frame:
  "persist_terra_leg t height hash i d = Inr d' \<Longrightarrow> \<exists>ts bs. d' = d\<lparr>transfers := ts, balances := bs\<rparr>"
  "persist_bsc_leg b d = Inr d' \<Longrightarrow> \<exists>ts bs. d' = d\<lparr>transfers := ts, balances := bs\<rparr>"
proof -
  have row: "\<exists>ts bs. d' = d\<lparr>transfers := ts, balances := bs\<rparr>" if "post_row c row d d'" for c row
  proof (cases "find_row tr_key (tr_key row) (transfers d c) = None")
    case True
    with that show ?thesis by (auto simp: post_row_def dest!: credit_frame)
  next
    case False
    with that have "d' = d\<lparr>transfers := transfers d, balances := balances d\<rparr>"
      by (simp add: post_row_def)
    then show ?thesis by blast
  qed
  then show "persist_terra_leg t height hash i d = Inr d' \<Longrightarrow> \<exists>ts bs. d' = d\<lparr>transfers := ts, balances := bs\<rparr>"
    "persist_bsc_leg b d = Inr d' \<Longrightarrow> \<exists>ts bs. d' = d\<lparr>transfers := ts, balances := bs\<rparr>"
    by (auto simp: persist_terra_leg_iff persist_bsc_leg_iff)
qed

lemma rebase_frame: "rebase c height hash wb d = Inr d' \<Longrightarrow>
   \<exists>bs. d' = d\<lparr>balances := bs, registrations := update_where (\<lambda>r. vr_chain r = c \<and> vr_wallet r = fst wb)
     (rebased_registration (checkpoints d c) height hash) (registrations d)\<rparr>"
  by (cases wb) (auto simp: rebase_Inr rebase_registration_def)

lemma keys_update: "(\<And>r. reg_key (f r) = reg_key r) \<Longrightarrow> reg_key ` set (update_where P f rs) = reg_key ` set rs"
  by (induction rs) (auto simp: update_where_def)

lemma reg_key_verified [simp]: "reg_key (r\<lparr>vr_baseline_verified := b\<rparr>) = reg_key r"
  by (simp add: reg_key_def)

interpretation voting_side: ledger_order voting_kept
proof unfold_locales
  fix d d' d''
  assume "voting_kept d d'" "voting_kept d' d''"
  then show "voting_kept d d''"
    unfolding voting_kept_def by (auto intro: list_all2_trans [OF judged_trans])
qed (auto simp: voting_kept_def degrade_def mark_verified_def insert_canonical_block_def publish_checkpoint_Inr
    rewind_to_ancestor_def beyond_horizon_def force_degrade_def bump_epoch_def request_recovery_def Let_def
    judged_update insert_live_registration_Inr dest!: event_frame rebase_frame split: if_splits)

interpretation queue_side: ledger_order queue_kept
proof unfold_locales
  fix d d' d''
  assume "queue_kept d d'" "queue_kept d' d''"
  then show "queue_kept d d''"
    unfolding queue_kept_def by (metis subset_trans)
qed (auto simp: queue_kept_def registered_keys_def degrade_def mark_verified_def insert_canonical_block_def publish_checkpoint_Inr
    rewind_to_ancestor_def beyond_horizon_def force_degrade_def bump_epoch_def request_recovery_def Let_def
    keys_update insert_live_registration_Inr dest!: event_frame rebase_frame split: if_splits)

section \<open>The invariant of the system\<close>

definition system_inv :: "('k, 's, 'v) voting_env \<Rightarrow> 'n voting_config \<Rightarrow> db \<Rightarrow> bool" where
  "system_inv env vcfg d \<longleftrightarrow> queue_ok d \<and> voting_ok (texts env) (jsonb_parse env) d \<and> all_authentic env vcfg d"

lemma list_all2_set1: "list_all2 P xs ys \<Longrightarrow> x \<in> set xs \<Longrightarrow> \<exists>y\<in>set ys. P x y"
  by (induction rule: list_all2_induct) auto

lemma list_all2_set2: "list_all2 P xs ys \<Longrightarrow> y \<in> set ys \<Longrightarrow> \<exists>x\<in>set xs. P x y"
  by (induction rule: list_all2_induct) auto

lemma judged_ids: "list_all2 judged ps qs \<Longrightarrow> map pr_id qs = map pr_id ps"
  by (induction rule: list_all2_induct) (auto dest: judged_columns)

lemma voting_ok_ledger:
  assumes ok: "voting_ok lib jsonb d" and kept: "voting_kept d d'"
  shows "voting_ok lib jsonb d'"
proof -
  note same = kept [unfolded voting_kept_def]
  have rows: "list_all2 judged (proposals d) (proposals d')"
    using kept by (simp add: voting_kept_def)
  have status: "\<exists>q\<in>set (proposals d'). pr_id q = pr_id p \<and> pr_status q = Open" if "p \<in> set (proposals d)" "pr_status p = Open" for p
    using list_all2_set1 [OF rows that(1)] that(2) judged_columns [of p] by metis
  have "votes_ok lib jsonb d'"
    by (rule votes_ok_mono [of lib jsonb d]) (use ok status same in \<open>simp_all add: voting_ok_def\<close>)
  moreover have "snapshots_ok d'"
  proof (rule snapshots_ok_mono [of d])
    fix p
    assume "p \<in> set (proposals d')" "pr_status p = Open"
    moreover from this obtain q where "q \<in> set (proposals d)" "judged q p"
      using list_all2_set2 [OF rows] by blast
    ultimately show "frozen p"
      using ok judged_columns [of q p] by (auto simp: voting_ok_def snapshots_ok_def)
  qed (use ok status same in \<open>simp_all add: voting_ok_def\<close>)
  moreover have "revisions_ok d'"
  proof (rule revisions_ok_mono [of d])
    fix p r
    assume "p \<in> set (proposals d)" "revision_ok p r"
    with list_all2_set1 [OF rows, of p] judged_columns [of p] show "\<exists>q\<in>set (proposals d'). revision_ok q r"
      by metis
  qed (use ok same in \<open>simp_all add: voting_ok_def\<close>)
  moreover have "keys_ok d'"
    using ok judged_ids [OF rows] same by (simp add: voting_ok_def keys_ok_def unique_by_def)
  ultimately show ?thesis
    using ok quotas_ok_frame [of d' d] receipts_ok_frame [of d' d] same by (simp add: voting_ok_def)
qed

lemma settled_kept: "intents_settled d \<Longrightarrow> queue_kept d d' \<Longrightarrow> intents_settled d'"
  by (auto simp: intents_settled_def intent_settled_def queue_kept_def list_all_iff)

lemma ledger_step_inv:
  assumes "system_inv env vcfg d" and "voting_kept d d'" and "queue_kept d d'" and "ledger_inv d'"
  shows "system_inv env vcfg d'"
  using assms(1) assms(4) voting_ok_ledger [OF _ assms(2)] settled_kept [OF _ assms(3)] all_authentic_frame [of d' d env vcfg]
    assms(2) [unfolded voting_kept_def] assms(3) [unfolded queue_kept_def]
  by (simp add: system_inv_def queue_ok_def)

lemma inv_pool_run:
  assumes "holds inv_pool m (\<lambda>_. inv_pool) inv_pool" and "m s = (r, s')" and "ledger_inv (committed s)"
  shows "ledger_inv (committed s')"
proof -
  have "inv_pool s"
    using assms(3) by (simp add: dbs_def)
  with assms(1,2) show ?thesis
    by (auto simp: holds_def dbs_def split: sum.splits)
qed

text \<open>One transaction of the ledger, whose own invariant is known.\<close>

lemma ledger_action_inv:
  assumes "pool_upholds voting_kept m" and "pool_upholds queue_kept m" and "m s = (r, s')"
    and "ledger_inv (committed s) \<Longrightarrow> ledger_inv (committed s')" and "system_inv env vcfg (committed s)"
  shows "system_inv env vcfg (committed s')"
proof (rule ledger_step_inv [OF assms(5)])
  show "voting_kept (committed s) (committed s')"
    using voting_side.above assms(1,3) by blast
  show "queue_kept (committed s) (committed s')"
    using queue_side.above assms(2,3) by blast
  show "ledger_inv (committed s')"
    using assms(4,5) by (simp add: system_inv_def queue_ok_def)
qed

text \<open>A step of the intent queue.\<close>

lemma queue_step_inv:
  assumes "system_inv env vcfg d" and "voting_kept d d'" and "intent_step d d'"
  shows "system_inv env vcfg d'"
  using assms(1) assms(3) [unfolded intent_step_def] intent_ids_unique [of d' d] voting_ok_ledger [OF _ assms(2)]
    all_authentic_frame [of d' d env vcfg] assms(2) [unfolded voting_kept_def]
  by (simp add: system_inv_def queue_ok_def)

lemma voting_kept_tables:
  "voting_kept d (d\<lparr>intents := is\<rparr>)" "voting_kept d (d\<lparr>indexer_state := ks\<rparr>)"
  by (simp_all add: voting_kept_def)

lemma queue_voting:
  "claim_intent k now d = (d', b) \<Longrightarrow> voting_kept d d'" "voting_kept d (postpone_intent k reason now d)"
  "voting_kept d (mark_intent_processed k now d)" "voting_kept d (set_state key v now d)"
  by (auto simp: claim_intent_def Let_def postpone_intent_def mark_intent_processed_def set_state_def intro: voting_kept_tables)

lemma pass_step: "intent_step d (set_state (str ''intents_ok'') v now d)"
  by (simp add: intent_step_def ledger_inv_set_state [OF intents_ok_key])

lemma register_step: "register_wallet net c raw sid s = (r, s') \<Longrightarrow> live_heights_i64 net \<Longrightarrow> intent_step (committed s) (committed s')"
  using register_frame by blast

lemma recovery_inv: "ledger_inv d \<Longrightarrow> ledger_inv (request_recovery c d)"
proof (cases "checkpoints d c = None")
  case True
  assume "ledger_inv d"
  moreover have "request_recovery c d = degrade c (str ''baseline_recovery_requested'') d"
    using True by (simp add: request_recovery_def degrade_def)
  ultimately show ?thesis by simp
qed (auto simp: request_recovery_def)

lemma reconcile_inv:
  assumes "reconcile_baseline net lcd bsc c only s = (r, s')" and "ledger_inv (committed s)"
  shows "ledger_inv (committed s')"
proof -
  have start: "dbs (\<lambda>cm _. cm = committed s) s"
    by (simp add: dbs_def)
  note outcome = reconcile_baseline_outcome [of "committed s" net lcd bsc c only]
  show ?thesis
  proof (cases r)
    case (Inl e)
    with holds_errorD [OF outcome start] assms show ?thesis by (simp add: dbs_def)
  next
    case (Inr did)
    with holdsD [OF outcome start] assms show ?thesis
      by (auto simp: dbs_def intro: recovered_inv split: if_splits)
  qed
qed

text \<open>Requests never touch the ledger; they may add an intent, with an identifier of its own.\<close>

definition intents_ok :: "db \<Rightarrow> bool" where
  "intents_ok d \<longleftrightarrow> intents_settled d \<and> unique_by in_id (intents d)"

lemma intents_ok_frame: "intents d' = intents d \<Longrightarrow> registrations d' = registrations d \<Longrightarrow> intents_ok d' = intents_ok d"
  by (simp add: intents_ok_def intents_settled_def intent_settled_def registered_keys_def)

lemma queue_tables:
  "insert_signature_row row d = Inr d' \<Longrightarrow> intents d' = intents d \<and> registrations d' = registrations d"
  "insert_draft pid c proposer title html canonical sections now d = Inr d' \<Longrightarrow> intents d' = intents d \<and> registrations d' = registrations d"
  "update_draft_sections pid title html canonical sections d = Inr d' \<Longrightarrow> intents d' = intents d \<and> registrations d' = registrations d"
  "freeze_proposal lib jsonb pid sid now d = Inr (hs, d') \<Longrightarrow> intents d' = intents d \<and> registrations d' = registrations d"
  "insert_vote lib jsonb pid c wallet ch weight sid now d = Inr d' \<Longrightarrow> intents d' = intents d \<and> registrations d' = registrations d"
  "insert_comment cid pid c wallet html sid now d = Inr d' \<Longrightarrow> intents d' = intents d \<and> registrations d' = registrations d"
  "insert_analysis aid pid c wallet html sections sid now d = Inr d' \<Longrightarrow> intents d' = intents d \<and> registrations d' = registrations d"
  "insert_receipt_row rrow d = Inr d' \<Longrightarrow> intents d' = intents d \<and> registrations d' = registrations d"
  by (auto simp: insert_signature_row_iff insert_draft_iff update_draft_sections_iff freeze_proposal_solved insert_comment_iff
      insert_receipt_row_iff dest!: insert_vote_Inr insert_analysis_Inr)

lemma record_tables: "record_revision pid sid now d = Inr d' \<Longrightarrow> intents d' = intents d \<and> registrations d' = registrations d"
  unfolding record_revision_def
  by (rule foldR_invariant [where P = "\<lambda>e. intents e = intents d \<and> registrations e = registrations d"])
    (auto simp: Let_def split: if_splits)

lemma intent_inserted:
  assumes "intents_ok d" and "insert_registration_intent row_id c wallet sid now d = Inr d'"
  shows "intents_ok d'"
  using assms by (auto simp: insert_registration_intent_iff intents_ok_def intents_settled_def intent_settled_def
      registered_keys_def unique_by_def split: if_splits)

interpretation requests: voting_statements env cfg intents_ok for env cfg
  by unfold_locales (blast intro: intent_inserted dest: intents_ok_frame queue_tables record_tables)+

lemma handle_run:
  assumes "holds (dbs (\<lambda>cm _. cm = committed t)) (handle env cfg request) (\<lambda>_. dbs (\<lambda>cm _. I cm)) (dbs (\<lambda>cm _. cm = committed t))"
    and "handle env cfg request t = (answer, t')" and "I (committed t)"
  shows "I (committed t')"
proof -
  have start: "dbs (\<lambda>cm _. cm = committed t) t"
    by (simp add: dbs_def)
  show ?thesis
    by (cases answer) (use holdsD [OF assms(1) start] holds_errorD [OF assms(1) start] assms(2,3) in \<open>auto simp: dbs_def\<close>)
qed

lemma handle_grown: "handle env cfg request t = (answer, t') \<Longrightarrow> grown (committed t) (committed t')"
  by (rule handle_run [OF history.handle_kept [OF grown_refl]]) simp_all

lemma grown_ledger: "grown d d' \<Longrightarrow> ledger_inv d' = ledger_inv d"
  by (rule ledger_inv_frame) (simp_all add: grown_def checkpoint_height_def indexed_height_def get_state_def)

lemma handle_inv:
  assumes run: "handle env cfg request t = (answer, t')" and inv: "system_inv env cfg (committed t)"
  shows "system_inv env cfg (committed t')"
proof -
  have "voting_ok (texts env) (jsonb_parse env) (committed t')"
    using inv by (intro handle_run [OF integrity.handle_kept run]) (simp_all add: system_inv_def)
  moreover have "all_authentic env cfg (committed t')"
    using inv by (intro handle_run [OF authenticity.handle_kept run]) (simp_all add: system_inv_def)
  moreover have "intents_ok (committed t')"
    using inv by (intro handle_run [OF requests.handle_kept run]) (simp_all add: system_inv_def queue_ok_def intents_ok_def)
  ultimately show ?thesis
    using inv grown_ledger [OF handle_grown [OF run]] by (simp add: system_inv_def queue_ok_def intents_ok_def)
qed

lemma publish_tip_inv:
  assumes "0 < height" and run: "publish_tip net c urls height s = (r, s')" and inv: "ledger_inv (committed s)"
  shows "ledger_inv (committed s')"
proof -
  have "holds inv_pool (publish_tip net c urls height) (\<lambda>_. inv_pool) inv_pool"
    by (rule holds_weaken [OF publish_tip_certified [OF assms(1)]]) (simp_all add: dbs_def)
  from inv_pool_run [OF this run inv] show ?thesis .
qed

lemma system_step_inv:
  assumes step: "system_step net lcfg env vcfg d d'"
    and net: "ranges_bounded net" "live_heights_i64 net" and inv: "system_inv env vcfg d"
  shows "system_inv env vcfg d'"
  using step
proof (cases rule: system_step.cases)
  case (canonicality_checked c last_h urls s r s')
  show ?thesis
    using ledger_action_inv [OF voting_side.canonicality_upholds queue_side.canonicality_upholds canonicality_checked(3)] inv canonicality_checked(1,2)
      inv_pool_run [OF canonicality_inv canonicality_checked(3)]
    by blast
next
  case (terra_block_ingested height urls s r s')
  show ?thesis
    using ledger_action_inv [OF voting_side.ingest_terra_upholds queue_side.ingest_terra_upholds terra_block_ingested(5)] inv terra_block_ingested(1,2)
      inv_pool_run [OF ingest_terra_inv [OF terra_block_ingested(3,4)] terra_block_ingested(5)]
    by blast
next
  case (bsc_range_ingested urls "from" "to" plan s r s')
  show ?thesis
    using ledger_action_inv [OF voting_side.ingest_bsc_upholds queue_side.ingest_bsc_upholds bsc_range_ingested(3)] inv bsc_range_ingested(1,2)
      inv_pool_run [OF ingest_bsc_inv [OF net(1)] bsc_range_ingested(3)]
    by blast
next
  case (tip_published height c urls s r s')
  show ?thesis
    using ledger_action_inv [OF voting_side.publish_tip_upholds queue_side.publish_tip_upholds tip_published(4)] inv tip_published(1,2)
      publish_tip_inv [OF tip_published(3,4)]
    by blast
next
  case (baseline_reconciled lcd bsc c only s r s')
  show ?thesis
    using ledger_action_inv [OF voting_side.reconcile_upholds queue_side.reconcile_upholds baseline_reconciled(3)] inv baseline_reconciled(1,2)
      reconcile_inv [OF baseline_reconciled(3)]
    by blast
next
  case (chain_degraded c reason)
  with inv show ?thesis
    using ledger_step_inv [OF inv voting_side.degraded queue_side.degraded] by (simp add: system_inv_def queue_ok_def)
next
  case (recovery_asked c)
  with inv show ?thesis
    using ledger_step_inv [OF inv voting_side.recovery_requested queue_side.recovery_requested]
    by (simp add: system_inv_def queue_ok_def recovery_inv)
next
  case (wallet_registered c raw sid s r s')
  have "voting_kept (committed s) (committed s')"
    using voting_side.above [OF voting_side.register_wallet_upholds wallet_registered(3)] .
  with inv net wallet_registered show ?thesis
    by (auto intro: queue_step_inv register_step)
next
  case (action_handled request t answer t')
  with inv show ?thesis
    by (auto intro: handle_inv)
qed (use inv in \<open>auto intro: queue_step_inv queue_voting claim_step postpone_step mark_step pass_step\<close>)

lemma system_inv_initial: "system_inv env vcfg initial_db"
  by (simp add: system_inv_def queue_ok_def initial_ledger_inv voting_ok_initial all_authentic_def intents_settled_def)
    (simp add: initial_db_def unique_by_def)

section \<open>What lasts\<close>

text \<open>
  The order in which the whole database develops: recorded rows stay, a registration is never lost,
  and an opened proposal keeps everything but its validity, which can only be lost.
\<close>

definition lasts :: "proposal_row \<Rightarrow> proposal_row \<Rightarrow> bool" where
  "lasts p q \<longleftrightarrow> identity_of q = identity_of p \<and> pr_revision p \<le> pr_revision q \<and> (pr_status p = Open \<longrightarrow> judged p q)"

definition endures :: "db \<Rightarrow> db \<Rightarrow> bool" where
  "endures d d' \<longleftrightarrow> prefix (signatures d) (signatures d') \<and> prefix (snapshots d) (snapshots d') \<and> prefix (votes d) (votes d')
     \<and> prefix (comments d) (comments d') \<and> prefix (analyses d) (analyses d') \<and> prefix (receipts d) (receipts d')
     \<and> prefix (revisions d) (revisions d') \<and> prefix (intent_ids d) (intent_ids d') \<and> registered_keys d \<subseteq> registered_keys d'
     \<and> (\<forall>p\<in>set (proposals d). \<exists>q\<in>set (proposals d'). lasts p q)"

lemma lasts_trans: "lasts p q \<Longrightarrow> lasts q r \<Longrightarrow> lasts p r"
  unfolding lasts_def using judged_columns [of p q] by (auto intro: judged_trans)

lemma kept_by_lasts: "kept_by p q \<Longrightarrow> lasts p q"
  by (auto simp: kept_by_def lasts_def)

lemma judged_lasts: "judged p q \<Longrightarrow> lasts p q"
  using judged_columns [of p q] by (simp add: lasts_def)

lemma endures_refl: "endures d d"
  by (auto simp: endures_def lasts_def)

lemma endures_trans:
  assumes "endures d d'" and "endures d' d''"
  shows "endures d d''"
proof -
  have "\<exists>r\<in>set (proposals d''). lasts p r" if "p \<in> set (proposals d)" for p
    using that assms lasts_trans unfolding endures_def by blast
  with assms show ?thesis
    unfolding endures_def by (auto intro: prefix_order.trans)
qed

lemma kept_endures:
  assumes "voting_kept d d'" and "intent_ids d' = intent_ids d" and "registered_keys d \<subseteq> registered_keys d'"
  shows "endures d d'"
  using assms list_all2_set1 judged_lasts unfolding endures_def voting_kept_def by (metis prefix_order.refl)

lemma ledger_endures: "voting_kept d d' \<Longrightarrow> queue_kept d d' \<Longrightarrow> endures d d'"
  by (rule kept_endures) (simp_all add: queue_kept_def intent_ids_def)

lemma queue_endures: "voting_kept d d' \<Longrightarrow> intent_step d d' \<Longrightarrow> endures d d'"
  by (rule kept_endures) (simp_all add: intent_step_def)

lemma grown_endures: "grown d d' \<Longrightarrow> endures d d'"
  unfolding grown_def endures_def intent_ids_def registered_keys_def by (auto intro: map_mono_prefix dest: kept_by_lasts)

text \<open>An action upheld on both sides.\<close>

lemma action_endures:
  assumes "pool_upholds voting_kept m" and "pool_upholds queue_kept m" and "m s = (r, s')"
  shows "endures (committed s) (committed s')"
  using ledger_endures voting_side.above [of m s r s'] queue_side.above [of m s r s'] assms by blast

lemma system_step_endures:
  assumes "system_step net lcfg env vcfg d d'" and "live_heights_i64 net"
  shows "endures d d'"
  using assms(1)
proof (cases rule: system_step.cases)
  case (canonicality_checked c last_h urls s r s')
  then show ?thesis
    using action_endures [OF voting_side.canonicality_upholds queue_side.canonicality_upholds] by blast
next
  case (terra_block_ingested height urls s r s')
  then show ?thesis
    using action_endures [OF voting_side.ingest_terra_upholds queue_side.ingest_terra_upholds] by blast
next
  case (bsc_range_ingested urls "from" "to" plan s r s')
  then show ?thesis
    using action_endures [OF voting_side.ingest_bsc_upholds queue_side.ingest_bsc_upholds] by blast
next
  case (tip_published height c urls s r s')
  then show ?thesis
    using action_endures [OF voting_side.publish_tip_upholds queue_side.publish_tip_upholds] by blast
next
  case (baseline_reconciled lcd bsc c only s r s')
  then show ?thesis
    using action_endures [OF voting_side.reconcile_upholds queue_side.reconcile_upholds] by blast
next
  case (wallet_registered c raw sid s r s')
  then show ?thesis
    using action_endures [OF voting_side.register_wallet_upholds queue_side.register_wallet_upholds] by blast
next
  case (chain_degraded c reason)
  then show ?thesis
    using ledger_endures voting_side.degraded queue_side.degraded by blast
next
  case (recovery_asked c)
  then show ?thesis
    using ledger_endures voting_side.recovery_requested queue_side.recovery_requested by blast
next
  case (action_handled request t answer t')
  then show ?thesis
    using grown_endures handle_grown by blast
qed (auto intro: queue_endures queue_voting claim_step postpone_step mark_step pass_step)

abbreviation system_run ::
    "'w network \<Rightarrow> ledger_config \<Rightarrow> ('k, 's, 'v) voting_env \<Rightarrow> 'n voting_config \<Rightarrow> db \<Rightarrow> db \<Rightarrow> bool" where
  "system_run net lcfg env vcfg \<equiv> (system_step net lcfg env vcfg)\<^sup>*\<^sup>*"

end
