(* ===== verification/SmartQuery.thy ===== *)
theory SmartQuery
  imports LedgerError "HOL-Library.Word" "HOL-Library.While_Combinator"
begin

text \<open>
  The protobuf framing of a CosmWasm smart query (the codec of \<open>ledger/src/terra_rpc.rs\<close>):
  base-128 varints on \<open>usize\<close>, the request with its two length-delimited fields, and the decoder
  of the response, which has one field and may hold nothing else. Bytes are \<open>8 word\<close> and
  \<open>usize\<close> is \<open>64 word\<close>; \<open>utf8_bytes\<close> is \<open>str::as_bytes\<close>. The loop of the encoder is stated as
  the \<open>while\<close> loop it is and shown to return what its recursive form computes.
\<close>

unbundle bit_operations_syntax

type_synonym byte = "8 word"
type_synonym usize = "64 word"

section \<open>UTF-8\<close>

definition utf8_char :: "nat \<Rightarrow> byte list" where
  "utf8_char c =
     (if c < 128 then [of_nat c]
      else if c < 2048 then [of_nat (192 + c div 64), of_nat (128 + c mod 64)]
      else if c < 65536 then [of_nat (224 + c div 4096), of_nat (128 + c div 64 mod 64), of_nat (128 + c mod 64)]
      else [of_nat (240 + c div 262144), of_nat (128 + c div 4096 mod 64), of_nat (128 + c div 64 mod 64),
            of_nat (128 + c mod 64)])"

definition utf8_bytes :: "ustring \<Rightarrow> byte list" where
  "utf8_bytes s = concat (map utf8_char s)"

lemma length_utf8_bytes [simp]: "length (utf8_bytes s) = str_len s"
  by (induction s) (auto simp: utf8_bytes_def utf8_char_def utf8_len_def)

section \<open>Varints\<close>

text \<open>The loop as it is written, on the number that is left and the bytes pushed so far.\<close>

definition encode_varint_loop :: "usize \<Rightarrow> byte list \<Rightarrow> (usize \<times> byte list) option" where
  "encode_varint_loop n out =
     while_option (\<lambda>(n, out). 128 \<le> n) (\<lambda>(n, out). (drop_bit 7 n, out @ [(ucast n AND 127) OR 128])) (n, out)"

function encode_varint :: "usize \<Rightarrow> byte list \<Rightarrow> byte list" where
  "encode_varint n out =
     (if 128 \<le> n then encode_varint (drop_bit 7 n) (out @ [(ucast n AND 127) OR 128]) else out @ [ucast n])"
  by pat_completeness auto

lemma unat_drop_bit_7: "unat (drop_bit 7 (n :: usize)) = unat n div 128"
  by (simp add: unat_drop_bit_eq drop_bit_eq_div [of 7 "unat n"] del: drop_bit_eq_div)

lemma unat_ge_128: "128 \<le> (n :: usize) \<longleftrightarrow> 128 \<le> unat n"
  by (simp add: word_le_nat_alt)

termination encode_varint
  by (relation "measure (\<lambda>(n, out). unat n)") (auto simp: unat_drop_bit_7 unat_ge_128)

declare encode_varint.simps [simp del]

definition smart_query_bytes :: "ustring \<Rightarrow> byte list \<Rightarrow> byte list" where
  "smart_query_bytes token query =
     (let bytes = encode_varint (of_nat (str_len token)) [10] @ utf8_bytes token @ [18] in
      encode_varint (of_nat (length query)) bytes @ query)"

text \<open>\<open>decode_smart_response\<close>: the \<open>for\<close> loop over the shifts \<open>0, 7, \<dots>, 63\<close>.\<close>

fun response_size :: "byte list \<Rightarrow> nat list \<Rightarrow> nat \<Rightarrow> usize \<Rightarrow> byte list ledger_result" where
  "response_size bytes [] position sz = Inl (Provider ''invalid_smart_response_varint'')"
| "response_size bytes (shift # shifts) position sz =
     (if length bytes \<le> position then Inl (Provider ''truncated_smart_response'')
      else (let b = bytes ! position; position = position + 1 in
        if shift = 63 \<and> 1 < b then Inl (Provider ''oversized_smart_response'')
        else if 64 \<le> shift then Inl (Provider ''oversized_smart_response'')
        else (let sz = sz OR push_bit shift (ucast (b AND 127)) in
          if b AND 128 = 0
          then (if (if position + unat sz < 2 ^ 64 then Some (position + unat sz) else None) \<noteq> Some (length bytes)
                then Inl (Provider ''invalid_smart_response_length'')
                else Inr (drop position bytes))
          else response_size bytes shifts position sz)))"

definition varint_shifts :: "nat list" where
  "varint_shifts = map ((*) 7) [0..<10]"

definition decode_smart_response :: "byte list \<Rightarrow> byte list ledger_result" where
  "decode_smart_response bytes =
     (if bytes = [] \<or> hd bytes \<noteq> 10 then Inl (Provider ''invalid_smart_response_tag'')
      else response_size bytes varint_shifts 1 0)"

subsection \<open>The encoder\<close>

lemma encode_varint_append: "encode_varint n (xs @ out) = xs @ encode_varint n out"
proof (induction n out arbitrary: xs rule: encode_varint.induct)
  case (1 n out)
  show ?case
    by (subst (1 2) encode_varint.simps) (simp add: "1.IH")
qed

lemma encode_varint_prefix: "encode_varint n out = out @ encode_varint n []"
  using encode_varint_append [of n out "[]"] by simp

lemma encode_varint_Nil: "encode_varint n [] =
    (if 128 \<le> n then ((ucast n AND 127) OR 128) # encode_varint (drop_bit 7 n) [] else [ucast n])"
  by (subst encode_varint.simps) (subst encode_varint_prefix, simp)

lemma length_encode_varint: "unat n < 128 ^ Suc k \<Longrightarrow> length (encode_varint n []) \<le> Suc k"
proof (induction k arbitrary: n)
  case 0
  then show ?case
    by (subst encode_varint_Nil) (simp add: unat_ge_128)
next
  case (Suc k)
  have "unat (drop_bit 7 n) < 128 ^ Suc k"
    using Suc.prems by (simp add: unat_drop_bit_7 less_mult_imp_div_less mult.commute)
  from Suc.IH [OF this] show ?case
    by (subst encode_varint_Nil) simp
qed

lemma varint_loop_run:
  "map_option (\<lambda>(n', out'). out' @ [ucast n']) (encode_varint_loop n out) = Some (encode_varint n out)"
proof (induction n out rule: encode_varint.induct)
  case (1 n out)
  have "encode_varint_loop n out =
      (if 128 \<le> n then encode_varint_loop (drop_bit 7 n) (out @ [(ucast n AND 127) OR 128]) else Some (n, out))"
    unfolding encode_varint_loop_def by (subst while_option_unfold) simp
  with 1 show ?case
    by (subst encode_varint.simps) simp
qed

lemma encode_varint_bounds: "length (encode_varint n []) \<in> {1..10}"
proof -
  have "unat n < 128 ^ Suc 9"
    using unsigned_less [of n, where 'a = nat] by simp
  from length_encode_varint [OF this] show ?thesis
    by (subst (asm) encode_varint_Nil, subst encode_varint_Nil) (auto simp: Suc_le_eq split: if_splits)
qed

subsection \<open>The decoder reads the encoder\<close>

lemma bit_127: "bit (127 :: int) i \<longleftrightarrow> i < 7"
proof -
  have "(127 :: int) = mask 7"
    by (simp add: mask_eq_exp_minus_1)
  then show ?thesis
    by (simp only: bit_mask_iff) auto
qed

lemma bit_128: "bit (128 :: int) i \<longleftrightarrow> i = 7"
proof -
  have "(128 :: int) = 2 ^ 7"
    by simp
  then show ?thesis
    by (simp only: bit_exp_iff) auto
qed

lemmas byte_bits = bit_simps bit_127 bit_128

lemma low_group: "ucast ((((ucast n :: byte) AND 127) OR 128) AND 127) = (take_bit 7 n :: usize)"
  by (rule bit_word_eqI) (auto simp: byte_bits)

lemma high_bit: "(((ucast n :: byte) AND 127) OR 128) AND 128 = 128"
  by (rule bit_word_eqI) (auto simp: byte_bits)

lemma join_groups:
  "take_bit (7 * k) N OR push_bit (7 * k) (take_bit 7 (drop_bit (7 * k) N)) = (take_bit (7 * Suc k) N :: usize)"
  by (rule bit_word_eqI) (auto simp: bit_simps)

lemma small_group:
  assumes "n < 128"
  shows "ucast ((ucast n :: byte) AND 127) = (n :: usize)" and "(ucast n :: byte) AND 128 = 0"
proof -
  have "unat n < 2 ^ 7"
    using assms by (simp add: word_less_nat_alt)
  then have n: "take_bit 7 n = n"
    by (simp add: word_unat_eq_iff unsigned_take_bit_eq take_bit_nat_eq_self)
  then have "i < 7" if "bit n i" for i
    using that by (metis bit_take_bit_iff)
  then show "ucast ((ucast n :: byte) AND 127) = n" and "(ucast n :: byte) AND 128 = 0"
    by (auto intro!: bit_word_eqI simp: byte_bits) fastforce+
qed

lemma whole_number: "take_bit k N OR push_bit k (drop_bit k N) = (N :: usize)"
  by (rule bit_word_eqI) (auto simp: bit_simps, metis le_add_diff_inverse not_less)

lemma first_shift: "k \<le> 9 \<Longrightarrow> map ((*) 7) [k..<10] = 7 * k # map ((*) 7) [Suc k..<10]"
  by (simp add: upt_conv_Cons)

text \<open>The last group of the length, and a group that is followed by another.\<close>

lemma response_size_last:
  fixes n :: usize
  assumes k: "k \<le> 9" and n: "n = drop_bit (7 * k) N" "n < 128" "k = 9 \<longrightarrow> n \<le> 1"
    and len: "length pre + 1 + length t < 2 ^ 64"
  shows "response_size (pre @ [ucast n] @ t) (map ((*) 7) [k..<10]) (length pre) (take_bit (7 * k) N)
     = (if length t = unat N then Inr t else Inl (Provider ''invalid_smart_response_length''))"
proof -
  have "n = 0 \<or> n = 1" if "n \<le> 1"
    using that by (cases "unat n = 0") (auto simp: word_le_nat_alt word_unat_eq_iff)
  then have "k = 9 \<longrightarrow> (ucast n :: byte) \<le> 1"
    using n(3) by auto
  then show ?thesis
    using assms small_group [of n] whole_number [of "7 * k" N]
    by (auto simp: first_shift Let_def nth_append)
qed

lemma response_size_more:
  assumes k: "k < 9" and n: "n = drop_bit (7 * k) N"
  shows "response_size (pre @ [(ucast n AND 127) OR 128] @ rest) (map ((*) 7) [k..<10]) (length pre) (take_bit (7 * k) N)
     = response_size (pre @ [(ucast n AND 127) OR 128] @ rest) (map ((*) 7) [Suc k..<10]) (Suc (length pre))
         (take_bit (7 * Suc k) N)"
  using assms by (simp add: first_shift Let_def nth_append high_bit low_group join_groups)

lemma response_size_encode:
  assumes "k \<le> 9" and "n = drop_bit (7 * k) N"
    and "length pre + length (encode_varint n []) + length t < 2 ^ 64" and "unat n < 128 ^ (9 - k) * 2"
  shows "response_size (pre @ encode_varint n [] @ t) (map ((*) 7) [k..<10]) (length pre) (take_bit (7 * k) N)
     = (if length t = unat N then Inr t else Inl (Provider ''invalid_smart_response_length''))"
  using assms
proof (induction "9 - k" arbitrary: k n pre)
  case (0 k n pre)
  then have n: "n < 128" "n \<le> 1"
    by (simp_all add: word_less_nat_alt word_le_nat_alt)
  then have "\<not> 128 \<le> n"
    by simp
  then have enc: "encode_varint n [] = [ucast n]"
    by (subst encode_varint_Nil) simp
  show ?case
    unfolding enc by (rule response_size_last) (use 0 n enc in simp_all)
next
  case (Suc j k n pre)
  show ?case
  proof (cases "128 \<le> n")
    case True
    define b :: byte where "b = (ucast n AND 127) OR 128"
    have enc: "encode_varint n [] = b # encode_varint (drop_bit 7 n) []"
      using True by (subst encode_varint_Nil) (simp add: b_def)
    have k: "k < 9"
      using Suc.hyps(2) by simp
    have "128 ^ (9 - k) * 2 = 128 * (128 ^ (9 - Suc k) * 2 :: nat)"
      using k by (simp add: Suc_diff_le [symmetric] power_Suc [symmetric] del: power_Suc)
    then have "unat (drop_bit 7 n) < 128 ^ (9 - Suc k) * 2"
      using Suc.prems(4) by (simp add: unat_drop_bit_7 less_mult_imp_div_less mult.commute)
    then have "response_size ((pre @ [b]) @ encode_varint (drop_bit 7 n) [] @ t) (map ((*) 7) [Suc k..<10])
        (length (pre @ [b])) (take_bit (7 * Suc k) N)
        = (if length t = unat N then Inr t else Inl (Provider ''invalid_smart_response_length''))"
      using Suc.prems Suc.hyps(2) enc by (intro Suc.hyps(1)) (auto simp: drop_bit_drop_bit add.commute)
    then show ?thesis
      using response_size_more [OF k Suc.prems(2), of pre "encode_varint (drop_bit 7 n) [] @ t"]
      by (simp add: enc b_def)
  next
    case False
    then have enc: "encode_varint n [] = [ucast n]"
      by (subst encode_varint_Nil) simp
    show ?thesis
      unfolding enc by (rule response_size_last) (use Suc.prems Suc.hyps(2) False enc in simp_all)
  qed
qed

lemma decode_framed:
  assumes "length t < 2 ^ 63"
  shows "decode_smart_response (encode_varint n [10] @ t)
     = (if length t = unat n then Inr t else Inl (Provider ''invalid_smart_response_length''))"
proof -
  have "response_size ([10] @ encode_varint n [] @ t) (map ((*) 7) [0..<10]) (length [10 :: byte]) (take_bit (7 * 0) n)
      = (if length t = unat n then Inr t else Inl (Provider ''invalid_smart_response_length''))"
    using assms encode_varint_bounds [of n] unsigned_less [of n, where 'a = nat]
    by (intro response_size_encode) simp_all
  then show ?thesis
    by (subst encode_varint_prefix) (simp add: decode_smart_response_def varint_shifts_def)
qed

lemma response_size_tail:
  "response_size bytes shifts position sz = Inr p \<Longrightarrow>
     \<exists>k. position < k \<and> k \<le> position + length shifts \<and> k \<le> length bytes \<and> p = drop k bytes"
proof (induction bytes shifts position sz rule: response_size.induct)
  case (2 bytes shift shifts position sz)
  then show ?case
    by (auto simp: Let_def split: if_splits) (meson Suc_leI Suc_lessD le_add1 less_Suc_eq_le not_less)+
qed simp

section \<open>Properties\<close>

text \<open>
  C36. The encoder's loop returns for every number, with what the recursive form computes: it
  keeps the bytes already written and adds between one and ten, all but the last with the
  continuation bit.
\<close>

theorem encode_varint_terminates:
  "map_option (\<lambda>(n', out'). out' @ [ucast n']) (encode_varint_loop n out) = Some (encode_varint n out)
     \<and> (\<exists>v. encode_varint n out = out @ v \<and> length v \<in> {1..10})"
proof -
  have "encode_varint n out = out @ encode_varint n []"
    by (rule encode_varint_prefix)
  with varint_loop_run encode_varint_bounds show ?thesis
    by blast
qed

text \<open>
  A response is accepted exactly when its declared length is the number of bytes that
  follow: a payload framed with the length of its bytes is returned as it is, a shorter or a
  longer one is refused, whatever the length, up to the largest \<open>usize\<close>.
\<close>

theorem smart_response_framing:
  assumes "length t < 2 ^ 63"
  shows "decode_smart_response (encode_varint n [10] @ t)
     = (if length t = unat n then Inr t else Inl (Provider ''invalid_smart_response_length''))"
  using assms by (rule decode_framed)

theorem smart_response_framing_witness:
  "decode_smart_response (encode_varint 15 [10] @ utf8_bytes (str ''{\"balance\":\"0\"}''))
     = Inr (utf8_bytes (str ''{\"balance\":\"0\"}''))"
proof -
  have "length (utf8_bytes (str ''{\"balance\":\"0\"}'')) = 15"
    by code_simp
  with smart_response_framing [of "utf8_bytes (str ''{\"balance\":\"0\"}'')" 15] show ?thesis
    by simp
qed

end
