(* ===== verification/Transport.thy ===== *)
theory Transport
  imports Rpc SmartQuery
begin

text \<open>
  One HTTP exchange of a Terra client and its bounded decoding (\<open>ledger/src/transport.rs\<close>).
  A response is its status, the headers the code reads and the chunks of its body as they arrive,
  where \<open>None\<close> is a broken connection. The exchange itself and the encodings of third-party
  crates (\<open>serde_json\<close>, \<open>base64\<close>, \<open>hex\<close>, \<open>sha2\<close>, \<open>chrono\<close>) are the fields of
  \<open>http_env\<close>. Whatever a provider sends, a decoded body never exceeds
  \<open>MAX_RESPONSE_BYTES\<close>.
\<close>

section \<open>Exchanges\<close>

record response =
  hr_status :: int
  hr_content_length :: "nat option"
  hr_block_height :: "ustring option"
  hr_chunks :: "byte list option list"

text \<open>Sizes of allocations, which the compiler and the allocator choose.\<close>

record allocation =
  size_of_tx :: nat
  size_of_log :: nat
  size_of_event :: nat
  size_of_attr :: nat
  string_capacity :: "ustring \<Rightarrow> nat"
  vec_capacity :: "nat \<Rightarrow> nat"

record 'w http_env =
  http_get :: "ustring \<Rightarrow> (ustring \<times> ustring) list \<Rightarrow> (ustring \<times> ustring) list \<Rightarrow> 'w \<Rightarrow> response option \<times> 'w"
  http_now :: "'w \<Rightarrow> int"
  json_of_bytes :: "byte list \<Rightarrow> json option"
  json_text :: "json \<Rightarrow> ustring"
  base64_of :: "byte list \<Rightarrow> ustring"
  base64_bytes :: "ustring \<Rightarrow> byte list option"
  hex_of :: "byte list \<Rightarrow> ustring"
  sha256_of :: "byte list \<Rightarrow> byte list"
  rfc3339_seconds :: "ustring \<Rightarrow> int option"
  alloc :: allocation

text \<open>A GET request (URL, query and headers); \<open>label\<close> is what a failed send is reported as.\<close>

definition send_get ::
    "'w http_env \<Rightarrow> string \<Rightarrow> ustring \<Rightarrow> (ustring \<times> ustring) list \<Rightarrow> (ustring \<times> ustring) list \<Rightarrow> ('w, response) net" where
  "send_get env label url query headers w =
     (case http_get env url query headers w of
        (None, w') \<Rightarrow> (Inl (Provider label), w')
      | (Some r, w') \<Rightarrow> (Inr r, w'))"

definition trim_slashes :: "ustring \<Rightarrow> ustring" where
  "trim_slashes url = rev (dropWhile (\<lambda>c. c = 47) (rev url))"

section \<open>Bounded decoding\<close>

definition MAX_RESPONSE_BYTES :: nat where
  "MAX_RESPONSE_BYTES = 4194304"

fun body_bytes :: "byte list \<Rightarrow> byte list option list \<Rightarrow> byte list ledger_result" where
  "body_bytes bytes [] = Inr bytes"
| "body_bytes bytes (None # cs) = Inl (Provider ''body_transport'')"
| "body_bytes bytes (Some chunk # cs) =
     (if MAX_RESPONSE_BYTES < min (2 ^ 64 - 1) (length bytes + length chunk) then Inl (Provider ''response_too_large'')
      else body_bytes (bytes @ chunk) cs)"

definition decode_response :: "'w http_env \<Rightarrow> response \<Rightarrow> json ledger_result" where
  "decode_response env r =
     (if \<not> (200 \<le> hr_status r \<and> hr_status r < 300) then Inl (Provider ''http_status'')
      else if (case hr_content_length r of None \<Rightarrow> False | Some n \<Rightarrow> MAX_RESPONSE_BYTES < n)
      then Inl (Provider ''response_too_large'')
      else bindR (body_bytes [] (hr_chunks r)) (\<lambda>bytes. ok_or (Provider ''invalid_json_schema'') (json_of_bytes env bytes)))"

lemma body_bytes_bound:
  "body_bytes bytes cs = Inr body \<Longrightarrow> length bytes \<le> MAX_RESPONSE_BYTES
     \<Longrightarrow> length body \<le> MAX_RESPONSE_BYTES \<and> body = bytes @ concat (map the cs) \<and> None \<notin> set cs"
proof (induction bytes cs rule: body_bytes.induct)
  case (3 bytes chunk cs)
  then have fits: "\<not> MAX_RESPONSE_BYTES < min (2 ^ 64 - 1) (length bytes + length chunk)"
    and rest: "body_bytes (bytes @ chunk) cs = Inr body"
    by (auto split: if_splits)
  then have "length (bytes @ chunk) \<le> MAX_RESPONSE_BYTES"
    by (simp add: MAX_RESPONSE_BYTES_def min_def split: if_splits)
  from "3.IH" [OF fits rest this] show ?case
    by auto
qed simp_all

text \<open>
  A decoded body is the JSON reading of the concatenation of all its chunks, of a successful
  response, and never longer than the limit, whether or not the response declared its length.
\<close>

theorem decode_response_bounded:
  assumes "decode_response env r = Inr v"
  shows "hr_status r \<in> {200..<300} \<and> None \<notin> set (hr_chunks r)
     \<and> json_of_bytes env (concat (map the (hr_chunks r))) = Some v
     \<and> length (concat (map the (hr_chunks r))) \<le> MAX_RESPONSE_BYTES"
  using assms by (auto simp: decode_response_def result_iff split: if_splits dest!: body_bytes_bound)

section \<open>Typed reading of JSON\<close>

text \<open>
  \<open>serde\<close>'s reading of a structure: an object by the names of its fields, unknown members
  ignored, or an array with exactly the fields in order. A missing or null member is \<open>None\<close> for an
  optional field and an error for any other.
\<close>

definition struct_fields :: "string list \<Rightarrow> json \<Rightarrow> json option list option" where
  "struct_fields names v =
     (case v of
        JObj kvs \<Rightarrow> Some (map (\<lambda>k. map_of kvs (str k)) names)
      | JArr xs \<Rightarrow> (if length xs = length names then Some (map Some xs) else None)
      | _ \<Rightarrow> None)"

definition req_field :: "(json \<Rightarrow> 'a option) \<Rightarrow> json option \<Rightarrow> 'a option" where
  "req_field f x = Option.bind x f"

definition opt_field :: "(json \<Rightarrow> 'a option) \<Rightarrow> json option \<Rightarrow> 'a option option" where
  "opt_field f x = (case x of None \<Rightarrow> Some None | Some v \<Rightarrow> if v = JNull then Some None else map_option Some (f v))"

fun as_u32 :: "json \<Rightarrow> int option" where
  "as_u32 (JNum n) = (if 0 \<le> n \<and> n < 4294967296 then Some n else None)"
| "as_u32 _ = None"

fun as_u64 :: "json \<Rightarrow> int option" where
  "as_u64 (JNum n) = (if 0 \<le> n \<and> n < 18446744073709551616 then Some n else None)"
| "as_u64 _ = None"

fun map_opt :: "('a \<Rightarrow> 'b option) \<Rightarrow> 'a list \<Rightarrow> 'b list option" where
  "map_opt f [] = Some []"
| "map_opt f (x # xs) = Option.bind (f x) (\<lambda>y. map_option ((#) y) (map_opt f xs))"

definition vec_of :: "(json \<Rightarrow> 'a option) \<Rightarrow> json \<Rightarrow> 'a list option" where
  "vec_of f v = Option.bind (as_array v) (map_opt f)"

text \<open>\<open>Value::pointer\<close> along member names.\<close>

fun jptr :: "json \<Rightarrow> string list \<Rightarrow> json option" where
  "jptr v [] = Some v"
| "jptr v (key # keys) = Option.bind (jget v key) (\<lambda>x. jptr x keys)"

section \<open>Block hashes\<close>

text \<open>\<open>lcd::normalize_block_hash\<close>: one spelling for the two encodings of a hash.\<close>

definition normalize_block_hash :: "'w http_env \<Rightarrow> ustring \<Rightarrow> ustring ledger_result" where
  "normalize_block_hash env raw =
     (if str_len raw = 64 \<and> list_all is_hexdigit raw then Inr (upper raw)
      else bindR (ok_or (Provider ''invalid_block_hash'') (base64_bytes env raw)) (\<lambda>bytes.
           if length bytes \<noteq> 32 then Inl (Provider ''invalid_block_hash'') else Inr (upper (hex_of env bytes))))"

text \<open>The documented contract of \<open>hex::encode\<close>: two lower-case digits for each byte.\<close>

definition hex_encodes :: "'w http_env \<Rightarrow> bool" where
  "hex_encodes env \<longleftrightarrow> (\<forall>bytes. length (hex_of env bytes) = 2 * length bytes \<and> list_all is_hexdigit (hex_of env bytes))"

definition block_hash_form :: "ustring \<Rightarrow> bool" where
  "block_hash_form h \<longleftrightarrow> str_len h = 64 \<and> list_all is_hexdigit h \<and> upper h = h"

lemma upper_hex: "list_all is_hexdigit h \<Longrightarrow> list_all is_hexdigit (upper h) \<and> str_len (upper h) = length h"
  by (induction h) (auto simp: upper_def is_hexdigit_def is_digit_def utf8_len_def)

lemma upper_idem [simp]: "upper (upper h) = upper h"
  by (induction h) (auto simp: upper_def)

lemma normalize_block_hash_form:
  assumes "hex_encodes env" and "normalize_block_hash env raw = Inr h"
  shows "block_hash_form h"
proof -
  have "str_len raw = length raw" if "list_all is_hexdigit raw"
    using that by (intro str_len_ascii) (auto simp: list_all_iff hexdigit_ascii)
  then show ?thesis
    using assms upper_hex [of raw] upper_hex [of "hex_of env b" for b]
    by (auto simp: normalize_block_hash_def hex_encodes_def block_hash_form_def result_iff split: if_splits)
qed

end
