(* ===== verification/Lcd.thy ===== *)
theory Lcd
  imports TerraRpc
begin

text \<open>
  The Terra LCD client (\<open>ledger/src/lcd.rs\<close>): JSON requests with failover, the validation of
  headers, execution pages and events, and the observation of a whole block: the executions found by
  paging through a search are accepted only when they are, one by one and in order, the
  transactions whose bytes the block itself holds. A client is its provider URLs, its chain id and
  the URLs of its RPC client, if it has one.
\<close>

section \<open>Answers\<close>

record block_header =
  hd_height :: ustring
  hd_chain_id :: ustring
  hd_time :: ustring

text \<open>\<open>bi_data\<close> is the \<open>txs\<close> member of the data, when there is one.\<close>

record block_inner =
  bi_header :: block_header
  bi_data :: "json option"

record block_response =
  bk_hash :: ustring
  bk_block :: "block_inner option"
  bk_sdk_block :: "block_inner option"

record lcd_attr =
  la_key :: ustring
  la_value :: ustring

record lcd_event =
  le_type :: ustring
  le_attributes :: "lcd_attr list"

record lcd_log =
  ll_events :: "lcd_event list"

record lcd_tx =
  lt_txhash :: "ustring option"
  lt_height :: ustring
  lt_code :: int
  lt_logs :: "lcd_log list option"
  lt_events :: "lcd_event list option"

record pagination =
  pn_next_key :: "ustring option"
  pn_total :: ustring

record search_page =
  se_tx_responses :: "lcd_tx list"
  se_pagination :: "pagination option"
  se_total :: "ustring option"

subsection \<open>Their JSON form\<close>

definition block_header_of :: "json \<Rightarrow> block_header option" where
  "block_header_of v =
     (case struct_fields [''height'', ''chain_id'', ''time''] v of
        Some [h, c, t] \<Rightarrow>
          Option.bind (req_field as_str h) (\<lambda>h.
          Option.bind (req_field as_str c) (\<lambda>c.
          Option.bind (req_field as_str t) (\<lambda>t. Some \<lparr>hd_height = h, hd_chain_id = c, hd_time = t\<rparr>)))
      | _ \<Rightarrow> None)"

definition block_data_of :: "json \<Rightarrow> json option" where
  "block_data_of v = (case struct_fields [''txs''] v of Some [txs] \<Rightarrow> req_field Some txs | _ \<Rightarrow> None)"

definition block_inner_of :: "json \<Rightarrow> block_inner option" where
  "block_inner_of v =
     (case struct_fields [''header'', ''data''] v of
        Some [h, d] \<Rightarrow>
          Option.bind (req_field block_header_of h) (\<lambda>h.
          Option.bind (opt_field block_data_of d) (\<lambda>d. Some \<lparr>bi_header = h, bi_data = d\<rparr>))
      | _ \<Rightarrow> None)"

definition block_id_of :: "json \<Rightarrow> ustring option" where
  "block_id_of v = (case struct_fields [''hash''] v of Some [h] \<Rightarrow> req_field as_str h | _ \<Rightarrow> None)"

definition block_response_of :: "json \<Rightarrow> block_response option" where
  "block_response_of v =
     (case struct_fields [''block_id'', ''block'', ''sdk_block''] v of
        Some [i, b, s] \<Rightarrow>
          Option.bind (req_field block_id_of i) (\<lambda>i.
          Option.bind (opt_field block_inner_of b) (\<lambda>b.
          Option.bind (opt_field block_inner_of s) (\<lambda>s.
          Some \<lparr>bk_hash = i, bk_block = b, bk_sdk_block = s\<rparr>)))
      | _ \<Rightarrow> None)"

definition lcd_attr_of :: "json \<Rightarrow> lcd_attr option" where
  "lcd_attr_of v =
     (case struct_fields [''key'', ''value''] v of
        Some [k, x] \<Rightarrow>
          Option.bind (req_field as_str k) (\<lambda>k.
          Option.bind (req_field as_str x) (\<lambda>x. Some \<lparr>la_key = k, la_value = x\<rparr>))
      | _ \<Rightarrow> None)"

definition lcd_event_of :: "json \<Rightarrow> lcd_event option" where
  "lcd_event_of v =
     (case struct_fields [''type'', ''attributes''] v of
        Some [t, a] \<Rightarrow>
          Option.bind (req_field as_str t) (\<lambda>t.
          Option.bind (req_field (vec_of lcd_attr_of) a) (\<lambda>a. Some \<lparr>le_type = t, le_attributes = a\<rparr>))
      | _ \<Rightarrow> None)"

definition lcd_log_of :: "json \<Rightarrow> lcd_log option" where
  "lcd_log_of v =
     (case struct_fields [''events''] v of
        Some [e] \<Rightarrow> map_option (\<lambda>e. \<lparr>ll_events = e\<rparr>) (req_field (vec_of lcd_event_of) e)
      | _ \<Rightarrow> None)"

definition lcd_tx_of :: "json \<Rightarrow> lcd_tx option" where
  "lcd_tx_of v =
     (case struct_fields [''txhash'', ''height'', ''code'', ''logs'', ''events''] v of
        Some [t, h, c, l, e] \<Rightarrow>
          Option.bind (opt_field as_str t) (\<lambda>t.
          Option.bind (req_field as_str h) (\<lambda>h.
          Option.bind (req_field as_u32 c) (\<lambda>c.
          Option.bind (opt_field (vec_of lcd_log_of) l) (\<lambda>l.
          Option.bind (opt_field (vec_of lcd_event_of) e) (\<lambda>e.
          Some \<lparr>lt_txhash = t, lt_height = h, lt_code = c, lt_logs = l, lt_events = e\<rparr>)))))
      | _ \<Rightarrow> None)"

definition pagination_of :: "json \<Rightarrow> pagination option" where
  "pagination_of v =
     (case struct_fields [''next_key'', ''total''] v of
        Some [k, t] \<Rightarrow>
          Option.bind (opt_field as_str k) (\<lambda>k.
          Option.bind (req_field as_str t) (\<lambda>t. Some \<lparr>pn_next_key = k, pn_total = t\<rparr>))
      | _ \<Rightarrow> None)"

definition search_of :: "json \<Rightarrow> search_page option" where
  "search_of v =
     (case struct_fields [''tx_responses'', ''pagination'', ''total''] v of
        Some [r, p, t] \<Rightarrow>
          Option.bind (req_field (vec_of lcd_tx_of) r) (\<lambda>r.
          Option.bind (opt_field pagination_of p) (\<lambda>p.
          Option.bind (opt_field as_str t) (\<lambda>t.
          Some \<lparr>se_tx_responses = r, se_pagination = p, se_total = t\<rparr>)))
      | _ \<Rightarrow> None)"

section \<open>Headers\<close>

definition response_block :: "block_response \<Rightarrow> block_inner option" where
  "response_block resp = (case bk_sdk_block resp of Some b \<Rightarrow> Some b | None \<Rightarrow> bk_block resp)"

definition validate_header ::
    "'w http_env \<Rightarrow> ustring \<Rightarrow> block_response \<Rightarrow> int option \<Rightarrow> bool \<Rightarrow> int \<Rightarrow> int ledger_result" where
  "validate_header env expected_chain resp expected require_fresh now_s =
     bindR (ok_or (Provider ''missing_block_header'') (response_block resp)) (\<lambda>block.
     if (case (bk_block resp, bk_sdk_block resp) of
           (Some legacy, Some sdk) \<Rightarrow>
             hd_height (bi_header legacy) \<noteq> hd_height (bi_header sdk)
             \<or> hd_chain_id (bi_header legacy) \<noteq> hd_chain_id (bi_header sdk)
         | _ \<Rightarrow> False)
     then Inl (Provider ''ambiguous_block_headers'')
     else bindR (ok_or (Provider ''invalid_block_height'') (parse_i64 (hd_height (bi_header block)))) (\<lambda>h.
     if h \<le> 0 \<or> (case expected of Some e \<Rightarrow> e \<noteq> h | None \<Rightarrow> False) \<or> hd_chain_id (bi_header block) \<noteq> expected_chain
     then Inl (Provider ''wrong_terra_network_or_height'')
     else bindR (ok_or (Provider ''invalid_block_time'') (rfc3339_seconds env (hd_time (bi_header block)))) (\<lambda>timestamp.
     bindR (if require_fresh then validate_head_time now_s timestamp else Inr ()) (\<lambda>_. Inr h))))"

section \<open>Requests with failover\<close>

record lcd_client =
  lc_urls :: urls
  lc_chain_id :: ustring
  lc_rpc :: "urls option"

definition new_for_chain :: "urls \<Rightarrow> ustring \<Rightarrow> lcd_client" where
  "new_for_chain urls expected_chain_id = \<lparr>lc_urls = urls, lc_chain_id = expected_chain_id, lc_rpc = None\<rparr>"

definition with_rpc_urls :: "lcd_client \<Rightarrow> urls \<Rightarrow> lcd_client" where
  "with_rpc_urls client urls = (if urls = [] then client else client\<lparr>lc_rpc := Some urls\<rparr>)"

text \<open>The same client with one provider.\<close>

definition pinned_to :: "lcd_client \<Rightarrow> ustring \<Rightarrow> lcd_client" where
  "pinned_to client url = client\<lparr>lc_urls := [url]\<rparr>"

fun contains_text :: "ustring \<Rightarrow> ustring \<Rightarrow> bool" where
  "contains_text p [] = (p = [])"
| "contains_text p (c # s) = (starts_with p (c # s) \<or> contains_text p s)"

definition ends_with :: "ustring \<Rightarrow> ustring \<Rightarrow> bool" where
  "ends_with p s = starts_with (rev p) (rev s)"

definition LATEST_PATH :: ustring where
  "LATEST_PATH = str ''/cosmos/base/tendermint/v1beta1/blocks/latest''"

definition block_path :: "int \<Rightarrow> ustring" where
  "block_path height = str ''/cosmos/base/tendermint/v1beta1/blocks/'' @ int_str height"

definition smart_path :: "'w http_env \<Rightarrow> ustring \<Rightarrow> ustring \<Rightarrow> ustring" where
  "smart_path env token wallet =
     str ''/cosmwasm/wasm/v1/contract/'' @ token @ str ''/smart/''
     @ base64_of env (utf8_bytes (json_text env (balance_query wallet)))"

definition json_headers :: "ustring \<Rightarrow> (ustring \<times> ustring) list" where
  "json_headers path =
     (if path = LATEST_PATH \<or> starts_with (str ''/cosmos/tx/v1beta1/txs?'') path
      then [(str ''Cache-Control'', str ''no-cache, max-age=0''), (str ''Pragma'', str ''no-cache'')] else [])"

text \<open>The checks of one answer to \<open>path\<close>: the header of a block, then the schema of the caller.\<close>

definition checked_json ::
    "'w http_env \<Rightarrow> ustring \<Rightarrow> ustring \<Rightarrow> (json \<Rightarrow> 'a option) \<Rightarrow> int \<Rightarrow> json \<Rightarrow> 'a ledger_result" where
  "checked_json env chain_id path schema now_s v =
     bindR (if contains_text (str ''/blocks/'') path
            then bindR (ok_or (Provider ''block_schema'') (block_response_of v)) (\<lambda>block.
                 bindR (validate_header env chain_id block (parse_i64 (last (split_on 47 path)))
                          (ends_with (str ''/latest'') path) now_s) (\<lambda>_. Inr ()))
            else Inr ()) (\<lambda>_.
     ok_or (Provider ''invalid_json_schema'') (schema v))"

definition get_json :: "'w http_env \<Rightarrow> lcd_client \<Rightarrow> ustring \<Rightarrow> (json \<Rightarrow> 'a option) \<Rightarrow> ('w, 'a) net" where
  "get_json env client path schema =
     first_of (\<lambda>base.
       bindN (send_get env ''lcd_transport'' (trim_slashes base @ path) [] (json_headers path)) (\<lambda>response.
       bindN (liftN (decode_response env response)) (\<lambda>v w.
       liftN (checked_json env (lc_chain_id client) path schema (http_now env w) v) w)))
       (Provider ''no_lcd_provider'') (lc_urls client)"

definition lcd_head_at :: "'w http_env \<Rightarrow> lcd_client \<Rightarrow> int \<Rightarrow> ustring \<Rightarrow> ('w, int) net" where
  "lcd_head_at env client minimum url =
     bindN (get_json env (pinned_to client url) LATEST_PATH block_response_of) (\<lambda>response.
     bindN (\<lambda>w. liftN (validate_header env (lc_chain_id client) response None True (http_now env w)) w) (\<lambda>height.
     if height < minimum then failN (Provider ''provider_head_regressed'') else retN height))"

definition latest_height_at_least :: "'w http_env \<Rightarrow> lcd_client \<Rightarrow> int \<Rightarrow> ('w, int) net" where
  "latest_height_at_least env client minimum =
     first_of (lcd_head_at env client minimum) (Provider ''no_lcd_provider'') (lc_urls client)"

definition latest_height :: "'w http_env \<Rightarrow> lcd_client \<Rightarrow> ('w, int) net" where
  "latest_height env client = latest_height_at_least env client 0"

definition lcd_block_hash_of :: "'w http_env \<Rightarrow> lcd_client \<Rightarrow> int \<Rightarrow> ('w, ustring) net" where
  "lcd_block_hash_of env client height =
     bindN (get_json env client (block_path height) block_response_of) (\<lambda>resp.
     bindN (\<lambda>w. liftN (validate_header env (lc_chain_id client) resp (Some height) False (http_now env w)) w) (\<lambda>_.
     liftN (normalize_block_hash env (bk_hash resp))))"

section \<open>Balances\<close>

definition smart_of :: "json \<Rightarrow> json option" where
  "smart_of v = (case struct_fields [''data''] v of Some [d] \<Rightarrow> req_field Some d | _ \<Rightarrow> None)"

definition cw20_balance :: "'w http_env \<Rightarrow> lcd_client \<Rightarrow> ustring \<Rightarrow> ustring \<Rightarrow> ('w, int) net" where
  "cw20_balance env client token wallet =
     bindN (get_json env client (smart_path env token wallet) smart_of) (\<lambda>data.
     liftN (bindR (ok_or (Provider ''cw20_balance_schema'') (jget_str data ''balance'')) parse_raw_amount))"

text \<open>The height header and the balance of one answer of a smart query.\<close>

definition observed_height :: "response \<Rightarrow> int option" where
  "observed_height response = Option.bind (hr_block_height response) parse_i64"

definition balance_in :: "'w http_env \<Rightarrow> response \<Rightarrow> int ledger_result" where
  "balance_in env response =
     bindR (decode_response env response) (\<lambda>v.
     bindR (ok_or (Provider ''cw20_balance_schema'') (Option.bind (jget v ''data'') (\<lambda>d. jget_str d ''balance''))) (\<lambda>raw.
     parse_raw_amount raw))"

definition lcd_snapshot_once :: "'w http_env \<Rightarrow> lcd_client \<Rightarrow> ustring \<Rightarrow> ustring \<Rightarrow> ustring \<Rightarrow> ('w, live_balance) net" where
  "lcd_snapshot_once env client token wallet url =
     (let pinned = pinned_to client url in
      bindN (latest_height env pinned) (\<lambda>before.
      bindN (lcd_block_hash_of env pinned before) (\<lambda>hash.
      bindN (send_get env ''lcd_transport'' (trim_slashes url @ smart_path env token wallet) [] []) (\<lambda>response.
      bindN (liftN (ok_or (Provider ''unbound_live_balance_height'') (observed_height response))) (\<lambda>observed.
      bindN (liftN (balance_in env response)) (\<lambda>amount.
      bindN (latest_height env pinned) (\<lambda>after.
      if observed \<noteq> before \<or> observed > after then failN (Provider ''moving_live_snapshot'')
      else bindN (lcd_block_hash_of env pinned observed) (\<lambda>again.
      if again \<noteq> hash then failN (Provider ''moving_live_snapshot'')
      else retN \<lparr>lb_height = observed, lb_amount = amount, lb_block_hash = hash\<rparr>))))))))"

definition lcd_live_snapshot :: "'w http_env \<Rightarrow> lcd_client \<Rightarrow> ustring \<Rightarrow> ustring \<Rightarrow> ('w, live_balance) net" where
  "lcd_live_snapshot env client token wallet =
     (case lc_rpc client of
        Some rpc \<Rightarrow> terra_rpc_live_snapshot env (lc_chain_id client) rpc token wallet
      | None \<Rightarrow> or_label ''incoherent_live_snapshot''
          (first_of (lcd_snapshot_once env client token wallet) (Provider ''incoherent_live_snapshot'')
             (three_attempts (lc_urls client))))"

definition lcd_balance_at :: "'w http_env \<Rightarrow> ustring \<Rightarrow> ustring \<Rightarrow> int \<Rightarrow> ustring \<Rightarrow> ('w, int) net" where
  "lcd_balance_at env url token height wallet =
     bindN (send_get env ''lcd_transport'' (trim_slashes url @ smart_path env token wallet) []
              [(str ''x-cosmos-block-height'', int_str height)]) (\<lambda>response.
     if observed_height response \<noteq> Some height then failN (Provider ''unbound_lcd_recovery_height'')
     else liftN (balance_in env response))"

definition lcd_balances_once :: "'w http_env \<Rightarrow> lcd_client \<Rightarrow> ustring \<Rightarrow> ustring list \<Rightarrow> ustring \<Rightarrow> ('w, live_balances) net" where
  "lcd_balances_once env client token wallets url =
     (let pinned = pinned_to client url in
      bindN (latest_height env pinned) (\<lambda>height.
      bindN (lcd_block_hash_of env pinned height) (\<lambda>before.
      bindN (join_batches 8 (lcd_balance_at env url token height) wallets) (\<lambda>out.
      bindN (lcd_block_hash_of env pinned height) (\<lambda>after.
      if after \<noteq> before then failN (Provider ''recovery_source_fork'')
      else retN \<lparr>lbs_height = height, lbs_block_hash = before, lbs_balances = out\<rparr>)))))"

definition lcd_live_balances :: "'w http_env \<Rightarrow> lcd_client \<Rightarrow> ustring \<Rightarrow> ustring list \<Rightarrow> ('w, live_balances) net" where
  "lcd_live_balances env client token wallets =
     (case lc_rpc client of
        Some rpc \<Rightarrow> terra_rpc_live_balances env (lc_chain_id client) rpc token wallets
      | None \<Rightarrow> or_label ''incoherent_bulk_live_snapshot''
          (first_of (lcd_balances_once env client token wallets) (Provider ''incoherent_bulk_live_snapshot'')
             (lc_urls client)))"

end
