(* ===== verification/LcdBlocks.thy ===== *)
theory LcdBlocks
  imports Lcd
begin

text \<open>
  A whole Terra block from the LCD: \<open>wasm\<close> events out of the two streams a node may report, the
  paged search for the executions of a height, the block's own list of transaction bytes, and
  their comparison in \<open>canonical_block\<close>.
\<close>

section \<open>Events\<close>

text \<open>
  A base64 text of printable ASCII is decoded, any other is kept: what \<open>String::from_utf8\<close>
  refuses is not printable ASCII either.
\<close>

definition decode_attr :: "'w http_env \<Rightarrow> ustring \<Rightarrow> ustring" where
  "decode_attr env s =
     (case base64_bytes env s of
        None \<Rightarrow> s
      | Some bytes \<Rightarrow> if list_all (\<lambda>b. 32 \<le> b \<and> b \<le> 126) bytes then map unat bytes else s)"

definition to_cw20 :: "'w http_env \<Rightarrow> lcd_event \<Rightarrow> cw20_event" where
  "to_cw20 env e =
     (let encoded = list_ex (\<lambda>a. decode_attr env (la_key a) = str ''_contract_address''
                                 \<and> la_key a \<noteq> str ''_contract_address'') (le_attributes e) in
      \<lparr>event_type = le_type e,
       attributes = map (\<lambda>a. \<lparr>attr_key = (if encoded then decode_attr env (la_key a) else la_key a),
                              attr_value = (if encoded then decode_attr env (la_value a) else la_value a)\<rparr>)
                      (le_attributes e)\<rparr>)"

definition last_attr :: "cw20_event \<Rightarrow> string \<Rightarrow> ustring option" where
  "last_attr e key = map_option attr_value (List.find (\<lambda>a. attr_key a = str key) (rev (attributes e)))"

definition or_else :: "'a option \<Rightarrow> 'a option \<Rightarrow> 'a option" where
  "or_else x y = (case x of Some _ \<Rightarrow> x | None \<Rightarrow> y)"

definition semantic_event :: "cw20_event \<Rightarrow> ustring option list" where
  "semantic_event e =
     (let action = last_attr e ''action'';
          from = (if action = Some (str ''mint'') then Some []
                  else map_option lower (or_else (last_attr e ''from'') (last_attr e ''sender'')));
          to = (if action = Some (str ''burn'') then Some []
                else map_option lower (or_else (last_attr e ''to'') (last_attr e ''recipient'')));
          contract = map_option lower (last_attr e ''_contract_address'') in
      if action \<in> {Some (str ''transfer''), Some (str ''send''), Some (str ''mint''), Some (str ''burn'')}
      then [contract, action, from, to, last_attr e ''amount'']
      else [contract, action])"

definition semantic_stream :: "cw20_event list \<Rightarrow> ustring option list list" where
  "semantic_stream events = map semantic_event events"

definition wasm_stream :: "'w http_env \<Rightarrow> lcd_event list \<Rightarrow> cw20_event list" where
  "wasm_stream env events =
     map (to_cw20 env) (filter (\<lambda>e. le_type e = str ''wasm'' \<or> le_type e = str ''wasm-wasm'') events)"

definition log_events :: "lcd_tx \<Rightarrow> lcd_event list" where
  "log_events t = (case lt_logs t of None \<Rightarrow> [] | Some logs \<Rightarrow> concat (map ll_events logs))"

definition raw_events :: "lcd_tx \<Rightarrow> lcd_event list" where
  "raw_events t = (case lt_events t of None \<Rightarrow> [] | Some events \<Rightarrow> events)"

definition wasm_events :: "'w http_env \<Rightarrow> lcd_tx \<Rightarrow> cw20_event list ledger_result" where
  "wasm_events env t =
     (if lt_code t \<noteq> 0 then Inr []
      else let logs = wasm_stream env (log_events t); raw = wasm_stream env (raw_events t) in
        if logs \<noteq> [] \<and> raw \<noteq> [] \<and> semantic_stream logs \<noteq> semantic_stream raw
        then Inl (Provider ''ambiguous_execution_event_stream'')
        else Inr (if logs = [] then raw else logs))"

section \<open>Executions\<close>

definition tx_hash :: "lcd_tx \<Rightarrow> ustring" where
  "tx_hash t =
     (case lt_txhash t of
        None \<Rightarrow> []
      | Some hash \<Rightarrow> if str_len hash = 64 \<and> list_all is_hexdigit hash then upper hash else hash)"

definition validate_tx :: "'w http_env \<Rightarrow> int \<Rightarrow> lcd_tx \<Rightarrow> unit ledger_result" where
  "validate_tx env height t =
     (if parse_i64 (lt_height t) \<noteq> Some height
         \<or> (case lt_txhash t of None \<Rightarrow> True | Some s \<Rightarrow> s = [] \<or> str_len s > 128)
         \<or> (lt_code t = 0 \<and> lt_logs t = None \<and> lt_events t = None)
      then Inl (Provider ''invalid_execution_identity_or_events'')
      else bindR (wasm_events env t) (\<lambda>_. Inr ()))"

definition event_bytes :: "allocation \<Rightarrow> lcd_event \<Rightarrow> nat" where
  "event_bytes al e =
     size_of_event al + string_capacity al (le_type e) + 32
     + vec_capacity al (length (le_attributes e)) * size_of_attr al
     + (\<Sum>a\<leftarrow>le_attributes e. string_capacity al (la_key a) + string_capacity al (la_value a) + 64)"

definition retained_bytes :: "allocation \<Rightarrow> lcd_tx \<Rightarrow> nat" where
  "retained_bytes al t =
     size_of_tx al + string_capacity al (lt_height t)
     + (case lt_txhash t of None \<Rightarrow> 0 | Some h \<Rightarrow> string_capacity al h) + 128
     + (case lt_logs t of
          None \<Rightarrow> 0
        | Some logs \<Rightarrow> vec_capacity al (length logs) * size_of_log al
                       + sum_list (map (event_bytes al) (concat (map ll_events logs))))
     + (case lt_events t of None \<Rightarrow> 0 | Some events \<Rightarrow> sum_list (map (event_bytes al) events))"

section \<open>Paging\<close>

definition MAX_BLOCK_RETAINED_BYTES :: nat where
  "MAX_BLOCK_RETAINED_BYTES = 67108864"

definition sat_usize_add :: "nat \<Rightarrow> nat \<Rightarrow> nat" where
  "sat_usize_add a b = min (2 ^ 64 - 1) (a + b)"

definition parse_usize :: "ustring \<Rightarrow> nat option" where
  "parse_usize s =
     (case s of
        [] \<Rightarrow> None
      | c # r \<Rightarrow> Option.bind (if c = 43 then parse_digits r else parse_digits s)
                   (\<lambda>n. if n < 2 ^ 64 then Some (nat n) else None))"

definition percent_char :: "byte \<Rightarrow> ustring" where
  "percent_char b =
     (let c = unat b in
      if is_alnum c \<or> c \<in> {45, 95, 46, 126} then [c]
      else 37 # map (\<lambda>d. if d < 10 then 48 + d else 55 + d) [c div 16, c mod 16])"

definition percent_encode :: "ustring \<Rightarrow> ustring" where
  "percent_encode raw = concat (map percent_char (utf8_bytes raw))"

record paging =
  pg_out :: "lcd_tx list"
  pg_seen :: "ustring list"
  pg_keys :: "ustring list"
  pg_key :: ustring
  pg_total :: "nat option"
  pg_retained :: nat

definition search_path :: "int \<Rightarrow> nat \<Rightarrow> ustring \<Rightarrow> ustring" where
  "search_path height page_number key =
     str ''/cosmos/tx/v1beta1/txs?query=tx.height%3D'' @ int_str height
     @ str ''&order_by=ORDER_BY_ASC&pagination.limit=100&pagination.count_total=true&page='' @ nat_digits page_number
     @ str ''&limit=100'' @ (if key = [] then [] else str ''&pagination.key='' @ percent_encode key)"

text \<open>One execution of a page.\<close>

definition take_tx :: "'w http_env \<Rightarrow> int \<Rightarrow> lcd_tx \<Rightarrow> paging \<Rightarrow> paging ledger_result" where
  "take_tx env height t st =
     bindR (validate_tx env height t) (\<lambda>_.
     let retained = sat_usize_add (pg_retained st) (retained_bytes (alloc env) t) in
     if retained > MAX_BLOCK_RETAINED_BYTES then Inl (Provider ''block_memory_budget'')
     else if tx_hash t \<in> set (pg_seen st) then Inl (Provider ''duplicate_tx_identity'')
     else Inr (st\<lparr>pg_out := pg_out st @ [t], pg_seen := tx_hash t # pg_seen st, pg_retained := retained\<rparr>))"

text \<open>One page: the executions of the block when it is the last, the state for the next otherwise.\<close>

definition take_page ::
    "'w http_env \<Rightarrow> int \<Rightarrow> nat \<Rightarrow> search_page \<Rightarrow> paging \<Rightarrow> (lcd_tx list + paging) ledger_result" where
  "take_page env height page_number page st =
     bindR (ok_or (Provider ''missing_tx_total'') (or_else (se_total page) (map_option pn_total (se_pagination page)))) (\<lambda>raw.
     bindR (ok_or (Provider ''invalid_tx_total'') (parse_usize raw)) (\<lambda>n.
     if n > 100000 \<or> (case pg_total st of Some t \<Rightarrow> t \<noteq> n | None \<Rightarrow> False) \<or> length (se_tx_responses page) > 100
     then Inl (Provider ''incomplete_tx_pagination'')
     else bindR (foldR (take_tx env height) (se_tx_responses page) (st\<lparr>pg_total := Some n\<rparr>)) (\<lambda>st.
       let legacy = se_pagination page \<noteq> None;
           key = (case Option.bind (se_pagination page) pn_next_key of Some k \<Rightarrow> k | None \<Rightarrow> []);
           st = st\<lparr>pg_key := key\<rparr>;
           got = length (pg_out st) in
       if \<not> legacy \<and> got < n
       then (if got \<noteq> page_number * 100 then Inl (Provider ''incomplete_numbered_tx_page'') else Inr (Inr st))
       else if key = []
       then (if got \<noteq> n then Inl (Provider ''incomplete_tx_total'') else Inr (Inl (pg_out st)))
       else let retained = sat_usize_add (pg_retained st) (str_len key + 64) in
         if retained > MAX_BLOCK_RETAINED_BYTES then Inl (Provider ''block_memory_budget'')
         else if key \<in> set (pg_keys st) \<or> got \<ge> n then Inl (Provider ''repeated_tx_page'')
         else Inr (Inr (st\<lparr>pg_retained := retained, pg_keys := key # pg_keys st\<rparr>)))))"

fun block_pages :: "'w http_env \<Rightarrow> lcd_client \<Rightarrow> int \<Rightarrow> nat list \<Rightarrow> paging \<Rightarrow> ('w, lcd_tx list) net" where
  "block_pages env client height [] st = failN (Provider ''tx_page_limit'')"
| "block_pages env client height (page_number # rest) st =
     bindN (get_json env client (search_path height page_number (pg_key st)) search_of) (\<lambda>page.
     bindN (liftN (take_page env height page_number page st)) (\<lambda>step.
     case step of
       Inl out \<Rightarrow> retN out
     | Inr st \<Rightarrow> block_pages env client height rest st))"

definition first_page :: paging where
  "first_page = \<lparr>pg_out = [], pg_seen = [], pg_keys = [], pg_key = [], pg_total = None, pg_retained = 0\<rparr>"

definition block_txs :: "'w http_env \<Rightarrow> lcd_client \<Rightarrow> int \<Rightarrow> ('w, lcd_tx list) net" where
  "block_txs env client height =
     thenN (lcd_block_hash_of env client height) (block_pages env client height [1..<1001] first_page)"

section \<open>The block's own transactions\<close>

definition manifest_hashes :: "'w http_env \<Rightarrow> json \<Rightarrow> ustring list ledger_result" where
  "manifest_hashes env txs =
     bindR (if txs = JNull then Inr []
            else ok_or (Provider ''invalid_block_transaction_manifest'') (as_array txs)) (\<lambda>rows.
     if length rows > 100000 then Inl (Provider ''block_transaction_limit'')
     else mapR (\<lambda>row.
       bindR (ok_or (Provider ''invalid_block_transaction_bytes'') (as_str row)) (\<lambda>raw.
       bindR (ok_or (Provider ''invalid_block_transaction_base64'') (base64_bytes env raw)) (\<lambda>bytes.
       Inr (upper (hex_of env (sha256_of env bytes)))))) rows)"

definition lcd_manifest :: "'w http_env \<Rightarrow> lcd_client \<Rightarrow> int \<Rightarrow> ('w, ustring \<times> ustring list) net" where
  "lcd_manifest env client height =
     bindN (get_json env client (block_path height) block_response_of) (\<lambda>response.
     bindN (\<lambda>w. liftN (validate_header env (lc_chain_id client) response (Some height) False (http_now env w)) w) (\<lambda>_.
     liftN (bindR (ok_or (Provider ''missing_block_header'') (response_block response)) (\<lambda>block.
       bindR (ok_or (Provider ''missing_block_transaction_manifest'') (bi_data block)) (\<lambda>data.
       bindR (manifest_hashes env data) (\<lambda>hashes.
       bindR (normalize_block_hash env (bk_hash response)) (\<lambda>hash. Inr (hash, hashes))))))))"

record terra_block_snapshot =
  ts_hash :: ustring
  ts_executions :: "lcd_tx list"
  ts_tip :: int
  ts_source :: lcd_client

definition canonical_block_at :: "'w http_env \<Rightarrow> lcd_client \<Rightarrow> int \<Rightarrow> ustring \<Rightarrow> ('w, terra_block_snapshot) net" where
  "canonical_block_at env client height url =
     (let source = pinned_to client url in
      bindN (lcd_manifest env source height) (\<lambda>(hash, expected).
      bindN (block_txs env source height) (\<lambda>executions.
      if map tx_hash executions \<noteq> expected then failN (Provider ''incomplete_or_reordered_execution_set'')
      else bindN (lcd_block_hash_of env source height) (\<lambda>again.
      if again \<noteq> hash then failN (Provider ''terra_changed_during_ingest'')
      else bindN (latest_height env source) (\<lambda>tip.
      if height > tip then failN (Provider ''future_terra_height'')
      else retN \<lparr>ts_hash = hash, ts_executions = executions, ts_tip = tip, ts_source = source\<rparr>)))))"

definition canonical_block :: "'w http_env \<Rightarrow> lcd_client \<Rightarrow> int \<Rightarrow> ('w, terra_block_snapshot) net" where
  "canonical_block env client height =
     first_of (canonical_block_at env client height) (Provider ''no_lcd_provider'') (lc_urls client)"

end
