(* ===== verification/LcdProps.thy ===== *)
theory LcdProps
  imports LcdBlocks
begin

text \<open>
  What an accepted answer of the Terra clients guarantees: positive heights that fit \<open>i64\<close>,
  one spelling of hashes, snapshots that pair a balance with its own block, and blocks whose
  executions are exactly the transactions the block holds.
\<close>

section \<open>Single answers\<close>

lemma yields_lift_now: "(\<And>w x. r w = Inr x \<Longrightarrow> Q x) \<Longrightarrow> yields (\<lambda>w. liftN (r w) w) Q"
  by (auto simp: yields_def liftN_def)

lemma yields_conj: "yields m P \<Longrightarrow> yields m Q \<Longrightarrow> yields m (\<lambda>x. P x \<and> Q x)"
  by (simp add: yields_def)

lemma yields_or_label: "yields m Q \<Longrightarrow> yields (or_label label m) Q"
  by (auto simp: yields_def or_label_def split: prod.splits sum.splits)

lemma positive_heightD: "positive_height v = Some h \<Longrightarrow> 0 < h \<and> h \<le> i64_max"
  by (auto simp: positive_height_def bind_eq_Some_conv in_i64_def dest: parse_i64_range split: if_splits)

definition head_form :: "int \<times> ustring \<Rightarrow> bool" where
  "head_form hx \<longleftrightarrow> 0 < fst hx \<and> fst hx \<le> i64_max \<and> block_hash_form (snd hx)"

lemma terra_block_yields:
  assumes "hex_encodes env"
  shows "yields (terra_block env chain_id url height) (\<lambda>hx. head_form hx \<and> (\<forall>e. height = Some e \<longrightarrow> fst hx = e))"
  unfolding terra_block_def
  by (rule yields_bind_any, rule yields_lift_now)
     (use normalize_block_hash_form [OF assms] in
      \<open>auto simp: terra_block_answer_def result_iff head_form_def dest!: positive_heightD split: if_splits option.splits\<close>)

lemma terra_balance_yields:
  "yields (terra_balance env url token wallet height)
     (\<lambda>oa. 0 < fst oa \<and> (0 < height \<longrightarrow> fst oa = height) \<and> valid_amount (snd oa))"
  unfolding terra_balance_def Let_def
  by (rule yields_bind_any, rule yields_lift)
     (auto simp: terra_balance_answer_def result_iff dest!: positive_heightD dest: parse_raw_amount_valid split: if_splits)

lemma validate_header_range:
  "validate_header env chain resp expected fresh now_s = Inr h \<Longrightarrow>
     0 < h \<and> h \<le> i64_max \<and> (\<forall>e. expected = Some e \<longrightarrow> h = e)"
  by (auto simp: validate_header_def result_iff in_i64_def dest!: parse_i64_range split: if_splits option.splits)

lemma latest_height_at_least_yields:
  "yields (latest_height_at_least env client minimum) (\<lambda>h. 0 < h \<and> h \<le> i64_max \<and> minimum \<le> h)"
  unfolding latest_height_at_least_def lcd_head_at_def
  by (rule yields_first, rule yields_bind_any, rule yields_bind, rule yields_lift_now, erule validate_header_range)
     (auto intro!: yields_if yields_fail yields_ret)

lemma latest_height_yields: "yields (latest_height env client) (\<lambda>h. 0 < h \<and> h \<le> i64_max)"
  unfolding latest_height_def by (rule yields_weaken [OF latest_height_at_least_yields]) simp

lemma lcd_block_hash_yields:
  "hex_encodes env \<Longrightarrow> yields (lcd_block_hash_of env client height) (\<lambda>x. block_hash_form x \<and> 0 < height \<and> height \<le> i64_max)"
  unfolding lcd_block_hash_of_def
  by (rule yields_bind_any, rule yields_bind, rule yields_lift_now, erule validate_header_range, rule yields_lift)
     (auto intro: normalize_block_hash_form)

lemma balance_in_valid: "balance_in env response = Inr a \<Longrightarrow> valid_amount a"
  by (auto simp: balance_in_def result_iff dest: parse_raw_amount_valid)

lemma yields_bind_prod:
  "yields m P \<Longrightarrow> (\<And>a b. P (a, b) \<Longrightarrow> yields (f a b) Q) \<Longrightarrow> yields (bindN m (\<lambda>(a, b). f a b)) Q"
  by (erule yields_bind) (simp add: split_paired_all)

section \<open>Snapshots\<close>

text \<open>
  \<open>tells_truth\<close>: single answers are those of one history, in which \<open>H\<close> relates a height to its
  hash and \<open>B\<close> a wallet and a height to the balance. It constrains neither which heights a
  provider answers with nor in which order, and nothing at all when \<open>H\<close> and \<open>B\<close> always hold.
\<close>

definition rpc_truth ::
    "'w http_env \<Rightarrow> ustring \<Rightarrow> ustring \<Rightarrow> (int \<Rightarrow> ustring \<Rightarrow> bool) \<Rightarrow> (ustring \<Rightarrow> int \<Rightarrow> int \<Rightarrow> bool) \<Rightarrow> ustring \<Rightarrow> bool" where
  "rpc_truth env chain_id token H B url \<longleftrightarrow>
     (\<forall>height. yields (terra_block env chain_id url height) (\<lambda>(h, x). H h x))
     \<and> (\<forall>wallet height. yields (terra_balance env url token wallet height) (\<lambda>(h, b). B wallet h b))"

definition lcd_truth ::
    "'w http_env \<Rightarrow> lcd_client \<Rightarrow> ustring \<Rightarrow> (int \<Rightarrow> ustring \<Rightarrow> bool) \<Rightarrow> (ustring \<Rightarrow> int \<Rightarrow> int \<Rightarrow> bool) \<Rightarrow> ustring \<Rightarrow> bool" where
  "lcd_truth env client token H B url \<longleftrightarrow>
     (\<forall>height. yields (lcd_block_hash_of env (pinned_to client url) height) (\<lambda>x. H height x))
     \<and> (\<forall>wallet headers. yields (send_get env ''lcd_transport'' (trim_slashes url @ smart_path env token wallet) [] headers)
          (\<lambda>r. \<forall>h b. observed_height r = Some h \<and> balance_in env r = Inr b \<longrightarrow> B wallet h b))"

definition tells_truth ::
    "'w http_env \<Rightarrow> lcd_client \<Rightarrow> ustring \<Rightarrow> (int \<Rightarrow> ustring \<Rightarrow> bool) \<Rightarrow> (ustring \<Rightarrow> int \<Rightarrow> int \<Rightarrow> bool) \<Rightarrow> bool" where
  "tells_truth env client token H B \<longleftrightarrow>
     (case lc_rpc client of
        Some rpc \<Rightarrow> list_all (rpc_truth env (lc_chain_id client) token H B) rpc
      | None \<Rightarrow> list_all (lcd_truth env client token H B) (lc_urls client))"

definition snapshot_true :: "(int \<Rightarrow> ustring \<Rightarrow> bool) \<Rightarrow> (ustring \<Rightarrow> int \<Rightarrow> int \<Rightarrow> bool) \<Rightarrow> ustring \<Rightarrow> live_balance \<Rightarrow> bool" where
  "snapshot_true H B wallet s \<longleftrightarrow>
     0 < lb_height s \<and> lb_height s \<le> i64_max \<and> H (lb_height s) (lb_block_hash s) \<and> block_hash_form (lb_block_hash s)
     \<and> B wallet (lb_height s) (lb_amount s) \<and> valid_amount (lb_amount s)"

definition snapshots_true :: "(int \<Rightarrow> ustring \<Rightarrow> bool) \<Rightarrow> (ustring \<Rightarrow> int \<Rightarrow> int \<Rightarrow> bool) \<Rightarrow> ustring list \<Rightarrow> live_balances \<Rightarrow> bool" where
  "snapshots_true H B wallets s \<longleftrightarrow>
     0 < lbs_height s \<and> lbs_height s \<le> i64_max \<and> H (lbs_height s) (lbs_block_hash s) \<and> block_hash_form (lbs_block_hash s)
     \<and> list_all2 (\<lambda>w b. B w (lbs_height s) b \<and> valid_amount b) wallets (lbs_balances s)"

lemma terra_block_true:
  assumes "hex_encodes env" and "rpc_truth env chain_id token H B url"
  shows "yields (terra_block env chain_id url height)
     (\<lambda>hx. head_form hx \<and> H (fst hx) (snd hx) \<and> (\<forall>e. height = Some e \<longrightarrow> fst hx = e))"
proof -
  have "yields (terra_block env chain_id url height) (\<lambda>(h, x). H h x)"
    using assms(2) by (simp add: rpc_truth_def)
  from yields_conj [OF terra_block_yields [OF assms(1), of chain_id url height] this] show ?thesis
    by (rule yields_weaken) auto
qed

lemma terra_balance_true:
  assumes "rpc_truth env chain_id token H B url"
  shows "yields (terra_balance env url token wallet height)
     (\<lambda>oa. (0 < height \<longrightarrow> fst oa = height) \<and> B wallet (fst oa) (snd oa) \<and> valid_amount (snd oa))"
proof -
  have "yields (terra_balance env url token wallet height) (\<lambda>(h, b). B wallet h b)"
    using assms by (simp add: rpc_truth_def)
  from yields_conj [OF terra_balance_yields [of env url token wallet height] this] show ?thesis
    by (rule yields_weaken) auto
qed

lemma terra_snapshot_once_true:
  assumes "hex_encodes env" and "rpc_truth env chain_id token H B url"
  shows "yields (terra_snapshot_once env chain_id token wallet url) (snapshot_true H B wallet)"
  unfolding terra_snapshot_once_def
proof (rule yields_then, rule yields_bind_prod [OF terra_block_true [OF assms]],
    rule yields_bind_prod [OF terra_balance_true [OF assms(2)]], rule yields_bind_prod [OF yields_any],
    intro yields_if yields_fail yields_bind_prod [OF yields_any])
qed (auto intro!: yields_ret simp: snapshot_true_def head_form_def)

lemma terra_balances_once_true:
  assumes "hex_encodes env" and "rpc_truth env chain_id token H B url"
  shows "yields (terra_balances_once env chain_id token wallets url) (snapshots_true H B wallets)"
proof -
  have batch: "yields (join_batches 8 (\<lambda>wallet. bindN (terra_balance env url token wallet h) (\<lambda>(_, b). retN b)) wallets)
      (list_all2 (\<lambda>w b. B w h b \<and> valid_amount b) wallets)" if "0 < h" for h
    by (rule yields_join_batches, rule yields_bind_prod [OF terra_balance_true [OF assms(2)]])
       (use that in \<open>auto intro: yields_ret\<close>)
  show ?thesis
    unfolding terra_balances_once_def
  proof (rule yields_then, rule yields_bind_prod [OF terra_block_true [OF assms]])
    fix h x
    assume hx: "head_form (h, x) \<and> H (fst (h, x)) (snd (h, x)) \<and> (\<forall>e. None = Some e \<longrightarrow> fst (h, x) = e)"
    then have "0 < h"
      by (simp add: head_form_def)
    from batch [OF this]
    show "yields (bindN (join_batches 8 (\<lambda>wallet. bindN (terra_balance env url token wallet h) (\<lambda>(_, b). retN b)) wallets)
        (\<lambda>balances. bindN (terra_block env chain_id url (Some h)) (\<lambda>(_, again).
          if again \<noteq> x then failN (Provider ''terra_rpc_recovery_fork'')
          else retN \<lparr>lbs_height = h, lbs_block_hash = x, lbs_balances = balances\<rparr>))) (snapshots_true H B wallets)"
      by (rule yields_bind, intro yields_bind_prod [OF yields_any] yields_if yields_fail)
         (use hx in \<open>auto intro!: yields_ret simp: snapshots_true_def head_form_def\<close>)
  qed
qed

lemma lcd_hash_true:
  assumes "hex_encodes env" and "lcd_truth env client token H B url"
  shows "yields (lcd_block_hash_of env (pinned_to client url) height)
     (\<lambda>x. H height x \<and> block_hash_form x \<and> 0 < height \<and> height \<le> i64_max)"
proof -
  have "yields (lcd_block_hash_of env (pinned_to client url) height) (\<lambda>x. H height x)"
    using assms(2) by (simp add: lcd_truth_def)
  from yields_conj [OF this lcd_block_hash_yields [OF assms(1)]] show ?thesis
    by (rule yields_weaken) auto
qed

lemma lcd_smart_true:
  assumes "lcd_truth env client token H B url"
  shows "yields (send_get env ''lcd_transport'' (trim_slashes url @ smart_path env token wallet) [] headers)
     (\<lambda>r. \<forall>h b. observed_height r = Some h \<and> balance_in env r = Inr b \<longrightarrow> B wallet h b)"
  using assms by (simp add: lcd_truth_def)

lemma lcd_snapshot_once_true:
  assumes "hex_encodes env" and "lcd_truth env client token H B url"
  shows "yields (lcd_snapshot_once env client token wallet url) (snapshot_true H B wallet)"
  unfolding lcd_snapshot_once_def Let_def
proof (rule yields_bind_any, rule yields_bind [OF lcd_hash_true [OF assms]], rule yields_bind [OF lcd_smart_true [OF assms(2)]])
  fix before hash r
  assume hash: "H before hash \<and> block_hash_form hash \<and> 0 < before \<and> before \<le> i64_max"
    and r: "\<forall>h b. observed_height r = Some h \<and> balance_in env r = Inr b \<longrightarrow> B wallet h b"
  show "yields (bindN (liftN (ok_or (Provider ''unbound_live_balance_height'') (observed_height r))) (\<lambda>observed.
      bindN (liftN (balance_in env r)) (\<lambda>amount.
      bindN (latest_height env (pinned_to client url)) (\<lambda>after.
      if observed \<noteq> before \<or> observed > after then failN (Provider ''moving_live_snapshot'')
      else bindN (lcd_block_hash_of env (pinned_to client url) observed) (\<lambda>again.
      if again \<noteq> hash then failN (Provider ''moving_live_snapshot'')
      else retN \<lparr>lb_height = observed, lb_amount = amount, lb_block_hash = hash\<rparr>)))))
    (snapshot_true H B wallet)"
    by (rule yields_bind, rule yields_lift, assumption, rule yields_bind, rule yields_lift, assumption,
        intro yields_bind_any yields_if yields_fail yields_ret)
       (use hash r in \<open>auto simp: snapshot_true_def result_iff dest: balance_in_valid\<close>)
qed

lemma lcd_balance_at_true:
  assumes "lcd_truth env client token H B url"
  shows "yields (lcd_balance_at env url token height wallet) (\<lambda>b. B wallet height b \<and> valid_amount b)"
  unfolding lcd_balance_at_def
  by (rule yields_bind [OF lcd_smart_true [OF assms]], intro yields_if yields_fail yields_lift)
     (auto dest: balance_in_valid)

lemma lcd_balances_once_true:
  assumes "hex_encodes env" and "lcd_truth env client token H B url"
  shows "yields (lcd_balances_once env client token wallets url) (snapshots_true H B wallets)"
proof -
  have batch: "yields (join_batches 8 (lcd_balance_at env url token h) wallets)
      (list_all2 (\<lambda>w b. B w h b \<and> valid_amount b) wallets)" for h
    by (rule yields_join_batches, rule lcd_balance_at_true [OF assms(2)])
  show ?thesis
    unfolding lcd_balances_once_def Let_def
    by (rule yields_bind_any, rule yields_bind [OF lcd_hash_true [OF assms]], rule yields_bind [OF batch],
        intro yields_bind_any yields_if yields_fail yields_ret)
       (auto simp: snapshots_true_def)
qed

lemma three_attempts_set [simp]: "set (three_attempts urls) = set urls"
  by (auto simp: three_attempts_def)

lemma live_snapshot_true:
  assumes "hex_encodes env" and "tells_truth env client token H B"
  shows "yields (lcd_live_snapshot env client token wallet) (snapshot_true H B wallet)"
  using assms unfolding lcd_live_snapshot_def terra_rpc_live_snapshot_def tells_truth_def
  by (auto simp: list_all_iff split: option.splits
      intro!: yields_or_label yields_first terra_snapshot_once_true lcd_snapshot_once_true)

lemma tells_anything: "tells_truth env client token (\<lambda>_ _. True) (\<lambda>_ _ _. True)"
  by (auto simp: tells_truth_def rpc_truth_def lcd_truth_def list_all_iff yields_def split: option.split)

lemma live_balances_true:
  assumes "hex_encodes env" and "tells_truth env client token H B"
  shows "yields (lcd_live_balances env client token wallets) (snapshots_true H B wallets)"
  using assms unfolding lcd_live_balances_def terra_rpc_live_balances_def tells_truth_def
  by (auto simp: list_all_iff split: option.splits
      intro!: yields_or_label yields_first terra_balances_once_true lcd_balances_once_true)

section \<open>Blocks\<close>

definition executions_ok :: "'w http_env \<Rightarrow> int \<Rightarrow> lcd_tx list \<Rightarrow> bool" where
  "executions_ok env height out \<longleftrightarrow>
     list_all (\<lambda>t. validate_tx env height t = Inr ()) out \<and> distinct (map tx_hash out) \<and> length out \<le> 100000
     \<and> (\<Sum>t\<leftarrow>out. retained_bytes (alloc env) t) \<le> MAX_BLOCK_RETAINED_BYTES"

definition paging_ok :: "'w http_env \<Rightarrow> int \<Rightarrow> paging \<Rightarrow> bool" where
  "paging_ok env height st \<longleftrightarrow>
     list_all (\<lambda>t. validate_tx env height t = Inr ()) (pg_out st) \<and> distinct (map tx_hash (pg_out st))
     \<and> set (pg_seen st) = tx_hash ` set (pg_out st)
     \<and> (\<Sum>t\<leftarrow>pg_out st. retained_bytes (alloc env) t) \<le> pg_retained st \<and> pg_retained st \<le> MAX_BLOCK_RETAINED_BYTES"

lemma sat_usize_within: "sat_usize_add a b \<le> MAX_BLOCK_RETAINED_BYTES \<Longrightarrow> sat_usize_add a b = a + b"
  by (auto simp: sat_usize_add_def MAX_BLOCK_RETAINED_BYTES_def min_def split: if_splits)

lemma take_tx_ok: "take_tx env height t st = Inr st' \<Longrightarrow> paging_ok env height st \<Longrightarrow> paging_ok env height st'"
  using sat_usize_within [of "pg_retained st" "retained_bytes (alloc env) t"]
  by (auto simp: take_tx_def paging_ok_def result_iff Let_def not_less split: if_splits)

lemma paging_ok_more:
  "paging_ok env height (st\<lparr>pg_total := x\<rparr>) = paging_ok env height st"
  "paging_ok env height (st\<lparr>pg_key := k\<rparr>) = paging_ok env height st"
  by (simp_all add: paging_ok_def)

lemma take_page_ok:
  assumes "take_page env height page_number page st = Inr step" and "paging_ok env height st"
  shows "case step of Inl out \<Rightarrow> executions_ok env height out | Inr st' \<Rightarrow> paging_ok env height st'"
proof -
  from assms(1) obtain n st1 where n: "n \<le> 100000"
      and fold: "foldR (take_tx env height) (se_tx_responses page) (st\<lparr>pg_total := Some n\<rparr>) = Inr st1"
      and step: "step = Inl (pg_out st1) \<and> length (pg_out st1) = n
        \<or> (\<exists>k r ks. step = Inr (st1\<lparr>pg_key := k\<rparr>)
           \<or> (step = Inr (st1\<lparr>pg_key := k, pg_retained := r, pg_keys := ks\<rparr>) \<and> r \<le> MAX_BLOCK_RETAINED_BYTES \<and> pg_retained st1 \<le> r))"
    using sat_usize_within
    by (auto simp: take_page_def result_iff Let_def not_less split: if_splits option.splits) (metis le_add1)+
  have ok: "paging_ok env height st1"
    by (rule foldR_invariant [OF fold]) (use assms(2) paging_ok_more take_tx_ok in auto)
  then show ?thesis
    using step n by (auto simp: paging_ok_def executions_ok_def)
qed

lemma block_pages_yields:
  "paging_ok env height st \<Longrightarrow> yields (block_pages env client height pages st) (executions_ok env height)"
proof (induction pages arbitrary: st)
  case (Cons page_number rest)
  have next_page: "yields (case step of Inl out \<Rightarrow> retN out | Inr st \<Rightarrow> block_pages env client height rest st)
      (executions_ok env height)" if "take_page env height page_number page st = Inr step" for page step
    using take_page_ok [OF that Cons.prems] Cons.IH by (auto intro: yields_ret split: sum.splits)
  show ?case
    unfolding block_pages.simps
    by (rule yields_bind_any, rule yields_bind, rule yields_lift, assumption, rule next_page)
qed (simp add: yields_fail)

lemma block_txs_yields: "yields (block_txs env client height) (executions_ok env height)"
  unfolding block_txs_def
  by (rule yields_then, rule block_pages_yields) (simp add: paging_ok_def first_page_def)

lemma validated_events: "validate_tx env height t = Inr () \<Longrightarrow> \<exists>events. wasm_events env t = Inr events"
  by (auto simp: validate_tx_def result_iff split: if_splits)

lemma manifest_form:
  assumes "hex_encodes env"
  shows "yields (lcd_manifest env client height) (\<lambda>(hash, _). block_hash_form hash \<and> 0 < height \<and> height \<le> i64_max)"
  unfolding lcd_manifest_def
  by (rule yields_bind_any, rule yields_bind, rule yields_lift_now, erule validate_header_range, rule yields_lift)
     (auto simp: result_iff intro: normalize_block_hash_form [OF assms])

lemma canonical_block_yields:
  assumes "hex_encodes env"
    and "\<forall>url\<in>set (lc_urls client). yields (lcd_manifest env (pinned_to client url) height) (\<lambda>(hash, txs). P hash txs)"
  shows "yields (canonical_block env client height)
     (\<lambda>b. P (ts_hash b) (map tx_hash (ts_executions b)) \<and> executions_ok env height (ts_executions b)
        \<and> block_hash_form (ts_hash b) \<and> 0 < height \<and> height \<le> ts_tip b \<and> ts_tip b \<le> i64_max
        \<and> (\<exists>url. url \<in> set (lc_urls client) \<and> ts_source b = pinned_to client url))"
  unfolding canonical_block_def
proof (rule yields_first)
  fix url
  assume url: "url \<in> set (lc_urls client)"
  then have "yields (lcd_manifest env (pinned_to client url) height) (\<lambda>(hash, txs). P hash txs)"
    using assms(2) by blast
  note manifest = yields_conj [OF this manifest_form [OF assms(1)]]
  show "yields (canonical_block_at env client height url)
     (\<lambda>b. P (ts_hash b) (map tx_hash (ts_executions b)) \<and> executions_ok env height (ts_executions b)
        \<and> block_hash_form (ts_hash b) \<and> 0 < height \<and> height \<le> ts_tip b \<and> ts_tip b \<le> i64_max
        \<and> (\<exists>url. url \<in> set (lc_urls client) \<and> ts_source b = pinned_to client url))"
    unfolding canonical_block_at_def Let_def
    by (rule yields_bind_prod [OF manifest], rule yields_bind [OF block_txs_yields], rule yields_if, rule yields_fail,
        rule yields_bind_any, rule yields_if, rule yields_fail, rule yields_bind [OF latest_height_yields],
        intro yields_if yields_fail yields_ret)
       (use url in auto)
qed

section \<open>Honest pages\<close>

text \<open>\<open>answers m x\<close>: at any time the action returns \<open>x\<close>.\<close>

definition answers :: "('w, 'a) net \<Rightarrow> 'a \<Rightarrow> bool" where
  "answers m x \<longleftrightarrow> (\<forall>w. \<exists>w'. m w = (Inr x, w'))"

lemma answers_run: "answers m x \<Longrightarrow> (\<And>w'. m w = (Inr x, w') \<Longrightarrow> thesis) \<Longrightarrow> thesis"
  unfolding answers_def by blast

lemma answers_bind:
  assumes "answers m x" and "answers (f x) y"
  shows "answers (bindN m f) y"
  unfolding answers_def
proof
  fix w
  obtain w1 where "m w = (Inr x, w1)"
    using assms(1) by (rule answers_run)
  moreover obtain w2 where "f x w1 = (Inr y, w2)"
    using assms(2) by (rule answers_run)
  ultimately show "\<exists>w'. bindN m f w = (Inr y, w')"
    by (simp add: bindN_def)
qed

lemma answers_ret: "answers (retN x) x"
  by (simp add: answers_def retN_def)

lemma answers_first:
  assumes "answers (f u) x"
  shows "answers (first_of f e (u # us)) x"
  unfolding answers_def
proof
  fix w
  obtain w1 where "f u w = (Inr x, w1)"
    using assms by (rule answers_run)
  then show "\<exists>w'. first_of f e (u # us) w = (Inr x, w')"
    by simp
qed

text \<open>The page of that number when the executions are \<open>txs\<close>, as an SDK without page keys sends it.\<close>

definition numbered_page :: "lcd_tx list \<Rightarrow> nat \<Rightarrow> search_page" where
  "numbered_page txs p =
     \<lparr>se_tx_responses = take 100 (drop (100 * (p - 1)) txs), se_pagination = None, se_total = Some (nat_digits (length txs))\<rparr>"

lemma parse_usize_nat_digits: "n < 2 ^ 64 \<Longrightarrow> parse_usize (nat_digits n) = Some n"
proof -
  assume n: "n < 2 ^ 64"
  obtain c r where cr: "nat_digits n = c # r"
    by (cases "nat_digits n") auto
  then have "c \<noteq> 43"
    using nat_digits_digits [of c n] by (auto simp: is_digit_def)
  with n cr parse_digits_nat_digits [of n] show ?thesis
    by (simp add: parse_usize_def)
qed

lemma take_txs_honest:
  assumes "list_all (\<lambda>t. validate_tx env height t = Inr ()) ts" and "distinct (map tx_hash (pg_out st @ ts))"
    and "set (pg_seen st) = tx_hash ` set (pg_out st)"
    and "pg_retained st + (\<Sum>t\<leftarrow>ts. retained_bytes (alloc env) t) \<le> MAX_BLOCK_RETAINED_BYTES"
  shows "\<exists>st'. foldR (take_tx env height) ts st = Inr st' \<and> pg_out st' = pg_out st @ ts
     \<and> set (pg_seen st') = tx_hash ` set (pg_out st') \<and> pg_key st' = pg_key st \<and> pg_total st' = pg_total st
     \<and> pg_retained st' = pg_retained st + (\<Sum>t\<leftarrow>ts. retained_bytes (alloc env) t)"
  using assms
proof (induction ts arbitrary: st)
  case (Cons t ts)
  define st1 where "st1 = st\<lparr>pg_out := pg_out st @ [t], pg_seen := tx_hash t # pg_seen st,
    pg_retained := pg_retained st + retained_bytes (alloc env) t\<rparr>"
  have "sat_usize_add (pg_retained st) (retained_bytes (alloc env) t) = pg_retained st + retained_bytes (alloc env) t"
    using Cons.prems(4) by (simp add: sat_usize_add_def MAX_BLOCK_RETAINED_BYTES_def)
  then have "take_tx env height t st = Inr st1"
    using Cons.prems by (auto simp: take_tx_def st1_def Let_def)
  moreover have "\<exists>st'. foldR (take_tx env height) ts st1 = Inr st' \<and> pg_out st' = pg_out st1 @ ts
     \<and> set (pg_seen st') = tx_hash ` set (pg_out st') \<and> pg_key st' = pg_key st1 \<and> pg_total st' = pg_total st1
     \<and> pg_retained st' = pg_retained st1 + (\<Sum>t\<leftarrow>ts. retained_bytes (alloc env) t)"
    by (rule Cons.IH) (use Cons.prems in \<open>auto simp: st1_def\<close>)
  ultimately show ?case
    by (auto simp: st1_def)
qed simp

lemma take_page_honest:
  assumes valid: "list_all (\<lambda>t. validate_tx env height t = Inr ()) txs" "distinct (map tx_hash txs)"
    and small: "length txs \<le> 100000" "(\<Sum>t\<leftarrow>txs. retained_bytes (alloc env) t) \<le> MAX_BLOCK_RETAINED_BYTES"
    and st: "pg_out st = take (100 * p) txs" "set (pg_seen st) = tx_hash ` set (pg_out st)"
      "pg_retained st = (\<Sum>t\<leftarrow>pg_out st. retained_bytes (alloc env) t)" "pg_total st \<in> {None, Some (length txs)}"
  obtains st' where "take_page env height (Suc p) (numbered_page txs (Suc p)) st =
      (if length txs \<le> 100 * Suc p then Inr (Inl txs) else Inr (Inr st'))"
    "pg_out st' = take (100 * Suc p) txs" "set (pg_seen st') = tx_hash ` set (pg_out st')" "pg_key st' = []"
    "pg_retained st' = (\<Sum>t\<leftarrow>pg_out st'. retained_bytes (alloc env) t)" "pg_total st' = Some (length txs)"
proof -
  define ts where "ts = take 100 (drop (100 * p) txs)"
  have ts: "pg_out st @ ts = take (100 * Suc p) txs"
    using take_add [of "100 * p" 100 txs] by (simp add: ts_def st(1) add.commute)
  have split: "txs = take (100 * Suc p) txs @ drop (100 * Suc p) txs"
    by simp
  have "list_all (\<lambda>t. validate_tx env height t = Inr ()) ts"
    using valid(1) unfolding ts_def by (auto simp: list_all_iff dest!: in_set_takeD in_set_dropD)
  moreover have "distinct (map tx_hash (pg_out st @ ts))"
    unfolding ts take_map [symmetric] using valid(2) by (rule distinct_take)
  moreover have "(\<Sum>t\<leftarrow>pg_out st @ ts. retained_bytes (alloc env) t) \<le> MAX_BLOCK_RETAINED_BYTES"
    unfolding ts using small(2) by (subst (asm) split) (simp del: append_take_drop_id)
  ultimately obtain st1 where fold: "foldR (take_tx env height) ts (st\<lparr>pg_total := Some (length txs)\<rparr>) = Inr st1"
      and st1: "pg_out st1 = take (100 * Suc p) txs" "set (pg_seen st1) = tx_hash ` set (pg_out st1)"
        "pg_retained st1 = (\<Sum>t\<leftarrow>pg_out st1. retained_bytes (alloc env) t)" "pg_total st1 = Some (length txs)"
    using take_txs_honest [of env height ts "st\<lparr>pg_total := Some (length txs)\<rparr>"] st(2,3) unfolding ts [symmetric]
    by auto
  have parsed: "parse_usize (nat_digits (length txs)) = Some (length txs)"
    using small(1) by (intro parse_usize_nat_digits) simp
  have "take_page env height (Suc p) (numbered_page txs (Suc p)) st =
      (if length txs \<le> 100 * Suc p then Inr (Inl txs) else Inr (Inr (st1\<lparr>pg_key := []\<rparr>)))"
    using fold st1 st(4) small(1) parsed
    by (auto simp: take_page_def numbered_page_def or_else_def ts_def Let_def)
  then show ?thesis
    by (rule that) (use st1 in auto)
qed

lemma block_pages_honest:
  assumes valid: "list_all (\<lambda>t. validate_tx env height t = Inr ()) txs" "distinct (map tx_hash txs)"
    and small: "length txs \<le> 100000" "(\<Sum>t\<leftarrow>txs. retained_bytes (alloc env) t) \<le> MAX_BLOCK_RETAINED_BYTES"
    and pages: "\<And>p. p = 0 \<or> 100 * p < length txs
       \<Longrightarrow> answers (get_json env client (search_path height (Suc p) []) search_of) (numbered_page txs (Suc p))"
    and st: "pg_out st = take (100 * p) txs" "set (pg_seen st) = tx_hash ` set (pg_out st)" "pg_key st = []"
      "pg_retained st = (\<Sum>t\<leftarrow>pg_out st. retained_bytes (alloc env) t)" "pg_total st \<in> {None, Some (length txs)}"
    and more: "p < 1000" "p = 0 \<or> 100 * p < length txs"
  shows "\<exists>w'. block_pages env client height [Suc p..<1001] st w = (Inr txs, w')"
  using st more
proof (induction "1000 - p" arbitrary: p st w)
  case (Suc k p st w)
  obtain w1 where page: "get_json env client (search_path height (Suc p) []) search_of w = (Inr (numbered_page txs (Suc p)), w1)"
    using pages [OF Suc.prems(7)] by (auto simp: answers_def)
  obtain st' where take: "take_page env height (Suc p) (numbered_page txs (Suc p)) st =
      (if length txs \<le> 100 * Suc p then Inr (Inl txs) else Inr (Inr st'))"
    and st': "pg_out st' = take (100 * Suc p) txs" "set (pg_seen st') = tx_hash ` set (pg_out st')" "pg_key st' = []"
    "pg_retained st' = (\<Sum>t\<leftarrow>pg_out st'. retained_bytes (alloc env) t)" "pg_total st' = Some (length txs)"
    using take_page_honest [OF valid small Suc.prems(1,2,4,5)] by metis
  have pages_eq: "[Suc p..<1001] = Suc p # [Suc (Suc p)..<1001]"
    using Suc.prems(6) by (simp add: upt_conv_Cons)
  show ?case
  proof (cases "length txs \<le> 100 * Suc p")
    case True
    with page take Suc.prems(3) show ?thesis
      by (simp add: pages_eq bindN_def retN_def liftN_def del: upt_Suc)
  next
    case False
    then have "Suc p < 1000"
      using small(1) by simp
    with False Suc.hyps Suc.prems(6) st' have "\<exists>w'. block_pages env client height [Suc (Suc p)..<1001] st' w1 = (Inr txs, w')"
      by (intro Suc.hyps(1)) auto
    with False page take Suc.prems(3) show ?thesis
      by (simp add: pages_eq bindN_def retN_def liftN_def del: upt_Suc)
  qed
qed simp

lemma block_txs_honest:
  assumes valid: "list_all (\<lambda>t. validate_tx env height t = Inr ()) txs" "distinct (map tx_hash txs)"
    and small: "length txs \<le> 100000" "(\<Sum>t\<leftarrow>txs. retained_bytes (alloc env) t) \<le> MAX_BLOCK_RETAINED_BYTES"
    and pages: "\<And>p. p = 0 \<or> 100 * p < length txs
       \<Longrightarrow> answers (get_json env client (search_path height (Suc p) []) search_of) (numbered_page txs (Suc p))"
    and hash: "answers (lcd_block_hash_of env client height) H"
  shows "answers (block_txs env client height) txs"
proof -
  have "\<exists>w'. block_pages env client height [Suc 0..<1001] first_page w = (Inr txs, w')" for w
    by (rule block_pages_honest [OF valid small pages]) (simp_all add: first_page_def)
  then have "answers (block_pages env client height [1..<1001] first_page) txs"
    by (simp add: answers_def del: upt_Suc)
  with hash show ?thesis
    unfolding block_txs_def thenN_def by (rule answers_bind)
qed

end
