(* ===== verification/LcdContract.thy ===== *)
theory LcdContract
  imports LcdProps
begin

text \<open>
  The contracts of the Terra clients: coherent snapshots, complete blocks, and acceptance of what an
  honest provider serves.
\<close>

section \<open>A provider with one block\<close>

text \<open>
  A provider that answers every request with one document, in which each reader finds its members:
  block 7, its one transaction, the execution of that transaction and a balance of 5.
\<close>

definition sample_hash :: ustring where
  "sample_hash = replicate 64 65"

definition sample_tx_hash :: ustring where
  "sample_tx_hash = replicate 64 48"

definition sample_header :: json where
  "sample_header = JObj [(str ''height'', JStr (str ''7'')), (str ''chain_id'', JStr (str ''columbus-5'')),
     (str ''time'', JStr (str ''2026-01-01T00:00:00Z''))]"

definition sample_document :: json where
  "sample_document = JObj
     [(str ''block_id'', JObj [(str ''hash'', JStr sample_hash)]),
      (str ''block'', JObj [(str ''header'', sample_header), (str ''data'', JObj [(str ''txs'', JArr [JStr (str ''AA=='')])])]),
      (str ''tx_responses'', JArr [JObj [(str ''txhash'', JStr sample_tx_hash), (str ''height'', JStr (str ''7'')),
         (str ''code'', JNum 0), (str ''events'', JArr [JObj [(str ''type'', JStr (str ''wasm'')),
           (str ''attributes'', JArr [JObj [(str ''key'', JStr (str ''action'')), (str ''value'', JStr (str ''send''))]])]])]]),
      (str ''total'', JStr (str ''1'')),
      (str ''data'', JObj [(str ''balance'', JStr (str ''5''))])]"

definition sample_response :: response where
  "sample_response = \<lparr>hr_status = 200, hr_content_length = None, hr_block_height = Some (str ''7''), hr_chunks = [Some [123, 125]]\<rparr>"

definition sample_http :: "unit http_env" where
  "sample_http = \<lparr>http_get = (\<lambda>url query headers w. (Some sample_response, w)),
     http_now = (\<lambda>w. 100), json_of_bytes = (\<lambda>bytes. Some sample_document), json_text = (\<lambda>v. []),
     base64_of = (\<lambda>bytes. []), base64_bytes = (\<lambda>s. if s = str ''AA=='' then Some [0] else None),
     hex_of = (\<lambda>bytes. replicate (2 * length bytes) 48), sha256_of = (\<lambda>bytes. replicate 32 0),
     rfc3339_seconds = (\<lambda>s. Some 100),
     alloc = \<lparr>size_of_tx = 100, size_of_log = 24, size_of_event = 48, size_of_attr = 48,
              string_capacity = length, vec_capacity = id\<rparr>\<rparr>"

definition sample_client :: lcd_client where
  "sample_client = new_for_chain [str ''https://lcd.example''] (str ''columbus-5'')"

lemma sample_hex: "hex_encodes sample_http"
  by (simp add: hex_encodes_def sample_http_def list_all_iff is_hexdigit_def is_digit_def)

lemma sample_urls: "lc_urls sample_client = [str ''https://lcd.example'']" "lc_rpc sample_client = None"
  by (simp_all add: sample_client_def new_for_chain_def)

lemma sample_decodes: "decode_response sample_http sample_response = Inr sample_document"
  by code_simp

lemma sample_env: "http_get sample_http url query headers w = (Some sample_response, w)" "http_now sample_http w = 100"
  by (simp_all add: sample_http_def)

lemma sample_get: "lc_urls c = [url] \<Longrightarrow>
    get_json sample_http c path schema () = (checked_json sample_http (lc_chain_id c) path schema 100 sample_document, ())"
  by (simp add: get_json_def send_get_def bindN_def liftN_def sample_decodes sample_env failN_def split: sum.split)

definition sample_block :: block_response where
  "sample_block = \<lparr>bk_hash = sample_hash,
     bk_block = Some \<lparr>bi_header = \<lparr>hd_height = str ''7'', hd_chain_id = str ''columbus-5'', hd_time = str ''2026-01-01T00:00:00Z''\<rparr>,
                     bi_data = Some (JArr [JStr (str ''AA=='')])\<rparr>, bk_sdk_block = None\<rparr>"

definition sample_tx :: lcd_tx where
  "sample_tx = \<lparr>lt_txhash = Some sample_tx_hash, lt_height = str ''7'', lt_code = 0, lt_logs = None,
     lt_events = Some [\<lparr>le_type = str ''wasm'', le_attributes = [\<lparr>la_key = str ''action'', la_value = str ''send''\<rparr>]\<rparr>]\<rparr>"

lemma sample_reads:
  "block_response_of sample_document = Some sample_block"
  "search_of sample_document = Some (numbered_page [sample_tx] 1)"
  by code_simp+

lemma sample_header_checks:
  "validate_header sample_http (str ''columbus-5'') sample_block (Some 7) False 100 = Inr 7"
  "validate_header sample_http (str ''columbus-5'') sample_block None True 100 = Inr 7"
  by code_simp+

lemma sample_checked:
  "checked_json sample_http (str ''columbus-5'') LATEST_PATH block_response_of 100 sample_document = Inr sample_block"
  "checked_json sample_http (str ''columbus-5'') (block_path 7) block_response_of 100 sample_document = Inr sample_block"
  "checked_json sample_http (str ''columbus-5'') (search_path 7 1 []) search_of 100 sample_document = Inr (numbered_page [sample_tx] 1)"
  by code_simp+

lemma sample_pinned [simp]: "pinned_to sample_client (str ''https://lcd.example'') = sample_client"
  by (simp add: pinned_to_def sample_client_def new_for_chain_def)

lemma sample_chain: "lc_chain_id sample_client = str ''columbus-5''"
  by (simp add: sample_client_def new_for_chain_def)

lemma sample_pure:
  "normalize_block_hash sample_http (bk_hash sample_block) = Inr sample_hash"
  "response_block sample_block = bk_block sample_block"
  "bk_block sample_block = Some \<lparr>bi_header = \<lparr>hd_height = str ''7'', hd_chain_id = str ''columbus-5'',
     hd_time = str ''2026-01-01T00:00:00Z''\<rparr>, bi_data = Some (JArr [JStr (str ''AA=='')])\<rparr>"
  "manifest_hashes sample_http (JArr [JStr (str ''AA=='')]) = Inr [sample_tx_hash]"
  "tx_hash sample_tx = sample_tx_hash"
  "validate_tx sample_http 7 sample_tx = Inr ()"
  "retained_bytes (alloc sample_http) sample_tx \<le> 1000"
  by code_simp+

lemmas sample_run = sample_get [OF sample_urls(1)] sample_chain sample_checked [unfolded One_nat_def] sample_header_checks sample_pure
  sample_env bindN_def liftN_def retN_def

lemma answers_unit: "answers m x \<longleftrightarrow> m () = (Inr x, ())"
  by (auto simp: answers_def)

lemma yields_unit: "yields m Q \<longleftrightarrow> (\<forall>x. fst (m ()) = Inr x \<longrightarrow> Q x)"
  by (auto simp: yields_def prod_eq_iff)

lemma sample_answers:
  "answers (lcd_block_hash_of sample_http sample_client 7) sample_hash"
  "answers (latest_height sample_http sample_client) 7"
  "answers (lcd_manifest sample_http sample_client 7) (sample_hash, [sample_tx_hash])"
  "answers (get_json sample_http sample_client (search_path 7 (Suc 0) []) search_of) (numbered_page [sample_tx] (Suc 0))"
  unfolding answers_unit
  by (simp_all add: lcd_block_hash_of_def latest_height_def latest_height_at_least_def lcd_head_at_def sample_urls
      lcd_manifest_def sample_run)

lemma honest_block:
  assumes "lc_urls client = url # urls"
    and "answers (lcd_manifest env (pinned_to client url) height) (H, map tx_hash txs)"
    and "answers (lcd_block_hash_of env (pinned_to client url) height) H"
    and "answers (latest_height env (pinned_to client url)) tip" and "height \<le> tip"
    and "\<And>p. p = 0 \<or> 100 * p < length txs \<Longrightarrow>
        answers (get_json env (pinned_to client url) (search_path height (Suc p) []) search_of) (numbered_page txs (Suc p))"
    and "list_all (\<lambda>t. validate_tx env height t = Inr ()) txs" and "distinct (map tx_hash txs)"
    and "length txs \<le> 100000" and "(\<Sum>t\<leftarrow>txs. retained_bytes (alloc env) t) \<le> MAX_BLOCK_RETAINED_BYTES"
  shows "answers (canonical_block env client height)
     \<lparr>ts_hash = H, ts_executions = txs, ts_tip = tip, ts_source = pinned_to client url\<rparr>"
proof -
  note txs = block_txs_honest [OF assms(7-10) assms(6) assms(3)]
  have "answers (canonical_block_at env client height url)
     \<lparr>ts_hash = H, ts_executions = txs, ts_tip = tip, ts_source = pinned_to client url\<rparr>"
    unfolding answers_def
  proof
    fix w
    obtain w1 where "lcd_manifest env (pinned_to client url) height w = (Inr (H, map tx_hash txs), w1)"
      using assms(2) by (rule answers_run)
    moreover obtain w2 where "block_txs env (pinned_to client url) height w1 = (Inr txs, w2)"
      using txs by (rule answers_run)
    moreover obtain w3 where "lcd_block_hash_of env (pinned_to client url) height w2 = (Inr H, w3)"
      using assms(3) by (rule answers_run)
    moreover obtain w4 where "latest_height env (pinned_to client url) w3 = (Inr tip, w4)"
      using assms(4) by (rule answers_run)
    ultimately show "\<exists>w'. canonical_block_at env client height url w =
        (Inr \<lparr>ts_hash = H, ts_executions = txs, ts_tip = tip, ts_source = pinned_to client url\<rparr>, w')"
      using assms(5) by (simp add: canonical_block_at_def Let_def bindN_def retN_def)
  qed
  then show ?thesis
    unfolding canonical_block_def assms(1) by (rule answers_first)
qed

lemma sample_accepted:
  "canonical_block sample_http sample_client 7 () =
     (Inr \<lparr>ts_hash = sample_hash, ts_executions = [sample_tx], ts_tip = 7, ts_source = sample_client\<rparr>, ())"
proof -
  have "answers (canonical_block sample_http sample_client 7)
     \<lparr>ts_hash = sample_hash, ts_executions = [sample_tx], ts_tip = 7, ts_source = sample_client\<rparr>"
    by (rule honest_block [OF sample_urls(1), where txs = "[sample_tx]", unfolded sample_pinned])
       (use sample_answers in \<open>simp_all add: sample_pure MAX_BLOCK_RETAINED_BYTES_def le_trans [OF sample_pure(7)]\<close>)
  then show ?thesis
    by (simp add: answers_unit)
qed

lemma sample_manifest: "yields (lcd_manifest sample_http sample_client 7) (\<lambda>(hash, txs). txs = [sample_tx_hash])"
  using sample_answers(3) by (simp add: yields_unit answers_unit)

lemma checked_json_schema: "checked_json env chain path schema now_s v = Inr x \<Longrightarrow> schema v = Some x"
  by (auto simp: checked_json_def result_iff split: if_splits)

lemma sample_balance: "observed_height sample_response = Some 7" "balance_in sample_http sample_response = Inr 5"
  by code_simp+

lemma sample_send: "send_get sample_http label url query headers () = (Inr sample_response, ())"
  by (simp add: send_get_def sample_env)

lemma sample_hash_answer:
  "yields (lcd_block_hash_of sample_http sample_client height) (\<lambda>x. x = sample_hash)"
  unfolding yields_unit lcd_block_hash_of_def
  by (auto simp: sample_get [OF sample_urls(1)] bindN_def liftN_def sample_reads sample_pure
      dest!: checked_json_schema split: sum.splits)

lemma sample_truth: "tells_truth sample_http sample_client token (\<lambda>_ x. x = sample_hash) (\<lambda>_ _ b. b = 5)"
  by (simp add: tells_truth_def sample_urls lcd_truth_def sample_hash_answer)
     (auto simp: yields_unit sample_send sample_balance)

lemma sample_snapshot: "lcd_live_snapshot sample_http sample_client [] [] () =
    (Inr \<lparr>lb_height = 7, lb_amount = 5, lb_block_hash = sample_hash\<rparr>, ())"
proof -
  have "latest_height sample_http sample_client () = (Inr 7, ())"
    and "lcd_block_hash_of sample_http sample_client 7 () = (Inr sample_hash, ())"
    using sample_answers(1,2) by (simp_all add: answers_unit)
  then show ?thesis
    by (simp add: lcd_live_snapshot_def sample_urls or_label_def three_attempts_def numeral_3_eq_3
        lcd_snapshot_once_def bindN_def liftN_def retN_def sample_send sample_balance)
qed

section \<open>Properties\<close>

text \<open>
  A live balance is never paired with another block. Whatever heights the providers serve,
  cached heads included, and whether the client reads through Comet RPC or the LCD: if each single
  answer is one of the history \<open>H\<close>, \<open>B\<close>, then an accepted snapshot has a positive height, the hash
  of that height in its one spelling and a balance of that height, and an accepted bulk read has
  the balances of all the wallets, in order, at one height.
\<close>

theorem terra_snapshot_coherent:
  assumes "hex_encodes env" and "tells_truth env client token H B"
  shows "yields (lcd_live_snapshot env client token wallet) (snapshot_true H B wallet)
     \<and> yields (lcd_live_balances env client token wallets) (snapshots_true H B wallets)"
  using live_snapshot_true [OF assms] live_balances_true [OF assms] by blast

theorem terra_snapshot_coherent_witness:
  "\<exists>s. lcd_live_snapshot sample_http sample_client [] [] () = (Inr s, ()) \<and> lb_height s = 7 \<and> lb_amount s = 5
     \<and> lb_block_hash s = sample_hash"
proof -
  note coherent = terra_snapshot_coherent [OF sample_hex sample_truth, THEN conjunct1]
  obtain s where run: "lcd_live_snapshot sample_http sample_client [] [] () = (Inr s, ())" "lb_height s = 7"
    using sample_snapshot by simp
  from yieldsD [OF coherent run(1)] run show ?thesis
    by (auto simp: snapshot_true_def)
qed

text \<open>
  C37. A Terra block handed to the ingest is the block: its executions are, in order and without
  repetition, those of the transactions whose bytes the block itself lists, of which there are at
  most 100000; each is of that height and has an unambiguous event stream; what is retained is
  within the memory budget; the hash has its one spelling, the height is not above the tip, and
  every answer came from one of the configured providers.
\<close>

theorem canonical_block_contract:
  assumes "hex_encodes env"
    and "\<forall>url\<in>set (lc_urls client). yields (lcd_manifest env (pinned_to client url) height) (\<lambda>(hash, txs). P hash txs)"
  shows "yields (canonical_block env client height)
     (\<lambda>b. P (ts_hash b) (map tx_hash (ts_executions b)) \<and> distinct (map tx_hash (ts_executions b))
        \<and> length (ts_executions b) \<le> 100000
        \<and> (\<forall>t\<in>set (ts_executions b). validate_tx env height t = Inr () \<and> (\<exists>events. wasm_events env t = Inr events))
        \<and> (\<Sum>t\<leftarrow>ts_executions b. retained_bytes (alloc env) t) \<le> MAX_BLOCK_RETAINED_BYTES
        \<and> block_hash_form (ts_hash b) \<and> 0 < height \<and> height \<le> ts_tip b \<and> ts_tip b \<le> i64_max
        \<and> (\<exists>url. url \<in> set (lc_urls client) \<and> ts_source b = pinned_to client url))"
  by (rule yields_weaken [OF canonical_block_yields [OF assms]])
     (auto simp: executions_ok_def list_all_iff dest: validated_events)

theorem canonical_block_contract_witness:
  "\<exists>b. canonical_block sample_http sample_client 7 () = (Inr b, ()) \<and> map tx_hash (ts_executions b) = [sample_tx_hash]
     \<and> 7 \<le> ts_tip b"
proof -
  have contract: "yields (canonical_block sample_http sample_client 7)
     (\<lambda>b. map tx_hash (ts_executions b) = [sample_tx_hash] \<and> distinct (map tx_hash (ts_executions b))
        \<and> length (ts_executions b) \<le> 100000
        \<and> (\<forall>t\<in>set (ts_executions b). validate_tx sample_http 7 t = Inr () \<and> (\<exists>events. wasm_events sample_http t = Inr events))
        \<and> (\<Sum>t\<leftarrow>ts_executions b. retained_bytes (alloc sample_http) t) \<le> MAX_BLOCK_RETAINED_BYTES
        \<and> block_hash_form (ts_hash b) \<and> 0 < (7 :: int) \<and> 7 \<le> ts_tip b \<and> ts_tip b \<le> i64_max
        \<and> (\<exists>url. url \<in> set (lc_urls sample_client) \<and> ts_source b = pinned_to sample_client url))"
    by (rule canonical_block_contract [OF sample_hex, where P = "\<lambda>_ txs. txs = [sample_tx_hash]"])
       (simp add: sample_urls sample_manifest)
  obtain b where run: "canonical_block sample_http sample_client 7 () = (Inr b, ())"
    using sample_accepted by blast
  from yieldsD [OF contract run] run show ?thesis
    by (intro exI [of _ b] conjI) simp_all
qed

text \<open>
  C38. A block served honestly is accepted: when the first provider lists the transactions of the
  block, serves their executions in numbered pages of a hundred, keeps the hash of the block and
  has a tip at or above it, the observation succeeds with exactly these executions, for up to
  100000 transactions within the memory budget.
\<close>

theorem honest_block_accepted:
  assumes "lc_urls client = url # urls"
    and "answers (lcd_manifest env (pinned_to client url) height) (H, map tx_hash txs)"
    and "answers (lcd_block_hash_of env (pinned_to client url) height) H"
    and "answers (latest_height env (pinned_to client url)) tip" and "height \<le> tip"
    and "\<And>p. p = 0 \<or> 100 * p < length txs \<Longrightarrow>
        answers (get_json env (pinned_to client url) (search_path height (Suc p) []) search_of) (numbered_page txs (Suc p))"
    and "list_all (\<lambda>t. validate_tx env height t = Inr ()) txs" and "distinct (map tx_hash txs)"
    and "length txs \<le> 100000" and "(\<Sum>t\<leftarrow>txs. retained_bytes (alloc env) t) \<le> MAX_BLOCK_RETAINED_BYTES"
  shows "answers (canonical_block env client height)
     \<lparr>ts_hash = H, ts_executions = txs, ts_tip = tip, ts_source = pinned_to client url\<rparr>"
  by (rule honest_block [OF assms])

theorem honest_block_accepted_witness:
  "answers (canonical_block sample_http sample_client 7)
     \<lparr>ts_hash = sample_hash, ts_executions = [sample_tx], ts_tip = 7, ts_source = sample_client\<rparr>"
  by (rule honest_block_accepted [OF sample_urls(1), where txs = "[sample_tx]", unfolded sample_pinned])
     (use sample_answers in \<open>simp_all add: sample_pure MAX_BLOCK_RETAINED_BYTES_def le_trans [OF sample_pure(7)]\<close>)

end
