(* ===== verification/ChainClients.thy ===== *)
theory ChainClients
  imports LcdContract Reconcile BscRange
begin

text \<open>
  The ledger on its own clients: the network record the ingest, the registration and the recovery
  work with, filled with the Terra and BSC clients of the program as \<open>main.rs\<close> composes them
  (\<open>CompositeBalanceSource\<close>). The conditions the ledger's theorems put on a network hold for it, so
  those theorems hold of the program whatever its providers answer.
\<close>

section \<open>The composed network\<close>

text \<open>
  The result of \<open>canonical_block\<close> as the ingest reads it: for each execution its hash and the
  outcome of decoding its events.
\<close>

definition ingest_execution :: "'w http_env \<Rightarrow> lcd_tx \<Rightarrow> execution" where
  "ingest_execution env t = \<lparr>ex_tx_hash = tx_hash t, ex_wasm_events = wasm_events env t\<rparr>"

definition ingest_block :: "'w http_env \<Rightarrow> terra_block_snapshot \<Rightarrow> terra_block" where
  "ingest_block env b = \<lparr>tb_hash = ts_hash b, tb_executions = map (ingest_execution env) (ts_executions b),
     tb_tip = ts_tip b, tb_source = lc_urls (ts_source b)\<rparr>"

definition lcd_client_at :: "lcd_client \<Rightarrow> urls \<Rightarrow> lcd_client" where
  "lcd_client_at client urls = client\<lparr>lc_urls := urls\<rparr>"

text \<open>\<open>terra\<close> is the client and the CW20 token of \<open>LcdBalancePair\<close>, absent without LCD URLs.\<close>

definition with_terra_client :: "'w http_env \<Rightarrow> (lcd_client \<times> ustring) option \<Rightarrow> lcd_client \<Rightarrow> 'w network \<Rightarrow> 'w network" where
  "with_terra_client env terra client net = net\<lparr>
     lcd_canonical_block := (\<lambda>urls height.
       bindN (canonical_block env (lcd_client_at client urls) height) (\<lambda>b. retN (ingest_block env b))),
     lcd_block_hash := (\<lambda>urls. lcd_block_hash_of env (lcd_client_at client urls)),
     lcd_latest_height_at_least := (\<lambda>urls. latest_height_at_least env (lcd_client_at client urls)),
     lcd_latest_height := (\<lambda>urls. latest_height env (lcd_client_at client urls)),
     terra_live_balance := (\<lambda>wallet. case terra of
         None \<Rightarrow> failN (Provider ''no_terra_provider'')
       | Some (lcd, token) \<Rightarrow> lcd_live_snapshot env lcd token wallet),
     bulk_live_balances := (\<lambda>c wallets. case c of
         Terra \<Rightarrow> (case terra of
             None \<Rightarrow> failN (Provider ''no_terra_provider'')
           | Some (lcd, token) \<Rightarrow> lcd_live_balances env lcd token wallets)
       | Bsc \<Rightarrow> bulk_live_balances net Bsc wallets)\<rparr>"

text \<open>\<open>main\<close>: the clients and the balance source out of the configuration.\<close>

definition main_lcd :: "ledger_config \<Rightarrow> lcd_client" where
  "main_lcd cfg = with_rpc_urls (new_for_chain (terra_lcd_urls cfg) (terra_chain_id cfg)) (terra_rpc_urls cfg)"

definition main_network :: "'w http_env \<Rightarrow> 'w rpc_env \<Rightarrow> ledger_config \<Rightarrow> 'w network \<Rightarrow> 'w network" where
  "main_network env rpc cfg net =
     with_bsc_client rpc (bsc_rpc_urls cfg) (bsc_cl8y_token_address cfg)
       (with_terra_client env
          (if terra_lcd_urls cfg = [] then None else Some (main_lcd cfg, cl8y_token_address cfg))
          (main_lcd cfg) net)"

lemma live_snapshot_range:
  assumes "hex_encodes env" and "lcd_live_snapshot env lcd token wallet w = (Inr s, w')"
  shows "0 < lb_height s \<and> lb_height s \<le> i64_max \<and> block_hash_form (lb_block_hash s) \<and> valid_amount (lb_amount s)"
  using yieldsD [OF live_snapshot_true [OF assms(1) tells_anything] assms(2)] by (simp add: snapshot_true_def)

lemma bsc_snapshot_range: "yields (BscClient.live_snapshot rpc urls token wallet) (\<lambda>s. lb_height s \<le> i64_max)"
proof -
  have height: "yields (block_number rpc [url]) (\<lambda>h. h \<le> i64_max)" for url
    unfolding block_number_def block_number_at_least_def
    by (rule yields_first, rule yields_then, rule yields_weaken [OF head_at_yields]) simp
  show ?thesis
    unfolding BscClient.live_snapshot_def pinned_snapshot_def
    by (rule yields_or_label, rule yields_first, rule yields_bind [OF height], intro yields_bind_any yields_if yields_fail yields_ret)
       simp
qed

lemma main_network_ops:
  "lcd_latest_height_at_least (main_network env rpc cfg net) urls = latest_height_at_least env (lcd_client_at (main_lcd cfg) urls)"
  "terra_live_balance (main_network env rpc cfg net) wallet =
     (if terra_lcd_urls cfg = [] then failN (Provider ''no_terra_provider'')
      else lcd_live_snapshot env (main_lcd cfg) (cl8y_token_address cfg) wallet)"
  "bsc_live_balance (main_network env rpc cfg net) wallet =
     (if bsc_rpc_urls cfg = [] then failN (Provider ''no_bsc_provider'')
      else BscClient.live_snapshot rpc (bsc_rpc_urls cfg) (bsc_cl8y_token_address cfg) wallet)"
  by (auto simp: main_network_def with_bsc_client_def with_terra_client_def)

text \<open>The conditions of the ledger's theorems hold for the program's network.\<close>

lemma main_ranges_bounded: "ranges_bounded (main_network env rpc cfg net)"
  unfolding main_network_def by (rule client_ranges_bounded)

lemma main_heads_i64: "heads_i64 (main_network env rpc cfg net)"
  unfolding heads_i64_def main_network_ops by (auto dest: yieldsD [OF latest_height_at_least_yields])

lemma main_live_heights_i64:
  assumes "hex_encodes env"
  shows "live_heights_i64 (main_network env rpc cfg net)"
  using live_snapshot_range [OF assms] yieldsD [OF bsc_snapshot_range]
  by (fastforce simp: live_heights_i64_def live_balance_of_def main_network_ops failN_def split: chain.splits if_splits)

lemmas main_network_ok = main_ranges_bounded main_heads_i64 main_live_heights_i64

section \<open>The program's network is honest when its node is\<close>

lemma main_bsc_hash:
  "chain_block_hash (main_network env rpc cfg net) Bsc urls h = BscClient.block_hash rpc urls h"
  by (simp add: chain_block_hash_def main_network_def with_bsc_client_def)

lemma node_block_hash: "0 \<le> h \<Longrightarrow> h \<le> i64_max \<Longrightarrow> BscClient.block_hash quiet_node [u] h = retN (hex64 97)"
  by (simp add: fun_eq_iff BscClient.block_hash_def rpc_call_def bindN_def node_ops node_facts retN_def liftN_def
      validate_rpc_result_def block_hash_of_def block_number_of_def field_quantity_def quantity_hex node_values)

lemma main_network_honest:
  "\<forall>h\<in>hs. 0 \<le> h \<and> h \<le> i64_max \<Longrightarrow> honest (main_network env quiet_node cfg net) Bsc [u] hs (\<lambda>_. hex64 97)"
  by (simp add: honest_def main_bsc_hash node_block_hash retN_def)

text \<open>Three stored BSC blocks of which the node only has the lowest.\<close>

definition bsc_fork_db :: db where
  "bsc_fork_db = initial_db\<lparr>
     checkpoints := (\<lambda>_. None)(Bsc := Some \<lparr>cp_height = 12, cp_hash = str ''x2'', cp_observed_at = Some 0,
       cp_epoch = 1, cp_complete = True, cp_canonical = True, cp_degraded = None, cp_network_tip = 12\<rparr>),
     canonical_blocks := [\<lparr>cb_chain = Bsc, cb_height = 10, cb_hash = hex64 97\<rparr>,
       \<lparr>cb_chain = Bsc, cb_height = 11, cb_hash = str ''x1''\<rparr>,
       \<lparr>cb_chain = Bsc, cb_height = 12, cb_hash = str ''x2''\<rparr>]\<rparr>"

lemma bsc_fork_db_inv: "ledger_inv bsc_fork_db"
proof -
  have zero: "parse_i64 (str ''0'') = Some 0"
    by code_simp
  have "indexed_height bsc_fork_db c = Inr 0" for c
    by (cases c) (simp_all add: indexed_height_def get_state_def initial_db_def bsc_fork_db_def find_row_Cons cursor_key_def
        parse_cursor_def zero)
  moreover have "0 \<le> B \<Longrightarrow> books_ok bsc_fork_db c B" for c B
    by (simp add: books_ok_def bsc_fork_db_def initial_db_def unique_by_def)
  moreover have "0 \<le> checkpoint_height bsc_fork_db c" and "history_ok bsc_fork_db c" for c
    by (auto simp: checkpoint_height_def history_ok_def bsc_fork_db_def unique_by_def cb_key_def)
  ultimately show ?thesis
    by (auto simp: ledger_inv_def chain_ok_def)
qed

theorem canonicality_resolves_fork_witness:
  "let out = canonicality (main_network sample_http quiet_node sample_config quiet_network) Bsc 12 [str ''u''] (fresh_pool bsc_fork_db) in
   fst out = Inr () \<and> checkpoint_height (committed (snd out)) Bsc = 10 \<and> certified (committed (snd out)) Bsc"
proof -
  let ?b = "\<lambda>h x. \<lparr>cb_chain = Bsc, cb_height = h, cb_hash = x\<rparr>"
  have recent: "recent_blocks Bsc (committed (fresh_pool bsc_fork_db)) =
      ?b 12 (str ''x2'') # [?b 11 (str ''x1''), ?b 10 (hex64 97)]"
    by (simp add: recent_blocks_def fresh_pool_def bsc_fork_db_def)
  have hash: "hex64 97 \<noteq> str ''x1''" "hex64 97 \<noteq> str ''x2''"
    by code_simp+
  have fork: "fork_point (\<lambda>_. hex64 97) [?b 11 (str ''x1''), ?b 10 (hex64 97)] = Some (?b 10 (hex64 97))"
    by (simp add: fork_point_def hash)
  have cp: "checkpoint_height (committed (fresh_pool bsc_fork_db)) Bsc = 12"
    by (simp add: checkpoint_height_def fresh_pool_def bsc_fork_db_def)
  have inv: "ledger_inv (committed (fresh_pool bsc_fork_db))"
    by (simp add: fresh_pool_def bsc_fork_db_inv)
  have regs: "\<not> registrations_above c a (committed (fresh_pool bsc_fork_db))" for c a
    by (simp add: registrations_above_def fresh_pool_def bsc_fork_db_def initial_db_def)
  have honest: "honest (main_network sample_http quiet_node sample_config quiet_network) Bsc [str ''u'']
      (cb_height ` set (recent_blocks Bsc (committed (fresh_pool bsc_fork_db)))) (\<lambda>_. hex64 97)"
    by (rule main_network_honest) (simp add: recent i64_max_def)
  from canonicality_resolves_fork [OF honest _ inv recent _ _ _ fork, of 12]
  show ?thesis
    by (simp add: cp regs Let_def hash in_i64_def i64_max_def i64_min_def)
qed

end
