(* ===== verification/SystemProps.thy ===== *)
theory SystemProps
  imports System ChainClients
begin

text \<open>
  The theorems about the system as a whole: the turns of the ledger process are runs of the
  transition relation, every reachable database keeps all invariants, and what is recorded about an
  opened proposal is final along every run.
\<close>

section \<open>Turns are runs\<close>

text \<open>A turn of a chain worker, a supervised pass over the intents, a recovery.\<close>

inductive ledger_turn :: "'w network \<Rightarrow> ledger_config \<Rightarrow> db \<Rightarrow> db \<Rightarrow> bool"
  for net :: "'w network" and lcfg :: ledger_config where
  worked: "worker_turn net lcd bsc lcfg c late fate failures s = (r, s') \<Longrightarrow> ledger_turn net lcfg (committed s) (committed s')"
| passed: "supervised_intent_pass net fate s = (r, s') \<Longrightarrow> ledger_turn net lcfg (committed s) (committed s')"
| recovered: "reconcile_if_required net lcd bsc s = (r, s') \<Longrightarrow> ledger_turn net lcfg (committed s) (committed s')"

lemma run_step: "system_step net lcfg env vcfg d d' \<Longrightarrow> system_run net lcfg env vcfg d d'"
  by (rule r_into_rtranclp)

lemma step_upholds:
  assumes "\<And>s r s'. m s = (r, s') \<Longrightarrow> system_step net lcfg env vcfg (committed s) (committed s')"
  shows "pool_upholds (system_run net lcfg env vcfg) m"
  by (rule pool_I) (blast intro: rtranclp.rtrancl_into_rtrancl assms)

abbreviation program_run ::
    "'w http_env \<Rightarrow> 'w rpc_env \<Rightarrow> ledger_config \<Rightarrow> 'w network \<Rightarrow> ('k, 's, 'v) voting_env \<Rightarrow> 'n voting_config \<Rightarrow> db \<Rightarrow> db \<Rightarrow> bool" where
  "program_run http rpc lcfg rest \<equiv> system_run (main_network http rpc lcfg rest) lcfg"

interpretation runs: ledger_transactions "program_run http rpc lcfg rest env vcfg" "main_network http rpc lcfg rest" lcfg
  for http rpc lcfg rest env vcfg
  by unfold_locales (auto intro: step_upholds run_step system_step.intros main_heads_i64 rtranclp_trans)

text \<open>Every statement of the intent queue is a step, so a pass is a run wherever it is cut.\<close>

interpretation intent_runs: pass_relation net "system_run net lcfg env vcfg" for net lcfg env vcfg
  by unfold_locales (auto intro: rtranclp_trans run_step system_step.intros)

lemma turn_run:
  assumes "ledger_turn (main_network http rpc lcfg rest) lcfg d d'" and "hex_encodes http"
    and "unique_by in_id (intents d)"
  shows "program_run http rpc lcfg rest env vcfg d d'"
  using assms(1)
proof cases
  case (worked lcd bsc c late fate failures s r s')
  then show ?thesis
    using runs.above [OF runs.worker_turn_upholds worked(3)] by simp
next
  case (passed fate s r s')
  with assms(3) show ?thesis
    using intent_runs.pass_above [OF passed(3) main_live_heights_i64 [OF assms(2)]] by simp
next
  case (recovered lcd bsc s r s')
  then show ?thesis
    using runs.above [OF runs.reconcile_if_required_upholds recovered(3)] by simp
qed



section \<open>Every reachable database\<close>

lemma run_inv:
  assumes "system_run net lcfg env vcfg d d'" and "ranges_bounded net" and "live_heights_i64 net"
  shows "system_inv env vcfg d \<Longrightarrow> system_inv env vcfg d'"
  using assms(1) by (induction rule: rtranclp_induct) (auto intro: system_step_inv assms(2,3))

lemma run_endures:
  assumes "system_run net lcfg env vcfg d d'" and "live_heights_i64 net"
  shows "endures d d'"
  using assms(1) by (induction rule: rtranclp_induct) (auto intro: endures_refl endures_trans system_step_endures assms(2))

text \<open>
  C1. Every database the deployed system can reach from a fresh migration is sound, however the
  transactions of the ledger and the requests of the voters interleave and whatever providers,
  clocks and clients do: the ledger's books reconcile and its checkpoints cover them, no intent is
  settled without its registration, the voting tables have their integrity (unique keys, votes
  backed by frozen weights and by signatures for that very choice, quotas), and every recorded
  signature still passes the checks of a fresh request.
\<close>

theorem reachable_sound:
  assumes "program_run http rpc lcfg rest env vcfg initial_db d" and "hex_encodes http"
  shows "ledger_inv d \<and> intents_settled d \<and> unique_by in_id (intents d)
     \<and> voting_ok (texts env) (jsonb_parse env) d \<and> all_authentic env vcfg d"
  using run_inv [OF assms(1) main_ranges_bounded main_live_heights_i64 [OF assms(2)] system_inv_initial]
  by (simp add: system_inv_def queue_ok_def)

theorem reachable_sound_witness:
  "\<exists>d. intents d \<noteq> [] \<and> voting_ok sample_texts sample_parse d \<and> all_authentic sample_voting_env sample_voting_config d"
proof -
  obtain x s' where run: "handle sample_voting_env sample_voting_config sample_register (api_pool initial_db) = (Inr x, s')"
    using sample_register_accepted by blast
  have "case handle sample_voting_env sample_voting_config sample_register (api_pool initial_db) of
      (Inr x, s') \<Rightarrow> intents (committed s') \<noteq> [] | _ \<Rightarrow> False"
    by code_simp
  with run have "intents (committed s') \<noteq> []" by simp
  moreover have "program_run sample_http rpc sample_config quiet_network sample_voting_env sample_voting_config initial_db (committed s')"
    for rpc
    using run_step [OF action_handled [OF run]] by (simp add: api_pool_def)
  from reachable_sound [OF this sample_hex] have "voting_ok sample_texts sample_parse (committed s')"
      "all_authentic sample_voting_env sample_voting_config (committed s')"
    by (simp_all add: sample_voting_env_def)
  ultimately show ?thesis by blast
qed

section \<open>The electorate of an opened proposal\<close>

definition electorate :: "db \<Rightarrow> uuid \<Rightarrow> snapshot_row list" where
  "electorate d pid = filter (\<lambda>w. sn_proposal w = pid) (snapshots d)"

definition opened_with :: "uuid \<Rightarrow> snapshot_row list \<Rightarrow> db \<Rightarrow> bool" where
  "opened_with pid ws d \<longleftrightarrow> (\<exists>p\<in>set (proposals d). pr_id p = pid \<and> pr_status p = Open) \<and> electorate d pid = ws"

lemma opened_kept: "grown d d' \<Longrightarrow> snapshots d' = snapshots d \<Longrightarrow> opened_with pid ws d \<Longrightarrow> opened_with pid ws d'"
  unfolding opened_with_def electorate_def grown_def kept_by_def by (metis (no_types, lifting))

lemma snapshots_kept:
  "insert_signature_row row d = Inr d' \<Longrightarrow> snapshots d' = snapshots d"
  "insert_registration_intent row_id c wallet sid now d = Inr d' \<Longrightarrow> snapshots d' = snapshots d"
  "insert_draft pid c proposer title html canonical sections now d = Inr d' \<Longrightarrow> snapshots d' = snapshots d"
  "update_draft_sections pid title html canonical sections d = Inr d' \<Longrightarrow> snapshots d' = snapshots d"
  "insert_vote lib jsonb pid c wallet ch weight sid now d = Inr d' \<Longrightarrow> snapshots d' = snapshots d"
  "insert_comment cid pid c wallet html sid now d = Inr d' \<Longrightarrow> snapshots d' = snapshots d"
  "insert_analysis aid pid c wallet html sections sid now d = Inr d' \<Longrightarrow> snapshots d' = snapshots d"
  "insert_receipt_row rrow d = Inr d' \<Longrightarrow> snapshots d' = snapshots d"
  by (auto simp: insert_signature_row_iff insert_registration_intent_iff insert_draft_iff update_draft_sections_iff
      insert_comment_iff insert_receipt_row_iff dest!: insert_vote_Inr insert_analysis_Inr split: if_splits)

lemma record_snapshots: "record_revision pid sid now d = Inr d' \<Longrightarrow> snapshots d' = snapshots d"
  unfolding record_revision_def
  by (rule foldR_invariant [where P = "\<lambda>e. snapshots e = snapshots d"]) (auto simp: Let_def split: if_splits)

text \<open>A proposal is frozen once: opening needs its only row to be a draft.\<close>

lemma freeze_other:
  assumes run: "freeze_proposal lib jsonb pid sid k d = Inr (hs, d')" and ok: "voting_ok lib jsonb d"
    and opened: "opened_with p0 ws d"
  shows "opened_with p0 ws d'"
proof -
  obtain p s where p: "find_row pr_id pid (proposals d) = Some p" and draft: "signed_revision lib jsonb pid s p = Inr ()"
    and snaps: "snapshots d' = snapshots d @ snapshots_for pid d"
    using run unfolding freeze_proposal_solved by auto
  have "pr_status p = Draft"
    using draft by (auto simp: signed_revision_def result_iff split: if_splits)
  then have "pid \<noteq> p0"
    using opened find_row_SomeD [OF p] unique_byD [of pr_id "proposals d"] ok
    unfolding opened_with_def voting_ok_def keys_ok_def by (metis proposal_status.distinct(1))
  then have "electorate d' p0 = electorate d p0"
    unfolding electorate_def snaps by (simp add: snapshots_for_def snapshot_of_def filter_empty_conv)
  then show ?thesis
    using grow_freeze [OF run] opened unfolding opened_with_def grown_def kept_by_def by (metis (no_types, lifting))
qed

lemma opened_statements:
  "opened_with p0 ws d \<Longrightarrow> insert_signature_row row d = Inr d' \<Longrightarrow> opened_with p0 ws d'"
  "opened_with p0 ws d \<Longrightarrow> insert_registration_intent row_id c wallet sid now d = Inr d' \<Longrightarrow> opened_with p0 ws d'"
  "opened_with p0 ws d \<Longrightarrow> insert_draft pid c proposer title html canonical sections now d = Inr d' \<Longrightarrow> opened_with p0 ws d'"
  "opened_with p0 ws d \<Longrightarrow> update_draft_sections pid title html canonical sections d = Inr d' \<Longrightarrow> opened_with p0 ws d'"
  "opened_with p0 ws d \<Longrightarrow> record_revision pid sid now d = Inr d' \<Longrightarrow> opened_with p0 ws d'"
  "opened_with p0 ws d \<Longrightarrow> insert_vote lib jsonb pid c wallet ch weight sid now d = Inr d' \<Longrightarrow> opened_with p0 ws d'"
  "opened_with p0 ws d \<Longrightarrow> insert_comment cid pid c wallet html sid now d = Inr d' \<Longrightarrow> opened_with p0 ws d'"
  "opened_with p0 ws d \<Longrightarrow> insert_analysis aid pid c wallet html sections sid now d = Inr d' \<Longrightarrow> opened_with p0 ws d'"
  "opened_with p0 ws d \<Longrightarrow> insert_receipt_row rrow d = Inr d' \<Longrightarrow> opened_with p0 ws d'"
  using opened_kept grow_rules snapshots_kept record_snapshots by (metis (no_types, lifting))+

interpretation electorates: voting_statements env cfg
    "\<lambda>d. voting_ok (texts env) (jsonb_parse env) d \<and> opened_with p0 ws d" for env cfg p0 ws
  by unfold_locales (use voting_ok_kept opened_statements freeze_other in \<open>metis (no_types, lifting)\<close>)+

lemma system_step_kinds:
  assumes "system_step net lcfg env vcfg d d'"
  shows "voting_kept d d' \<or> (\<exists>request t answer t'. handle env vcfg request t = (answer, t') \<and> d = committed t \<and> d' = committed t')"
  using assms
proof (cases rule: system_step.cases)
  case (canonicality_checked c last_h urls s r s')
  then show ?thesis
    using voting_side.above [OF voting_side.canonicality_upholds] by blast
next
  case (terra_block_ingested height urls s r s')
  then show ?thesis
    using voting_side.above [OF voting_side.ingest_terra_upholds] by blast
next
  case (bsc_range_ingested urls "from" "to" plan s r s')
  then show ?thesis
    using voting_side.above [OF voting_side.ingest_bsc_upholds] by blast
next
  case (tip_published height c urls s r s')
  then show ?thesis
    using voting_side.above [OF voting_side.publish_tip_upholds] by blast
next
  case (baseline_reconciled lcd bsc c only s r s')
  then show ?thesis
    using voting_side.above [OF voting_side.reconcile_upholds] by blast
next
  case (wallet_registered c raw sid s r s')
  then show ?thesis
    using voting_side.above [OF voting_side.register_wallet_upholds] by blast
next
  case (action_handled request t answer t')
  then show ?thesis by blast
qed (simp_all add: voting_side.degraded voting_side.recovery_requested queue_voting)

lemma opened_judged: "voting_kept d d' \<Longrightarrow> opened_with pid ws d \<Longrightarrow> opened_with pid ws d'"
  unfolding opened_with_def electorate_def voting_kept_def by (metis judged_columns list_all2_set1)

lemma system_step_opened:
  assumes step: "system_step net lcfg env vcfg d d'" and inv: "voting_ok (texts env) (jsonb_parse env) d"
    and opened: "opened_with pid ws d"
  shows "opened_with pid ws d'"
  using system_step_kinds [OF step]
proof
  assume "\<exists>request t answer t'. handle env vcfg request t = (answer, t') \<and> d = committed t \<and> d' = committed t'"
  then obtain request t answer t' where run: "handle env vcfg request t = (answer, t')" "d = committed t" "d' = committed t'"
    by blast
  have "voting_ok (texts env) (jsonb_parse env) (committed t') \<and> opened_with pid ws (committed t')"
    by (rule handle_run [OF electorates.handle_kept run(1)]) (use inv opened run(2) in simp_all)
  with run(3) show ?thesis by simp
qed (rule opened_judged [OF _ opened])

lemma run_opened:
  assumes run: "system_run net lcfg env vcfg d d'" and net: "ranges_bounded net" "live_heights_i64 net"
    and inv: "system_inv env vcfg d"
  shows "opened_with pid ws d \<Longrightarrow> opened_with pid ws d'"
  using run
proof (induction rule: rtranclp_induct)
  case (step b c)
  have "system_inv env vcfg b"
    by (rule run_inv [OF step(1) net inv])
  then show ?case
    using system_step_opened [OF step(2)] step by (simp add: system_inv_def)
qed

text \<open>
  C4. What is decided about an opened proposal is final along every run of the system: its text and
  its frozen heights stay, its electorate and every weight in it stay exactly as they were recorded,
  and its validity can be lost to a fork but never regained; recorded signatures, votes, comments,
  analyses, receipts and revisions are never removed, and no registration or intent is lost.
\<close>

theorem opened_proposal_final:
  assumes "system_inv env vcfg d" and "program_run http rpc lcfg rest env vcfg d d'"
    and "hex_encodes http"
  shows "endures d d' \<and> (\<forall>p\<in>set (proposals d). pr_status p = Open \<longrightarrow>
     electorate d' (pr_id p) = electorate d (pr_id p) \<and> (\<exists>q\<in>set (proposals d'). judged p q))"
proof (intro conjI ballI impI)
  note net = main_ranges_bounded main_live_heights_i64 [OF assms(3)]
  show lasting: "endures d d'"
    by (rule run_endures [OF assms(2) net(2)])
  fix p
  assume p: "p \<in> set (proposals d)" "pr_status p = Open"
  then have "opened_with (pr_id p) (electorate d (pr_id p)) d"
    by (auto simp: opened_with_def)
  from run_opened [OF assms(2) net assms(1) this]
  show "electorate d' (pr_id p) = electorate d (pr_id p)"
    by (simp add: opened_with_def)
  show "\<exists>q\<in>set (proposals d'). judged p q"
    using lasting p unfolding endures_def lasts_def by blast
qed

lemma poll_db_sound: "system_inv sample_voting_env sample_voting_config poll_db"
proof -
  have tables: "transfers poll_db = transfers initial_db" "balances poll_db = balances initial_db"
    "checkpoints poll_db = checkpoints initial_db" "canonical_blocks poll_db = canonical_blocks initial_db"
    "indexer_state poll_db = indexer_state initial_db" "registrations poll_db = [sample_holder]"
    by (simp_all add: poll_db_def)
  have "transfers initial_db c = []" "balances initial_db c = []" for c
    by (simp_all add: initial_db_def)
  then have books: "books_ok poll_db c B" for c B
    by (simp add: books_ok_def tables sample_holder_def unique_by_def reconciled_def stored_balance_def flow_def i64_max_def)
  have "indexed_height poll_db c = indexed_height initial_db c" "checkpoint_height poll_db c = checkpoint_height initial_db c" for c
    by (simp_all add: indexed_height_def get_state_def checkpoint_height_def tables)
  then have "ledger_inv poll_db"
    using initial_ledger_inv by (simp add: ledger_inv_def chain_ok_def books history_ok_def tables)
  moreover have "intents poll_db = []" "signatures poll_db = []"
    by (simp_all add: poll_db_def initial_db_def)
  ultimately show ?thesis
    by (simp add: system_inv_def queue_ok_def poll_db_ok all_authentic_def intents_settled_def unique_by_def)
qed

theorem opened_proposal_final_witness:
  "\<exists>d. map vt_weight (votes d) = [5] \<and> electorate d 7 = electorate poll_db 7 \<and> (\<exists>q\<in>set (proposals d). judged open_row q)"
proof -
  obtain x s' where run: "handle sample_voting_env sample_voting_config sample_vote (api_pool poll_db) = (Inr x, s')"
    and votes: "map vt_weight (votes (committed s')) = [5]"
    by (rule exE [OF sample_vote_accepted]) auto
  have "program_run sample_http quiet_node sample_config quiet_network sample_voting_env sample_voting_config poll_db (committed s')"
    using run_step [OF action_handled [OF run]] by (simp add: api_pool_def)
  from opened_proposal_final [OF poll_db_sound this sample_hex]
  have "\<forall>p\<in>set (proposals poll_db). pr_status p = Open \<longrightarrow>
     electorate (committed s') (pr_id p) = electorate poll_db (pr_id p) \<and> (\<exists>q\<in>set (proposals (committed s')). judged p q)"
    by blast
  moreover have "open_row \<in> set (proposals poll_db)" "pr_status open_row = Open" "pr_id open_row = 7"
    by (simp_all add: poll_db_def open_row_def)
  ultimately have "electorate (committed s') 7 = electorate poll_db 7 \<and> (\<exists>q\<in>set (proposals (committed s')). judged open_row q)"
    by metis
  with votes show ?thesis
    by - (rule exI [of _ "committed s'"], rule conjI)
qed

end
