(* ===== verification/Application.thy ===== *)
theory Application
  imports Routes Privileges SystemProps
begin

text \<open>
  The voting API as it is deployed (\<open>operator-voting/src/application.rs\<close>, \<open>main.rs\<close>): the
  startup guards and the layers around the router. From the outside in: errors are correlated with
  a request id, the origin is enforced, the CORS layer and the body limit of \<open>tower-http\<close> (fields
  of \<open>http_lib\<close>), the rate limit, and the routes. A handler takes the request and the state of the
  process: the limiter and the database pool. The request id, the instant of the limiter and the
  clock of the database are chosen by the environment.
\<close>

section \<open>Handlers\<close>

type_synonym ('n, 'w) process = "'n rate_limit_state \<times> 'w pool"
type_synonym ('ip, 'n, 'w) handler = "'ip http_request \<Rightarrow> ('n, 'w) process \<Rightarrow> reply \<times> ('n, 'w) process"

definition answer :: "reply \<Rightarrow> ('n, 'w) process \<Rightarrow> reply \<times> ('n, 'w) process" where
  "answer reply p = (reply, p)"

text \<open>Drafts, comments and analyses are created; the other actions answer 200.\<close>

definition success_status :: "api_post \<Rightarrow> nat" where
  "success_status post = (case post of PostDraft _ \<Rightarrow> 201 | PostComment _ _ \<Rightarrow> 201 | PostAnalysis _ _ \<Rightarrow> 201 | _ \<Rightarrow> 200)"

definition routes ::
    "'ip http_lib \<Rightarrow> ('k, 's, 'w) voting_env \<Rightarrow> 'n voting_config \<Rightarrow> (int \<Rightarrow> ustring) \<Rightarrow> int \<Rightarrow> bool \<Rightarrow> ('ip, 'm, 'w) handler" where
  "routes lib env cfg stamp now_us late req p =
     (case route lib req of
        Inl rejection \<Rightarrow> answer rejection p
      | Inr (Reads read) \<Rightarrow>
          (case answer_read lib env cfg stamp now_us late read (committed (snd p)) of
             Inl e \<Rightarrow> answer (error_reply lib (into_response e)) p
           | Inr (status, v) \<Rightarrow> answer (json_reply lib status v) p)
      | Inr (Canonicalizes body) \<Rightarrow>
          (case canonicalize (texts env) body of
             Inl e \<Rightarrow> answer (error_reply lib (into_response e)) p
           | Inr r \<Rightarrow> answer (json_reply lib 200 (canonical_response_json r)) p)
      | Inr (Writes post) \<Rightarrow>
          (case handle env cfg post (snd p) of
             (Inl e, s) \<Rightarrow> answer (error_reply lib (into_response e)) (fst p, s)
           | (Inr v, s) \<Rightarrow> answer (json_reply lib (success_status post) v) (fst p, s)))"

section \<open>Layers\<close>

definition rate_limit_layer ::
    "(rat \<Rightarrow> rat) \<Rightarrow> ('ip, 'n) ip_lib \<Rightarrow> 'ip http_lib \<Rightarrow> nat \<Rightarrow> ('ip, 'n, 'w) handler \<Rightarrow> ('ip, 'n, 'w) handler" where
  "rate_limit_layer rnd ips lib now_ns next req p =
     (case enforce_post_rate_limit rnd ips (fst p) (rq_method req) (rq_forwarded req) (rq_peer req) now_ns of
        (Inl refusal, rl) \<Rightarrow> answer (error_reply lib refusal) (rl, snd p)
      | (Inr _, rl) \<Rightarrow> next req (rl, snd p))"

definition body_limit_layer :: "'ip http_lib \<Rightarrow> nat \<Rightarrow> ('ip, 'n, 'w) handler \<Rightarrow> ('ip, 'n, 'w) handler" where
  "body_limit_layer lib limit next req p =
     (case too_large lib limit req of Some rejection \<Rightarrow> answer rejection p | None \<Rightarrow> next req p)"

definition cors_layer :: "'ip http_lib \<Rightarrow> ustring list \<Rightarrow> ('ip, 'n, 'w) handler \<Rightarrow> ('ip, 'n, 'w) handler" where
  "cors_layer lib origins next req p =
     (case cors_answer lib origins req of
        Some preflight \<Rightarrow> answer preflight p
      | None \<Rightarrow> (case next req p of (r, p') \<Rightarrow> (r\<lparr>ry_headers := cors_headers lib origins req r\<rparr>, p')))"

definition origin_listed :: "ustring list \<Rightarrow> 'ip http_request \<Rightarrow> bool" where
  "origin_listed origins req \<longleftrightarrow>
     (case rq_origin req of None \<Rightarrow> True | Some None \<Rightarrow> False | Some (Some origin) \<Rightarrow> origin \<in> set origins)"

definition cors_method_ok :: "'ip http_request \<Rightarrow> bool" where
  "cors_method_ok req \<longleftrightarrow>
     (case rq_cors_method req of
        None \<Rightarrow> True
      | Some text \<Rightarrow> text \<in> {Some (str ''GET''), Some (str ''POST''), Some (str ''PUT'')})"

definition cors_headers_ok :: "'ip http_request \<Rightarrow> bool" where
  "cors_headers_ok req \<longleftrightarrow>
     (case rq_cors_headers req of
        None \<Rightarrow> True
      | Some None \<Rightarrow> False
      | Some (Some s) \<Rightarrow> list_all (\<lambda>h. lower (trim h) \<in> {str ''content-type'', str ''accept''}) (split_on 44 s))"

definition forbidden :: "'ip http_lib \<Rightarrow> string \<Rightarrow> string \<Rightarrow> reply" where
  "forbidden lib message code = error_reply lib \<lparr>rs_status = 403, rs_code = code, rs_error = message, rs_retry_after = None\<rparr>"

definition enforce_origin :: "'ip http_lib \<Rightarrow> ustring list \<Rightarrow> ('ip, 'n, 'w) handler \<Rightarrow> ('ip, 'n, 'w) handler" where
  "enforce_origin lib origins next req p =
     (if \<not> origin_listed origins req
      then answer (forbidden lib ''origin not allowed'' ''origin_not_allowed'') p
      else if rq_method req = str ''OPTIONS'' \<and> \<not> cors_method_ok req
      then answer (forbidden lib ''method not allowed'' ''cors_method_not_allowed'') p
      else if rq_method req = str ''OPTIONS'' \<and> \<not> cors_headers_ok req
      then answer (forbidden lib ''headers not allowed'' ''cors_headers_not_allowed'') p
      else next req p)"

definition status_code :: "nat \<Rightarrow> string" where
  "status_code status =
     (if status = 400 then ''bad_request''
      else if status = 404 then ''not_found''
      else if status = 405 then ''method_not_allowed''
      else if status = 413 then ''body_too_large''
      else if status = 415 then ''unsupported_media_type''
      else if status = 422 then ''invalid_request''
      else if status = 429 then ''rate_limited''
      else if status = 503 then ''service_unavailable''
      else ''request_rejected'')"

definition is_error :: "nat \<Rightarrow> bool" where
  "is_error status \<longleftrightarrow> 400 \<le> status \<and> status < 600"

text \<open>The members of the error body that leaves the process; a body over 128 KiB counts as empty.\<close>

definition correlated_members :: "'ip http_lib \<Rightarrow> ustring \<Rightarrow> reply \<Rightarrow> (ustring \<times> json) list" where
  "correlated_members lib request_id r =
     (let bytes = (if length (ry_body r) \<le> 128 * 1024 then ry_body r else []);
          value = (case Option.bind (bytes_json lib bytes) as_object of
                     Some kvs \<Rightarrow> kvs
                   | None \<Rightarrow> [(str ''error'', JStr (str ''request rejected''))]);
          coded = (if map_of value (str ''code'') \<noteq> None then value
                   else jset (jset value ''code'' (JStr (str (status_code (ry_status r))))) ''error'' (JStr (str ''request rejected''))) in
      jset coded ''request_id'' (JStr request_id))"

definition correlate :: "'ip http_lib \<Rightarrow> ustring \<Rightarrow> reply \<Rightarrow> reply" where
  "correlate lib request_id r =
     (let headers = put_header ''x-request-id'' request_id (ry_headers r) in
      if \<not> is_error (ry_status r) then r\<lparr>ry_headers := headers\<rparr>
      else \<lparr>ry_status = ry_status r,
            ry_headers = filter (\<lambda>h. fst h \<noteq> ''content-length'') (put_header ''content-type'' (str ''application/json'') headers),
            ry_body = json_bytes lib (JObj (correlated_members lib request_id r))\<rparr>)"

definition correlate_errors :: "'ip http_lib \<Rightarrow> ustring \<Rightarrow> ('ip, 'n, 'w) handler \<Rightarrow> ('ip, 'n, 'w) handler" where
  "correlate_errors lib request_id next req p = (case next req p of (r, p') \<Rightarrow> (correlate lib request_id r, p'))"

section \<open>The application\<close>

text \<open>What the environment chooses for one request.\<close>

record moment =
  mo_request_id :: uuid
  mo_instant :: nat
  mo_clock :: int
  mo_late :: bool

definition application_guards :: "'n config_lib \<Rightarrow> 'n voting_config \<Rightarrow> unit voting_result" where
  "application_guards clib cfg =
     bindR (validate_origins clib (vc_cors_origins cfg)) (\<lambda>_.
     bindR (validate_networks (vc_run_mode cfg) (vc_terra_chain_id cfg) (vc_evm_chain_id cfg)) (\<lambda>_.
     validate_prod_guards clib (vc_run_mode cfg) (vc_cors_origins cfg) (vc_post_per_minute cfg) (vc_apply_migrations cfg)))"

definition stack ::
    "(rat \<Rightarrow> rat) \<Rightarrow> ('ip, 'n) ip_lib \<Rightarrow> 'ip http_lib \<Rightarrow> ('k, 's, 'w) voting_env \<Rightarrow> 'n voting_config \<Rightarrow> (int \<Rightarrow> ustring)
       \<Rightarrow> moment \<Rightarrow> ('ip, 'n, 'w) handler" where
  "stack rnd ips lib env cfg stamp mo =
     correlate_errors lib (uuid_text env (mo_request_id mo))
       (enforce_origin lib (vc_cors_origins cfg)
         (cors_layer lib (vc_cors_origins cfg)
           (body_limit_layer lib (MAX_BODY_BYTES + 8 * 1024)
             (rate_limit_layer rnd ips lib (mo_instant mo)
               (routes lib env cfg stamp (mo_clock mo) (mo_late mo))))))"

definition application ::
    "'n config_lib \<Rightarrow> (rat \<Rightarrow> rat) \<Rightarrow> ('ip, 'n) ip_lib \<Rightarrow> 'ip http_lib \<Rightarrow> ('k, 's, 'w) voting_env \<Rightarrow> 'n voting_config \<Rightarrow> (int \<Rightarrow> ustring)
       \<Rightarrow> ('n rate_limit_state \<times> (moment \<Rightarrow> ('ip, 'n, 'w) handler)) voting_result" where
  "application clib rnd ips lib env cfg stamp =
     bindR (application_guards clib cfg) (\<lambda>_. Inr (from_config cfg, stack rnd ips lib env cfg stamp))"

text \<open>
  \<open>run\<close>: the configuration, the connection, the check of the role in
  production, the migrations where they are allowed, and the application on its address.
\<close>

record 'n startup_lib =
  su_config :: "'n config_lib"
  su_connect :: "ustring \<Rightarrow> (role_grants \<times> db) voting_result"
  su_migrate :: "db \<Rightarrow> db voting_result"
  su_socket :: "ustring \<Rightarrow> bool"

definition run ::
    "'n startup_lib \<Rightarrow> (rat \<Rightarrow> rat) \<Rightarrow> ('ip, 'n) ip_lib \<Rightarrow> 'ip http_lib \<Rightarrow> ('k, 's, 'w) voting_env \<Rightarrow> (int \<Rightarrow> ustring) \<Rightarrow> environment
       \<Rightarrow> ('n voting_config \<times> db \<times> 'n rate_limit_state \<times> (moment \<Rightarrow> ('ip, 'n, 'w) handler)) voting_result" where
  "run su rnd ips lib env stamp vars =
     bindR (voting_from_env (su_config su) vars) (\<lambda>cfg.
     bindR (su_connect su (vc_database_url cfg)) (\<lambda>(grants, d).
     bindR (if vc_run_mode cfg = str ''prod'' then validate_production_privileges grants else Inr ()) (\<lambda>_.
     bindR (if vc_apply_migrations cfg then su_migrate su d else Inr d) (\<lambda>d.
     if \<not> su_socket su (vc_api_bind cfg) then Inl (VInvalidConfig ''API_BIND'')
     else bindR (application (su_config su) rnd ips lib env cfg stamp) (\<lambda>(limiter, app). Inr (cfg, d, limiter, app))))))"

section \<open>What a request can do\<close>

lemma handle_error_keeps: "handle env cfg post s = (Inl e, s') \<Longrightarrow> committed s' = committed s"
  using holds_errorD [OF history.handle_kept [OF grown_refl, of "committed s" env cfg post], of s e s'] by (simp add: dbs_def)

lemma success_not_error: "\<not> is_error (success_status post)"
  by (cases post) (simp_all add: success_status_def is_error_def)

lemma correlate_body: "\<not> is_error (ry_status r) \<Longrightarrow> ry_body (correlate lib request_id r) = ry_body r"
  by (simp add: correlate_def Let_def)

lemma correlate_status [simp]: "ry_status (correlate lib request_id r) = ry_status r"
  by (simp add: correlate_def Let_def)

text \<open>The database pool is left alone by every layer and by every route but the actions.\<close>

lemma routes_cases:
  assumes "routes lib env cfg stamp now_us late req p = (r, p')"
  shows "p' = p \<or> (\<exists>post e s. route lib req = Inr (Writes post) \<and> handle env cfg post (snd p) = (e, s) \<and> p' = (fst p, s)
     \<and> r = (case e of Inl err \<Rightarrow> error_reply lib (into_response err) | Inr v \<Rightarrow> json_reply lib (success_status post) v))"
  using assms
  by (auto simp: routes_def answer_def split: sum.splits routed.splits prod.splits)

lemma rate_limit_cases:
  assumes "rate_limit_layer rnd ips lib now_ns inner req p = (r, p')"
  shows "snd p' = snd p \<or> (fst (enforce_post_rate_limit rnd ips (fst p) (rq_method req) (rq_forwarded req) (rq_peer req) now_ns) = Inr ()
     \<and> (\<exists>rl. inner req (rl, snd p) = (r, p')))"
  using assms by (auto simp: rate_limit_layer_def answer_def split: prod.splits sum.splits)

lemma outer_cases:
  assumes "correlate_errors lib request_id (enforce_origin lib origins (cors_layer lib origins (body_limit_layer lib limit inner))) req p = (reply, p')"
  shows "\<exists>r. reply = correlate lib request_id r \<and> (p' = p \<or> origin_listed origins req
     \<and> (\<exists>r0. inner req p = (r0, p') \<and> ry_status r = ry_status r0 \<and> ry_body r = ry_body r0))"
  using assms
  by (auto simp: correlate_errors_def enforce_origin_def cors_layer_def body_limit_layer_def answer_def
      split: if_splits option.splits prod.splits)

lemma answered_status [simp]:
  "ry_status (error_reply lib (into_response e)) = error_status e" "ry_status (json_reply lib status v) = status"
  "ry_body (json_reply lib status v) = json_bytes lib v"
  by (simp_all add: error_reply_def json_reply_def into_response_def Let_def split: option.split)

lemma stack_cases:
  assumes "stack rnd ips lib env cfg stamp mo req p = (reply, p')"
  shows "\<exists>r. reply = correlate lib (uuid_text env (mo_request_id mo)) r \<and>
     (snd p' = snd p
      \<or> origin_listed (vc_cors_origins cfg) req
        \<and> fst (enforce_post_rate_limit rnd ips (fst p) (rq_method req) (rq_forwarded req) (rq_peer req) (mo_instant mo)) = Inr ()
        \<and> (\<exists>post e. route lib req = Inr (Writes post) \<and> handle env cfg post (snd p) = (e, snd p')
             \<and> ry_status r = (case e of Inl err \<Rightarrow> error_status err | Inr v \<Rightarrow> success_status post)
             \<and> (\<forall>v. e = Inr v \<longrightarrow> ry_body r = json_bytes lib v)))"
proof -
  obtain r where r: "reply = correlate lib (uuid_text env (mo_request_id mo)) r"
    and inner: "p' = p \<or> origin_listed (vc_cors_origins cfg) req
     \<and> (\<exists>r0. rate_limit_layer rnd ips lib (mo_instant mo) (routes lib env cfg stamp (mo_clock mo) (mo_late mo)) req p = (r0, p')
          \<and> ry_status r = ry_status r0 \<and> ry_body r = ry_body r0)"
    using outer_cases [OF assms [unfolded stack_def]] by blast
  show ?thesis
  proof (cases "snd p' = snd p")
    case False
    with inner obtain r0 where listed: "origin_listed (vc_cors_origins cfg) req" and same: "ry_status r = ry_status r0" "ry_body r = ry_body r0"
      and limited: "rate_limit_layer rnd ips lib (mo_instant mo) (routes lib env cfg stamp (mo_clock mo) (mo_late mo)) req p = (r0, p')"
      by auto
    from rate_limit_cases [OF limited] False obtain rl
      where admitted: "fst (enforce_post_rate_limit rnd ips (fst p) (rq_method req) (rq_forwarded req) (rq_peer req) (mo_instant mo)) = Inr ()"
        and routed: "routes lib env cfg stamp (mo_clock mo) (mo_late mo) req (rl, snd p) = (r0, p')"
      by blast
    from routes_cases [OF routed] False obtain post e
      where acted: "route lib req = Inr (Writes post)" "handle env cfg post (snd p) = (e, snd p')"
        and r0: "r0 = (case e of Inl err \<Rightarrow> error_reply lib (into_response err) | Inr v \<Rightarrow> json_reply lib (success_status post) v)"
      by auto
    have "ry_status r = (case e of Inl err \<Rightarrow> error_status err | Inr v \<Rightarrow> success_status post)"
      "\<forall>v. e = Inr v \<longrightarrow> ry_body r = json_bytes lib v"
      using r0 same by (cases e; simp)+
    with r listed admitted acted show ?thesis by blast
  qed (use r in blast)
qed

lemma application_stack:
  "application clib rnd ips lib env cfg stamp = Inr (limiter, app)
     \<longleftrightarrow> application_guards clib cfg = Inr () \<and> limiter = from_config cfg \<and> app = stack rnd ips lib env cfg stamp"
  by (auto simp: application_def result_iff)

lemma map_of_without: "map_of (filter (\<lambda>h. fst h \<noteq> key) hs) k = (if k = key then None else map_of hs k)"
  by (induction hs) auto

lemma map_of_put_header [simp]: "map_of (put_header name v hs) k = (if k = name then Some v else map_of hs k)"
  by (simp add: put_header_def map_of_without map_add_def split: option.split)

lemma map_of_jset [simp]: "map_of (jset kvs key v) k = (if k = str key then Some v else map_of kvs k)"
  by (simp add: jset_def map_of_without map_add_def split: option.split)

lemma correlated_members_get:
  "map_of (correlated_members lib request_id r) (str ''code'') \<noteq> None
     \<and> map_of (correlated_members lib request_id r) (str ''request_id'') = Some (JStr request_id)"
proof -
  have "str ''code'' \<noteq> str ''request_id''" "str ''code'' \<noteq> str ''error''" by code_simp+
  then show ?thesis by (simp add: correlated_members_def Let_def)
qed

lemma guards_production:
  assumes "application_guards clib cfg = Inr ()" and "vc_run_mode cfg = str ''prod''"
  shows "vc_terra_chain_id cfg = str ''columbus-5'' \<and> vc_evm_chain_id cfg = str ''56'' \<and> vc_cors_origins cfg \<noteq> []
     \<and> vc_post_per_minute cfg > 0 \<and> \<not> vc_apply_migrations cfg"
  using assms(1) unfolding assms(2) application_guards_def validate_networks_def validate_prod_guards_def
  by (auto simp: result_iff normalize_run_mode_prod)

text \<open>
  C8. The database changes only by an admitted action. When a request leaves the database changed, it
  was routed to a mutating handler by a method the limiter counts, its origin is absent or one of the
  configured ones, the limiter let it pass, the handler accepted it, and the client is told so: the answer has the status of a
  success and the handler's answer as its body. Every other request, rejected by a layer or failed
  by its handler, leaves the database as it was.
\<close>

theorem changes_only_by_admitted_actions:
  assumes "application clib rnd ips lib env cfg stamp = Inr (limiter, app)"
    and "app mo req p = (reply, p')" and "committed (snd p') \<noteq> committed (snd p)"
  shows "\<exists>post v. route lib req = Inr (Writes post) \<and> handle env cfg post (snd p) = (Inr v, snd p')
     \<and> ry_status reply = success_status post \<and> ry_body reply = json_bytes lib v
     \<and> origin_listed (vc_cors_origins cfg) req \<and> is_mutation (rq_method req)
     \<and> fst (enforce_post_rate_limit rnd ips (fst p) (rq_method req) (rq_forwarded req) (rq_peer req) (mo_instant mo)) = Inr ()"
proof -
  from assms(1,2) have run: "stack rnd ips lib env cfg stamp mo req p = (reply, p')"
    by (simp add: application_stack)
  from stack_cases [OF run] assms(3) obtain r post e where r: "reply = correlate lib (uuid_text env (mo_request_id mo)) r"
    and admitted: "origin_listed (vc_cors_origins cfg) req"
      "fst (enforce_post_rate_limit rnd ips (fst p) (rq_method req) (rq_forwarded req) (rq_peer req) (mo_instant mo)) = Inr ()"
    and acted: "route lib req = Inr (Writes post)" "handle env cfg post (snd p) = (e, snd p')"
    and told: "ry_status r = (case e of Inl err \<Rightarrow> error_status err | Inr v \<Rightarrow> success_status post)"
      "\<forall>v. e = Inr v \<longrightarrow> ry_body r = json_bytes lib v"
    by (auto simp del: split_paired_Ex)
  obtain v where "e = Inr v"
    using acted(2) assms(3) by (cases e) (auto dest: handle_error_keeps)
  with r admitted acted told route_mutation show ?thesis
    by (simp add: correlate_body success_not_error)
qed

text \<open>
  C11. An error answer is always the same shape and never hides a change: it is a JSON object with a
  code and an error whose \<open>request_id\<close> is that of the \<open>x-request-id\<close> header, declared as JSON and
  without a stale length, whichever layer or library produced it, and the database is as it was.
\<close>

theorem errors_correlated:
  assumes "application clib rnd ips lib env cfg stamp = Inr (limiter, app)"
    and "app mo req p = (reply, p')" and "is_error (ry_status reply)"
  shows "committed (snd p') = committed (snd p)
     \<and> (\<exists>kvs. ry_body reply = json_bytes lib (JObj kvs) \<and> map_of kvs (str ''code'') \<noteq> None
          \<and> map_of kvs (str ''request_id'') = Some (JStr (uuid_text env (mo_request_id mo))))
     \<and> map_of (ry_headers reply) ''x-request-id'' = Some (uuid_text env (mo_request_id mo))
     \<and> map_of (ry_headers reply) ''content-type'' = Some (str ''application/json'')
     \<and> map_of (ry_headers reply) ''content-length'' = None"
proof -
  from assms(1,2) have run: "stack rnd ips lib env cfg stamp mo req p = (reply, p')"
    by (simp add: application_stack)
  obtain r where r: "reply = correlate lib (uuid_text env (mo_request_id mo)) r"
    and outcome: "snd p' = snd p \<or> (\<exists>post e. handle env cfg post (snd p) = (e, snd p')
        \<and> ry_status r = (case e of Inl err \<Rightarrow> error_status err | Inr v \<Rightarrow> success_status post))"
    using stack_cases [OF run] by blast
  have failed: "is_error (ry_status r)"
    using assms(3) r by simp
  have "committed (snd p') = committed (snd p)"
    using outcome
  proof (elim disjE exE conjE)
    fix post e
    assume "handle env cfg post (snd p) = (e, snd p')"
      "ry_status r = (case e of Inl err \<Rightarrow> error_status err | Inr v \<Rightarrow> success_status post)"
    with failed show ?thesis
      by (cases e) (auto simp: success_not_error dest: handle_error_keeps)
  qed simp
  moreover have "\<exists>kvs. ry_body reply = json_bytes lib (JObj kvs) \<and> map_of kvs (str ''code'') \<noteq> None
      \<and> map_of kvs (str ''request_id'') = Some (JStr (uuid_text env (mo_request_id mo)))"
    by (rule exI [of _ "correlated_members lib (uuid_text env (mo_request_id mo)) r"])
       (use failed correlated_members_get in \<open>simp add: r correlate_def Let_def\<close>)
  ultimately show ?thesis
    using failed by (simp add: r correlate_def Let_def map_of_without)
qed

text \<open>
  C12. What serves production is what was reviewed: if the API starts in production, its database role
  passed the check, it did not touch the schema, it names the main networks and at least one origin,
  it limits mutations, and what its role may write is none of the harmful writes.
\<close>

theorem production_start:
  assumes "run su rnd ips lib env stamp vars = Inr (cfg, d, limiter, app)" and "vc_run_mode cfg = str ''prod''"
  shows "\<exists>grants. su_connect su (vc_database_url cfg) = Inr (grants, d) \<and> (\<forall>w. permitted grants w \<longrightarrow> \<not> harmful w)
     \<and> limiter = from_config cfg \<and> rl_per_minute limiter > 0 \<and> rl_burst limiter > 0 \<and> vc_cors_origins cfg \<noteq> []
     \<and> vc_terra_chain_id cfg = str ''columbus-5'' \<and> vc_evm_chain_id cfg = str ''56''"
proof -
  obtain grants d0 where connected: "su_connect su (vc_database_url cfg) = Inr (grants, d0)"
    and reviewed: "validate_production_privileges grants = Inr ()"
    and migrated: "(if vc_apply_migrations cfg then su_migrate su d0 else Inr d0) = Inr d"
    and app: "application (su_config su) rnd ips lib env cfg stamp = Inr (limiter, app)"
    using assms by (auto simp: run_def result_iff split: if_splits)
  have burst: "rl_burst (from_config cfg) > 0" "rl_per_minute (from_config cfg) = vc_post_per_minute cfg"
    by (simp_all add: from_config_def new_state_def Let_def)
  show ?thesis
    using connected migrated burst accepted_no_harm [OF reviewed] app guards_production [of "su_config su" cfg] assms(2)
    by (auto simp: application_stack)
qed

section \<open>A deployment\<close>

definition sample_http_lib :: "nat http_lib" where
  "sample_http_lib = \<lparr>bytes_json = (\<lambda>_. None), json_bytes = (\<lambda>_. []),
     extract_json = (\<lambda>_. Inr (JObj [(str ''chain'', JStr (str ''bsc'')), (str ''address'', JStr (str ''0xab'')),
        (str ''payload'', JStr (str ''register'')), (str ''signature'', JStr (replicate 65 1))])),
     extract_uuid = (\<lambda>_. Inr 7), query_text = (\<lambda>_ _. Inr None), query_i64 = (\<lambda>_ _. Inr None),
     wrong_shape = \<lparr>ry_status = 422, ry_headers = [], ry_body = []\<rparr>, no_route = \<lparr>ry_status = 404, ry_headers = [], ry_body = []\<rparr>,
     wrong_method = \<lparr>ry_status = 405, ry_headers = [], ry_body = []\<rparr>, cors_answer = (\<lambda>_ _. None),
     cors_headers = (\<lambda>_ _. ry_headers), too_large = (\<lambda>_ _. None), openapi_document = JNull\<rparr>"

definition sample_request :: "string \<Rightarrow> string list \<Rightarrow> nat http_request" where
  "sample_request method path = \<lparr>rq_method = str method, rq_path = map str path, rq_origin = None, rq_cors_method = None,
     rq_cors_headers = None, rq_forwarded = [], rq_peer = Some 1, rq_query = [], rq_body = []\<rparr>"

definition sample_moment :: moment where
  "sample_moment = \<lparr>mo_request_id = 12, mo_instant = 0, mo_clock = 0, mo_late = False\<rparr>"

abbreviation sample_stack :: "(nat, nat, nat) handler" where
  "sample_stack \<equiv> stack (\<lambda>x. x) sample_ips sample_http_lib sample_voting_env sample_voting_config (\<lambda>_. []) sample_moment"

lemma sample_application:
  "application plain_lib (\<lambda>x. x) sample_ips sample_http_lib sample_voting_env sample_voting_config (\<lambda>_. [])
     = Inr (from_config sample_voting_config, stack (\<lambda>x. x) sample_ips sample_http_lib sample_voting_env sample_voting_config (\<lambda>_. []))"
proof -
  have "application_guards plain_lib sample_voting_config = Inr ()" by code_simp
  then show ?thesis by (simp add: application_def)
qed

lemma sample_post_runs:
  "case sample_stack (sample_request ''POST'' [''v1'', ''register'']) (from_config sample_voting_config, api_pool initial_db) of
     (reply, p) \<Rightarrow> intents (committed (snd p)) \<noteq> []"
  by code_simp

lemma sample_unknown_runs:
  "case sample_stack (sample_request ''GET'' [''v2'']) (from_config sample_voting_config, api_pool initial_db) of
     (reply, p) \<Rightarrow> ry_status reply = 404"
  by code_simp

theorem changes_only_by_admitted_actions_witness:
  "\<exists>reply p'. sample_stack (sample_request ''POST'' [''v1'', ''register'']) (from_config sample_voting_config, api_pool initial_db) = (reply, p')
     \<and> (\<exists>post. ry_status reply = success_status post \<and> intents (committed (snd p')) \<noteq> [])"
proof -
  obtain reply p' where run: "sample_stack (sample_request ''POST'' [''v1'', ''register'']) (from_config sample_voting_config, api_pool initial_db)
      = (reply, p')" and changed: "intents (committed (snd p')) \<noteq> []"
    using sample_post_runs by (auto simp del: split_paired_Ex)
  from changed have "committed (snd p') \<noteq> committed (snd (from_config sample_voting_config, api_pool initial_db))"
    by (auto simp: api_pool_def initial_db_def)
  from changes_only_by_admitted_actions [OF sample_application run this] run changed show ?thesis
    by blast
qed

theorem errors_correlated_witness:
  "\<exists>reply p'. sample_stack (sample_request ''GET'' [''v2'']) (from_config sample_voting_config, api_pool initial_db) = (reply, p')
     \<and> map_of (ry_headers reply) ''x-request-id'' = Some (str ''12'') \<and> committed (snd p') = initial_db"
proof -
  obtain reply p' where run: "sample_stack (sample_request ''GET'' [''v2'']) (from_config sample_voting_config, api_pool initial_db) = (reply, p')"
    and status: "ry_status reply = 404"
    using sample_unknown_runs by (auto simp del: split_paired_Ex)
  have "uuid_text sample_voting_env (mo_request_id sample_moment) = str ''12''" by code_simp
  with errors_correlated [OF sample_application run] run status show ?thesis
    by (auto simp: is_error_def api_pool_def)
qed

definition sample_startup :: "nat startup_lib" where
  "sample_startup = \<lparr>su_config = plain_lib, su_connect = (\<lambda>_. Inr (reviewed_role, initial_db)), su_migrate = Inr, su_socket = (\<lambda>_. True)\<rparr>"

theorem production_start_witness:
  "\<exists>cfg limiter app. run sample_startup (\<lambda>x. x) sample_ips sample_http_lib sample_voting_env (\<lambda>_. []) prod_env = Inr (cfg, initial_db, limiter, app)
     \<and> rl_per_minute limiter > 0"
proof -
  have "case voting_from_env plain_lib prod_env of
      Inr cfg \<Rightarrow> vc_run_mode cfg = str ''prod'' \<and> \<not> vc_apply_migrations cfg \<and> application_guards plain_lib cfg = Inr () | Inl _ \<Rightarrow> False"
    by code_simp
  then obtain cfg where cfg: "voting_from_env plain_lib prod_env = Inr cfg" "vc_run_mode cfg = str ''prod''"
      "\<not> vc_apply_migrations cfg" "application_guards plain_lib cfg = Inr ()"
    by (auto split: sum.splits)
  have started: "run sample_startup (\<lambda>x. x) sample_ips sample_http_lib sample_voting_env (\<lambda>_. []) prod_env
      = Inr (cfg, initial_db, from_config cfg, stack (\<lambda>x. x) sample_ips sample_http_lib sample_voting_env cfg (\<lambda>_. []))"
    by (simp add: run_def sample_startup_def cfg application_def accepted_roles)
  from production_start [OF started cfg(2)] started show ?thesis by blast
qed

end
