(* ===== verification/Storage.thy ===== *)
theory Storage
  imports LedgerConfig "HOL-Library.Multiset"
begin

text \<open>
  The read-only inspection of the storage before a migration (\<open>ledger/src/storage.rs\<close>). The
  catalog is what the inspecting transaction sees: the relations of the two schemas with their rows,
  whether the transaction is read-only, which of the bounded queries complete within their timeouts
  and without an error, and whether all of it ends before the deadline.
\<close>

section \<open>The catalog\<close>

datatype cell = Null | Text ustring | Number int | Opaque ustring

record relation =
  re_columns :: "string list"
  re_rows :: "(string \<Rightarrow> cell) list"

datatype inventory_query =
    CountRows string string
  | CursorValue string string string
  | MaxVersion string string
  | Differences string

record catalog =
  ct_read_only :: bool
  ct_relation :: "string \<Rightarrow> string \<Rightarrow> relation option"
  ct_completes :: "inventory_query \<Rightarrow> bool"
  ct_in_time :: bool

definition TABLES :: "(string \<times> string list) list" where
  "TABLES =
     [(''indexer_state'', [''key'', ''value'', ''updated_at'']),
      (''voting_registrations'', [''chain'', ''wallet_address'', ''registered_at_height'', ''registered_at_time'', ''initial_balance'',
         ''status'', ''signature_id'', ''baseline_height'', ''baseline_block_hash'', ''baseline_epoch'', ''baseline_verified'']),
      (''cl8y_cw20_transfers'', [''id'', ''height'', ''tx_hash'', ''msg_index'', ''from_address'', ''to_address'', ''amount'', ''action'']),
      (''cl8y_balances'', [''wallet_address'', ''height'', ''balance'']),
      (''cl8y_bep20_transfers'', [''id'', ''bsc_block'', ''tx_hash'', ''log_index'', ''from_address'', ''to_address'', ''amount'']),
      (''cl8y_bsc_balances'', [''wallet_address'', ''bsc_block'', ''balance'']),
      (''_sqlx_migrations'', [''version'', ''success'', ''checksum''])]"

definition SCHEMAS :: "string list" where
  "SCHEMAS = [''public'', ''voting'']"

section \<open>The inspection flag\<close>

definition requested :: "ustring option \<Rightarrow> bool ledger_result" where
  "requested raw =
     (case raw of
        None \<Rightarrow> Inr False
      | Some v \<Rightarrow>
          if v = str ''false'' \<or> v = str ''0'' then Inr False
          else if v = str ''true'' \<or> v = str ''1'' then Inr True
          else Inl (InvalidConfig ''LEDGER_INSPECT_STORAGE_ONLY must be true or false''))"

text \<open>A variable is unset, set to something that is not text, or its text.\<close>

definition requested_from_env :: "ustring option option \<Rightarrow> bool ledger_result" where
  "requested_from_env var =
     (case var of
        Some (Some raw) \<Rightarrow> requested (Some raw)
      | None \<Rightarrow> requested None
      | Some None \<Rightarrow> Inl (InvalidConfig ''LEDGER_INSPECT_STORAGE_ONLY must be true or false''))"

section \<open>The inventory\<close>

record relation_inventory =
  ri_schema :: string
  ri_table :: string
  ri_exists :: bool
  ri_row_count :: "nat option"
  ri_baseline_height_present :: bool
  ri_last_indexed_height :: "int option"
  ri_last_indexed_bsc_block :: "int option"
  ri_migration_max_version :: "int option"

record comparison =
  co_table :: string
  co_common_columns :: "string list"
  co_public_only :: "nat option"
  co_voting_only :: "nat option"

record inventory =
  iv_read_only :: bool
  iv_relations :: "relation_inventory list"
  iv_comparisons :: "comparison list"

text \<open>A bounded query answers or is rolled back to its savepoint; \<open>None\<close> is never zero.\<close>

definition bounded_row :: "catalog \<Rightarrow> inventory_query \<Rightarrow> 'a option \<Rightarrow> 'a option" where
  "bounded_row ct q row = (if ct_completes ct q then row else None)"

text \<open>A cursor of the state table: only a nonnegative number is ever reported.\<close>

definition cursor_value :: "catalog \<Rightarrow> string \<Rightarrow> string \<Rightarrow> string \<Rightarrow> relation \<Rightarrow> int option ledger_result" where
  "cursor_value ct schema table key rel =
     (case bounded_row ct (CursorValue schema table key) (List.find (\<lambda>r. r ''key'' = Text (str key)) (re_rows rel)) of
        None \<Rightarrow> Inr None
      | Some r \<Rightarrow>
          (case r ''value'' of
             Text s \<Rightarrow> Inr (case parse_i64 s of Some n \<Rightarrow> if 0 \<le> n then Some n else None | None \<Rightarrow> None)
           | _ \<Rightarrow> Inl (Database (SqlxColumnDecode []))))"

definition number :: "cell \<Rightarrow> int list" where
  "number c = (case c of Number n \<Rightarrow> [n] | _ \<Rightarrow> [])"

definition max_number :: "cell list \<Rightarrow> int option" where
  "max_number cells = (case concat (map number cells) of [] \<Rightarrow> None | n # ns \<Rightarrow> Some (fold max ns n))"

definition inspect_relation :: "catalog \<Rightarrow> string \<Rightarrow> string \<Rightarrow> relation_inventory ledger_result" where
  "inspect_relation ct schema table =
     (case ct_relation ct schema table of
        None \<Rightarrow> Inr \<lparr>ri_schema = schema, ri_table = table, ri_exists = False, ri_row_count = None,
          ri_baseline_height_present = False, ri_last_indexed_height = None, ri_last_indexed_bsc_block = None,
          ri_migration_max_version = None\<rparr>
      | Some rel \<Rightarrow>
          let names = re_columns rel;
              keyed = (table = ''indexer_state'' \<and> ''key'' \<in> set names \<and> ''value'' \<in> set names) in
          bindR (if keyed then cursor_value ct schema table ''last_indexed_height'' rel else Inr None) (\<lambda>terra.
          bindR (if keyed then cursor_value ct schema table ''last_indexed_bsc_block'' rel else Inr None) (\<lambda>bsc.
          Inr \<lparr>ri_schema = schema, ri_table = table, ri_exists = True,
            ri_row_count = bounded_row ct (CountRows schema table) (Some (length (re_rows rel))),
            ri_baseline_height_present = (''baseline_height'' \<in> set names),
            ri_last_indexed_height = terra, ri_last_indexed_bsc_block = bsc,
            ri_migration_max_version =
              (if table = ''_sqlx_migrations'' \<and> ''version'' \<in> set names
               then bounded_row ct (MaxVersion schema table) (max_number (map (\<lambda>r. r ''version'') (re_rows rel)))
               else None)\<rparr>)))"

text \<open>\<open>EXCEPT ALL\<close>: each row of the right removes one equal row of the left, nulls being equal.\<close>

definition except_all :: "'a list \<Rightarrow> 'a list \<Rightarrow> 'a list" where
  "except_all xs ys = fold remove1 ys xs"

definition columns_of :: "catalog \<Rightarrow> string \<Rightarrow> string \<Rightarrow> string list" where
  "columns_of ct schema table = (case ct_relation ct schema table of None \<Rightarrow> [] | Some rel \<Rightarrow> re_columns rel)"

definition projected :: "catalog \<Rightarrow> string \<Rightarrow> string \<Rightarrow> string list \<Rightarrow> cell list list" where
  "projected ct schema table cs =
     (case ct_relation ct schema table of None \<Rightarrow> [] | Some rel \<Rightarrow> map (\<lambda>r. map r cs) (re_rows rel))"

definition compare_table :: "catalog \<Rightarrow> string \<times> string list \<Rightarrow> comparison list" where
  "compare_table ct = (\<lambda>(table, allowed).
     let common = filter (\<lambda>c. c \<in> set (columns_of ct ''public'' table) \<and> c \<in> set (columns_of ct ''voting'' table)) allowed;
         pub = projected ct ''public'' table common; vot = projected ct ''voting'' table common in
     if common = [] then []
     else [\<lparr>co_table = table, co_common_columns = common,
            co_public_only = bounded_row ct (Differences table) (Some (length (except_all pub vot))),
            co_voting_only = bounded_row ct (Differences table) (Some (length (except_all vot pub)))\<rparr>])"

definition inspect :: "catalog \<Rightarrow> inventory ledger_result" where
  "inspect ct =
     (if \<not> ct_read_only ct then Inl (Provider ''storage_inspection_not_readonly'')
      else bindR (mapR (\<lambda>(schema, table). inspect_relation ct schema table) (List.product SCHEMAS (map fst TABLES))) (\<lambda>relations.
        Inr \<lparr>iv_read_only = True, iv_relations = relations, iv_comparisons = concat (map (compare_table ct) TABLES)\<rparr>))"

definition inventory :: "catalog \<Rightarrow> inventory ledger_result" where
  "inventory ct = (if ct_in_time ct then inspect ct else Inl (Provider ''storage_inspection_deadline''))"

section \<open>What the inventory says\<close>

lemma except_all_mset: "mset (except_all xs ys) = mset xs - mset ys"
  unfolding except_all_def by (induction ys arbitrary: xs) simp_all

lemma except_all_both_empty:
  "length (except_all xs ys) = 0 \<and> length (except_all ys xs) = 0 \<longleftrightarrow> mset xs = mset ys"
proof -
  have "length (except_all xs ys) = 0 \<longleftrightarrow> mset xs \<subseteq># mset ys" for xs ys :: "'a list"
    using except_all_mset [of xs ys] by (metis length_0_conv mset_zero_iff Diff_eq_empty_iff_mset)
  then show ?thesis by auto
qed

text \<open>
  What an entry of the inventory says of its relation, in terms of the catalog alone. A cursor is the
  nonnegative number in the row of its key; the migration version is the greatest there is.
\<close>

definition recorded_cursor :: "relation \<Rightarrow> string \<Rightarrow> int \<Rightarrow> bool" where
  "recorded_cursor rel key n \<longleftrightarrow> {''key'', ''value''} \<subseteq> set (re_columns rel) \<and> 0 \<le> n
     \<and> (\<exists>row s. List.find (\<lambda>r. r ''key'' = Text (str key)) (re_rows rel) = Some row \<and> row ''value'' = Text s \<and> parse_i64 s = Some n)"

definition greatest_version :: "relation \<Rightarrow> int \<Rightarrow> bool" where
  "greatest_version rel v \<longleftrightarrow> ''version'' \<in> set (re_columns rel) \<and> (\<exists>row\<in>set (re_rows rel). row ''version'' = Number v)
     \<and> (\<forall>row\<in>set (re_rows rel). \<forall>m. row ''version'' = Number m \<longrightarrow> m \<le> v)"

definition reported :: "catalog \<Rightarrow> relation_inventory \<Rightarrow> bool" where
  "reported ct r \<longleftrightarrow> (let schema = ri_schema r; table = ri_table r in
     case ct_relation ct schema table of
       None \<Rightarrow> \<not> ri_exists r \<and> ri_row_count r = None \<and> \<not> ri_baseline_height_present r
         \<and> ri_last_indexed_height r = None \<and> ri_last_indexed_bsc_block r = None \<and> ri_migration_max_version r = None
     | Some rel \<Rightarrow> ri_exists r
         \<and> ri_row_count r = (if ct_completes ct (CountRows schema table) then Some (length (re_rows rel)) else None)
         \<and> (ri_baseline_height_present r \<longleftrightarrow> ''baseline_height'' \<in> set (re_columns rel))
         \<and> (\<forall>n. ri_last_indexed_height r = Some n \<longleftrightarrow> table = ''indexer_state''
               \<and> ct_completes ct (CursorValue schema table ''last_indexed_height'') \<and> recorded_cursor rel ''last_indexed_height'' n)
         \<and> (\<forall>n. ri_last_indexed_bsc_block r = Some n \<longleftrightarrow> table = ''indexer_state''
               \<and> ct_completes ct (CursorValue schema table ''last_indexed_bsc_block'') \<and> recorded_cursor rel ''last_indexed_bsc_block'' n)
         \<and> (\<forall>v. ri_migration_max_version r = Some v \<longleftrightarrow> table = ''_sqlx_migrations''
               \<and> ct_completes ct (MaxVersion schema table) \<and> greatest_version rel v))"

lemma cursor_value_recorded:
  assumes "cursor_value ct schema table key rel = Inr x" and "{''key'', ''value''} \<subseteq> set (re_columns rel)"
  shows "x = Some n \<longleftrightarrow> ct_completes ct (CursorValue schema table key) \<and> recorded_cursor rel key n"
  using assms by (auto simp: cursor_value_def recorded_cursor_def bounded_row_def split: option.splits cell.splits if_splits)

lemma max_number_greatest:
  "max_number (map (\<lambda>r. r ''version'') rows) = Some v \<longleftrightarrow>
     (\<exists>row\<in>set rows. row ''version'' = Number v) \<and> (\<forall>row\<in>set rows. \<forall>m. row ''version'' = Number m \<longrightarrow> m \<le> v)"
proof -
  define ns where "ns = concat (map number (map (\<lambda>r. r ''version'') rows))"
  have mem: "m \<in> set ns \<longleftrightarrow> (\<exists>row\<in>set rows. row ''version'' = Number m)" for m
  proof -
    have "m \<in> set (number c) \<longleftrightarrow> c = Number m" for c
      by (cases c) (auto simp: number_def)
    then show ?thesis by (auto simp: ns_def)
  qed
  have "max_number (map (\<lambda>r. r ''version'') rows) = (if ns = [] then None else Some (Max (set ns)))"
    unfolding max_number_def ns_def [symmetric] by (cases ns) (simp_all flip: Max.set_eq_fold)
  moreover have "(ns \<noteq> [] \<and> Max (set ns) = v) \<longleftrightarrow> v \<in> set ns \<and> (\<forall>m\<in>set ns. m \<le> v)"
    using Max_in [of "set ns"] Max_ge [of "set ns"] by (cases "ns = []") (auto intro: Max_eqI)
  ultimately show ?thesis
    using mem by (auto split: if_splits)
qed

lemma inspect_relation_reported:
  assumes run: "inspect_relation ct schema table = Inr r"
  shows "reported ct r \<and> ri_schema r = schema \<and> ri_table r = table"
proof (cases "ct_relation ct schema table")
  case None
  with run show ?thesis by (auto simp: inspect_relation_def reported_def)
next
  case (Some rel)
  let ?keyed = "table = ''indexer_state'' \<and> ''key'' \<in> set (re_columns rel) \<and> ''value'' \<in> set (re_columns rel)"
  obtain terra bsc where cursors: "(if ?keyed then cursor_value ct schema table ''last_indexed_height'' rel else Inr None) = Inr terra"
      "(if ?keyed then cursor_value ct schema table ''last_indexed_bsc_block'' rel else Inr None) = Inr bsc"
    and r: "r = \<lparr>ri_schema = schema, ri_table = table, ri_exists = True,
            ri_row_count = bounded_row ct (CountRows schema table) (Some (length (re_rows rel))),
            ri_baseline_height_present = (''baseline_height'' \<in> set (re_columns rel)),
            ri_last_indexed_height = terra, ri_last_indexed_bsc_block = bsc,
            ri_migration_max_version =
              (if table = ''_sqlx_migrations'' \<and> ''version'' \<in> set (re_columns rel)
               then bounded_row ct (MaxVersion schema table) (max_number (map (\<lambda>r. r ''version'') (re_rows rel)))
               else None)\<rparr>"
    using run Some by (auto simp: inspect_relation_def Let_def result_iff)
  have cursor: "x = Some n \<longleftrightarrow> table = ''indexer_state'' \<and> ct_completes ct (CursorValue schema table key) \<and> recorded_cursor rel key n"
    if "(if ?keyed then cursor_value ct schema table key rel else Inr None) = Inr x" for key x n
    using that cursor_value_recorded [of ct schema table key rel x n]
    by (cases ?keyed) (auto simp: recorded_cursor_def)
  have version: "ri_migration_max_version r = Some v \<longleftrightarrow> table = ''_sqlx_migrations'' \<and> ct_completes ct (MaxVersion schema table)
      \<and> greatest_version rel v" for v
    by (auto simp: r bounded_row_def max_number_greatest greatest_version_def)
  have "ri_schema r = schema" "ri_table r = table" "ri_exists r" "ri_last_indexed_height r = terra" "ri_last_indexed_bsc_block r = bsc"
      "ri_row_count r = (if ct_completes ct (CountRows schema table) then Some (length (re_rows rel)) else None)"
      "ri_baseline_height_present r \<longleftrightarrow> ''baseline_height'' \<in> set (re_columns rel)"
    by (simp_all add: r bounded_row_def)
  with version cursor [OF cursors(1)] cursor [OF cursors(2)] Some show ?thesis
    by (simp add: reported_def)
qed

text \<open>
  The columns two copies of a table share, of those the inspection may read, and what a comparison
  says of them: how many rows each has that the other lacks, counted with multiplicities.
\<close>

definition shared_columns :: "catalog \<Rightarrow> string \<times> string list \<Rightarrow> string list" where
  "shared_columns ct = (\<lambda>(table, allowed).
     filter (\<lambda>c. \<forall>schema\<in>set SCHEMAS. \<exists>rel. ct_relation ct schema table = Some rel \<and> c \<in> set (re_columns rel)) allowed)"

definition compared :: "catalog \<Rightarrow> comparison \<Rightarrow> bool" where
  "compared ct c \<longleftrightarrow> (let rows = (\<lambda>schema. mset (projected ct schema (co_table c) (co_common_columns c)));
       completes = ct_completes ct (Differences (co_table c)) in
     co_public_only c = (if completes then Some (size (rows ''public'' - rows ''voting'')) else None)
   \<and> co_voting_only c = (if completes then Some (size (rows ''voting'' - rows ''public'')) else None)
   \<and> (co_public_only c = Some 0 \<and> co_voting_only c = Some 0 \<longleftrightarrow> completes \<and> rows ''public'' = rows ''voting''))"

lemma compare_table_shared:
  "map (\<lambda>c. (co_table c, co_common_columns c)) (compare_table ct t)
     = (if shared_columns ct t = [] then [] else [(fst t, shared_columns ct t)])"
proof -
  obtain table allowed where t: "t = (table, allowed)" by fastforce
  have "c \<in> set (columns_of ct schema table) \<longleftrightarrow> (\<exists>rel. ct_relation ct schema table = Some rel \<and> c \<in> set (re_columns rel))" for c schema
    by (cases "ct_relation ct schema table") (simp_all add: columns_of_def)
  then show ?thesis
    by (simp add: t compare_table_def shared_columns_def SCHEMAS_def Let_def)
qed

lemma compare_table_compared:
  assumes "c \<in> set (compare_table ct t)"
  shows "compared ct c"
proof -
  obtain table common where
    c: "c = \<lparr>co_table = table, co_common_columns = common,
          co_public_only = bounded_row ct (Differences table)
            (Some (length (except_all (projected ct ''public'' table common) (projected ct ''voting'' table common)))),
          co_voting_only = bounded_row ct (Differences table)
            (Some (length (except_all (projected ct ''voting'' table common) (projected ct ''public'' table common))))\<rparr>"
    using assms by (cases t) (auto simp: compare_table_def Let_def split: if_splits)
  have count: "length (except_all xs ys) = size (mset xs - mset ys)" for xs ys :: "cell list list"
    by (metis except_all_mset size_mset)
  have "size (mset xs - mset ys) = 0 \<and> size (mset ys - mset xs) = 0 \<longleftrightarrow> mset xs = mset ys" for xs ys :: "cell list list"
    unfolding count [symmetric] by (rule except_all_both_empty)
  then show ?thesis
    unfolding compared_def c by (simp add: bounded_row_def count Let_def)
qed

lemma mapR_all: "mapR f xs = Inr ys \<Longrightarrow> list_all2 (\<lambda>x y. f x = Inr y) xs ys"
  by (induction xs arbitrary: ys) (auto simp: result_iff)

text \<open>
  C35. An inventory that is returned was read in a read-only transaction and covers every relation of both
  schemas in order, and each entry says what the catalog holds: whether the relation exists, how many
  rows it has, whether it has baselines, the two cursors under their own keys and the greatest
  migration version. A value that is missing means a missing relation, column or row or a query that was not
  answered, never zero. Every table whose two copies share a listed column is compared, on all the
  columns they share, with the exact number of rows each copy has and the other lacks; no differences
  are reported exactly when the comparison was completed and both hold the same rows with the same
  multiplicities.
\<close>

theorem inventory_sound:
  assumes "inventory ct = Inr found"
  shows "ct_read_only ct
     \<and> map (\<lambda>r. (ri_schema r, ri_table r)) (iv_relations found) = List.product SCHEMAS (map fst TABLES)
     \<and> list_all (reported ct) (iv_relations found)
     \<and> map (\<lambda>c. (co_table c, co_common_columns c)) (iv_comparisons found)
         = map (\<lambda>t. (fst t, shared_columns ct t)) (filter (\<lambda>t. shared_columns ct t \<noteq> []) TABLES)
     \<and> list_all (compared ct) (iv_comparisons found)"
proof -
  obtain relations where ro: "ct_read_only ct"
    and found: "found = \<lparr>iv_read_only = True, iv_relations = relations, iv_comparisons = concat (map (compare_table ct) TABLES)\<rparr>"
    and read: "mapR (\<lambda>(schema, table). inspect_relation ct schema table) (List.product SCHEMAS (map fst TABLES)) = Inr relations"
    using assms by (auto simp: inventory_def inspect_def result_iff split: if_splits)
  have each: "list_all2 (\<lambda>st r. (ri_schema r, ri_table r) = st \<and> reported ct r) (List.product SCHEMAS (map fst TABLES)) relations"
    by (rule list_all2_mono [OF mapR_all [OF read]]) (auto dest: inspect_relation_reported)
  then have "map (\<lambda>r. (ri_schema r, ri_table r)) relations = List.product SCHEMAS (map fst TABLES)" "list_all (reported ct) relations"
    by (auto simp: list_all2_conv_all_nth list_all_length intro: nth_equalityI)
  moreover have "map (\<lambda>c. (co_table c, co_common_columns c)) (concat (map (compare_table ct) ts))
      = map (\<lambda>t. (fst t, shared_columns ct t)) (filter (\<lambda>t. shared_columns ct t \<noteq> []) ts)" for ts
    by (induction ts) (simp_all add: compare_table_shared)
  ultimately show ?thesis
    using ro compare_table_compared by (auto simp: found list_all_iff)
qed

text \<open>A half-migrated storage: the state table exists twice, with one row in common.\<close>

definition sample_state :: "(ustring \<times> ustring) list \<Rightarrow> relation" where
  "sample_state kvs = \<lparr>re_columns = [''key'', ''value''],
     re_rows = map (\<lambda>(k, v) c. if c = ''key'' then Text k else if c = ''value'' then Text v else Null) kvs\<rparr>"

definition sample_catalog :: catalog where
  "sample_catalog = \<lparr>ct_read_only = True,
     ct_relation = (\<lambda>schema table.
       if table \<noteq> ''indexer_state'' then None
       else if schema = ''public'' then Some (sample_state [(str ''last_indexed_height'', str ''9'')])
       else Some (sample_state [(str ''last_indexed_height'', str ''9''), (str ''secret'', str ''x'')])),
     ct_completes = (\<lambda>_. True), ct_in_time = True\<rparr>"

lemma sample_inventory:
  "case inventory sample_catalog of
     Inr v \<Rightarrow> map (\<lambda>c. (co_public_only c, co_voting_only c)) (iv_comparisons v) = [(Some 0, Some 1)]
       \<and> map ri_last_indexed_height (iv_relations v) = Some 9 # replicate 6 None @ Some 9 # replicate 6 None
   | Inl _ \<Rightarrow> False"
  by code_simp

theorem inventory_sound_witness:
  "\<exists>v. inventory sample_catalog = Inr v \<and> length (iv_relations v) = 14 \<and> list_all (reported sample_catalog) (iv_relations v)
     \<and> iv_comparisons v \<noteq> [] \<and> list_all (compared sample_catalog) (iv_comparisons v)"
proof -
  obtain v where v: "inventory sample_catalog = Inr v"
    and counts: "map (\<lambda>c. (co_public_only c, co_voting_only c)) (iv_comparisons v) = [(Some 0, Some 1)]"
    using sample_inventory by (auto split: sum.splits)
  note sound = inventory_sound [OF v]
  then have "length (iv_relations v) = length (List.product SCHEMAS (map fst TABLES))"
    by (metis length_map)
  then have "length (iv_relations v) = 14"
    by (simp add: SCHEMAS_def TABLES_def)
  with v counts sound show ?thesis by auto
qed

end
