(* ===== verification/LedgerMain.thy ===== *)
theory LedgerMain
  imports Storage SystemProps
begin

text \<open>
  The ledger process (\<open>ledger/src/main.rs\<close>): what it does between its start and its workers, the
  modes it may start in, its HTTP routes and its end. Migrations and the connection are the fields
  of \<open>deployment\<close>; the inspected storage is a \<open>catalog\<close>.
\<close>

section \<open>Starting\<close>

record deployment =
  de_parse_url :: url_parser
  de_vars :: environment
  de_inspect_var :: "ustring option option"
  de_baseline_argument :: bool
  de_connect :: "ustring \<Rightarrow> unit ledger_result"
  de_catalog :: catalog
  de_migrate :: "db \<Rightarrow> db ledger_result"
  de_socket :: "ustring \<Rightarrow> bool"

datatype ledger_mode =
    Inspecting Storage.inventory
  | Reconciled
  | Serving ledger_config

definition migrate_pool :: "deployment \<Rightarrow> ('w, unit) act" where
  "migrate_pool dep s =
     (case de_migrate dep (committed s) of Inl e \<Rightarrow> (Inl e, s) | Inr d \<Rightarrow> (Inr (), s\<lparr>committed := d\<rparr>))"

text \<open>A recovery needs a Terra client.\<close>

definition with_terra :: "ledger_config \<Rightarrow> ('w, 'a) act \<Rightarrow> ('w, 'a) act" where
  "with_terra cfg m = (if terra_lcd_urls cfg = [] then fail (Provider ''no_terra_provider'') else m)"

definition reconcile_both :: "'w network \<Rightarrow> ledger_config \<Rightarrow> ('w, unit) act" where
  "reconcile_both net cfg = with_terra cfg (forA (reconcile_live_baseline net (terra_lcd_urls cfg) (bsc_rpc_urls cfg)) [Terra, Bsc])"

definition recover_if_asked :: "'w network \<Rightarrow> ledger_config \<Rightarrow> bool \<Rightarrow> ('w, unit) act" where
  "recover_if_asked net cfg asked =
     (if asked then with_terra cfg (thenA (reconcile_if_required net (terra_lcd_urls cfg) (bsc_rpc_urls cfg)) (ret ())) else ret ())"

definition ledger_start ::
    "'w http_env \<Rightarrow> 'w rpc_env \<Rightarrow> 'w network \<Rightarrow> deployment \<Rightarrow> ('w, ledger_mode) act" where
  "ledger_start http rpc rest dep =
     bindA (lift (from_env (de_parse_url dep) (de_vars dep))) (\<lambda>cfg.
     bindA (lift (requested_from_env (de_inspect_var dep))) (\<lambda>inspect_only.
     thenA (lift (de_connect dep (database_url cfg)))
     (if inspect_only then bindA (lift (Storage.inventory (de_catalog dep))) (\<lambda>found. ret (Inspecting found))
      else thenA (migrate_pool dep)
        (let net = main_network http rpc cfg rest in
         if de_baseline_argument dep then thenA (reconcile_both net cfg) (ret Reconciled)
         else bindA (lift (reconcile_requested (de_vars dep ''LEDGER_RECONCILE_LIVE_BASELINE''))) (\<lambda>asked.
           thenA (recover_if_asked net cfg asked) (ret (Serving cfg)))))))"

section \<open>Routes and the end\<close>

datatype ledger_answer =
    Live
  | NotFound
  | MethodNotAllowed
  | Ready nat readiness_report
  | InspectionOnly

text \<open>
  \<open>/live\<close>, \<open>/health\<close> and \<open>/ready\<close>; while the storage is inspected the process is alive and never ready.
  \<open>late\<close> and \<open>now\<close> are those of the readiness query.
\<close>

definition ledger_route :: "ledger_mode \<Rightarrow> bool \<Rightarrow> int \<Rightarrow> db \<Rightarrow> ustring \<Rightarrow> ustring \<Rightarrow> ledger_answer" where
  "ledger_route mode late now d verb path =
     (if path \<notin> {str ''/live'', str ''/health'', str ''/ready''} then NotFound
      else if verb \<notin> {str ''GET'', str ''HEAD''} then MethodNotAllowed
      else if path = str ''/live'' then Live
      else (case mode of
         Inspecting _ \<Rightarrow> InspectionOnly
       | _ \<Rightarrow> (case Health.readiness late now d of (status, report) \<Rightarrow> Ready (nat status) report)))"

fun answer_status :: "ledger_answer \<Rightarrow> nat" where
  "answer_status Live = 200"
| "answer_status NotFound = 404"
| "answer_status MethodNotAllowed = 405"
| "answer_status (Ready status report) = status"
| "answer_status InspectionOnly = 503"

text \<open>A worker never returns; if one does, the process ends with an error for its supervisor.\<close>

definition ledger_exit :: "bool \<Rightarrow> unit ledger_result" where
  "ledger_exit fatal = (if fatal then Inl (Provider ''supervised_worker_exit'') else Inr ())"

definition provider_error_class :: "ledger_error \<Rightarrow> string option" where
  "provider_error_class e = (case e of Provider label \<Rightarrow> Some label | _ \<Rightarrow> None)"

section \<open>What a start does to the database\<close>

lemma reconcile_live_upholds: "pool_upholds (system_run net lcfg env vcfg) (reconcile_live_baseline net lcd bsc c)"
  unfolding reconcile_live_baseline_def by (intro pool_then pool_ret step_upholds) (blast intro: baseline_reconciled)

lemma reconcile_both_upholds: "pool_upholds (system_run net lcfg env vcfg) (reconcile_both net cfg)"
  unfolding reconcile_both_def with_terra_def by (intro pool_if pool_fail pool_forA reconcile_live_upholds)

lemma recover_if_asked_upholds:
  "pool_upholds (program_run http rpc cfg rest env vcfg) (recover_if_asked (main_network http rpc cfg rest) cfg asked)"
  unfolding recover_if_asked_def with_terra_def
  by (intro pool_if pool_fail pool_then pool_ret runs.reconcile_if_required_upholds)

lemma pool_run_self: "pool_upholds (program_run http rpc cfg rest env vcfg) m \<Longrightarrow> m s = (r, s')
    \<Longrightarrow> program_run http rpc cfg rest env vcfg (committed s) (committed s')"
  by (rule runs.above)

lemma started:
  assumes "ledger_start http rpc rest dep s = (Inr mode, s')"
  shows "(\<exists>found. mode = Inspecting found \<and> s' = s \<and> Storage.inventory (de_catalog dep) = Inr found)
     \<or> (\<exists>cfg d. from_env (de_parse_url dep) (de_vars dep) = Inr cfg \<and> de_migrate dep (committed s) = Inr d
          \<and> program_run http rpc cfg rest env vcfg d (committed s') \<and> (mode = Reconciled \<or> mode = Serving cfg))"
proof -
  obtain cfg inspect_only where cfg: "from_env (de_parse_url dep) (de_vars dep) = Inr cfg"
    and rest: "(if inspect_only then bindA (lift (Storage.inventory (de_catalog dep))) (\<lambda>found. ret (Inspecting found))
      else thenA (migrate_pool dep)
        (let net = main_network http rpc cfg rest in
         if de_baseline_argument dep then thenA (reconcile_both net cfg) (ret Reconciled)
         else bindA (lift (reconcile_requested (de_vars dep ''LEDGER_RECONCILE_LIVE_BASELINE''))) (\<lambda>asked.
           thenA (recover_if_asked net cfg asked) (ret (Serving cfg))))) s = (Inr mode, s')"
    using assms unfolding ledger_start_def by (auto simp: bindA_run thenA_run lift_run)
  show ?thesis
  proof (cases inspect_only)
    case True
    with rest show ?thesis by (auto simp: bindA_run lift_run ret_run)
  next
    case False
    with rest obtain d where migrated: "de_migrate dep (committed s) = Inr d"
      and run: "(if de_baseline_argument dep then thenA (reconcile_both (main_network http rpc cfg rest) cfg) (ret Reconciled)
         else bindA (lift (reconcile_requested (de_vars dep ''LEDGER_RECONCILE_LIVE_BASELINE''))) (\<lambda>asked.
           thenA (recover_if_asked (main_network http rpc cfg rest) cfg asked) (ret (Serving cfg)))) (s\<lparr>committed := d\<rparr>) = (Inr mode, s')"
      by (auto simp: thenA_run migrate_pool_def Let_def split: sum.splits)
    have "program_run http rpc cfg rest env vcfg (committed (s\<lparr>committed := d\<rparr>)) (committed s') \<and> (mode = Reconciled \<or> mode = Serving cfg)"
      using run
      by (auto simp: thenA_run bindA_run lift_run ret_run split: if_splits
          dest: pool_run_self [OF reconcile_both_upholds] pool_run_self [OF recover_if_asked_upholds])
    with cfg migrated show ?thesis by auto
  qed
qed

text \<open>What happens after the start: a turn of one of the ledger's tasks, or a request to the voting API.\<close>

inductive deployed_turn ::
    "'w network \<Rightarrow> ledger_config \<Rightarrow> ('k, 's, 'v) voting_env \<Rightarrow> 'n voting_config \<Rightarrow> db \<Rightarrow> db \<Rightarrow> bool"
  for net :: "'w network" and lcfg :: ledger_config and env :: "('k, 's, 'v) voting_env" and vcfg :: "'n voting_config" where
  by_ledger: "ledger_turn net lcfg d d' \<Longrightarrow> deployed_turn net lcfg env vcfg d d'"
| by_voter: "handle env vcfg request t = (answer, t') \<Longrightarrow> deployed_turn net lcfg env vcfg (committed t) (committed t')"

lemma deployed_turn_run:
  assumes "deployed_turn (main_network http rpc cfg rest) cfg env vcfg d d'" and "hex_encodes http"
    and "unique_by in_id (intents d)"
  shows "program_run http rpc cfg rest env vcfg d d'"
  using assms(1)
proof cases
  case by_ledger
  then show ?thesis by (rule turn_run [OF _ assms(2,3)])
next
  case (by_voter request t answer t')
  then show ?thesis
    using run_step [OF action_handled [OF by_voter(3)]] by simp
qed

text \<open>
  C6. The life of the ledger process, from its start on, is a run of the system. In the mode that only
  inspects the storage the database is untouched. Otherwise the configuration was accepted and the
  migrations succeeded, and everything after the migrations is one run of the transition relation
  from the migrated database: the recovery the start does, and then any sequence of turns of the
  chain workers, of the intent worker and of recoveries, with requests to the voting API between
  them. A system invariant the migrated database has therefore holds all along.
\<close>

theorem ledger_process_is_run:
  assumes "ledger_start http rpc rest dep s = (Inr mode, s')" and "hex_encodes http"
    and "\<And>d. de_migrate dep (committed s) = Inr d \<Longrightarrow> system_inv env vcfg d"
  shows "(case mode of
       Inspecting _ \<Rightarrow> s' = s
     | Reconciled \<Rightarrow> \<exists>cfg migrated. from_env (de_parse_url dep) (de_vars dep) = Inr cfg
         \<and> de_migrate dep (committed s) = Inr migrated
         \<and> program_run http rpc cfg rest env vcfg migrated (committed s') \<and> system_inv env vcfg (committed s')
     | Serving cfg \<Rightarrow> from_env (de_parse_url dep) (de_vars dep) = Inr cfg
         \<and> (\<exists>migrated. de_migrate dep (committed s) = Inr migrated
             \<and> (\<forall>d. (deployed_turn (main_network http rpc cfg rest) cfg env vcfg)\<^sup>*\<^sup>* (committed s') d
                   \<longrightarrow> program_run http rpc cfg rest env vcfg migrated d \<and> system_inv env vcfg d)))"
proof -
  consider (inspecting) found where "mode = Inspecting found" "s' = s"
    | (running) cfg migrated where "from_env (de_parse_url dep) (de_vars dep) = Inr cfg"
        "de_migrate dep (committed s) = Inr migrated" "program_run http rpc cfg rest env vcfg migrated (committed s')"
        "mode = Reconciled \<or> mode = Serving cfg"
    using started [OF assms(1), of env vcfg] by blast
  then show ?thesis
  proof cases
    case running
    note net = main_ranges_bounded main_live_heights_i64 [OF assms(2)]
    have inv: "system_inv env vcfg (committed s')"
      by (rule run_inv [OF running(3) net assms(3) [OF running(2)]])
    have "program_run http rpc cfg rest env vcfg migrated d \<and> system_inv env vcfg d"
      if "(deployed_turn (main_network http rpc cfg rest) cfg env vcfg)\<^sup>*\<^sup>* (committed s') d" for d
      using that
    proof (induction rule: rtranclp_induct)
      case (step d1 d2)
      then have "unique_by in_id (intents d1)"
        by (simp add: system_inv_def queue_ok_def)
      from deployed_turn_run [OF step(2) assms(2) this] step(3) show ?case
        using run_inv [OF _ net] by (blast intro: rtranclp_trans)
    qed (use inv running(3) in simp)
    with inv running show ?thesis by auto
  qed simp
qed

definition sample_deployment :: deployment where
  "sample_deployment = \<lparr>de_parse_url = (\<lambda>_. Some (str ''https'', True, False)),
     de_vars = [''RUN_MODE'' \<mapsto> str ''prod'', ''DATABASE_URL'' \<mapsto> str ''postgres'', ''LCD_URLS'' \<mapsto> str ''https://a'',
        ''BSC_RPC_URLS'' \<mapsto> str ''https://b''],
     de_inspect_var = None, de_baseline_argument = False, de_connect = (\<lambda>_. Inr ()),
     de_catalog = sample_catalog, de_migrate = (\<lambda>_. Inr initial_db), de_socket = (\<lambda>_. True)\<rparr>"

lemma sample_starts:
  "case ledger_start sample_http quiet_node quiet_network sample_deployment (fresh_pool initial_db) of
     (Inr (Serving cfg), s') \<Rightarrow> True | _ \<Rightarrow> False"
  by code_simp

theorem ledger_process_is_run_witness:
  "\<exists>cfg s'. ledger_start sample_http quiet_node quiet_network sample_deployment (fresh_pool initial_db) = (Inr (Serving cfg), s')
     \<and> program_run sample_http quiet_node cfg quiet_network sample_voting_env sample_voting_config initial_db (committed s')
     \<and> system_inv sample_voting_env sample_voting_config (committed s')"
proof -
  obtain cfg s' where start: "ledger_start sample_http quiet_node quiet_network sample_deployment (fresh_pool initial_db)
      = (Inr (Serving cfg), s')"
    using sample_starts by (auto split: prod.splits sum.splits ledger_mode.splits)
  have "de_migrate sample_deployment d0 = Inr d \<Longrightarrow> system_inv sample_voting_env sample_voting_config d" for d0 d
    by (auto simp: sample_deployment_def system_inv_initial)
  from ledger_process_is_run [OF start sample_hex this] start show ?thesis
    by (auto simp: sample_deployment_def)
qed

text \<open>
  A process that only inspects is alive and never ready, and any other is ready exactly when the
  readiness report is; nothing but the two probes and the liveness route is served.
\<close>

theorem ledger_route_status:
  "answer_status (ledger_route mode late now d verb path) = 200 \<longleftrightarrow>
     verb \<in> {str ''GET'', str ''HEAD''} \<and>
     (path = str ''/live'' \<or> path \<in> {str ''/health'', str ''/ready''} \<and> (\<forall>found. mode \<noteq> Inspecting found)
        \<and> rd_ok (snd (Health.readiness late now d)))"
proof -
  have "fst (Health.readiness late now d) = (if rd_ok (snd (Health.readiness late now d)) then 200 else 503)"
    by (simp add: readiness_def Let_def)
  then show ?thesis
    by (cases mode) (auto simp: ledger_route_def split: prod.splits if_splits)
qed

end
