(* ===== verification/Dto.thy ===== *)
theory Dto
  imports Routes SystemProps
begin

text \<open>
  The public types of the API (\<open>operator-voting/src/dto.rs\<close>), from which its OpenAPI document and the
  frontend's types are generated, as schemas of JSON values. The handlers build their answers by
  hand, and nothing in the code compares the two; \<open>read_schema\<close> and \<open>post_schema\<close> are the bodies that the
  \<open>utoipa::path\<close> attributes of the handlers declare. The shape of the stored sections is an
  invariant of the database, kept by every action.
\<close>

section \<open>Schemas\<close>

text \<open>
  A field is a name, whether it must be present, and its schema; members that no field names are
  allowed. An \<open>Option\<close> may be null or absent.
\<close>

datatype schema =
    AnyValue
  | StringOf
  | IntegerOf
  | BooleanOf
  | OneOf "string list"
  | Nullable schema
  | ListOf schema
  | Struct "(string \<times> bool \<times> schema) list"

fun conforms :: "schema \<Rightarrow> json \<Rightarrow> bool"
  and conform_fields :: "(string \<times> bool \<times> schema) list \<Rightarrow> (ustring \<times> json) list \<Rightarrow> bool" where
  "conforms AnyValue v \<longleftrightarrow> True"
| "conforms StringOf v \<longleftrightarrow> (case v of JStr _ \<Rightarrow> True | _ \<Rightarrow> False)"
| "conforms IntegerOf v \<longleftrightarrow> (case v of JNum _ \<Rightarrow> True | _ \<Rightarrow> False)"
| "conforms BooleanOf v \<longleftrightarrow> (case v of JBool _ \<Rightarrow> True | _ \<Rightarrow> False)"
| "conforms (OneOf names) v \<longleftrightarrow> (case v of JStr s \<Rightarrow> s \<in> str ` set names | _ \<Rightarrow> False)"
| "conforms (Nullable s) v \<longleftrightarrow> v = JNull \<or> conforms s v"
| "conforms (ListOf s) v \<longleftrightarrow> (case v of JArr xs \<Rightarrow> list_all (conforms s) xs | _ \<Rightarrow> False)"
| "conforms (Struct fs) v \<longleftrightarrow> (case v of JObj kvs \<Rightarrow> conform_fields fs kvs | _ \<Rightarrow> False)"
| "conform_fields [] kvs \<longleftrightarrow> True"
| "conform_fields ((name, required, s) # rest) kvs \<longleftrightarrow>
     (case map_of kvs (str name) of None \<Rightarrow> \<not> required | Some v \<Rightarrow> conforms s v) \<and> conform_fields rest kvs"

definition must :: "string \<Rightarrow> schema \<Rightarrow> string \<times> bool \<times> schema" where
  "must name s = (name, True, s)"

definition optional :: "string \<Rightarrow> schema \<Rightarrow> string \<times> bool \<times> schema" where
  "optional name s = (name, False, Nullable s)"

text \<open>A field with \<open>serde(default)\<close>.\<close>

definition defaulted :: "string \<Rightarrow> schema \<Rightarrow> string \<times> bool \<times> schema" where
  "defaulted name s = (name, False, s)"

section \<open>The data transfer objects\<close>

definition voting_chain_dto :: schema where "voting_chain_dto = OneOf [''terra'', ''bsc'']"
definition proposal_status_dto :: schema where "proposal_status_dto = OneOf [''draft'', ''open'']"
definition vote_choice_dto :: schema where "vote_choice_dto = OneOf [''for'', ''against'', ''abstain'']"
definition snapshot_validity_dto :: schema where "snapshot_validity_dto = OneOf [''valid'', ''invalid'', ''legacy_unverified'']"

definition proposal_sections_dto :: schema where
  "proposal_sections_dto = Struct (map (\<lambda>k. defaulted k StringOf)
     [''problem'', ''context'', ''solution'', ''pros_cons'', ''summary'', ''success_criteria''])"

definition analysis_sections_dto :: schema where
  "analysis_sections_dto = Struct (map (\<lambda>k. defaulted k StringOf) [''what'', ''benefits'', ''risks'', ''short_term'', ''long_term''])"

definition tally_dto :: schema where
  "tally_dto = Struct [must ''choice'' vote_choice_dto, must ''weight'' StringOf, must ''voters'' IntegerOf]"

definition proposal_list_fields :: "(string \<times> bool \<times> schema) list" where
  "proposal_list_fields =
     [must ''id'' StringOf, must ''chain'' voting_chain_dto, must ''proposer'' StringOf, must ''title'' StringOf, must ''revision'' IntegerOf,
      must ''snapshot_validity'' snapshot_validity_dto, optional ''snapshot_incident'' StringOf, optional ''summary'' StringOf,
      optional ''terra_height'' IntegerOf, optional ''bsc_block'' IntegerOf, must ''created_at'' StringOf, optional ''opened_at'' StringOf,
      must ''status'' proposal_status_dto, must ''tally'' (ListOf tally_dto)]"

definition proposal_list_item_dto :: schema where "proposal_list_item_dto = Struct proposal_list_fields"

definition comment_dto :: schema where
  "comment_dto = Struct [must ''id'' StringOf, must ''chain'' voting_chain_dto, must ''wallet_address'' StringOf, must ''body_html'' StringOf,
     must ''created_at'' StringOf]"

definition analysis_dto :: schema where
  "analysis_dto = Struct [must ''id'' StringOf, must ''chain'' voting_chain_dto, must ''wallet_address'' StringOf, must ''body_html'' StringOf,
     must ''created_at'' StringOf, must ''sections'' analysis_sections_dto, must ''source'' StringOf, optional ''revision'' IntegerOf,
     must ''machine_generated'' BooleanOf]"

text \<open>The list item is flattened into the detail.\<close>

definition proposal_detail_dto :: schema where
  "proposal_detail_dto = Struct (proposal_list_fields @
     [must ''body_html'' StringOf, optional ''body_sections'' proposal_sections_dto, optional ''body_hash'' StringOf,
      must ''comments'' (ListOf comment_dto), must ''analysis'' (ListOf analysis_dto), must ''advisory'' BooleanOf])"

definition registration_row_dto :: schema where
  "registration_row_dto = Struct [must ''chain'' voting_chain_dto, must ''wallet_address'' StringOf, must ''registered_at_height'' IntegerOf,
     must ''initial_balance'' StringOf, must ''status'' StringOf]"

definition registered_wallet_dto :: schema where
  "registered_wallet_dto = Struct [must ''chain'' voting_chain_dto, must ''address'' StringOf, must ''registered_at_height'' IntegerOf,
     must ''status'' StringOf]"

definition pending_chains_dto :: schema where
  "pending_chains_dto = Struct [must ''terra'' BooleanOf, must ''bsc'' BooleanOf]"

definition registration_lookup_dto :: schema where
  "registration_lookup_dto = Struct [optional ''terra'' registration_row_dto, optional ''bsc'' registration_row_dto,
     must ''pending'' pending_chains_dto]"

definition registration_response_dto :: schema where
  "registration_response_dto = Struct [must ''ok'' BooleanOf, must ''signature_id'' StringOf, must ''receipt_id'' StringOf,
     must ''pending'' BooleanOf, optional ''registration'' registered_wallet_dto]"

definition draft_response_dto :: schema where
  "draft_response_dto = Struct [must ''id'' StringOf, must ''receipt_id'' StringOf, must ''status'' proposal_status_dto,
     must ''revision'' IntegerOf, optional ''terra_height'' IntegerOf, optional ''bsc_block'' IntegerOf]"

definition amend_response_dto :: schema where
  "amend_response_dto = Struct [must ''ok'' BooleanOf, must ''receipt_id'' StringOf, must ''body_hash'' StringOf, must ''revision'' IntegerOf]"

definition comment_response_dto :: schema where
  "comment_response_dto = Struct [must ''id'' StringOf, must ''receipt_id'' StringOf, must ''max_per_wallet'' IntegerOf]"

definition analysis_response_dto :: schema where
  "analysis_response_dto = Struct [must ''id'' StringOf, must ''receipt_id'' StringOf, must ''source'' StringOf]"

definition open_response_dto :: schema where
  "open_response_dto = Struct [must ''ok'' BooleanOf, must ''receipt_id'' StringOf, must ''status'' proposal_status_dto,
     must ''terra_height'' IntegerOf, must ''bsc_block'' IntegerOf]"

definition snapshot_dto :: schema where
  "snapshot_dto = Struct [optional ''terra_height'' IntegerOf, optional ''bsc_block'' IntegerOf]"

definition vote_response_dto :: schema where
  "vote_response_dto = Struct [must ''ok'' BooleanOf, must ''receipt_id'' StringOf, must ''weight'' StringOf, must ''snapshot'' snapshot_dto]"

definition vote_dto :: schema where
  "vote_dto = Struct [must ''choice'' vote_choice_dto, must ''weight'' StringOf]"

definition balance_response_dto :: schema where
  "balance_response_dto = Struct [must ''chain'' voting_chain_dto, must ''address'' StringOf, must ''height'' IntegerOf,
     must ''as_of_height'' IntegerOf, must ''balance'' StringOf, must ''registered'' BooleanOf, must ''snapshot_eligible'' BooleanOf,
     must ''pending'' BooleanOf, optional ''initial_balance'' StringOf]"

definition signature_record_dto :: schema where
  "signature_record_dto = Struct [must ''id'' StringOf, must ''chain'' voting_chain_dto, must ''wallet_address'' StringOf,
     optional ''pubkey'' StringOf, must ''signature'' StringOf, must ''payload_hash'' StringOf, must ''purpose'' StringOf,
     must ''created_at'' StringOf, optional ''signed_payload'' StringOf, optional ''nonce'' StringOf, optional ''proposal_id'' StringOf,
     optional ''revision'' IntegerOf, optional ''domain'' StringOf, optional ''scheme'' StringOf]"

definition action_receipt_dto :: schema where
  "action_receipt_dto = Struct [must ''signature_id'' StringOf, optional ''proposal_id'' StringOf, optional ''revision'' IntegerOf,
     must ''response'' AnyValue, optional ''content'' AnyValue, must ''accepted_at'' StringOf]"

definition revision_record_dto :: schema where
  "revision_record_dto = Struct [must ''proposal_id'' StringOf, must ''revision'' IntegerOf, must ''title'' StringOf,
     must ''body_canonical'' StringOf, optional ''body_sections'' proposal_sections_dto, optional ''signature_id'' StringOf,
     must ''recorded_at'' StringOf]"

definition snapshot_weight_dto :: schema where
  "snapshot_weight_dto = Struct [must ''proposal_id'' StringOf, must ''chain'' voting_chain_dto, must ''wallet_address'' StringOf,
     must ''weight'' StringOf]"

definition freeze_record_dto :: schema where
  "freeze_record_dto = Struct [must ''terra_height'' IntegerOf, must ''bsc_block'' IntegerOf, optional ''terra_block_hash'' StringOf,
     optional ''bsc_block_hash'' StringOf, optional ''terra_epoch'' IntegerOf, optional ''bsc_epoch'' IntegerOf, must ''opened_at'' StringOf]"

definition receipt_export_dto :: schema where
  "receipt_export_dto = Struct [must ''signature'' signature_record_dto, must ''receipt'' action_receipt_dto,
     optional ''revision'' revision_record_dto, optional ''snapshot'' (ListOf snapshot_weight_dto), optional ''freeze'' freeze_record_dto]"

definition frozen_weight_response_dto :: schema where
  "frozen_weight_response_dto = Struct [must ''proposal_id'' StringOf, must ''chain'' voting_chain_dto, must ''address'' StringOf,
     must ''weight'' StringOf, must ''eligible'' BooleanOf]"

text \<open>The bodies declared beside the handlers.\<close>

definition health_dto :: schema where "health_dto = Struct [must ''ok'' BooleanOf, must ''service'' StringOf]"

definition readiness_dto :: schema where
  "readiness_dto = Struct [must ''ready'' BooleanOf, must ''service'' StringOf, must ''reason'' StringOf]"

definition metadata_dto :: schema where
  "metadata_dto = Struct [must ''protocol_version'' IntegerOf, must ''min_proposal_raw'' StringOf, must ''decimals'' IntegerOf,
     must ''capabilities'' (ListOf StringOf)]"

definition read_schema :: "api_read \<Rightarrow> schema" where
  "read_schema read = (case read of
       GetHealth \<Rightarrow> health_dto
     | GetReady \<Rightarrow> readiness_dto
     | GetOpenApi \<Rightarrow> AnyValue
     | GetMetadata \<Rightarrow> metadata_dto
     | GetReceipt _ \<Rightarrow> receipt_export_dto
     | GetRegistration _ \<Rightarrow> registration_lookup_dto
     | GetProposals _ \<Rightarrow> ListOf proposal_list_item_dto
     | GetProposal _ \<Rightarrow> proposal_detail_dto
     | GetComments _ \<Rightarrow> ListOf comment_dto
     | GetAnalysis _ \<Rightarrow> ListOf analysis_dto
     | GetVote _ _ _ \<Rightarrow> vote_dto
     | GetWeight _ _ _ \<Rightarrow> frozen_weight_response_dto
     | GetBalance _ _ _ \<Rightarrow> balance_response_dto)"

definition post_schema :: "api_post \<Rightarrow> schema" where
  "post_schema request = (case request of
       PostRegister _ \<Rightarrow> registration_response_dto
     | PostDraft _ \<Rightarrow> draft_response_dto
     | PutSections _ _ \<Rightarrow> amend_response_dto
     | PostComment _ _ \<Rightarrow> comment_response_dto
     | PostAnalysis _ _ \<Rightarrow> analysis_response_dto
     | PostOpen _ _ \<Rightarrow> open_response_dto
     | PostVote _ _ \<Rightarrow> vote_response_dto)"

section \<open>Stored shapes\<close>

definition sections_shaped :: "json option \<Rightarrow> bool" where
  "sections_shaped v \<longleftrightarrow> (case v of None \<Rightarrow> True | Some s \<Rightarrow> conforms proposal_sections_dto s)"

definition shaped :: "db \<Rightarrow> bool" where
  "shaped d \<longleftrightarrow> (\<forall>p\<in>set (proposals d). sections_shaped (pr_body_sections p))
     \<and> (\<forall>r\<in>set (revisions d). sections_shaped (rv_body_sections r))
     \<and> (\<forall>a\<in>set (analyses d). conforms analysis_sections_dto (an_sections a))"

lemma prepared_shaped: "prepare_sections lib raw = Inr prep \<Longrightarrow> sections_shaped (Some (JObj (pp_sanitized prep)))"
  by (auto simp: prepare_sections_iff_facts prepared_of_def Let_def stored_sections_def SECTION_KEYS_SORTED_def sections_shaped_def
      proposal_sections_dto_def defaulted_def)

lemma analysis_shaped: "conforms analysis_sections_dto (analysis_json a)"
  by (simp add: analysis_sections_dto_def defaulted_def analysis_json_def ANALYSIS_KEYS_SORTED_def)

lemma shaped_frame:
  "proposals d' = proposals d \<Longrightarrow> revisions d' = revisions d \<Longrightarrow> analyses d' = analyses d \<Longrightarrow> shaped d' = shaped d"
  by (simp add: shaped_def)

lemma shaped_record:
  assumes "shaped d" and "record_revision pid sid now d = Inr d'"
  shows "shaped d'"
proof -
  have "shaped d' \<and> proposals d' = proposals d"
    by (rule foldR_invariant [OF assms(2) [unfolded record_revision_def], where P = "\<lambda>e. shaped e \<and> proposals e = proposals d"])
      (use assms(1) in \<open>auto simp: Let_def shaped_def split: if_splits\<close>)
  then show ?thesis by simp
qed

interpretation shapes: prepared_statements env cfg shaped for env cfg
proof unfold_locales
  fix d d' raw prep pid c proposer title now
  assume "shaped d" "prepare_sections (texts env) raw = Inr prep"
    "insert_draft pid c proposer title (pp_html prep) (pp_canonical prep) (JObj (pp_sanitized prep)) now d = Inr d'"
  then show "shaped d'"
    by (auto simp: insert_draft_iff shaped_def new_draft_def dest: prepared_shaped)
next
  fix d d' raw prep pid title
  assume "shaped d" "prepare_sections (texts env) raw = Inr prep"
    "update_draft_sections pid title (pp_html prep) (pp_canonical prep) (JObj (pp_sanitized prep)) d = Inr d'"
  then show "shaped d'"
    by (auto simp: update_draft_sections_iff shaped_def update_where_def amended_def dest: prepared_shaped)
next
  fix d d' aid pid c wallet clean sid now sections canonical hash
  assume "shaped d" "insert_analysis aid pid c wallet (render_analysis_html clean) (analysis_json clean) sid now d = Inr d'"
  then show "shaped d'"
    by (auto simp: insert_analysis_def Let_def result_iff shaped_def analysis_shaped split: if_splits)
next
  fix d d' pid sid clock hs
  assume "shaped d" "freeze_proposal (texts env) (jsonb_parse env) pid sid clock d = Inr (hs, d')"
  then show "shaped d'"
    by (auto simp: freeze_proposal_solved shaped_def update_where_def open_with_def opened_def split: option.split)
next
  fix d d' pid sid now
  assume "shaped d" "record_revision pid sid now d = Inr d'"
  then show "shaped d'"
    by (rule shaped_record)
qed (auto simp: insert_signature_row_iff insert_registration_intent_iff insert_comment_iff insert_receipt_row_iff shaped_def
      dest!: insert_vote_Inr split: if_splits)

end
