(* ===== verification/Answers.thy ===== *)
theory Answers
  imports Dto
begin

text \<open>
  The answers of the voting API have the types that its documents declare: the shapes of the stored
  texts and of the stored answers are invariants of the whole system, so every read and every action
  on a reachable database answers with its data transfer object.
\<close>

section \<open>Rows\<close>

lemma list_all_map: "list_all P (map f xs) \<longleftrightarrow> (\<forall>x\<in>set xs. P (f x))"
  by (simp add: list_all_iff)

lemmas enum_dtos = voting_chain_dto_def proposal_status_dto_def vote_choice_dto_def snapshot_validity_dto_def
lemmas field_dtos = must_def optional_def defaulted_def

lemma nullable_opt [simp]: "conforms (Nullable s) (opt_json f v) \<longleftrightarrow> (\<forall>x. v = Some x \<longrightarrow> f x = JNull \<or> conforms s (f x))"
  by (simp add: opt_json_def split: option.split)

lemma nullable_values [simp]:
  "conforms (Nullable s) JNull" "conforms (Nullable s) (JArr xs) \<longleftrightarrow> conforms s (JArr xs)"
  "conforms (Nullable s) (JObj kvs) \<longleftrightarrow> conforms s (JObj kvs)"
  by simp_all

lemma nullable_present: "conforms s v \<Longrightarrow> conforms (Nullable s) v"
  by simp

declare conforms.simps(6) [simp del]

lemma opt_json_values [simp]: "opt_json f None = JNull" "opt_json f (Some x) = f x"
  by (simp_all add: opt_json_def)

lemma chain_conforms [simp]: "conforms voting_chain_dto (JStr (chain_str c))"
  by (cases c) (simp_all add: enum_dtos chain_str_def)

lemma chain_name_conforms [simp]: "conforms voting_chain_dto (JStr (str ''terra''))" "conforms voting_chain_dto (JStr (str ''bsc''))"
  by (simp_all add: enum_dtos)

lemma choice_conforms [simp]: "conforms vote_choice_dto (JStr (choice_str c))"
  by (cases c) (simp_all add: enum_dtos choice_str_def)

lemma status_conforms [simp]: "conforms proposal_status_dto (JStr (status_str c))"
  by (cases c) (simp_all add: enum_dtos status_str_def)

lemma validity_conforms [simp]: "conforms snapshot_validity_dto (JStr (validity_str c))"
  by (cases c) (simp_all add: enum_dtos validity_str_def)

lemma resolved_conforms: "resolve_chain addr q = Inr c \<Longrightarrow> conforms voting_chain_dto (JStr c)"
  by (auto simp: resolve_chain_def infer_chain_def enum_dtos Let_def split: option.splits if_splits)

lemma tally_conforms [simp]: "conforms tally_dto (tally_json t)"
  by (simp add: tally_dto_def tally_json_def field_dtos)

lemma comment_conforms [simp]: "conforms comment_dto (comment_json uuid stamp m)"
  by (simp add: comment_dto_def comment_json_def field_dtos)

lemma analysis_conforms: "conforms analysis_sections_dto (an_sections a) \<Longrightarrow> conforms analysis_dto (analysis_row_json uuid stamp a)"
  by (simp add: analysis_dto_def analysis_row_json_def field_dtos)

lemma conform_append: "conform_fields (fs @ gs) kvs \<longleftrightarrow> conform_fields fs kvs \<and> conform_fields gs kvs"
  by (induction fs) auto

lemma list_item_conforms: "conform_fields proposal_list_fields (proposal_list_json uuid stamp p tallies @ rest)"
  by (simp add: proposal_list_fields_def proposal_list_json_def field_dtos list_all_map)

lemma registration_row_conforms [simp]: "conforms registration_row_dto (registration_row_json r)"
  by (simp add: registration_row_dto_def registration_row_json_def field_dtos)

lemma registered_conforms [simp]: "conforms registered_wallet_dto (registration_json r)"
  by (simp add: registered_wallet_dto_def registration_json_def field_dtos)

lemma signature_conforms [simp]: "conforms signature_record_dto (signature_json uuid stamp s)"
  by (simp add: signature_record_dto_def signature_json_def field_dtos)

lemma receipt_row_conforms [simp]: "conforms action_receipt_dto (receipt_row_json uuid stamp r)"
  by (simp add: action_receipt_dto_def receipt_row_json_def field_dtos)

lemma revision_conforms: "sections_shaped (rv_body_sections r) \<Longrightarrow> conforms revision_record_dto (revision_json uuid stamp r)"
  by (simp add: revision_record_dto_def revision_json_def field_dtos sections_shaped_def split: option.splits)

lemma snapshot_conforms [simp]: "conforms snapshot_weight_dto (snapshot_json uuid x)"
  by (simp add: snapshot_weight_dto_def snapshot_json_def field_dtos)

lemma freeze_conforms: "frozen p \<Longrightarrow> conforms freeze_record_dto (freeze_json stamp p)"
  by (auto simp: freeze_record_dto_def freeze_json_def field_dtos frozen_def)

section \<open>Reads\<close>

text \<open>An \<open>open_vote\<close> receipt belongs to an opened proposal.\<close>

definition opening_done :: "db \<Rightarrow> receipt_row \<Rightarrow> bool" where
  "opening_done d r \<longleftrightarrow> (\<exists>p\<in>set (proposals d). Some (pr_id p) = rc_proposal r \<and> pr_status p = Open)"

definition purpose_schema :: "ustring \<Rightarrow> schema" where
  "purpose_schema purpose =
     (if purpose = str ''register'' then registration_response_dto else if purpose = str ''draft'' then draft_response_dto
      else if purpose = str ''amend'' then amend_response_dto else if purpose = str ''comment'' then comment_response_dto
      else if purpose = str ''analyze'' then analysis_response_dto else if purpose = str ''open_vote'' then open_response_dto
      else vote_response_dto)"

definition receipts_shaped :: "db \<Rightarrow> bool" where
  "receipts_shaped d \<longleftrightarrow> (\<forall>r\<in>set (receipts d). \<exists>s\<in>set (signatures d). sg_id s = rc_signature r
     \<and> conforms (purpose_schema (sg_purpose s)) (rc_response r) \<and> (sg_purpose s = str ''open_vote'' \<longrightarrow> opening_done d r))"

lemma receipt_conforms:
  assumes shaped: "shaped d" and ok: "voting_ok lib jsonb d" and stored: "receipts_shaped d"
    and found: "receipt uuid stamp sid d = Some v"
  shows "conforms receipt_export_dto v"
proof -
  obtain s r where s: "find_row sg_id sid (signatures d) = Some s" and r: "find_row rc_signature sid (receipts d) = Some r"
    using found by (auto simp: receipt_def bind_eq_Some_conv)
  obtain s' where s': "s' \<in> set (signatures d)" "sg_id s' = rc_signature r" "sg_purpose s' = str ''open_vote'' \<longrightarrow> opening_done d r"
    using stored find_row_SomeD [OF r] unfolding receipts_shaped_def by blast
  have "s' = s"
    using ok s' find_row_SomeD [OF s] find_row_SomeD [OF r] unfolding voting_ok_def keys_ok_def by (metis unique_byD)
  have frozen: "conforms freeze_record_dto (freeze_json stamp p)"
    if purpose: "sg_purpose s = str ''open_vote''" and p: "Option.bind (rc_proposal r) (\<lambda>pid. find_row pr_id pid (proposals d)) = Some p" for p
  proof (rule freeze_conforms)
    obtain pid where pid: "rc_proposal r = Some pid" and row: "find_row pr_id pid (proposals d) = Some p"
      using p by (auto simp: bind_eq_Some_conv)
    obtain q where q: "q \<in> set (proposals d)" "pr_id q = pid" "pr_status q = Open"
      using s'(3) purpose \<open>s' = s\<close> by (auto simp: opening_done_def pid)
    have "unique_by pr_id (proposals d)"
      using ok by (simp add: voting_ok_def keys_ok_def)
    with row q have "q = p"
      using find_row_SomeD [OF row] by (metis unique_byD)
    with q ok show "frozen p"
      by (simp add: voting_ok_def snapshots_ok_def)
  qed
  have revision: "conforms revision_record_dto (revision_json uuid stamp p)"
    if "List.find (\<lambda>p. Some (rv_proposal p) = rc_proposal r \<and> Some (rv_revision p) = rc_revision r) (revisions d) = Some p" for p
    using that shaped by (intro revision_conforms) (auto simp: find_Some_iff shaped_def)
  show ?thesis
    using found
    by (auto simp: receipt_def s r Let_def receipt_export_dto_def field_dtos list_all_map revision frozen split: option.splits if_splits)
qed

lemma read_conforms:
  assumes "shaped d" and "voting_ok lib jsonb d" and "receipts_shaped d"
    and "answer_read http env cfg stamp k late read d = Inr (status, v)"
  shows "conforms (read_schema read) v"
proof (cases read)
  case (GetReceipt sid)
  then show ?thesis
    using assms receipt_conforms by (auto simp: read_schema_def answer_read_def Let_def result_iff get_receipt_def)
next
  case (GetProposals wanted)
  have "conforms proposal_list_item_dto (JObj (proposal_list_json (uuid_text env) stamp p ts))" for p ts
    using list_item_conforms [of "uuid_text env" stamp p ts "[]"] by (simp add: proposal_list_item_dto_def)
  with GetProposals show ?thesis
    using assms(4) unfolding GetProposals read_schema_def answer_read_def Let_def list_proposals_def
    by (cases wanted) (auto simp: result_iff list_all_map split: if_splits)
next
  case (GetProposal pid)
  obtain p where p: "p \<in> set (proposals d)" and v: "Inr v = get_proposal env stamp pid d" and got: "vget_proposal d pid = Some p"
    using assms(4) find_row_SomeD by (fastforce simp: GetProposal answer_read_def Let_def result_iff get_proposal_def vget_proposal_def)
  have "sections_shaped (pr_body_sections p)" "\<And>a. a \<in> set (vlist_analysis d pid) \<Longrightarrow> conforms analysis_sections_dto (an_sections a)"
    using assms(1) p by (auto simp: shaped_def vlist_analysis_def)
  note texts = this
  let ?item = "proposal_list_json (uuid_text env) stamp p (tally d pid)"
  obtain hash where v: "v = JObj (?item @ [(str ''body_html'', JStr (pr_body_html p)), (str ''body_sections'', opt_json (\<lambda>s. s) (pr_body_sections p)),
        (str ''body_hash'', opt_json JStr hash), (str ''comments'', JArr (map (comment_json (uuid_text env) stamp) (vlist_comments d pid))),
        (str ''analysis'', JArr (map (analysis_row_json (uuid_text env) stamp) (vlist_analysis d pid))),
        (str ''advisory'', JBool True)])"
    using v got by (simp add: get_proposal_def)
  have "conforms proposal_sections_dto s" if "pr_body_sections p = Some s" for s
    using texts(1) that by (simp add: sections_shaped_def)
  then have "conform_fields [must ''body_html'' StringOf, optional ''body_sections'' proposal_sections_dto, optional ''body_hash'' StringOf,
      must ''comments'' (ListOf comment_dto), must ''analysis'' (ListOf analysis_dto), must ''advisory'' BooleanOf]
      (?item @ [(str ''body_html'', JStr (pr_body_html p)), (str ''body_sections'', opt_json (\<lambda>s. s) (pr_body_sections p)),
        (str ''body_hash'', opt_json JStr hash), (str ''comments'', JArr (map (comment_json (uuid_text env) stamp) (vlist_comments d pid))),
        (str ''analysis'', JArr (map (analysis_row_json (uuid_text env) stamp) (vlist_analysis d pid))),
        (str ''advisory'', JBool True)])"
    using texts(2) by (simp add: proposal_list_json_def field_dtos list_all_map analysis_conforms)
  then show ?thesis
    by (simp add: GetProposal read_schema_def v proposal_detail_dto_def conform_append list_item_conforms)
next
  case (GetAnalysis pid)
  then show ?thesis
    using assms(1,4) by (auto simp: read_schema_def answer_read_def Let_def result_iff list_analysis_def list_all_map vlist_analysis_def shaped_def
        intro!: analysis_conforms)
qed (use assms(4) in \<open>auto simp: read_schema_def answer_read_def Let_def result_iff health_def health_dto_def readiness_dto_def voting_readiness_def
    metadata_def metadata_dto_def registration_lookup_def registration_lookup_dto_def pending_chains_dto_def list_comments_def list_all_map
    get_vote_route_def vote_dto_def get_frozen_weight_def frozen_weight_response_dto_def uuid_json_def get_balance_def balance_response_dto_def
    field_dtos intro!: nullable_present resolved_conforms split: option.splits if_splits\<close>)

section \<open>Actions\<close>

lemma post_schema_purpose: "post_schema request = purpose_schema (str (post_purpose request))"
  by (cases request) (simp_all add: post_schema_def purpose_schema_def post_purpose_def)

lemma finish_action_Inr:
  assumes "finish_action env sid target response s = (Inr x, s')"
  shows "x = JObj (jset (filter (\<lambda>kv. fst kv \<noteq> str ''receipt_content'') response) ''receipt_id'' (uuid_json env sid))
     \<and> (\<exists>r. committed s' = (tx s)\<lparr>receipts := receipts (tx s) @ [r]\<rparr> \<and> rc_signature r = sid \<and> rc_response r = x \<and> rc_proposal r = target)"
  using assms unfolding finish_action_def Let_def run_iff by (auto simp: insert_receipt_row_iff)

lemma receipts_kept:
  "insert_registration_intent row_id c wallet sid now d = Inr d' \<Longrightarrow> receipts d' = receipts d"
  "insert_draft pid c proposer title html canonical sections now d = Inr d' \<Longrightarrow> receipts d' = receipts d"
  "update_draft_sections pid title html canonical sections d = Inr d' \<Longrightarrow> receipts d' = receipts d"
  "freeze_proposal lib jsonb pid sid k d = Inr (hs, d') \<Longrightarrow> receipts d' = receipts d"
  "insert_vote lib jsonb pid c wallet ch weight sid now d = Inr d' \<Longrightarrow> receipts d' = receipts d"
  "insert_comment cid pid c wallet html sid now d = Inr d' \<Longrightarrow> receipts d' = receipts d"
  "insert_analysis aid pid c wallet html sections sid now d = Inr d' \<Longrightarrow> receipts d' = receipts d"
  by (auto simp: insert_registration_intent_iff insert_draft_iff update_draft_sections_iff freeze_proposal_solved insert_comment_iff
      dest!: insert_vote_Inr insert_analysis_Inr split: if_splits)

lemma record_receipts: "record_revision pid sid now d = Inr d' \<Longrightarrow> receipts d' = receipts d"
  unfolding record_revision_def
  by (rule foldR_invariant [where P = "\<lambda>e. receipts e = receipts d"]) (auto simp: Let_def split: if_splits)

text \<open>A body leaves one receipt more, with its answer, and opens the proposal it says it opens.\<close>

definition leaves_receipt :: "api_post \<Rightarrow> uuid \<Rightarrow> json \<Rightarrow> db \<Rightarrow> db \<Rightarrow> bool" where
  "leaves_receipt request sid x d d' \<longleftrightarrow> conforms (post_schema request) x \<and> signatures d' = signatures d
     \<and> (\<exists>r. receipts d' = receipts d @ [r] \<and> rc_signature r = sid \<and> rc_response r = x
          \<and> ((\<exists>pid req. request = PostOpen pid req) \<longrightarrow> opening_done d' r))"

lemma finish_leaves:
  assumes "finish_action env sid target response s = (Inr x, s')" and "receipts (tx s) = receipts d" and "signatures (tx s) = signatures d"
    and "conforms (post_schema request)
       (JObj (jset (filter (\<lambda>kv. fst kv \<noteq> str ''receipt_content'') response) ''receipt_id'' (uuid_json env sid)))"
    and "\<And>pid req. request = PostOpen pid req \<Longrightarrow> \<exists>p\<in>set (proposals (tx s)). Some (pr_id p) = target \<and> pr_status p = Open"
  shows "leaves_receipt request sid x d (committed s')"
  using finish_action_Inr [OF assms(1)] assms(2-) by (auto simp: leaves_receipt_def opening_done_def)

lemma frozen_open:
  assumes "freeze_proposal lib jsonb pid sid k d = Inr (hs, d')"
  shows "\<exists>p\<in>set (proposals d'). pr_id p = pid \<and> pr_status p = Open"
proof -
  obtain p s where p: "find_row pr_id pid (proposals d) = Some p" and signed: "signed_revision lib jsonb pid s p = Inr ()"
    and ready: "freezable k d" and d': "proposals d' = update_where (draft_with pid) (open_with d k) (proposals d)"
    using assms unfolding freeze_proposal_solved by auto
  have "pr_status p = Draft"
    using signed by (auto simp: signed_revision_def result_iff)
  then have "open_with d k p \<in> set (proposals d')"
    using find_row_SomeD [OF p] by (force simp: d' update_where_def)
  moreover have "pr_id (open_with d k p) = pid" "pr_status (open_with d k p) = Open"
    using find_row_SomeD [OF p] ready by (auto simp: open_with_def opened_def freezable_def)
  ultimately show ?thesis by blast
qed

lemmas response_dtos = post_schema_def registration_response_dto_def draft_response_dto_def amend_response_dto_def comment_response_dto_def
  analysis_response_dto_def open_response_dto_def vote_response_dto_def snapshot_dto_def field_dtos jset_def uuid_json_def

lemmas untouched = receipts_kept record_receipts signatures_kept record_signatures

lemma text_recorded:
  "insert_draft pid c proposer title html canonical sections now d = Inr d1 \<Longrightarrow> record_revision pid sid now d1 = Inr d2 \<Longrightarrow>
     receipts d2 = receipts d \<and> signatures d2 = signatures d"
  "update_draft_sections pid title html canonical sections d = Inr d1 \<Longrightarrow> record_revision pid sid now d1 = Inr d2 \<Longrightarrow>
     receipts d2 = receipts d \<and> signatures d2 = signatures d"
  using untouched by metis+

lemma body_leaves:
  assumes "post_body env cfg request sid payload s = (Inr x, s')"
  shows "leaves_receipt request sid x (tx s) (committed s')"
proof (cases request)
  case (PostRegister req)
  then show ?thesis
    using assms by (auto simp: post_body_def register_body_def Let_def run_iff response_dtos dest: untouched
        elim!: finish_leaves intro!: nullable_present split: option.split)
next
  case (PostDraft req)
  then show ?thesis
    using assms by (auto simp: post_body_def draft_body_def Let_def run_iff require_registration_def response_dtos proposal_status_dto_def
        dest: text_recorded elim!: finish_leaves split: if_splits)
next
  case (PutSections pid req)
  then show ?thesis
    using assms by (auto simp: post_body_def amend_body_def Let_def run_iff fetch_proposal_def response_dtos dest: text_recorded
        elim!: finish_leaves)
next
  case (PostComment pid req)
  then show ?thesis
    using assms by (auto simp: post_body_def comment_body_def Let_def run_iff fetch_proposal_def require_registration_def response_dtos
        dest: untouched elim!: finish_leaves)
next
  case (PostAnalysis pid req)
  then show ?thesis
    using assms by (auto simp: post_body_def analysis_body_def Let_def run_iff fetch_proposal_def response_dtos dest: untouched elim!: finish_leaves)
next
  case (PostOpen pid req)
  then show ?thesis
    using assms by (auto simp: post_body_def open_body_def in_tx_value_def open_proposal_def Let_def run_iff result_iff fetch_proposal_def
        response_dtos proposal_status_dto_def dest: untouched frozen_open elim!: finish_leaves split: prod.splits)
next
  case (PostVote pid req)
  then show ?thesis
    using assms by (auto simp: post_body_def vote_body_def Let_def run_iff fetch_proposal_def require_registration_def response_dtos height_json_def
        dest: untouched elim!: finish_leaves intro!: nullable_present split: if_splits option.split)
qed

section \<open>The stored answers\<close>

lemma opening_grown: "grown d d' \<Longrightarrow> opening_done d r \<Longrightarrow> opening_done d' r"
  unfolding opening_done_def grown_def kept_by_def by metis

lemma find_SomeD: "List.find P xs = Some x \<Longrightarrow> x \<in> set xs \<and> P x"
  by (auto simp: find_Some_iff)

text \<open>An answer is one of a signature over the same bytes, and has the type of its purpose.\<close>

definition answer_typed :: "('k, 's, 'w) voting_env \<Rightarrow> api_post \<Rightarrow> json \<Rightarrow> db \<Rightarrow> bool" where
  "answer_typed env request x d \<longleftrightarrow> (\<exists>s\<in>set (signatures d).
     sg_payload_hash s = body_hash (texts env) (sq_payload (post_signed request))
     \<and> (sg_signed_payload s = Some (sq_payload (post_signed request)) \<longrightarrow> conforms (post_schema request) x)
     \<and> conforms (purpose_schema (sg_purpose s)) x)"

lemma same_purpose:
  assumes "authentic env cfg s" and "sg_signed_payload s = Some (sq_payload req)"
    and "check_request env cfg req purpose target = Inr (payload, nonce)"
  shows "sg_purpose s = str purpose"
proof -
  obtain q p n where q: "sg_purpose s = str q" and checked: "check_request env cfg (request_of s (sq_payload req)) q (sg_proposal s) = Inr (p, n)"
    using assms(1,2) unfolding authentic_def by auto
  have "Option.bind (json_parse env (sq_payload req)) payload_of_json = Some p" "sp_purpose p = str q"
    using checked parse_domain_facts by (auto simp: check_request_def result_iff request_of_def)
  moreover have "Option.bind (json_parse env (sq_payload req)) payload_of_json = Some payload" "sp_purpose payload = str purpose"
    using assms(3) parse_domain_facts by (auto simp: check_request_def result_iff split: if_splits)
  ultimately show ?thesis
    using q by simp
qed

lemma handle_answers:
  assumes run: "handle env cfg request s = (Inr x, s')" and ok: "voting_ok lib jsonb (committed s)"
    and auth: "all_authentic env cfg (committed s)" and stored: "receipts_shaped (committed s)"
  shows "receipts_shaped (committed s') \<and> answer_typed env request x (committed s')"
proof -
  let ?req = "post_signed request"
  obtain sid prior payload s1 where begun: "begin_action env cfg ?req (post_purpose request) (post_target request) s = (Inr (sid, prior, payload), s1)"
    and rest: "(case prior of Some response \<Rightarrow> ret response | None \<Rightarrow> post_body env cfg request sid payload) s1 = (Inr x, s')"
    using run by (auto simp: handle_once once_def bindA_run)
  obtain nonce where checked: "check_request env cfg ?req (post_purpose request) (post_target request) = Inr (payload, nonce)"
    and same: "committed s1 = committed s"
    and found: "let found = prior_action (chain_arg (sq_chain ?req)) (normalize_address (sq_address ?req)) nonce (committed s) in
      case prior of
        Some answer \<Rightarrow> found = Some (sid, body_hash (texts env) (sq_payload ?req), answer)
      | None \<Rightarrow> (\<exists>now. insert_signature_row (action_signature ?req (post_purpose request) (post_target request) payload nonce
                   (body_hash (texts env) (sq_payload ?req)) sid now) (committed s) = Inr (tx s1))"
    using begin_action_Inr [OF begun] by blast
  show ?thesis
  proof (cases prior)
    case (Some answer)
    have here: "committed s' = committed s" "answer = x"
      using rest same Some by (simp_all add: ret_run)
    obtain g r where g: "g \<in> set (signatures (committed s))" "sg_id g = sid" "sg_payload_hash g = body_hash (texts env) (sq_payload ?req)"
      and r: "r \<in> set (receipts (committed s))" "rc_signature r = sid" "rc_response r = x"
      using found here(2) unfolding Some prior_action_def
      by (fastforce dest: find_SomeD find_row_SomeD split: option.splits)
    obtain g' where g': "g' \<in> set (signatures (committed s))" "sg_id g' = sid" "conforms (purpose_schema (sg_purpose g')) x"
      using stored r unfolding receipts_shaped_def by metis
    have "g' = g"
      using ok g(1,2) g'(1,2) unfolding voting_ok_def keys_ok_def by (metis unique_byD)
    moreover have "sg_purpose g = str (post_purpose request)" if "sg_signed_payload g = Some (sq_payload ?req)"
      using same_purpose [OF _ that checked] auth g(1) by (simp add: all_authentic_def)
    ultimately have "answer_typed env request x (committed s)"
      using g g'(3) by (auto simp: answer_typed_def post_schema_purpose)
    then show ?thesis
      using here stored by simp
  next
    case None
    then obtain now where inserted: "insert_signature_row (action_signature ?req (post_purpose request) (post_target request) payload nonce
                   (body_hash (texts env) (sq_payload ?req)) sid now) (committed s) = Inr (tx s1)"
      using found by auto
    define row where "row = action_signature ?req (post_purpose request) (post_target request) payload nonce
                   (body_hash (texts env) (sq_payload ?req)) sid now"
    have cols: "sg_id row = sid" "sg_payload_hash row = body_hash (texts env) (sq_payload ?req)" "sg_purpose row = str (post_purpose request)"
      by (simp_all add: row_def action_signature_def)
    have start: "tx s1 = (committed s)\<lparr>signatures := signatures (committed s) @ [row]\<rparr>"
      using inserted by (simp add: insert_signature_row_iff row_def)
    have "leaves_receipt request sid x (tx s1) (committed s')"
      using body_leaves rest None by simp
    then obtain r where typed: "conforms (post_schema request) x" and sigs: "signatures (committed s') = signatures (committed s) @ [row]"
      and rs: "receipts (committed s') = receipts (committed s) @ [r]" and r: "rc_signature r = sid" "rc_response r = x"
      and opens: "(\<exists>pid req. request = PostOpen pid req) \<longrightarrow> opening_done (committed s') r"
      by (auto simp: leaves_receipt_def start)
    have "request = PostOpen (the (post_target request)) (case request of PostOpen _ req \<Rightarrow> req)" if "post_purpose request = ''open_vote''"
      using that by (cases request) (simp_all add: post_purpose_def post_target_def)
    then have "post_purpose request = ''open_vote'' \<longrightarrow> opening_done (committed s') r"
      using opens by blast
    moreover have "opening_done (committed s') q" if "opening_done (committed s) q" for q
      using opening_grown [OF handle_grown [OF run] that] .
    ultimately have "receipts_shaped (committed s')"
      using stored typed r cols(1,3) by (fastforce simp: receipts_shaped_def sigs rs post_schema_purpose)
    moreover have "answer_typed env request x (committed s')"
      using typed cols by (auto simp: answer_typed_def sigs post_schema_purpose)
    ultimately show ?thesis by blast
  qed
qed

section \<open>Along every run\<close>

definition typed :: "db \<Rightarrow> bool" where
  "typed d \<longleftrightarrow> shaped d \<and> receipts_shaped d"

lemma typed_initial: "typed initial_db"
  by (simp add: typed_def shaped_def receipts_shaped_def initial_db_def)

text \<open>The ledger leaves the texts, the receipts and the statuses alone.\<close>

lemma typed_ledger:
  assumes "voting_kept d d'" and "typed d"
  shows "typed d'"
proof -
  have judged: "list_all2 judged (proposals d) (proposals d')"
    using assms(1) by (simp add: voting_kept_def)
  have column: "judged p q \<Longrightarrow> pr_body_sections q = pr_body_sections p" for p q
    unfolding judged_def by (elim conjE ssubst) simp
  have "\<forall>q\<in>set (proposals d'). sections_shaped (pr_body_sections q)"
    using assms(2) column list_all2_set2 [OF judged] by (metis shaped_def typed_def)
  then have "shaped d'"
    using assms by (simp add: shaped_def typed_def voting_kept_def)
  moreover have "opening_done d r \<Longrightarrow> opening_done d' r" for r
    using list_all2_set1 [OF judged] judged_columns unfolding opening_done_def by metis
  then have "receipts_shaped d'"
    using assms by (fastforce simp: receipts_shaped_def typed_def voting_kept_def)
  ultimately show ?thesis
    by (simp add: typed_def)
qed

lemma typed_handle:
  assumes run: "handle env cfg request t = (answer, t')" and inv: "system_inv env cfg (committed t)" and typed: "typed (committed t)"
  shows "typed (committed t')"
proof (cases answer)
  case (Inl e)
  have "dbs (\<lambda>cm _. cm = committed t) t'"
    using holds_errorD [OF shapes.handle_kept, of "committed t" t env cfg request e t'] run typed by (simp add: Inl dbs_def typed_def)
  with typed show ?thesis by (simp add: dbs_def)
next
  case (Inr x)
  have "shaped (committed t')"
    by (rule handle_run [OF shapes.handle_kept run]) (use typed in \<open>simp_all add: typed_def\<close>)
  then show ?thesis
    using handle_answers [OF run [unfolded Inr]] inv typed by (auto simp: typed_def system_inv_def)
qed

lemma run_typed:
  assumes run: "program_run http rpc lcfg rest env vcfg initial_db d" and hex: "hex_encodes http"
  shows "typed d \<and> system_inv env vcfg d"
  using run
proof (induction rule: rtranclp_induct)
  case base
  then show ?case
    by (simp add: typed_initial system_inv_initial)
next
  case (step b c)
  have inv: "system_inv env vcfg c"
    using run_inv [OF run_step [OF step(2)] main_ranges_bounded main_live_heights_i64 [OF hex]] step(3) by blast
  from system_step_kinds [OF step(2)] show ?case
    using inv step(3) typed_ledger typed_handle by blast
qed

text \<open>
  C9. The API answers with the types it documents. On every database that the system can reach, each
  route that reads answers with its declared data transfer object (the optional members null or of
  their type, the enumerations with one of their names, the stored sections as section objects, the
  freeze of an opening receipt complete), although the handlers build their answers by hand.
\<close>

theorem reads_answer_their_types:
  assumes "program_run http rpc lcfg rest env vcfg initial_db d" and "hex_encodes http"
    and "answer_read lib env vcfg stamp k late read d = Inr (status, v)"
  shows "conforms (read_schema read) v"
  using run_typed [OF assms(1,2)] read_conforms [OF _ _ _ assms(3)] by (auto simp: typed_def system_inv_def)

text \<open>
  C10. Every accepted action answers with the type of its route. A replayed request gets the answer that
  was stored for a signature over bytes of the same hash; that answer has the type of the stored
  signature's purpose, which is the type of the route when the signed bytes are the same.
\<close>

theorem actions_answer_their_types:
  assumes "program_run http rpc lcfg rest env vcfg initial_db (committed s)" and "hex_encodes http"
    and "handle env vcfg request s = (Inr x, s')"
  shows "answer_typed env request x (committed s')"
  using run_typed [OF assms(1,2)] handle_answers [OF assms(3)] by (auto simp: typed_def system_inv_def)

theorem actions_answer_their_types_witness:
  "\<exists>x s'. handle sample_voting_env sample_voting_config sample_register (api_pool initial_db) = (Inr x, s')
     \<and> answer_typed sample_voting_env sample_register x (committed s')"
proof -
  obtain x s' where run: "handle sample_voting_env sample_voting_config sample_register (api_pool initial_db) = (Inr x, s')"
    using sample_register_accepted by blast
  have "program_run sample_http quiet_node sample_config quiet_network sample_voting_env sample_voting_config initial_db
      (committed (api_pool initial_db))"
    by (simp add: api_pool_def)
  from actions_answer_their_types [OF this sample_hex run] run show ?thesis
    by blast
qed

theorem reads_answer_their_types_witness:
  "\<forall>lib stamp. \<exists>d v. answer_read lib sample_voting_env sample_voting_config stamp 0 False (GetRegistration (str ''0xab'')) d = Inr (200, v)
     \<and> conforms registration_lookup_dto v"
proof (intro allI)
  fix lib :: "'ip http_lib" and stamp
  obtain x s' where run: "handle sample_voting_env sample_voting_config sample_register (api_pool initial_db) = (Inr x, s')"
    using sample_register_accepted by blast
  have "case handle sample_voting_env sample_voting_config sample_register (api_pool initial_db) of
      (Inr x, s') \<Rightarrow> (case registration_lookup (str ''0xab'') (committed s') of Inr v \<Rightarrow> True | Inl _ \<Rightarrow> False) | _ \<Rightarrow> False"
    by code_simp
  then obtain v where v: "registration_lookup (str ''0xab'') (committed s') = Inr v"
    using run by (auto split: sum.splits)
  have reach: "program_run sample_http quiet_node sample_config quiet_network sample_voting_env sample_voting_config initial_db (committed s')"
    using run_step [OF action_handled [OF run]] by (simp add: api_pool_def)
  have read: "answer_read lib sample_voting_env sample_voting_config stamp 0 False (GetRegistration (str ''0xab'')) (committed s') = Inr (200, v)"
    by (simp add: answer_read_def v)
  from reads_answer_their_types [OF reach sample_hex this] have "conforms registration_lookup_dto v"
    by (simp add: read_schema_def)
  with read show "\<exists>d v. answer_read lib sample_voting_env sample_voting_config stamp 0 False (GetRegistration (str ''0xab'')) d = Inr (200, v)
     \<and> conforms registration_lookup_dto v"
    by blast
qed

end
