(* ===== verification/Receipts.thy ===== *)
theory Receipts
  imports Routes
begin

text \<open>
  The offline check of an exported receipt (\<open>verify_exported_receipt\<close> in
  \<open>operator-voting/src/payload.rs\<close>): from the JSON that \<open>GET /v1/receipts/{id}\<close> answers, without the
  database, whether the wallet signed the action and what is disclosed of it. \<open>rfc3339\<close> reads an
  RFC 3339 text as whole seconds. JSON values are compared as \<open>serde_json\<close> compares them: the
  members of an object are in the order of their keys.

  The theorems compare the check with what the API accepts: which receipts of registrations,
  comments and votes pass it, and that two exports of the same signed bytes that pass disclose the same.
\<close>

section \<open>The check\<close>

definition mismatch :: voting_error where
  "mismatch = VUnauthorized ''receipt content/linkage mismatch''"

definition must :: "bool \<Rightarrow> unit voting_result" where
  "must b = (if b then Inr () else Inl mismatch)"

definition str_at :: "json \<Rightarrow> string \<Rightarrow> ustring voting_result" where
  "str_at v key = ok_or mismatch (as_str (jidx v key))"

text \<open>The signed action: its linkage, its validity when it was accepted, and its signature.\<close>

definition receipt_signed ::
    "('k, 's, 'w) voting_env \<Rightarrow> (ustring \<Rightarrow> int option) \<Rightarrow> json \<Rightarrow> signed_payload voting_result" where
  "receipt_signed env rfc3339 export =
     (let sig = jidx export ''signature''; rec = jidx export ''receipt'' in
      bindR (str_at sig ''signed_payload'') (\<lambda>raw.
      bindR (ok_or mismatch (Option.bind (json_parse env raw) payload_of_json)) (\<lambda>payload.
      bindR (str_at sig ''wallet_address'') (\<lambda>actor.
      bindR (str_at sig ''signature'') (\<lambda>signature.
      bindR (must (jidx sig ''payload_hash'' = JStr (body_hash (texts env) raw)
                   \<and> jidx sig ''chain'' = JStr (sp_chain payload)
                   \<and> jidx sig ''purpose'' = JStr (sp_purpose payload)
                   \<and> jidx sig ''nonce'' = opt_json JStr (sp_nonce payload)
                   \<and> normalize_address (sp_address payload) = actor
                   \<and> sp_app payload = APP_NAME
                   \<and> jidx sig ''domain'' = JStr (sp_app payload @ [58] @ sp_chain_id payload)
                   \<and> sp_version payload = 2
                   \<and> jidx sig ''id'' = jidx rec ''signature_id'')) (\<lambda>_.
      bindR (must ((case sp_nonce payload of None \<Rightarrow> False | Some n \<Rightarrow> n \<noteq> [] \<and> str_len n \<le> 128)
                   \<and> jidx sig ''revision'' = opt_json JNum (sp_revision payload))) (\<lambda>_.
      bindR (str_at rec ''accepted_at'') (\<lambda>accepted.
      bindR (ok_or mismatch (rfc3339 accepted)) (\<lambda>accepted_at.
      bindR (validate_time payload accepted_at) (\<lambda>_.
      bindR (must (jidx (jidx rec ''response'') ''receipt_id'' = jidx sig ''id'')) (\<lambda>_.
      bindR (if sp_chain payload = str ''terra'' \<and> jidx sig ''scheme'' = JStr (str ''ADR-36'')
             then bindR (str_at sig ''pubkey'') (verify_adr36 (crypto env) actor raw signature)
             else if sp_chain payload = str ''bsc'' \<and> jidx sig ''scheme'' = JStr (str ''EIP-191'')
             then verify_eip191 (crypto env) actor raw signature
             else Inl mismatch) (\<lambda>_.
      Inr payload))))))))))))"

text \<open>The proposal and the revision the action was signed for.\<close>

definition receipt_targets :: "signed_payload \<Rightarrow> json \<Rightarrow> unit voting_result" where
  "receipt_targets payload export =
     (let sig = jidx export ''signature''; rec = jidx export ''receipt'' in
      bindR (case sp_proposal_id payload of
               None \<Rightarrow> Inr ()
             | Some pid \<Rightarrow> must (jidx rec ''proposal_id'' = JStr pid \<and> jidx sig ''proposal_id'' = JStr pid)) (\<lambda>_.
      case sp_revision payload of
        None \<Rightarrow> Inr ()
      | Some expected \<Rightarrow>
          bindR (ok_or mismatch (as_i64 (jidx rec ''revision''))) (\<lambda>accepted.
          bindR (if sp_purpose payload = str ''amend'' then ok_or mismatch (checked_i64 (expected + 1)) else Inr expected) (\<lambda>expected.
          must (accepted = expected)))))"

text \<open>The disclosed content against the hash that was signed.\<close>

definition discloses_revision :: "text_lib \<Rightarrow> signed_payload \<Rightarrow> json \<Rightarrow> unit voting_result" where
  "discloses_revision lib payload export =
     (let rec = jidx export ''receipt''; revision = jidx export ''revision'' in
      bindR (str_at revision ''body_canonical'') (\<lambda>canonical.
      bindR (prepare_sections lib (jidx revision ''body_sections'')) (\<lambda>prepared.
      bindR (must (pp_canonical prepared = canonical \<and> JObj (pp_sanitized prepared) = jidx revision ''body_sections'')) (\<lambda>_.
      bindR (must (sp_purpose payload = str ''draft'' \<longrightarrow>
                   jidx (jidx rec ''response'') ''id'' = jidx revision ''proposal_id'')) (\<lambda>_.
      bindR (must (sp_purpose payload = str ''amend'' \<longrightarrow>
                   jidx (jidx rec ''response'') ''revision'' = jidx revision ''revision''
                   \<and> jidx (jidx rec ''response'') ''body_hash'' = JStr (pp_hash prepared))) (\<lambda>_.
      must (sp_title payload = as_str (jidx revision ''title'')
            \<and> sp_body_hash payload = Some (body_hash lib canonical)
            \<and> jidx revision ''proposal_id'' = jidx rec ''proposal_id''
            \<and> jidx revision ''revision'' = jidx rec ''revision'')))))))"

definition discloses_comment :: "text_lib \<Rightarrow> signed_payload \<Rightarrow> json \<Rightarrow> unit voting_result" where
  "discloses_comment lib payload export =
     (let rec = jidx export ''receipt''; content = jidx rec ''content'' in
      bindR (str_at content ''signed_body_html'') (\<lambda>raw.
      must (sp_body_hash payload = Some (body_hash lib raw)
            \<and> jidx content ''body_html'' = JStr (sanitize_html lib raw)
            \<and> jidx content ''id'' = jidx (jidx rec ''response'') ''id'')))"

definition discloses_analysis :: "text_lib \<Rightarrow> signed_payload \<Rightarrow> json \<Rightarrow> unit voting_result" where
  "discloses_analysis lib payload export =
     (let rec = jidx export ''receipt''; content = jidx rec ''content'' in
      bindR (ok_or mismatch (analysis_of_json (jidx content ''sections''))) (\<lambda>sections.
      bindR (prepare_analysis lib sections) (\<lambda>(clean, _, hash).
      must (analysis_json clean = jidx content ''sections''
            \<and> sp_body_hash payload = Some hash
            \<and> jidx content ''body_html'' = JStr (render_analysis_html clean)
            \<and> jidx content ''id'' = jidx (jidx rec ''response'') ''id''))))"

definition receipt_discloses :: "text_lib \<Rightarrow> signed_payload \<Rightarrow> json \<Rightarrow> unit voting_result" where
  "receipt_discloses lib payload export =
     (if sp_purpose payload \<in> {str ''draft'', str ''amend'', str ''open_vote''} then discloses_revision lib payload export
      else if sp_purpose payload = str ''comment'' then discloses_comment lib payload export
      else if sp_purpose payload = str ''analyze'' then discloses_analysis lib payload export
      else must (sp_purpose payload = str ''vote'' \<or> sp_purpose payload = str ''register''))"

definition verify_exported_receipt ::
    "('k, 's, 'w) voting_env \<Rightarrow> (ustring \<Rightarrow> int option) \<Rightarrow> json \<Rightarrow> unit voting_result" where
  "verify_exported_receipt env rfc3339 export =
     bindR (receipt_signed env rfc3339 export) (\<lambda>payload.
     bindR (receipt_targets payload export) (\<lambda>_. receipt_discloses (texts env) payload export))"

section \<open>The receipt an action leaves\<close>

lemma must_iff [simp]: "must b = Inr x \<longleftrightarrow> b" and must_True [simp]: "must True = Inr ()"
  by (simp_all add: must_def)

lemma finish_receipt:
  assumes "finish_action env sid target response s = (Inr x, s')"
  shows "\<exists>payload t. stored_payload env sid (tx s) = Inr payload \<and> validate_time payload (unix_time t) = Inr ()
     \<and> x = JObj (jset (filter (\<lambda>kv. fst kv \<noteq> str ''receipt_content'') response) ''receipt_id'' (uuid_json env sid))
     \<and> find_row rc_signature sid (receipts (tx s)) = None
     \<and> committed s' = (tx s)\<lparr>receipts := receipts (tx s) @ [\<lparr>rc_signature = sid, rc_proposal = target,
          rc_revision = Option.bind target (\<lambda>pid. map_option pr_revision (vget_proposal (tx s) pid)), rc_response = x,
          rc_content = map_of response (str ''receipt_content''), rc_accepted_at = t\<rparr>]\<rparr>"
  using assms unfolding finish_action_def Let_def run_iff
  by (fastforce simp: insert_receipt_row_def split: if_splits)

text \<open>What the bodies that store no template write besides their receipt.\<close>

definition discloses_text :: "('k, 's, 'w) voting_env \<Rightarrow> api_post \<Rightarrow> signed_payload \<Rightarrow> (ustring \<times> json) list \<Rightarrow> bool" where
  "discloses_text env request payload response \<longleftrightarrow>
     (case request of
        PostComment pid req \<Rightarrow> (\<exists>cid. sp_body_hash payload = Some (body_hash (texts env) (cq_body_html req))
          \<and> response = [(str ''id'', uuid_json env cid), (str ''max_per_wallet'', JNum MAX_COMMENTS_PER_WALLET_PER_PROPOSAL),
              (str ''receipt_content'', JObj [(str ''id'', uuid_json env cid), (str ''signed_body_html'', JStr (cq_body_html req)),
                 (str ''body_html'', JStr (sanitize_html (texts env) (cq_body_html req)))])])
      | _ \<Rightarrow> map_of response (str ''receipt_content'') = None)"

abbreviation untemplated :: "api_post \<Rightarrow> bool" where
  "untemplated request \<equiv> post_purpose request \<in> {''register'', ''comment'', ''vote''}"

lemma body_frames:
  "insert_registration_intent row_id c wallet sid now d = Inr d' \<Longrightarrow> signatures d' = signatures d"
  "insert_registration_intent row_id c wallet sid now d = Inr d' \<Longrightarrow> proposals d' = proposals d"
  "insert_comment cid pid c wallet html sid now d = Inr d' \<Longrightarrow> signatures d' = signatures d"
  "insert_comment cid pid c wallet html sid now d = Inr d' \<Longrightarrow> proposals d' = proposals d"
  by (auto simp: insert_registration_intent_iff insert_comment_iff split: if_splits)

lemma comment_checked:
  "comment_checks env pid req payload = Inr sanitized \<Longrightarrow>
     sanitized = sanitize_html (texts env) (cq_body_html req)
     \<and> sp_body_hash payload = Some (body_hash (texts env) (cq_body_html req))"
  by (auto simp: comment_checks_def Let_def result_iff require_text_def split: if_splits)

lemma body_finishes:
  assumes "post_body env cfg request sid payload s = (Inr x, s')" and "untemplated request"
  shows "\<exists>s1 response. finish_action env sid (post_target request) response s1 = (Inr x, s')
     \<and> signatures (tx s1) = signatures (tx s) \<and> proposals (tx s1) = proposals (tx s) \<and> discloses_text env request payload response"
  using assms(2)
proof (cases request)
  case (PostRegister req)
  with assms(1) have "register_body env cfg req sid payload s = (Inr x, s')"
    by (simp add: post_body_def)
  then have "\<exists>s1 response. finish_action env sid None response s1 = (Inr x, s')
     \<and> signatures (tx s1) = signatures (tx s) \<and> proposals (tx s1) = proposals (tx s)
     \<and> map_of response (str ''receipt_content'') = None"
    unfolding register_body_def Let_def run_iff
    apply (elim exE conjE)
    apply (intro exI conjI)
       apply assumption
      apply (simp_all add: body_frames)
    done
  then show ?thesis
    by (simp add: PostRegister post_target_def discloses_text_def)
next
  case (PostComment pid req)
  with assms(1) have "comment_body env cfg pid req sid payload s = (Inr x, s')"
    by (simp add: post_body_def)
  then have "\<exists>s1 response. finish_action env sid (Some pid) response s1 = (Inr x, s')
     \<and> signatures (tx s1) = signatures (tx s) \<and> proposals (tx s1) = proposals (tx s)
     \<and> discloses_text env request payload response"
    unfolding comment_body_def Let_def run_iff fetch_proposal_def require_registration_def
    apply (elim exE conjE)
    apply (intro exI conjI)
       apply assumption
      apply (auto simp: body_frames PostComment discloses_text_def dest: comment_checked)
    done
  then show ?thesis
    by (simp add: PostComment post_target_def)
next
  case (PostVote pid req)
  have "\<exists>s1 response. finish_action env sid (Some pid) response s1 = (Inr x, s')
     \<and> signatures (tx s1) = signatures (tx s) \<and> proposals (tx s1) = proposals (tx s)
     \<and> map_of response (str ''receipt_content'') = None"
  proof -
    obtain proposal :: proposal_row and weight ch d where inserted: "insert_vote (texts env) (jsonb_parse env) pid (chain_arg (sp_chain payload))
          (sq_address (vq_signed req)) ch weight sid (tx_now s) (tx s) = Inr d"
      and finish: "finish_action env sid (Some pid)
        [(str ''ok'', JBool True), (str ''weight'', JStr (int_str weight)),
         (str ''snapshot'', JObj [(str ''terra_height'', height_json (pr_terra_height proposal)),
            (str ''bsc_block'', height_json (pr_bsc_block proposal))])] (s\<lparr>tx := d\<rparr>) = (Inr x, s')"
      using assms(1) unfolding PostVote post_body_def vote_body_def Let_def api_post.case
      by (auto simp: run_iff fetch_proposal_def require_registration_def split: if_splits)
    from insert_vote_Inr [OF inserted] have "signatures d = signatures (tx s)" "proposals d = proposals (tx s)"
      by auto
    with finish show ?thesis by fastforce
  qed
  then show ?thesis
    by (simp add: PostVote post_target_def discloses_text_def)
qed (simp_all add: post_purpose_def)

section \<open>Which receipts verify\<close>

text \<open>The export of a receipt, member by member.\<close>

lemma jidx_simps:
  "jidx (JObj ((k, v) # kvs)) key = (if k = str key then v else jidx (JObj kvs) key)"
  "jidx (JObj []) key = JNull"
  by (simp_all add: jidx_def)

lemma jidx_jset: "jidx (JObj (jset kvs key v)) key' = (if key' = key then v else jidx (JObj kvs) key')"
proof -
  have "map_of (filter (\<lambda>kv. fst kv \<noteq> str key) kvs @ [(str key, v)]) (str key') =
      (if key' = key then Some v else map_of kvs (str key'))"
    by (induction kvs) auto
  then show ?thesis by (simp add: jidx_def jset_def)
qed

lemma exported:
  assumes "receipt uuid stamp sid d = Some e"
  shows "\<exists>s r. find_row sg_id sid (signatures d) = Some s \<and> find_row rc_signature sid (receipts d) = Some r
     \<and> jidx e ''signature'' = signature_json uuid stamp s \<and> jidx e ''receipt'' = receipt_row_json uuid stamp r"
  using assms by (auto simp: receipt_def Let_def bind_eq_Some_conv jidx_simps)

text \<open>A recorded signature of a checked request passes, at the time it was accepted.\<close>

lemma checked_facts:
  assumes "check_request env cfg req purpose target = Inr (payload, nonce)"
  shows "Option.bind (json_parse env (sq_payload req)) payload_of_json = Some payload"
    and "sp_app payload = APP_NAME" "sp_purpose payload = str purpose" "sp_version payload = 2" "sp_chain payload = sq_chain req"
    and "normalize_address (sp_address payload) = normalize_address (sq_address req)"
    and "sp_nonce payload = Some nonce" "nonce \<noteq> []" "str_len nonce \<le> 128"
    and "verify_signed env req (sq_payload req) = Inr ()"
    and "sq_chain req = str ''terra'' \<or> sq_chain req = str ''bsc''"
    and "target = Some pid \<Longrightarrow> sp_proposal_id payload = Some (uuid_text env pid)"
  using assms check_request_chain [OF assms]
  by (auto simp: check_request_def result_iff bounded_nonce_def chain_arg_def chain_str_def dest!: parse_domain_facts
      split: if_splits option.splits)

lemma receipt_signed_accepted:
  assumes checked: "check_request env cfg req purpose target = Inr (payload, nonce)"
    and sig: "jidx e ''signature'' = signature_json (uuid_text env) stamp
        (action_signature req purpose target payload nonce (body_hash (texts env) (sq_payload req)) sid now)"
    and rec: "jidx e ''receipt'' = receipt_row_json (uuid_text env) stamp r" "rc_signature r = sid"
        "jidx (rc_response r) ''receipt_id'' = uuid_json env sid"
    and time: "rfc3339 (stamp (rc_accepted_at r)) = Some (unix_time (rc_accepted_at r))"
        "validate_time payload (unix_time (rc_accepted_at r)) = Inr ()"
  shows "receipt_signed env rfc3339 e = Inr payload"
proof -
  note facts = checked_facts [OF checked]
  have verified: "(if sq_chain req = str ''terra'' \<and> sq_chain req = str ''terra''
      then bindR (ok_or mismatch (sq_pubkey req)) (verify_adr36 (crypto env) (normalize_address (sq_address req)) (sq_payload req) (sq_signature req))
      else if sq_chain req = str ''bsc'' \<and> sq_chain req \<noteq> str ''terra''
      then verify_eip191 (crypto env) (normalize_address (sq_address req)) (sq_payload req) (sq_signature req)
      else Inl mismatch) = Inr ()"
    using facts(10,11) by (auto simp: verify_signed_def verify_terra_def result_iff split: if_splits)
  have pubkey: "as_str (opt_json JStr k) = k" for k
    by (cases k) (simp_all add: opt_json_def)
  have scheme: "(JStr (if b then str ''ADR-36'' else str ''EIP-191'') = JStr (str ''ADR-36'')) = b"
    "(JStr (if b then str ''ADR-36'' else str ''EIP-191'') = JStr (str ''EIP-191'')) = (\<not> b)" for b
    by simp_all
  show ?thesis
    using verified facts(11)
    unfolding receipt_signed_def sig rec Let_def str_at_def signature_json_def receipt_row_json_def
    by (elim disjE; simp add: jidx_simps action_signature_def facts(1-9) pubkey scheme opt_json_def [of _ "Some _"]
        time rec(2,3) uuid_json_def chain_arg_def chain_str_def)
qed

text \<open>
  The receipt of an accepted registration, comment or vote: everything is in order but the revision
  and the proposal the payload names, which these actions do not compare with their target.
\<close>

definition names_target :: "('k, 's, 'w) voting_env \<Rightarrow> api_post \<Rightarrow> signed_payload \<Rightarrow> db \<Rightarrow> bool" where
  "names_target env request payload d \<longleftrightarrow>
     sp_proposal_id payload = map_option (uuid_text env) (post_target request)
     \<and> (case sp_revision payload of
          None \<Rightarrow> True
        | Some n \<Rightarrow> (\<exists>pid q. post_target request = Some pid \<and> vget_proposal d pid = Some q \<and> pr_revision q = n))"

lemma payload_revision_i64:
  assumes "payload_of_json v = Some p" and "sp_revision p = Some n"
  shows "checked_i64 n = Some n"
proof -
  obtain f where "de_opt de_i64 (f ''revision'') = Some (sp_revision p)"
    using assms(1) unfolding payload_of_json_def bind_eq_Some_conv by (elim exE conjE) (clarsimp simp del: de_opt_simps)
  then show ?thesis
    using assms(2) by (auto simp: de_opt_def de_i64_def checked_i64_def split: if_splits json.splits)
qed

lemma targets_iff:
  assumes "jidx e ''signature'' = signature_json (uuid_text env) stamp s" "jidx e ''receipt'' = receipt_row_json (uuid_text env) stamp r"
    and "sg_proposal s = post_target request" "rc_proposal r = post_target request"
    and "rc_revision r = Option.bind (post_target request) (\<lambda>pid. map_option pr_revision (vget_proposal d pid))"
    and target: "\<And>pid. post_target request = Some pid \<Longrightarrow> sp_proposal_id payload = Some (uuid_text env pid)"
    and purpose: "sp_purpose payload \<noteq> str ''amend''"
    and revision: "\<And>n. sp_revision payload = Some n \<Longrightarrow> checked_i64 n = Some n"
  shows "receipt_targets payload e = Inr () \<longleftrightarrow> names_target env request payload d"
proof -
  have same: "checked_i64 m = Some k \<longleftrightarrow> m = k \<and> in_i64 k" for m k
    by (auto simp: checked_i64_def)
  show ?thesis
    using target purpose revision
    unfolding receipt_targets_def names_target_def Let_def assms(1,2)
    by (cases "post_target request")
      (auto simp: jidx_simps signature_json_def receipt_row_json_def assms(3-5) opt_json_def result_iff same
        split: option.splits bind_splits)
qed

lemma discloses_text_verifies:
  assumes told: "discloses_text env request payload response" and kind: "untemplated request"
    and purpose: "sp_purpose payload = str (post_purpose request)"
    and rec: "jidx e ''receipt'' = receipt_row_json uuid stamp r" "rc_content r = map_of response (str ''receipt_content'')"
    and answer: "rc_response r = JObj (jset (filter (\<lambda>kv. fst kv \<noteq> str ''receipt_content'') response) ''receipt_id'' v)"
  shows "receipt_discloses (texts env) payload e = Inr ()"
proof (cases request)
  case (PostComment pid req)
  then obtain cid where hash: "sp_body_hash payload = Some (body_hash (texts env) (cq_body_html req))"
    and response: "response = [(str ''id'', uuid_json env cid), (str ''max_per_wallet'', JNum MAX_COMMENTS_PER_WALLET_PER_PROPOSAL),
              (str ''receipt_content'', JObj [(str ''id'', uuid_json env cid), (str ''signed_body_html'', JStr (cq_body_html req)),
                 (str ''body_html'', JStr (sanitize_html (texts env) (cq_body_html req)))])]"
    using told by (auto simp: discloses_text_def)
  show ?thesis
    unfolding receipt_discloses_def discloses_comment_def Let_def rec str_at_def
    by (simp add: purpose PostComment post_purpose_def receipt_row_json_def answer rec(2) jidx_jset jidx_simps response opt_json_def hash)
qed (use kind in \<open>auto simp: receipt_discloses_def purpose post_purpose_def\<close>)

lemma exported_receipt_facts:
  assumes run: "handle env cfg request s = (Inr x, s')" and changed: "committed s' \<noteq> committed s"
    and kind: "untemplated request"
    and checked: "check_request env cfg (post_signed request) (post_purpose request) (post_target request) = Inr (payload, nonce)"
    and texts: "\<And>t. rfc3339 (stamp t) = Some (unix_time t)"
  shows "\<exists>sid e. jidx x ''receipt_id'' = uuid_json env sid \<and> receipt (uuid_text env) stamp sid (committed s') = Some e
     \<and> (verify_exported_receipt env rfc3339 e = Inr () \<longleftrightarrow> names_target env request payload (committed s'))
     \<and> (\<forall>pid req. request = PostComment pid req \<longrightarrow> sp_body_hash payload = Some (body_hash (texts env) (cq_body_html req)))"
proof -
  let ?req = "post_signed request"
  obtain sid prior payload' s1 where begun: "begin_action env cfg ?req (post_purpose request) (post_target request) s = (Inr (sid, prior, payload'), s1)"
    and rest: "(case prior of Some response \<Rightarrow> ret response | None \<Rightarrow> post_body env cfg request sid payload') s1 = (Inr x, s')"
    using run by (auto simp: handle_once once_def bindA_run)
  note start = begin_action_Inr [OF begun]
  have fresh: "prior = None"
    using start rest changed by (cases prior) (auto simp: ret_run)
  obtain now where same: "payload' = payload" and inserted: "insert_signature_row (action_signature ?req (post_purpose request) (post_target request)
        payload nonce (body_hash (texts env) (sq_payload ?req)) sid now) (committed s) = Inr (tx s1)"
    using start checked fresh by (auto simp: Let_def)
  define row where "row = action_signature ?req (post_purpose request) (post_target request) payload nonce
      (body_hash (texts env) (sq_payload ?req)) sid now"
  have row_id: "sg_id row = sid" "sg_signed_payload row = Some (sq_payload ?req)"
    by (simp_all add: row_def action_signature_def)
  have sigs: "find_row sg_id sid (signatures (tx s1)) = Some row"
    using inserted by (simp add: insert_signature_row_iff row_def [symmetric] find_row_append find_row_None [THEN iffD2] row_id)
  obtain s2 response where finish: "finish_action env sid (post_target request) response s2 = (Inr x, s')"
    and kept: "signatures (tx s2) = signatures (tx s1)" "proposals (tx s2) = proposals (tx s1)"
    and told: "discloses_text env request payload response"
    using body_finishes [OF _ kind] rest fresh same by fastforce
  obtain t where stored: "stored_payload env sid (tx s2) = Inr payload" and time: "validate_time payload (unix_time t) = Inr ()"
    and answer: "x = JObj (jset (filter (\<lambda>kv. fst kv \<noteq> str ''receipt_content'') response) ''receipt_id'' (uuid_json env sid))"
    and unused: "find_row rc_signature sid (receipts (tx s2)) = None"
    and final: "committed s' = (tx s2)\<lparr>receipts := receipts (tx s2) @ [\<lparr>rc_signature = sid, rc_proposal = post_target request,
          rc_revision = Option.bind (post_target request) (\<lambda>pid. map_option pr_revision (vget_proposal (tx s2) pid)), rc_response = x,
          rc_content = map_of response (str ''receipt_content''), rc_accepted_at = t\<rparr>]\<rparr>"
    using finish_receipt [OF finish] checked_facts(1) [OF checked]
    by (auto simp: stored_payload_def kept sigs row_id)
  define r where "r = \<lparr>rc_signature = sid, rc_proposal = post_target request,
      rc_revision = Option.bind (post_target request) (\<lambda>pid. map_option pr_revision (vget_proposal (tx s2) pid)), rc_response = x,
      rc_content = map_of response (str ''receipt_content''), rc_accepted_at = t\<rparr>"
  have rows: "find_row sg_id sid (signatures (committed s')) = Some row" "find_row rc_signature sid (receipts (committed s')) = Some r"
    using unused by (simp_all add: final kept sigs find_row_append r_def)
  then obtain e where export: "receipt (uuid_text env) stamp sid (committed s') = Some e"
    by (simp add: receipt_def Let_def)
  have parts: "jidx e ''signature'' = signature_json (uuid_text env) stamp row" "jidx e ''receipt'' = receipt_row_json (uuid_text env) stamp r"
    using exported [OF export] rows by auto
  have "receipt_signed env rfc3339 e = Inr payload"
    by (rule receipt_signed_accepted [OF checked parts(1) [unfolded row_def] parts(2)])
      (simp_all add: r_def texts time answer jidx_jset)
  moreover have "receipt_targets payload e = Inr () \<longleftrightarrow> names_target env request payload (committed s')"
    by (rule targets_iff [OF parts])
      (use kind checked_facts [OF checked] payload_revision_i64
       in \<open>auto simp: row_def action_signature_def r_def final vget_proposal_def bind_eq_Some_conv\<close>)
  moreover have "receipt_discloses (texts env) payload e = Inr ()"
    by (rule discloses_text_verifies [OF told kind _ parts(2)]) (simp_all add: checked_facts [OF checked] r_def answer)
  moreover have "jidx x ''receipt_id'' = uuid_json env sid"
    by (simp add: answer jidx_jset)
  moreover have "sp_body_hash payload = Some (body_hash (texts env) (cq_body_html req))" if "request = PostComment pid req" for pid req
    using told that by (auto simp: discloses_text_def)
  ultimately show ?thesis
    using export by (auto simp: verify_exported_receipt_def result_iff)
qed

text \<open>What an export that passes discloses is what its signed bytes say.\<close>

lemma as_str_iff: "as_str v = Some x \<longleftrightarrow> v = JStr x"
  by (cases v) auto

lemma verified_discloses:
  assumes "verify_exported_receipt env rfc3339 e = Inr ()" and bytes: "jidx (jidx e ''signature'') ''signed_payload'' = JStr raw"
    and parsed: "Option.bind (json_parse env raw) payload_of_json = Some payload"
  shows "jidx (jidx e ''signature'') ''wallet_address'' = JStr (normalize_address (sp_address payload))
     \<and> jidx (jidx e ''signature'') ''chain'' = JStr (sp_chain payload)
     \<and> jidx (jidx e ''signature'') ''purpose'' = JStr (sp_purpose payload)
     \<and> (\<forall>pid. sp_proposal_id payload = Some pid \<longrightarrow> jidx (jidx e ''receipt'') ''proposal_id'' = JStr pid)
     \<and> (sp_purpose payload = str ''comment'' \<longrightarrow>
          (\<exists>html. jidx (jidx (jidx e ''receipt'') ''content'') ''signed_body_html'' = JStr html
             \<and> jidx (jidx (jidx e ''receipt'') ''content'') ''body_html'' = JStr (sanitize_html (texts env) html)
             \<and> sp_body_hash payload = Some (body_hash (texts env) html)))"
proof -
  obtain p where signed: "receipt_signed env rfc3339 e = Inr p" and targets: "receipt_targets p e = Inr ()"
    and told: "receipt_discloses (texts env) p e = Inr ()"
    using assms(1) by (auto simp: verify_exported_receipt_def result_iff)
  have p: "p = payload" and parts: "jidx (jidx e ''signature'') ''wallet_address'' = JStr (normalize_address (sp_address payload))"
      "jidx (jidx e ''signature'') ''chain'' = JStr (sp_chain payload)"
      "jidx (jidx e ''signature'') ''purpose'' = JStr (sp_purpose payload)"
    using signed bytes parsed unfolding receipt_signed_def Let_def str_at_def result_iff must_iff as_str_iff by auto
  have "jidx (jidx e ''receipt'') ''proposal_id'' = JStr pid" if "sp_proposal_id payload = Some pid" for pid
    using targets that unfolding p by (auto simp: receipt_targets_def Let_def result_iff)
  moreover have "discloses_comment (texts env) payload e = Inr ()" if "sp_purpose payload = str ''comment''"
    using told that unfolding p by (simp add: receipt_discloses_def)
  ultimately show ?thesis
    using parts by (auto simp: discloses_comment_def Let_def str_at_def result_iff as_str_iff)
qed

text \<open>
  C7. The receipt of an accepted registration, comment or vote, exported over the API, passes the offline
  check exactly when its payload names no proposal or revision but those it was accepted for: these
  actions never compare the revision a payload names with the proposal's (nor a proposal named in a
  registration), which the check does. And whatever else is exported with the same signed bytes can
  pass only with the same wallet, chain, purpose and proposal, and, for a comment, with a text of the
  signed hash and its sanitized form.
\<close>

theorem exported_receipt_verifies:
  assumes "handle env cfg request s = (Inr x, s')" and "committed s' \<noteq> committed s"
    and "post_purpose request \<in> {''register'', ''comment'', ''vote''}"
    and "check_request env cfg (post_signed request) (post_purpose request) (post_target request) = Inr (payload, nonce)"
    and "\<And>t. rfc3339 (stamp t) = Some (unix_time t)"
  shows "(\<exists>sid e. jidx x ''receipt_id'' = uuid_json env sid \<and> get_receipt env stamp sid (committed s') = Inr e
       \<and> (verify_exported_receipt env rfc3339 e = Inr () \<longleftrightarrow>
            sp_proposal_id payload = map_option (uuid_text env) (post_target request)
            \<and> (\<forall>n. sp_revision payload = Some n \<longrightarrow>
                 (\<exists>pid q. post_target request = Some pid \<and> vget_proposal (committed s') pid = Some q \<and> pr_revision q = n))))
     \<and> (\<forall>e. verify_exported_receipt env rfc3339 e = Inr ()
          \<and> jidx (jidx e ''signature'') ''signed_payload'' = JStr (sq_payload (post_signed request)) \<longrightarrow>
            jidx (jidx e ''signature'') ''wallet_address'' = JStr (normalize_address (sq_address (post_signed request)))
          \<and> jidx (jidx e ''signature'') ''chain'' = JStr (sq_chain (post_signed request))
          \<and> jidx (jidx e ''signature'') ''purpose'' = JStr (str (post_purpose request))
          \<and> (\<forall>pid. post_target request = Some pid \<longrightarrow> jidx (jidx e ''receipt'') ''proposal_id'' = JStr (uuid_text env pid))
          \<and> (\<forall>pid req. request = PostComment pid req \<longrightarrow>
               (\<exists>html. body_hash (texts env) html = body_hash (texts env) (cq_body_html req)
                  \<and> jidx (jidx (jidx e ''receipt'') ''content'') ''signed_body_html'' = JStr html
                  \<and> jidx (jidx (jidx e ''receipt'') ''content'') ''body_html'' = JStr (sanitize_html (texts env) html))))"
proof (intro conjI allI impI; (elim conjE)?)
  have names: "names_target env request payload d \<longleftrightarrow> sp_proposal_id payload = map_option (uuid_text env) (post_target request)
      \<and> (\<forall>n. sp_revision payload = Some n \<longrightarrow>
           (\<exists>pid q. post_target request = Some pid \<and> vget_proposal d pid = Some q \<and> pr_revision q = n))" for d
    by (auto simp: names_target_def split: option.splits)
  show "\<exists>sid e. jidx x ''receipt_id'' = uuid_json env sid \<and> get_receipt env stamp sid (committed s') = Inr e
       \<and> (verify_exported_receipt env rfc3339 e = Inr () \<longleftrightarrow>
            sp_proposal_id payload = map_option (uuid_text env) (post_target request)
            \<and> (\<forall>n. sp_revision payload = Some n \<longrightarrow>
                 (\<exists>pid q. post_target request = Some pid \<and> vget_proposal (committed s') pid = Some q \<and> pr_revision q = n)))"
    using exported_receipt_facts [OF assms] unfolding names get_receipt_def by fastforce
  fix e
  assume verified: "verify_exported_receipt env rfc3339 e = Inr ()"
    and bytes: "jidx (jidx e ''signature'') ''signed_payload'' = JStr (sq_payload (post_signed request))"
  note facts = checked_facts [OF assms(4)]
  note disclosed = verified_discloses [OF verified bytes facts(1)]
  show "jidx (jidx e ''signature'') ''wallet_address'' = JStr (normalize_address (sq_address (post_signed request)))"
    "jidx (jidx e ''signature'') ''chain'' = JStr (sq_chain (post_signed request))"
    "jidx (jidx e ''signature'') ''purpose'' = JStr (str (post_purpose request))"
    using disclosed facts by simp_all
  show "jidx (jidx e ''receipt'') ''proposal_id'' = JStr (uuid_text env pid)" if "post_target request = Some pid" for pid
    using disclosed facts(12) [OF that] by blast
  show "\<exists>html. body_hash (texts env) html = body_hash (texts env) (cq_body_html req)
                  \<and> jidx (jidx (jidx e ''receipt'') ''content'') ''signed_body_html'' = JStr html
                  \<and> jidx (jidx (jidx e ''receipt'') ''content'') ''body_html'' = JStr (sanitize_html (texts env) html)"
    if "request = PostComment pid req" for pid req
  proof -
    have "sp_purpose payload = str ''comment''"
      using facts(3) that by (simp add: post_purpose_def)
    moreover have "sp_body_hash payload = Some (body_hash (texts env) (cq_body_html req))"
      using exported_receipt_facts [OF assms] that by blast
    ultimately show ?thesis using disclosed by fastforce
  qed
qed

text \<open>Two votes, one of which names a revision that the proposal does not have.\<close>

definition stray_parse :: "ustring \<Rightarrow> json option" where
  "stray_parse raw = Some (payload_json ((sample_action ''vote'' (Some 7))\<lparr>sp_revision := Some 9\<rparr>))"

definition stray_env :: "(nat list, nat list, nat) voting_env" where
  "stray_env = sample_voting_env\<lparr>json_parse := stray_parse, jsonb_parse := stray_parse\<rparr>"

definition sample_stamp :: "int \<Rightarrow> ustring" where
  "sample_stamp t = (if t < 0 then [1, nat (- t)] else [0, nat t])"

definition sample_rfc3339 :: "ustring \<Rightarrow> int option" where
  "sample_rfc3339 s = (case s of [sign, n] \<Rightarrow> Some (unix_time (if sign = 1 then - int n else int n)) | _ \<Rightarrow> None)"

lemma sample_rfc3339_stamp: "sample_rfc3339 (sample_stamp t) = Some (unix_time t)"
  by (simp add: sample_rfc3339_def sample_stamp_def)

lemma stray_vote_runs:
  "case handle stray_env sample_voting_config sample_vote (api_pool poll_db) of
     (Inr x, s') \<Rightarrow> length (votes (committed s')) = 1 \<and> map pr_revision (proposals (committed s')) = [1] | _ \<Rightarrow> False"
  by code_simp

lemma votes_checked:
  "check_request sample_voting_env sample_voting_config (post_signed sample_vote) (post_purpose sample_vote) (post_target sample_vote)
     = Inr (sample_action ''vote'' (Some 7), str ''vote'')"
  "check_request stray_env sample_voting_config (post_signed sample_vote) (post_purpose sample_vote) (post_target sample_vote)
     = Inr ((sample_action ''vote'' (Some 7))\<lparr>sp_revision := Some 9\<rparr>, str ''vote'')"
  by code_simp+

theorem exported_receipt_verifies_witness:
  "(\<exists>x s' e. handle sample_voting_env sample_voting_config sample_vote (api_pool poll_db) = (Inr x, s')
      \<and> (\<exists>sid. get_receipt sample_voting_env sample_stamp sid (committed s') = Inr e)
      \<and> verify_exported_receipt sample_voting_env sample_rfc3339 e = Inr ())
   \<and> (\<exists>x s' e. handle stray_env sample_voting_config sample_vote (api_pool poll_db) = (Inr x, s')
      \<and> (\<exists>sid. get_receipt stray_env sample_stamp sid (committed s') = Inr e)
      \<and> verify_exported_receipt stray_env sample_rfc3339 e \<noteq> Inr ())"
proof (intro conjI)
  have kind: "post_purpose sample_vote \<in> {''register'', ''comment'', ''vote''}" and target: "post_target sample_vote = Some 7"
    by (simp_all add: sample_vote_def post_purpose_def post_target_def)
  have before: "votes (committed (api_pool poll_db)) = []"
    by (simp add: api_pool_def poll_db_def initial_db_def)
  obtain x s' where run: "handle sample_voting_env sample_voting_config sample_vote (api_pool poll_db) = (Inr x, s')"
    and votes: "map vt_weight (votes (committed s')) = [5]"
    by (rule exE [OF sample_vote_accepted]) auto
  then have "committed s' \<noteq> committed (api_pool poll_db)"
    using before by auto
  note verifies = exported_receipt_verifies [OF run this kind votes_checked(1) sample_rfc3339_stamp]
  have "sp_proposal_id (sample_action ''vote'' (Some 7)) = map_option (uuid_text sample_voting_env) (Some 7)"
    "sp_revision (sample_action ''vote'' (Some 7)) = None"
    by (simp_all add: sample_action_def sample_voting_env_def)
  with verifies run show "\<exists>x s' e. handle sample_voting_env sample_voting_config sample_vote (api_pool poll_db) = (Inr x, s')
      \<and> (\<exists>sid. get_receipt sample_voting_env sample_stamp sid (committed s') = Inr e)
      \<and> verify_exported_receipt sample_voting_env sample_rfc3339 e = Inr ()"
    unfolding target by auto
  obtain y t' where stray: "handle stray_env sample_voting_config sample_vote (api_pool poll_db) = (Inr y, t')"
    and one: "length (votes (committed t')) = 1" and revision: "map pr_revision (proposals (committed t')) = [1]"
    using stray_vote_runs by (auto split: prod.splits sum.splits)
  have "committed t' \<noteq> committed (api_pool poll_db)"
    using before one by auto
  note refused = exported_receipt_verifies [OF stray this kind votes_checked(2) sample_rfc3339_stamp]
  have "pr_revision q \<noteq> 9" if "vget_proposal (committed t') pid = Some q" for pid q
    using revision that by (auto simp: vget_proposal_def map_eq_Cons_conv find_row_Cons split: if_splits)
  with refused stray show "\<exists>x s' e. handle stray_env sample_voting_config sample_vote (api_pool poll_db) = (Inr x, s')
      \<and> (\<exists>sid. get_receipt stray_env sample_stamp sid (committed s') = Inr e)
      \<and> verify_exported_receipt stray_env sample_rfc3339 e \<noteq> Inr ()"
    by fastforce
qed

end
