(* ===== verification/Spec2Isabelle.thy ===== *)
theory Spec2Isabelle
  imports LedgerConfig Tally Freeze BscRange RateLimit Application LedgerMain Answers Receipts
begin

text \<open>
  A verification development of the CL8Y voting service: the ledger process (\<open>ledger/\<close>) and the
  voting API (\<open>operator-voting/\<close>), two Rust programs on one PostgreSQL database.

  The program. The ledger process follows two chains, Terra Classic and BSC. For each it reads
  blocks through third-party nodes, records the CL8Y transfers of registered wallets, keeps their
  balances at every height and publishes a checkpoint; it rewinds when a chain forks, registers the
  wallets that ask for it, and reports whether it is ready. The voting API accepts signed requests
  of wallets: to register, to draft and amend a proposal, to comment and analyse it, to open it and
  to vote on it. Opening freezes the balances at the two checkpoints as weights. The API reads the
  ledger's tables and writes its own; the ledger marks proposals invalid whose frozen block a fork
  removed, and does nothing else to them.

  How the model reads. A function of the code is a definition of its name. Rust strings are lists of
  code points, \<open>Result\<close> is a sum with the error on the left, \<open>?\<close> is \<open>bindR\<close>; \<open>i64\<close> and
  \<open>u32\<close> values are integers whose bounds are written where the code checks or saturates, and the
  protobuf codec is on words. A table is the list of its rows (\<open>db\<close> in \<open>Database\<close>), a statement a
  function on it, a transaction a function on a pool (\<open>Effects\<close>) that keeps the committed database
  apart from the open one. The advisory and row locks of the code are why a transaction is one step.
  What a node, a clock or a random source returns is the world's choice: the theorems hold for all.

  The theories, from the bottom up.
  \<^item> \<open>Prelude\<close>: strings, results, checked loops, tables by key, and the collections \<open>result_iff\<close>
    and (in \<open>Effects\<close>) \<open>run_iff\<close>, which invert a successful result and a successful run.
  \<^item> Values of the ledger: \<open>LedgerError\<close>, \<open>Address\<close>, \<open>Amounts\<close>, \<open>Parser\<close>, \<open>LedgerConfig\<close>
    (\<open>ledger/src/error.rs\<close>, \<open>config.rs\<close>, \<open>amount.rs\<close>, \<open>parser/\<close>).
  \<^item> The books: \<open>Database\<close> (\<open>ledger/migrations\<close>), \<open>LedgerDb\<close> (\<open>ledger/src/db.rs\<close>), \<open>LedgerBooks\<close>,
    where the balance of a wallet is specified as its baseline plus the net flow of the recorded
    transfers and every statement is shown to keep that, and \<open>Checkpoints\<close>, which ties the books to
    what is published.
  \<^item> The ledger's transactions: \<open>Providers\<close> (what they see of the chain clients), \<open>Ingest\<close>,
    \<open>IngestInv\<close>, \<open>IngestProps\<close> (\<open>ingest.rs\<close>), \<open>Reconcile\<close> (\<open>reconcile.rs\<close>), \<open>Register\<close>, \<open>Intents\<close>
    (\<open>register.rs\<close>), \<open>Worker\<close> (\<open>worker.rs\<close>), \<open>Health\<close> (\<open>health.rs\<close> and the worker loop of
    \<open>main.rs\<close>), \<open>Storage\<close> (\<open>storage.rs\<close>). \<open>LedgerOrder\<close> lifts a preorder on databases from
    statements to all of them.
  \<^item> The chain clients: \<open>Json\<close>, \<open>Rpc\<close>, \<open>BscClient\<close>, \<open>BscRange\<close> (\<open>bsc.rs\<close>), \<open>SmartQuery\<close>,
    \<open>Transport\<close>, \<open>TerraRpc\<close> (\<open>terra_rpc.rs\<close>, \<open>transport.rs\<close>), \<open>Lcd\<close>, \<open>LcdBlocks\<close>, \<open>LcdProps\<close>,
    \<open>LcdContract\<close> (\<open>lcd.rs\<close>). \<open>ChainClients\<close> fills the network record of \<open>Providers\<close> with
    them, so what is proved for all networks holds for the program's own.
  \<^item> Values of the voting API: \<open>VotingError\<close>, \<open>WalletList\<close>, \<open>VotingConfig\<close>, \<open>VisibleText\<close>,
    \<open>Sections\<close>, \<open>Crypto\<close>, \<open>Payload\<close>, \<open>RateLimit\<close> (the files of \<open>operator-voting/src\<close> with those names;
    \<open>WalletList\<close> is \<open>blacklist.rs\<close> and \<open>balance_query.rs\<close>, \<open>VisibleText\<close> and \<open>Sections\<close> are
    \<open>proposal_sections.rs\<close>).
  \<^item> The voting tables and actions: \<open>VotingDb\<close> (\<open>db.rs\<close> and the triggers of the migrations),
    \<open>VotingTables\<close>, \<open>VotingApi\<close> (the handlers that change state), \<open>VotingQueries\<close> (those that
    read), \<open>Privileges\<close> (the review of the database role). \<open>VotingInv\<close> is the interface through
    which a predicate kept by each statement is kept by each handler; \<open>VotingIntegrity\<close>,
    \<open>VotingHistory\<close>, \<open>VotingProps\<close>, \<open>Tally\<close> and \<open>Freeze\<close> use it. \<open>VotingSample\<close> is the
    deployment on which witnesses evaluate the handlers.
  \<^item> The processes: \<open>System\<close> is the transition relation of both programs on one database,
    \<open>SystemProps\<close> its invariants; \<open>LedgerMain\<close> (\<open>main.rs\<close>), \<open>Routes\<close> and \<open>Application\<close>
    (the router, \<open>application.rs\<close> and \<open>main.rs\<close> of the API) show that each process as it is composed
    only makes runs of that relation. \<open>Dto\<close> and \<open>Answers\<close> (\<open>dto.rs\<close>) compare what the API
    answers with what it documents, \<open>Receipts\<close> (\<open>verify_exported_receipt\<close> of \<open>payload.rs\<close>) the
    receipts it exports with the offline check it publishes.

  What is shown. Every database that the two processes can reach, however their transactions
  interleave, has reconciled books, an honest intent queue, intact voting tables and authentic
  signatures; the text, the electorate and the weights of an opened proposal are final; a frozen
  weight is the verified baseline plus the recorded flow up to a certified block; a tally never
  exceeds the frozen power; a replayed request changes nothing; a chain whose accounting failed
  stays stopped and not ready. Of the clients: an accepted range or block is complete, coherent and
  from one source, whatever the nodes answer, and an honest node is accepted. Of the edge: a change
  needs a listed origin, a token of the limiter, and a handler that accepts; errors are correlated;
  answers have their documented types; the exported receipt of a registration, a comment or a vote
  passes the offline check unless its payload names another proposal or revision; behind a proxy no
  text a client prepends is taken for its address; the role accepted in production cannot forge what
  is recorded; an inventory of the storage says what the catalog holds and compares every table that
  exists twice.

  Concurrency and failure. A statement is executed, refused, or executed without an answer
  (\<open>statement_fate\<close> in \<open>Register\<close>); a deadline passes in time, before or after the statement
  it guards. The four intents of a batch advance statement by statement in the order of a schedule,
  and a pass is cut wherever its schedule ends: inside a batch, between a claim and its registration,
  or before the statement that records the outcome. The publication of a pass has its own deadline,
  and a publication that fails ends the pass in an error. The safety of a pass holds for every
  schedule and every fate; that it completes is shown for those in which each intent is given its
  turns and no statement fails.

  Interfaces. \<open>normalizer\<close> (address normal forms), \<open>event_recorder\<close> (recording a transfer of either
  chain), \<open>tx_stage\<close> (a predicate through a transaction), \<open>recorded_statements\<close>,
  \<open>prepared_statements\<close> and \<open>voting_statements\<close> (statements under the voting handlers), \<open>db_order\<close>,
  \<open>ledger_order\<close> and \<open>ledger_transactions\<close> (statements and transactions under the ledger's tasks),
  \<open>queue_relation\<close> and \<open>pass_relation\<close> (what every turn of an intent does, under a whole pass).
  Each is interpreted on the definitions of the code.

  Loops and fuel. Loops over lists are structural recursion; batches of intents, entities in a text
  and varints are recursive functions with a measure. The search for a common ancestor is bounded by
  the stored window of hashes, the log query by the 4096 requests that are the code's own limit, and
  paging by the code's limits on pages. The endless loops of the process are sequences of turns: the
  theorems hold after any number of them.

  Not modelled. Parameters stand for what is not in the repository: HTTP exchanges, JSON text,
  hashes, curves, base64, bech32, the HTML sanitizer (\<open>html.rs\<close> configures the \<open>ammonia\<close> crate),
  URL and CIDR parsers, axum's extraction and the layers of tower-http, the OpenAPI generator, the
  migrator. Floating-point tokens of the limiter are rationals with a rounding function. Network
  requests the code runs concurrently inside one function are issued one after the other (the intents
  of a batch are interleaved). The reader of RFC 3339 times is a parameter. Messages built with
  \<open>format!\<close> keep their static text. Left out are signals, sockets, logging and metrics; the
  migrations that moved older schemas; helpers that only tests call (\<open>for_tests\<close>,
  \<open>verify_terra_raw_fallback\<close>, \<open>sections_hash\<close>, \<open>analysis_hash\<close>, \<open>sanitize_proposal_sections\<close>),
  \<open>test_lock.rs\<close>, tests and examples; the frontend, deployment files and scripts.

  What modelling showed. A body of some thousand ampersands is accepted as a draft, and its stored form
  refused, so that no request to amend or open the draft has an effect
  (\<open>VotingProps.accepted_body_refused_when_stored\<close>). A vote, a comment or a registration is accepted
  whatever revision its payload names, and its receipt is then refused by the offline check
  (\<open>Receipts.exported_receipt_verifies\<close>). The review of
  the production role accepts one that may delete or truncate proposals
  (\<open>Privileges.accepted_role_deletes_proposals\<close>). A bucket of the limiter that is dropped when idle
  comes back with a whole burst, also when it has earned less (\<open>RateLimit.idle_bucket_restored\<close>).
\<close>

end
